(* ===== verification/Prelude.thy ===== *)
theory Prelude
  imports Main "HOL-Library.Word" "HOL-Library.Char_ord" "HOL-Library.List_Lexorder"
    "HOL-Library.Sublist" "HOL-Library.AList" "HOL-Library.Multiset" "HOL-Library.Code_Target_Nat"
begin

text \<open>
  Shared vocabulary of the development: the Go types the sources use (byte strings, machine
  integers, times), the outcome of a call (a value, an error or a panic), the text
  conversions of \<open>fmt\<close>, \<open>encoding/hex\<close>, \<open>encoding/binary\<close> and \<open>strings\<close> that the code
  relies on, and the list and string lemmas the component theories use.

  A Go \<open>string\<close> and a Go \<open>[]byte\<close> are both sequences of bytes; both are \<open>bytes\<close>, a list of
  8-bit characters, so the conversions \<open>string(k)\<close> and \<open>[]byte(s)\<close> are the identity. The
  orders of \<open>bytes.Compare\<close> and of \<open><\<close> on strings are the lexicographic order of
  \<open>HOL-Library.List_Lexorder\<close> over \<open>HOL-Library.Char_ord\<close>.
\<close>

section \<open>Types\<close>

type_synonym bytes = string
type_synonym uint32 = "32 word"
type_synonym uint64 = "64 word"

text \<open>
  A Go \<open>int64\<close> is an \<open>int\<close>; every operation that may leave the 64-bit range is wrapped
  explicitly by \<open>wrap64\<close>. A time is its distance in nanoseconds from the Unix epoch.
\<close>

type_synonym int64 = int
type_synonym time = int

definition wrap64 :: "int \<Rightarrow> int64" where
  "wrap64 x = (x + 2 ^ 63) mod 2 ^ 64 - 2 ^ 63"

definition in_int64 :: "int \<Rightarrow> bool" where
  "in_int64 x \<longleftrightarrow> - (2 ^ 63) \<le> x \<and> x < 2 ^ 63"

definition Unix :: "time \<Rightarrow> int64" where
  "Unix t = wrap64 (t div 1000000000)"

definition UnixNano :: "time \<Rightarrow> int64" where
  "UnixNano t = wrap64 t"

text \<open>An error is an \<open>AppError\<close> of the module \<open>types\<close> or any other Go error.
  The text of an error is represented by its format string, as the source writes it.\<close>

datatype goerr = AppError (ErrCode: uint32) (Msg: bytes) | PlainError bytes

text \<open>The outcome of a call that returns \<open>(value, error)\<close> and that may panic.\<close>

datatype 'a outcome = Ret 'a | Err goerr | Panic

named_theorems code_defs \<open>definitions that unfold handlers and helpers of the model\<close>
named_theorems frame \<open>keys and context fields an operation leaves alone\<close>
named_theorems key_simps \<open>distinctness of store keys\<close>

section \<open>Machine integers\<close>

lemma wrap64_id [simp]: "in_int64 x \<Longrightarrow> wrap64 x = x"
  by (simp add: wrap64_def in_int64_def)

lemma in_int64_wrap64 [simp]: "in_int64 (wrap64 x)"
proof -
  have "0 \<le> (x + 2 ^ 63) mod 2 ^ 64" and "(x + 2 ^ 63) mod 2 ^ 64 < (2::int) ^ 64"
    by simp_all
  then show ?thesis by (simp add: wrap64_def in_int64_def)
qed

lemma wrap64_numeral:
  "- (2 ^ 63) \<le> x \<Longrightarrow> x < 2 ^ 63 \<Longrightarrow> wrap64 x = x"
  by (rule wrap64_id) (simp add: in_int64_def)

section \<open>Digits\<close>

definition digit_char :: "nat \<Rightarrow> char" where
  "digit_char d = (if d < 10 then char_of (48 + d) else char_of (87 + d))"

text \<open>\<open>utoa b n\<close>: the digits of \<open>n\<close> in base \<open>b\<close>, lower case, without leading zeros
  (the verbs \<open>%d\<close> and \<open>%x\<close> on unsigned integers, \<open>nat.utoa\<close> of \<open>math/big\<close>).\<close>

fun utoa :: "nat \<Rightarrow> nat \<Rightarrow> bytes" where
  "utoa b n = (if n < b \<or> b < 2 then [digit_char n]
               else utoa b (n div b) @ [digit_char (n mod b)])"

declare utoa.simps [simp del]

text \<open>The verbs \<open>%d\<close> and \<open>%x\<close> on signed integers write a minus sign and the magnitude.\<close>

definition itoa :: "nat \<Rightarrow> int \<Rightarrow> bytes" where
  "itoa b i = (if i < 0 then CHR ''-'' # utoa b (nat (- i)) else utoa b (nat i))"

text \<open>\<open>%0wd\<close>: padded on the left with zeros to width \<open>w\<close>.\<close>

definition pad_left :: "nat \<Rightarrow> bytes \<Rightarrow> bytes" where
  "pad_left w s = replicate (w - length s) (CHR ''0'') @ s"

definition hex_of_byte :: "char \<Rightarrow> bytes" where
  "hex_of_byte c = [digit_char (of_char c div 16), digit_char (of_char c mod 16)]"

text \<open>\<open>hex.EncodeToString\<close>, and the verb \<open>%x\<close> on byte slices.\<close>

definition hex_EncodeToString :: "bytes \<Rightarrow> bytes" where
  "hex_EncodeToString bs = concat (map hex_of_byte bs)"

lemma of_char_digit_char:
  "d < 36 \<Longrightarrow> of_char (digit_char d) = (if d < 10 then 48 + d else 87 + d)"
  by (simp add: digit_char_def)

lemma digit_char_inject:
  assumes "d < 36" "e < 36"
  shows "digit_char d = digit_char e \<longleftrightarrow> d = e"
proof
  assume "digit_char d = digit_char e"
  then have "(of_char (digit_char d) :: nat) = of_char (digit_char e)" by simp
  then show "d = e" using assms by (simp add: of_char_digit_char split: if_splits)
qed simp

lemma byte_bounds [simp]:
  "of_char c < (256 :: nat)" "of_char c div 16 < (16 :: nat)" "of_char c mod 16 < (16 :: nat)"
  by (simp_all add: less_mult_imp_div_less)

lemma hex_of_byte_inject: "hex_of_byte c = hex_of_byte d \<longleftrightarrow> c = d"
proof
  assume eq: "hex_of_byte c = hex_of_byte d"
  let ?c = "of_char c :: nat" and ?d = "of_char d :: nat"
  have "?c div 16 < 36" "?d div 16 < 36" "?c mod 16 < 36" "?d mod 16 < 36"
    by (rule less_trans [of _ 16], simp_all)+
  with eq have "?c div 16 = ?d div 16" "?c mod 16 = ?d mod 16"
    by (simp_all add: hex_of_byte_def digit_char_inject)
  then have "?c = ?d" by (metis div_mult_mod_eq)
  then show "c = d" by simp
qed simp

lemma length_hex [simp]: "length (hex_EncodeToString bs) = 2 * length bs"
  by (induction bs) (simp_all add: hex_EncodeToString_def hex_of_byte_def)

lemma hex_Cons: "hex_EncodeToString (c # cs) = hex_of_byte c @ hex_EncodeToString cs"
  by (simp add: hex_EncodeToString_def)

lemma hex_inject [simp]: "hex_EncodeToString a = hex_EncodeToString b \<longleftrightarrow> a = b"
proof (induction a arbitrary: b)
  case Nil
  then show ?case by (cases b) (simp_all add: hex_EncodeToString_def hex_of_byte_def)
next
  case (Cons x xs)
  show ?case
  proof (cases b)
    case Nil
    then show ?thesis by (simp add: hex_EncodeToString_def hex_of_byte_def)
  next
    case (Cons y ys)
    have len: "length (hex_of_byte x) = length (hex_of_byte y)" by (simp add: hex_of_byte_def)
    show ?thesis
      by (simp add: Cons hex_Cons append_eq_append_conv [OF disjI1 [OF len]] hex_of_byte_inject Cons.IH)
  qed
qed

text \<open>The alphabet of \<open>hex.EncodeToString\<close>: no separator of a store key occurs in it.\<close>

lemma digit_char_not_slash: "d < 36 \<Longrightarrow> digit_char d \<noteq> CHR ''/''"
proof
  assume d: "d < 36" and "digit_char d = CHR ''/''"
  then have "(of_char (digit_char d) :: nat) = of_char (CHR ''/'')" by simp
  with d show False by (simp add: of_char_digit_char split: if_splits)
qed

lemma hex_no_slash [simp]: "CHR ''/'' \<notin> set (hex_EncodeToString bs)"
proof (induction bs)
  case (Cons c cs)
  have "(of_char c :: nat) div 16 < 36" "(of_char c :: nat) mod 16 < 36"
    by (rule less_trans [of _ 16], simp_all)+
  then have "digit_char (of_char c div 16) \<noteq> CHR ''/''" "digit_char (of_char c mod 16) \<noteq> CHR ''/''"
    by (simp_all add: digit_char_not_slash)
  with Cons show ?case by (metis (no_types, lifting) Un_iff empty_iff empty_set hex_Cons
      hex_of_byte_def set_ConsD set_append)
qed (simp add: hex_EncodeToString_def)

section \<open>Big-endian integers\<close>

text \<open>\<open>binary.BigEndian.PutUint64\<close> into an 8-byte buffer and \<open>binary.BigEndian.Uint64\<close>.\<close>

definition PutUint64 :: "uint64 \<Rightarrow> bytes" where
  "PutUint64 n = map (\<lambda>i. char_of (unat n div 256 ^ i)) [7, 6, 5, 4, 3, 2, 1, 0]"

definition Uint64 :: "bytes \<Rightarrow> uint64" where
  "Uint64 bs = word_of_nat (foldl (\<lambda>acc c. acc * 256 + of_char c) 0 bs)"

lemma length_PutUint64 [simp]: "length (PutUint64 n) = 8"
  by (simp add: PutUint64_def)

lemma be_digits8:
  fixes n :: nat
  assumes "n < 2 ^ 64"
  shows "foldl (\<lambda>acc d. acc * 256 + d mod 256) 0
    [n div 256 ^ 7, n div 256 ^ 6, n div 256 ^ 5, n div 256 ^ 4,
     n div 256 ^ 3, n div 256 ^ 2, n div 256 ^ 1, n div 256 ^ 0] = n"
proof -
  have step: "(n div 256 ^ Suc i) * 256 + n div 256 ^ i mod 256 = n div 256 ^ i" for i
  proof -
    have "n div 256 ^ Suc i = n div 256 ^ i div 256"
      by (metis div_mult2_eq power_Suc2)
    then show ?thesis by simp
  qed
  have top: "n div 256 ^ 7 mod 256 = n div 256 ^ 7"
  proof -
    have "n div 256 ^ 7 < 256" using assms by (simp add: less_mult_imp_div_less)
    then show ?thesis by simp
  qed
  have "n div 256 ^ 7 * 256 + n div 256 ^ 6 mod 256 = n div 256 ^ 6"
    "n div 256 ^ 6 * 256 + n div 256 ^ 5 mod 256 = n div 256 ^ 5"
    "n div 256 ^ 5 * 256 + n div 256 ^ 4 mod 256 = n div 256 ^ 4"
    "n div 256 ^ 4 * 256 + n div 256 ^ 3 mod 256 = n div 256 ^ 3"
    "n div 256 ^ 3 * 256 + n div 256 ^ 2 mod 256 = n div 256 ^ 2"
    "n div 256 ^ 2 * 256 + n div 256 ^ 1 mod 256 = n div 256 ^ 1"
    "n div 256 ^ 1 * 256 + n div 256 ^ 0 mod 256 = n div 256 ^ 0"
    using step [of 6] step [of 5] step [of 4] step [of 3] step [of 2] step [of 1] step [of 0]
    by (simp_all only: numeral_eq_Suc pred_numeral_simps BitM.simps arith_simps One_nat_def)
  with top show ?thesis by (simp only: foldl.simps mult_0 add_0) simp
qed

lemma Uint64_PutUint64 [simp]: "Uint64 (PutUint64 n) = n"
proof -
  have "unat n < 2 ^ 64" using unsigned_less [of n] by simp
  note d = be_digits8 [OF this]
  have "foldl (\<lambda>acc c. acc * 256 + of_char c) 0 (PutUint64 n) = unat n"
    using d by (simp add: PutUint64_def of_char_of del: power_one_right)
  then show ?thesis by (simp add: Uint64_def)
qed

end
