(* ===== verification/Gostd.thy ===== *)
theory Gostd
  imports Prelude
begin

text \<open>
  The functions of the Go standard library that the sources call on text and that are not
  plain list operations: \<open>strings.TrimSpace\<close>, \<open>strings.ToUpper\<close>, \<open>strings.EqualFold\<close>,
  \<open>encoding/base64\<close> and \<open>encoding/hex\<close> decoding.
\<close>

section \<open>White space\<close>

text \<open>The UTF-8 encodings of the code points for which \<open>unicode.IsSpace\<close> holds.\<close>

definition unicode_spaces :: "bytes list" where
  "unicode_spaces =
     map (\<lambda>n. [char_of (n :: nat)]) [9, 10, 11, 12, 13, 32] @
     map (map (char_of :: nat \<Rightarrow> char))
       ([[0xC2, 0x85], [0xC2, 0xA0], [0xE1, 0x9A, 0x80]] @
        map (\<lambda>n. [0xE2, 0x80, n]) [0x80..<0x8B] @
        [[0xE2, 0x80, 0xA8], [0xE2, 0x80, 0xA9], [0xE2, 0x80, 0xAF],
         [0xE2, 0x81, 0x9F], [0xE3, 0x80, 0x80]])"

definition drop_space :: "bytes \<Rightarrow> bytes option" where
  "drop_space s = (case List.find (\<lambda>w. prefix w s) unicode_spaces of
     None \<Rightarrow> None | Some w \<Rightarrow> Some (drop (length w) s))"

lemma unicode_spaces_nonempty: "w \<in> set unicode_spaces \<Longrightarrow> w \<noteq> []"
  by (auto simp: unicode_spaces_def)

lemma drop_space_shorter: "drop_space s = Some t \<Longrightarrow> length t < length s"
proof -
  assume "drop_space s = Some t"
  then obtain w where w: "List.find (\<lambda>w. prefix w s) unicode_spaces = Some w"
    and t: "t = drop (length w) s"
    by (auto simp: drop_space_def split: option.splits)
  from w have "w \<in> set unicode_spaces" "prefix w s"
    by (auto simp: find_Some_iff)
  then have "w \<noteq> []" "length w \<le> length s"
    by (auto simp: unicode_spaces_nonempty prefix_length_le)
  with t show ?thesis by (cases w; cases s) auto
qed

function trim_left :: "bytes \<Rightarrow> bytes" where
  "trim_left s = (case drop_space s of None \<Rightarrow> s | Some t \<Rightarrow> trim_left t)"
  by pat_completeness auto
termination
  by (relation "measure length") (auto dest: drop_space_shorter)

declare trim_left.simps [simp del]

definition drop_space_end :: "bytes \<Rightarrow> bytes option" where
  "drop_space_end s = (case List.find (\<lambda>w. suffix w s) unicode_spaces of
     None \<Rightarrow> None | Some w \<Rightarrow> Some (take (length s - length w) s))"

lemma drop_space_end_shorter: "drop_space_end s = Some t \<Longrightarrow> length t < length s"
proof -
  assume "drop_space_end s = Some t"
  then obtain w where w: "List.find (\<lambda>w. suffix w s) unicode_spaces = Some w"
    and t: "t = take (length s - length w) s"
    by (auto simp: drop_space_end_def split: option.splits)
  from w have "w \<in> set unicode_spaces" "suffix w s"
    by (auto simp: find_Some_iff)
  then have "w \<noteq> []" "length w \<le> length s"
    by (auto simp: unicode_spaces_nonempty suffix_length_le)
  with t show ?thesis by (cases w; cases s) auto
qed

function trim_right :: "bytes \<Rightarrow> bytes" where
  "trim_right s = (case drop_space_end s of None \<Rightarrow> s | Some t \<Rightarrow> trim_right t)"
  by pat_completeness auto
termination
  by (relation "measure length") (auto dest: drop_space_end_shorter)

declare trim_right.simps [simp del]

definition TrimSpace :: "bytes \<Rightarrow> bytes" where
  "TrimSpace s = trim_right (trim_left s)"

text \<open>Text that begins and ends with graphic ASCII characters is not trimmed.\<close>

definition graphic :: "char \<Rightarrow> bool" where
  "graphic c \<longleftrightarrow> 32 < (of_char c :: nat) \<and> (of_char c :: nat) < 127"

lemma spaces_ends:
  "w \<in> set unicode_spaces \<Longrightarrow> \<not> graphic (hd w) \<and> \<not> graphic (last w)"
  by (auto simp: unicode_spaces_def graphic_def)

lemma TrimSpace_graphic:
  assumes "s \<noteq> []" "graphic (hd s)" "graphic (last s)"
  shows "TrimSpace s = s"
proof -
  have "\<not> prefix w s" if "w \<in> set unicode_spaces" for w
  proof
    assume "prefix w s"
    moreover have "w \<noteq> []" using that by (rule unicode_spaces_nonempty)
    ultimately have "hd w = hd s" by (cases w; cases s) auto
    then show False using spaces_ends [OF that] assms by simp
  qed
  then have "List.find (\<lambda>w. prefix w s) unicode_spaces = None" by (simp add: find_None_iff)
  then have l: "trim_left s = s" by (subst trim_left.simps) (simp add: drop_space_def)
  have "\<not> suffix w s" if "w \<in> set unicode_spaces" for w
  proof
    assume "suffix w s"
    moreover have "w \<noteq> []" using that by (rule unicode_spaces_nonempty)
    ultimately have "last w = last s" by (auto simp: suffix_def)
    then show False using spaces_ends [OF that] assms by simp
  qed
  then have "List.find (\<lambda>w. suffix w s) unicode_spaces = None" by (simp add: find_None_iff)
  then have "trim_right s = s" by (subst trim_right.simps) (simp add: drop_space_end_def)
  with l show ?thesis by (simp add: TrimSpace_def)
qed

section \<open>Case mapping\<close>

definition ascii_upper :: "char \<Rightarrow> char" where
  "ascii_upper c = (let n = of_char c :: nat in
     if 97 \<le> n \<and> n \<le> 122 then char_of (n - 32) else c)"

definition is_ascii :: "bytes \<Rightarrow> bool" where
  "is_ascii s \<longleftrightarrow> list_all (\<lambda>c. (of_char c :: nat) < 128) s"

text \<open>
  \<open>strings.ToUpper\<close>: byte-wise on ASCII text, otherwise the Unicode case tables, which are
  the argument \<open>uni\<close>.
\<close>

definition ToUpper :: "(bytes \<Rightarrow> bytes) \<Rightarrow> bytes \<Rightarrow> bytes" where
  "ToUpper uni s = (if is_ascii s then map ascii_upper s else uni s)"

text \<open>
  Simple case folding as \<open>encoding/json\<close> applies it to member names and \<open>strings.EqualFold\<close>
  to texts compared with an ASCII literal: beside the ASCII letters only the long s
  (U+017F) and the Kelvin sign (U+212A) fold to ASCII.
\<close>

fun foldName :: "bytes \<Rightarrow> bytes" where
  "foldName [] = []"
| "foldName (a # r) =
     (case r of
        b # r' \<Rightarrow>
          if a = CHR 0xC5 \<and> b = CHR 0xBF then CHR ''S'' # foldName r'
          else (case r' of
              c # r'' \<Rightarrow> if a = CHR 0xE2 \<and> b = CHR 0x84 \<and> c = CHR 0xAA
                then CHR ''K'' # foldName r'' else ascii_upper a # foldName r
            | [] \<Rightarrow> ascii_upper a # foldName r)
      | [] \<Rightarrow> [ascii_upper a])"

definition EqualFold_ascii :: "bytes \<Rightarrow> bytes \<Rightarrow> bool" where
  "EqualFold_ascii s lit \<longleftrightarrow> foldName s = map ascii_upper lit"

section \<open>Base64 and hexadecimal decoding\<close>

definition b64_val :: "char \<Rightarrow> nat option" where
  "b64_val c = (let n = of_char c :: nat in
     if 65 \<le> n \<and> n \<le> 90 then Some (n - 65)
     else if 97 \<le> n \<and> n \<le> 122 then Some (n - 71)
     else if 48 \<le> n \<and> n \<le> 57 then Some (n + 4)
     else if n = 43 then Some 62 else if n = 47 then Some 63 else None)"

text \<open>\<open>base64.StdEncoding\<close> on text without line breaks: groups of four symbols, the last
  one padded; non-zero trailing bits are accepted.\<close>

fun b64_groups :: "bytes \<Rightarrow> bytes option" where
  "b64_groups [] = Some []"
| "b64_groups [a, b, c, d] =
     (case (b64_val a, b64_val b) of
        (Some x, Some y) \<Rightarrow>
          if c = CHR ''='' then
            (if d = CHR ''='' then Some [char_of (x * 4 + y div 16)] else None)
          else (case b64_val c of None \<Rightarrow> None | Some z \<Rightarrow>
            if d = CHR ''='' then Some [char_of (x * 4 + y div 16), char_of (y * 16 + z div 4)]
            else (case b64_val d of None \<Rightarrow> None | Some w \<Rightarrow>
              Some [char_of (x * 4 + y div 16), char_of (y * 16 + z div 4), char_of (z * 64 + w)]))
      | _ \<Rightarrow> None)"
| "b64_groups (a # b # c # d # rest) =
     (case (b64_val a, b64_val b, b64_val c, b64_val d) of
        (Some x, Some y, Some z, Some w) \<Rightarrow>
          map_option (\<lambda>t. char_of (x * 4 + y div 16) # char_of (y * 16 + z div 4)
             # char_of (z * 64 + w) # t) (b64_groups rest)
      | _ \<Rightarrow> None)"
| "b64_groups _ = None"

definition base64_Decode :: "bytes \<Rightarrow> bytes option" where
  "base64_Decode s = b64_groups (filter (\<lambda>c. c \<noteq> CHR 0x0A \<and> c \<noteq> CHR 0x0D) s)"

definition hex_val :: "char \<Rightarrow> nat option" where
  "hex_val c = (let n = of_char c :: nat in
     if 48 \<le> n \<and> n \<le> 57 then Some (n - 48)
     else if 97 \<le> n \<and> n \<le> 102 then Some (n - 87)
     else if 65 \<le> n \<and> n \<le> 70 then Some (n - 55) else None)"

fun hex_DecodeString :: "bytes \<Rightarrow> bytes option" where
  "hex_DecodeString [] = Some []"
| "hex_DecodeString (a # b # r) =
     (case (hex_val a, hex_val b) of
        (Some x, Some y) \<Rightarrow> map_option ((#) (char_of (16 * x + y))) (hex_DecodeString r)
      | _ \<Rightarrow> None)"
| "hex_DecodeString [_] = None"

lemma hex_val_digit: "d < 16 \<Longrightarrow> hex_val (digit_char d) = Some d"
  by (simp add: hex_val_def of_char_digit_char)

lemma hex_DecodeString_Encode [simp]: "hex_DecodeString (hex_EncodeToString bs) = Some bs"
proof (induction bs)
  case Nil
  then show ?case by (simp add: hex_EncodeToString_def)
next
  case (Cons c cs)
  have "16 * (of_char c div 16) + of_char c mod 16 = (of_char c :: nat)"
    by (rule mult_div_mod_eq)
  then show ?case
    using Cons by (simp add: hex_Cons hex_of_byte_def hex_val_digit)
qed

section \<open>Package sort\<close>

text \<open>\<open>sort.Slice\<close> with a comparison \<open>less\<close>. Go leaves the order of equivalent elements open;
  this is the stable choice.\<close>

fun insert_by :: "('a \<Rightarrow> 'a \<Rightarrow> bool) \<Rightarrow> 'a \<Rightarrow> 'a list \<Rightarrow> 'a list" where
  "insert_by le x [] = [x]"
| "insert_by le x (y # ys) = (if le y x then y # insert_by le x ys else x # y # ys)"

definition sort_slice :: "('a \<Rightarrow> 'a \<Rightarrow> bool) \<Rightarrow> 'a list \<Rightarrow> 'a list" where
  "sort_slice le xs = foldr (insert_by le) xs []"

lemma mset_insert_by [simp]: "mset (insert_by le x ys) = add_mset x (mset ys)"
  by (induction ys) auto

lemma mset_sort_slice [simp]: "mset (sort_slice le xs) = mset xs"
  by (induction xs) (simp_all add: sort_slice_def)

lemma set_sort_slice [simp]: "set (sort_slice le xs) = set xs"
  by (metis mset_sort_slice set_mset_mset)

lemma length_sort_slice [simp]: "length (sort_slice le xs) = length xs"
  by (metis mset_sort_slice size_mset)

lemma sort_slice_Nil_iff [simp]: "sort_slice le xs = [] \<longleftrightarrow> xs = []"
  by (metis length_sort_slice length_0_conv)

text \<open>With a comparison that is a strict weak order, no later element is less than an earlier one.\<close>

lemma sorted_insert_by:
  assumes asym: "\<And>a b. le a b \<Longrightarrow> \<not> le b a" and trans: "\<And>a b c. \<not> le b a \<Longrightarrow> \<not> le c b \<Longrightarrow> \<not> le c a"
    and "sorted_wrt (\<lambda>a b. \<not> le b a) ys"
  shows "sorted_wrt (\<lambda>a b. \<not> le b a) (insert_by le x ys)"
  using assms(3)
proof (induction ys)
  case (Cons y ys)
  have set: "set (insert_by le x ys) = insert x (set ys)" by (metis mset_insert_by set_mset_add_mset_insert set_mset_mset)
  have y: "\<not> le z y" if "z \<in> set ys" for z using Cons.prems that by simp
  have ys: "sorted_wrt (\<lambda>a b. \<not> le b a) ys" using Cons.prems by simp
  show ?case
  proof (cases "le y x")
    case True
    then show ?thesis using Cons.IH [OF ys] y asym [OF True] by (simp add: set)
  next
    case False
    have "\<not> le z x" if "z \<in> set ys" for z by (rule trans [OF False y [OF that]])
    then show ?thesis using False y ys by simp
  qed
qed simp

lemma sorted_sort_slice:
  assumes "\<And>a b. le a b \<Longrightarrow> \<not> le b a" "\<And>a b c. \<not> le b a \<Longrightarrow> \<not> le c b \<Longrightarrow> \<not> le c a"
  shows "sorted_wrt (\<lambda>a b. \<not> le b a) (sort_slice le xs)"
  by (induction xs) (simp_all add: sort_slice_def sorted_insert_by [OF assms])

lemma hd_sort_slice:
  assumes "\<And>a b. le a b \<Longrightarrow> \<not> le b a" "\<And>a b c. \<not> le b a \<Longrightarrow> \<not> le c b \<Longrightarrow> \<not> le c a"
    and "y \<in> set xs"
  shows "\<not> le y (hd (sort_slice le xs))"
proof (cases "sort_slice le xs")
  case Nil
  with assms(3) show ?thesis by simp
next
  case (Cons z zs)
  have "y \<in> set (z # zs)" using assms(3) set_sort_slice [of le xs] by (simp add: Cons)
  moreover have "sorted_wrt (\<lambda>a b. \<not> le b a) (z # zs)" using sorted_sort_slice [of le xs, OF assms(1,2)] by (simp add: Cons)
  ultimately show ?thesis using assms(1) by (auto simp: Cons)
qed

end
