(* ===== verification/Decimal.thy ===== *)
theory Decimal
  imports Gostd Complex_Main
begin

text \<open>
  Decimal text and exact rationals: \<open>(*big.Rat).SetString\<close> and \<open>(*big.Rat).FloatString\<close> of
  \<open>math/big\<close>, which carry every amount of money in the program. The scanner accepts what
  the library accepts (signs, base prefixes, digit separators, a radix point, decimal and
  binary exponents, fractions \<open>a/b\<close>) and refuses what it refuses. The main lemma says that
  what \<open>FloatString\<close> writes \<open>SetString\<close> reads back as the value rounded to the given scale.
\<close>

section \<open>Scanning numbers\<close>

definition digit_val :: "char \<Rightarrow> nat" where
  "digit_val c = (let n = of_char c :: nat in
     if 48 \<le> n \<and> n \<le> 57 then n - 48
     else if 97 \<le> n \<and> n \<le> 122 then n - 87
     else if 65 \<le> n \<and> n \<le> 90 then n - 55 else 63)"

text \<open>
  The digit loop of \<open>nat.scan\<close>. Its state: the base, whether a radix point may still come,
  the class of the previous character (\<open>0\<close> a digit, \<open>_\<close> a separator, \<open>.\<close> anything else),
  whether a separator was misplaced, the value, the number of digits, and the number of
  digits before the radix point.
\<close>

record scan_state =
  sc_frac :: bool
  sc_prev :: char
  sc_inval :: bool
  sc_val :: nat
  sc_count :: nat
  sc_dp :: "nat option"

fun scan_loop :: "nat \<Rightarrow> scan_state \<Rightarrow> bytes \<Rightarrow> scan_state \<times> bytes" where
  "scan_loop b st [] = (st, [])"
| "scan_loop b st (c # cs) =
     (if c = CHR ''.'' \<and> sc_frac st then
        scan_loop b (st\<lparr>sc_frac := False,
          sc_inval := (sc_inval st \<or> sc_prev st = CHR ''_''),
          sc_prev := CHR ''.'', sc_dp := Some (sc_count st)\<rparr>) cs
      else if c = CHR ''_'' then
        scan_loop b (st\<lparr>sc_inval := (sc_inval st \<or> sc_prev st \<noteq> CHR ''0''),
          sc_prev := CHR ''_''\<rparr>) cs
      else if digit_val c < b then
        scan_loop b (st\<lparr>sc_prev := CHR ''0'', sc_val := sc_val st * b + digit_val c,
          sc_count := Suc (sc_count st)\<rparr>) cs
      else (st, c # cs))"

definition scan_init :: "bool \<Rightarrow> char \<Rightarrow> nat \<Rightarrow> scan_state" where
  "scan_init fracOk prev n = \<lparr>sc_frac = fracOk, sc_prev = prev, sc_inval = False,
     sc_val = 0, sc_count = n, sc_dp = None\<rparr>"

text \<open>The base prefix: the base, the prefix character (if any) and where the digits begin.\<close>

definition scan_prefix :: "bool \<Rightarrow> bytes \<Rightarrow> nat \<times> char option \<times> scan_state \<times> bytes" where
  "scan_prefix fracOk s =
     (case s of
        c # d # r \<Rightarrow>
          if c = CHR ''0'' then
            (if d = CHR ''b'' \<or> d = CHR ''B'' then (2, Some (CHR ''b''), scan_init fracOk (CHR ''0'') 0, r)
             else if d = CHR ''o'' \<or> d = CHR ''O'' then (8, Some (CHR ''o''), scan_init fracOk (CHR ''0'') 0, r)
             else if d = CHR ''x'' \<or> d = CHR ''X'' then (16, Some (CHR ''x''), scan_init fracOk (CHR ''0'') 0, r)
             else if \<not> fracOk then (8, Some (CHR ''0''), scan_init fracOk (CHR ''0'') 0, d # r)
             else (10, None, scan_init fracOk (CHR ''0'') 1, d # r))
          else (10, None, scan_init fracOk (CHR ''.'') 0, s)
      | [c] \<Rightarrow> if c = CHR ''0'' then (10, None, scan_init fracOk (CHR ''0'') 1, [])
               else (10, None, scan_init fracOk (CHR ''.'') 0, s)
      | [] \<Rightarrow> (10, None, scan_init fracOk (CHR ''.'') 0, s))"

text \<open>\<open>nat.scan\<close> with base 0: the value, the base, the digit count (negated fraction digits
  when there is a radix point) and the unread text; \<open>None\<close> is an error.\<close>

definition nat_scan :: "bool \<Rightarrow> bytes \<Rightarrow> (nat \<times> nat \<times> int \<times> bytes) option" where
  "nat_scan fracOk s =
     (case scan_prefix fracOk s of (b, pre, st0, r) \<Rightarrow>
        (case scan_loop b st0 r of (st, rest) \<Rightarrow>
           if sc_inval st \<or> sc_prev st = CHR ''_'' then None
           else if sc_count st = 0 then
             (if pre = Some (CHR ''0'') then Some (0, 10, 1, rest) else None)
           else Some (sc_val st, b,
             (case sc_dp st of None \<Rightarrow> int (sc_count st)
              | Some dp \<Rightarrow> int dp - int (sc_count st)), rest)))"

definition scan_sign :: "bytes \<Rightarrow> (bool \<times> bytes) option" where
  "scan_sign s = (case s of [] \<Rightarrow> None
     | c # cs \<Rightarrow> if c = CHR ''-'' then Some (True, cs)
                 else if c = CHR ''+'' then Some (False, cs) else Some (False, s))"

definition int_SetString :: "bytes \<Rightarrow> int option" where
  "int_SetString s = (case scan_sign s of None \<Rightarrow> None
     | Some (neg, r) \<Rightarrow> (case nat_scan False r of
          Some (v, _, _, []) \<Rightarrow> Some (if neg then - int v else int v)
        | _ \<Rightarrow> None))"

fun scan_exp_digits :: "char \<Rightarrow> bool \<Rightarrow> nat \<Rightarrow> nat \<Rightarrow> bytes \<Rightarrow> char \<times> bool \<times> nat \<times> nat \<times> bytes" where
  "scan_exp_digits prev inval v n [] = (prev, inval, v, n, [])"
| "scan_exp_digits prev inval v n (c # cs) =
     (if CHR ''0'' \<le> c \<and> c \<le> CHR ''9''
      then scan_exp_digits (CHR ''0'') inval (v * 10 + digit_val c) (Suc n) cs
      else if c = CHR ''_''
      then scan_exp_digits (CHR ''_'') (inval \<or> prev \<noteq> CHR ''0'') v n cs
      else (prev, inval, v, n, c # cs))"

text \<open>\<open>scanExponent\<close>: the exponent, its base and the unread text.\<close>

definition scan_exponent :: "bytes \<Rightarrow> (int \<times> nat \<times> bytes) option" where
  "scan_exponent s =
     (case s of [] \<Rightarrow> Some (0, 10, [])
      | c # cs \<Rightarrow>
          if c \<in> set ''eEpP'' then
            (let base = (if c \<in> set ''eE'' then 10 else 2);
                 (neg, r) = (case cs of d # ds \<Rightarrow>
                    if d = CHR ''-'' then (True, ds) else if d = CHR ''+'' then (False, ds) else (False, cs)
                  | [] \<Rightarrow> (False, cs));
                 (prev, inval, v, n, rest) = scan_exp_digits (CHR ''.'') False 0 0 r;
                 e = (if neg then - int v else int v)
             in if n = 0 \<or> \<not> in_int64 e \<or> inval \<or> prev = CHR ''_'' then None
                else Some (e, base, rest))
          else Some (0, 10, s))"

section \<open>Rationals\<close>

definition rat_power :: "rat \<Rightarrow> int \<Rightarrow> rat" where
  "rat_power x e = (if 0 \<le> e then x ^ nat e else 1 / x ^ nat (- e))"

text \<open>The part of \<open>Rat.SetString\<close> after the scans: mantissa, base, digit count, exponent.\<close>

definition rat_assemble :: "bool \<Rightarrow> nat \<Rightarrow> nat \<Rightarrow> int \<Rightarrow> int \<Rightarrow> nat \<Rightarrow> rat option" where
  "rat_assemble neg mant base fcount e ebase =
     (if mant = 0 then Some 0
      else let d = (if fcount < 0 then fcount else 0);
               exp5 = (if base = 10 then d else 0) + (if ebase = 10 then e else 0);
               exp2 = (if base = 8 then d * 3 else if base = 16 then d * 4 else d) + e
           in if 1000000 < \<bar>exp5\<bar> \<or> 10000000 < \<bar>exp2\<bar> then None
              else let v = of_nat mant * rat_power 5 exp5 * rat_power 2 exp2
                   in Some (if neg then - v else v))"

definition rat_SetString :: "bytes \<Rightarrow> rat option" where
  "rat_SetString s =
     (if s = [] then None
      else if CHR ''/'' \<in> set s then
        (let l = takeWhile (\<lambda>c. c \<noteq> CHR ''/'') s; r = drop (Suc (length l)) s
         in case int_SetString l of None \<Rightarrow> None
            | Some a \<Rightarrow> (case nat_scan False r of
                 Some (b, _, _, []) \<Rightarrow> if b = 0 then None else Some (Fract a (int b))
               | _ \<Rightarrow> None))
      else (case scan_sign s of None \<Rightarrow> None
            | Some (neg, r) \<Rightarrow> (case nat_scan True r of None \<Rightarrow> None
               | Some (m, base, fcount, r1) \<Rightarrow> (case scan_exponent r1 of
                    Some (e, ebase, []) \<Rightarrow> rat_assemble neg m base fcount e ebase
                  | _ \<Rightarrow> None))))"

section \<open>Printing\<close>

definition FloatString :: "rat \<Rightarrow> nat \<Rightarrow> bytes" where
  "FloatString x prec =
     (case quotient_of x of (a, b) \<Rightarrow>
        if b = 1 then itoa 10 a @ (if 0 < prec then CHR ''.'' # replicate prec (CHR ''0'') else [])
        else let n = nat \<bar>a\<bar>; d = nat b; q = n div d; r0 = (n mod d) * 10 ^ prec;
                 r = r0 div d; up = (d \<le> 2 * (r0 mod d));
                 q' = (if up \<and> 10 ^ prec \<le> r + 1 then q + 1 else q);
                 r' = (if up then (if 10 ^ prec \<le> r + 1 then r + 1 - 10 ^ prec else r + 1) else r)
             in (if a < 0 then ''-'' else '''') @ utoa 10 q' @
                (if 0 < prec then CHR ''.'' # pad_left prec (utoa 10 r') else []))"

text \<open>What \<open>FloatString\<close> rounds to: half away from zero at the given number of digits.\<close>

definition round_scaled :: "rat \<Rightarrow> nat \<Rightarrow> rat" where
  "round_scaled x prec =
     (if x < 0 then - of_int \<lfloor>- x * 10 ^ prec + 1 / 2\<rfloor> / 10 ^ prec
      else of_int \<lfloor>x * 10 ^ prec + 1 / 2\<rfloor> / 10 ^ prec)"

section \<open>Digit strings\<close>

definition digs_val :: "nat list \<Rightarrow> nat" where
  "digs_val ds = foldl (\<lambda>a d. a * 10 + d) 0 ds"

lemma foldl_digs: "foldl (\<lambda>a d. a * 10 + d) v ds = v * 10 ^ length ds + digs_val ds"
proof (induction ds arbitrary: v)
  case (Cons d ds)
  show ?case
    using Cons [of "v * 10 + d"] Cons [of d] by (simp add: digs_val_def algebra_simps)
qed (simp add: digs_val_def)

lemma digs_val_append: "digs_val (xs @ ys) = digs_val xs * 10 ^ length ys + digs_val ys"
  by (simp add: digs_val_def) (metis digs_val_def foldl_digs)

lemma digs_val_replicate0 [simp]: "digs_val (replicate n 0) = 0"
  by (induction n) (simp_all add: digs_val_def)

text \<open>The digits of a number: what \<open>utoa\<close> writes.\<close>

definition digits_of :: "nat \<Rightarrow> nat list \<Rightarrow> bool" where
  "digits_of n ds \<longleftrightarrow> utoa 10 n = map digit_char ds \<and> (\<forall>d \<in> set ds. d < 10) \<and> digs_val ds = n
    \<and> ds \<noteq> [] \<and> (hd ds = 0 \<longrightarrow> ds = [0]) \<and> (\<forall>k. n < 10 ^ k \<longrightarrow> 0 < k \<longrightarrow> length ds \<le> k)"

lemma digits_of_small: "n < 10 \<Longrightarrow> digits_of n [n]"
  by (simp add: digits_of_def utoa.simps [of 10 n] digs_val_def Suc_le_eq)

lemma digits_of_step:
  assumes n: "\<not> n < 10" and ds: "digits_of (n div 10) ds"
  shows "digits_of n (ds @ [n mod 10])"
proof -
  have "hd ds \<noteq> 0"
  proof
    assume "hd ds = 0"
    with ds have "digs_val [0] = n div 10" by (auto simp: digits_of_def)
    then have "n div 10 = 0" by (simp add: digs_val_def)
    with n show False by simp
  qed
  moreover have "length ds + 1 \<le> k" if "n < 10 ^ k" for k
  proof (cases k)
    case 0
    with that n show ?thesis by simp
  next
    case (Suc j)
    with that n have "n div 10 < 10 ^ j" "0 < j"
      by (auto simp: less_mult_imp_div_less mult.commute intro: gr0I)
    with ds Suc show ?thesis by (simp add: digits_of_def)
  qed
  moreover have "digs_val [n mod 10] = n mod 10" by (simp add: digs_val_def)
  ultimately show ?thesis
    using n ds by (simp add: digits_of_def utoa.simps [of 10 n] digs_val_append)
qed

lemma digits_of_ex: "\<exists>ds. digits_of n ds"
proof (induction n rule: less_induct)
  case (less n)
  show ?case
  proof (cases "n < 10")
    case True
    then show ?thesis using digits_of_small by (rule_tac exI)
  next
    case False
    then have "n div 10 < n" by simp
    from less [OF this] obtain ds where "digits_of (n div 10) ds" ..
    with False have "digits_of n (ds @ [n mod 10])" by (rule digits_of_step)
    then show ?thesis ..
  qed
qed

lemma digit_val_digit_char [simp]: "d < 10 \<Longrightarrow> digit_val (digit_char d) = d"
  by (simp add: digit_val_def of_char_digit_char)

lemma digit_char_neq [simp]:
  assumes "d < 10"
  shows "digit_char d \<noteq> CHR ''.''" "digit_char d \<noteq> CHR ''_''" "digit_char d \<noteq> CHR ''-''"
    "digit_char d \<noteq> CHR ''+''" "digit_char d \<noteq> CHR ''/''" "digit_char d \<noteq> CHR ''b''"
    "digit_char d \<noteq> CHR ''B''" "digit_char d \<noteq> CHR ''o''" "digit_char d \<noteq> CHR ''O''"
    "digit_char d \<noteq> CHR ''x''" "digit_char d \<noteq> CHR ''X''"
proof -
  have "c \<noteq> digit_char d" if "(of_char c :: nat) < 48 \<or> 58 \<le> (of_char c :: nat)" for c
  proof
    assume "c = digit_char d"
    then have "(of_char c :: nat) = 48 + d" using assms by (simp add: of_char_digit_char)
    with that assms show False by simp
  qed
  from this [symmetric] show "digit_char d \<noteq> CHR ''.''" "digit_char d \<noteq> CHR ''_''" "digit_char d \<noteq> CHR ''-''"
    "digit_char d \<noteq> CHR ''+''" "digit_char d \<noteq> CHR ''/''" "digit_char d \<noteq> CHR ''b''"
    "digit_char d \<noteq> CHR ''B''" "digit_char d \<noteq> CHR ''o''" "digit_char d \<noteq> CHR ''O''"
    "digit_char d \<noteq> CHR ''x''" "digit_char d \<noteq> CHR ''X''"
    by simp_all
qed

lemma digit_char_0_eq: "digit_char 0 = CHR ''0''"
  by code_simp

lemma digit_char_0: "d < 10 \<Longrightarrow> digit_char d = CHR ''0'' \<longleftrightarrow> d = 0"
  using digit_char_inject [of d 0] by (simp add: digit_char_0_eq)

lemma scan_loop_digits:
  assumes "\<forall>d \<in> set ds. d < 10" "ds \<noteq> []"
  shows "scan_loop 10 st (map digit_char ds @ r) =
    scan_loop 10 (st\<lparr>sc_prev := CHR ''0'', sc_val := sc_val st * 10 ^ length ds + digs_val ds,
      sc_count := sc_count st + length ds\<rparr>) r"
  using assms
proof (induction ds arbitrary: st)
  case (Cons d ds)
  show ?case
  proof (cases "ds = []")
    case True
    with Cons.prems show ?thesis by (simp add: digs_val_def)
  next
    case False
    with Cons show ?thesis
      using foldl_digs [of d ds] by (simp add: digs_val_def algebra_simps)
  qed
qed simp


section \<open>Reading back what was printed\<close>

lemma scan_prefix_digits:
  assumes "digits_of q qs" "r = [] \<or> hd r = CHR ''.''"
  shows "\<exists>st0 t. scan_prefix True (map digit_char qs @ r) = (10, None, st0, t)
    \<and> scan_loop 10 st0 t = scan_loop 10 (scan_init True (CHR ''0'') (length qs) \<lparr>sc_val := q\<rparr>) r"
proof (cases "hd qs = 0")
  case True
  with assms have qs: "qs = [0]" and q: "q = 0" by (auto simp: digits_of_def digs_val_def)
  with assms(2) show ?thesis
    by (cases r) (auto simp: scan_prefix_def digit_char_0_eq scan_init_def)
next
  case False
  with assms(1) obtain d ds where qs: "qs = d # ds" and d: "d \<noteq> 0" "d < 10"
    and all: "\<forall>d \<in> set qs. d < 10" and val: "digs_val qs = q"
    by (cases qs) (auto simp: digits_of_def)
  have "digit_char d \<noteq> CHR ''0''" using d by (simp add: digit_char_0)
  then have "scan_prefix True (map digit_char qs @ r) =
    (10, None, scan_init True (CHR ''.'') 0, map digit_char qs @ r)"
    by (cases ds; cases r) (simp_all add: scan_prefix_def qs)
  moreover have "scan_loop 10 (scan_init True (CHR ''.'') 0) (map digit_char qs @ r) =
    scan_loop 10 (scan_init True (CHR ''0'') (length qs) \<lparr>sc_val := q\<rparr>) r"
    using scan_loop_digits [OF all, of "scan_init True (CHR ''.'') 0" r] qs val
    by (simp add: scan_init_def)
  ultimately show ?thesis by blast
qed

lemma nat_scan_integer:
  assumes "digits_of q qs"
  shows "nat_scan True (map digit_char qs) = Some (q, 10, int (length qs), [])"
proof -
  have "qs \<noteq> []" using assms by (simp add: digits_of_def)
  with scan_prefix_digits [OF assms, of "[]"] show ?thesis
    by (auto simp: nat_scan_def scan_init_def)
qed

lemma nat_scan_fraction:
  assumes q: "digits_of q qs" and ds: "\<forall>d \<in> set ds. d < 10" "ds \<noteq> []"
  shows "nat_scan True (map digit_char qs @ CHR ''.'' # map digit_char ds) =
    Some (q * 10 ^ length ds + digs_val ds, 10, - int (length ds), [])"
proof -
  obtain st0 t where p: "scan_prefix True (map digit_char qs @ CHR ''.'' # map digit_char ds) = (10, None, st0, t)"
    and l: "scan_loop 10 st0 t = scan_loop 10 (scan_init True (CHR ''0'') (length qs) \<lparr>sc_val := q\<rparr>)
      (CHR ''.'' # map digit_char ds)"
    using scan_prefix_digits [OF q, of "CHR ''.'' # map digit_char ds"] by auto
  show ?thesis
    using ds scan_loop_digits [OF ds, of _ "[]"] by (simp add: nat_scan_def p l scan_init_def)
qed


text \<open>\<open>dec_text neg N prec\<close>: the decimal text of \<open>N\<close> units of \<open>10 ^ -prec\<close>.\<close>

definition dec_text :: "bool \<Rightarrow> nat \<Rightarrow> nat \<Rightarrow> bytes" where
  "dec_text neg N prec = (if neg then ''-'' else []) @ utoa 10 (N div 10 ^ prec) @
     (if 0 < prec then CHR ''.'' # pad_left prec (utoa 10 (N mod 10 ^ prec)) else [])"

lemma pad_left_digits:
  assumes "n < 10 ^ prec" "0 < prec"
  obtains ds where "pad_left prec (utoa 10 n) = map digit_char ds" "\<forall>d \<in> set ds. d < 10"
    "digs_val ds = n" "length ds = prec"
proof -
  obtain rs where rs: "digits_of n rs" using digits_of_ex by blast
  with assms have len: "length rs \<le> prec" by (simp add: digits_of_def)
  let ?ds = "replicate (prec - length rs) 0 @ rs"
  show thesis
  proof
    show "pad_left prec (utoa 10 n) = map digit_char ?ds"
      using rs by (simp add: pad_left_def digits_of_def digit_char_0_eq)
    show "\<forall>d \<in> set ?ds. d < 10" using rs by (auto simp: digits_of_def)
    show "digs_val ?ds = n" using rs by (simp add: digs_val_append digits_of_def)
    show "length ?ds = prec" using len by simp
  qed
qed

lemma digit_char_graphic: "d < 10 \<Longrightarrow> graphic (digit_char d)"
  by (simp add: graphic_def of_char_digit_char)

lemma dec_text_shape:
  "\<exists>qs fs. digits_of (N div 10 ^ prec) qs \<and> (\<forall>d \<in> set fs. d < 10) \<and> length fs = prec
     \<and> digs_val fs = N mod 10 ^ prec
     \<and> dec_text neg N prec = (if neg then ''-'' else []) @ map digit_char qs @
         (if 0 < prec then CHR ''.'' # map digit_char fs else [])"
proof -
  obtain qs where q: "digits_of (N div 10 ^ prec) qs" using digits_of_ex by blast
  show ?thesis
  proof (cases "0 < prec")
    case False
    with q show ?thesis
      by (intro exI [of _ qs] exI [of _ "[]"]) (simp add: dec_text_def digits_of_def digs_val_def)
  next
    case True
    have "N mod 10 ^ prec < 10 ^ prec" by simp
    from this True obtain fs where "pad_left prec (utoa 10 (N mod 10 ^ prec)) = map digit_char fs"
      "\<forall>d \<in> set fs. d < 10" "digs_val fs = N mod 10 ^ prec" "length fs = prec"
      by (rule pad_left_digits)
    with q True show ?thesis
      by (intro exI [of _ qs] exI [of _ fs]) (simp add: dec_text_def digits_of_def)
  qed
qed

lemma rat_assemble_dec:
  assumes "prec \<le> 1000000" "0 \<le> f"
  shows "rat_assemble neg N 10 (if 0 < prec then - int prec else f) 0 10 =
    Some ((if neg then - 1 else 1) * of_nat N / 10 ^ prec)"
proof (cases "N = 0")
  case True
  then show ?thesis by (simp add: rat_assemble_def)
next
  case False
  have "rat_power 5 (- int prec) * rat_power 2 (- int prec) = 1 / 10 ^ prec"
    by (simp add: rat_power_def power_mult_distrib [symmetric])
  moreover have "rat_power 5 0 = 1" "rat_power 2 0 = 1" by (simp_all add: rat_power_def)
  ultimately show ?thesis
    using assms False by (auto simp: rat_assemble_def Let_def mult.assoc)
qed

lemma rat_SetString_dec_text:
  assumes "prec \<le> 1000000"
  shows "rat_SetString (dec_text neg N prec) = Some ((if neg then - 1 else 1) * of_nat N / 10 ^ prec)"
proof -
  obtain qs fs where q: "digits_of (N div 10 ^ prec) qs" and fs: "\<forall>d \<in> set fs. d < 10"
    "length fs = prec" "digs_val fs = N mod 10 ^ prec"
    and shape: "dec_text neg N prec = (if neg then ''-'' else []) @ map digit_char qs @
         (if 0 < prec then CHR ''.'' # map digit_char fs else [])"
    using dec_text_shape by blast
  let ?body = "map digit_char qs @ (if 0 < prec then CHR ''.'' # map digit_char fs else [])"
  have qd: "qs \<noteq> []" "\<forall>d \<in> set qs. d < 10" using q by (auto simp: digits_of_def)
  then have hd: "digit_char (hd qs) \<noteq> CHR ''-''" "digit_char (hd qs) \<noteq> CHR ''+''" by simp_all
  have slash: "CHR ''/'' \<notin> set (dec_text neg N prec)"
    using qd fs by (auto simp: shape dest!: digit_char_neq(5))
  have sign: "scan_sign (dec_text neg N prec) = Some (neg, ?body)"
    using hd qd by (cases qs) (simp_all add: shape scan_sign_def)
  have N: "N div 10 ^ prec * 10 ^ prec + N mod 10 ^ prec = N" by (rule div_mult_mod_eq)
  have scan: "nat_scan True ?body = Some (N, 10, if 0 < prec then - int prec else int (length qs), [])"
  proof (cases "0 < prec")
    case True
    then have "fs \<noteq> []" using fs by auto
    with nat_scan_fraction [OF q fs(1)] True fs N show ?thesis by simp
  next
    case False
    with nat_scan_integer [OF q] show ?thesis by simp
  qed
  have "dec_text neg N prec \<noteq> []" using qd by (simp add: shape)
  with slash sign scan rat_assemble_dec [OF assms, of "int (length qs)" neg N] show ?thesis
    by (simp add: rat_SetString_def scan_exponent_def)
qed

text \<open>The units \<open>FloatString\<close> prints: the magnitude scaled and rounded half up.\<close>

definition dec_units :: "rat \<Rightarrow> nat \<Rightarrow> nat" where
  "dec_units x prec = nat \<lfloor>\<bar>x\<bar> * 10 ^ prec + 1 / 2\<rfloor>"

lemma round_half_up_nat:
  fixes m d :: nat
  assumes "0 < d"
  shows "nat \<lfloor>of_nat m / of_nat d + 1 / 2 :: rat\<rfloor> =
    m div d + (if d \<le> 2 * (m mod d) then 1 else 0)"
proof -
  have "of_nat m / of_nat d + 1 / 2 = (of_int (2 * int m + int d) / of_int (2 * int d) :: rat)"
    using assms by (simp add: field_simps)
  then have "\<lfloor>of_nat m / of_nat d + 1 / 2 :: rat\<rfloor> = (2 * int m + int d) div (2 * int d)"
    by (simp only: floor_divide_of_int_eq)
  also have "\<dots> = int ((2 * m + d) div (2 * d))" by (simp add: zdiv_int)
  finally have f: "nat \<lfloor>of_nat m / of_nat d + 1 / 2 :: rat\<rfloor> = (2 * m + d) div (2 * d)" by simp
  have "2 * m + d = (2 * (m mod d) + d) + (m div d) * (2 * d)"
    using div_mult_mod_eq [of m d] by (metis add.assoc add.commute distrib_left mult.left_commute)
  then have "(2 * m + d) div (2 * d) = m div d + (2 * (m mod d) + d) div (2 * d)"
    using assms by (metis add.commute div_mult_self3 mult_is_0 neq0_conv zero_neq_numeral)
  moreover have "(2 * (m mod d) + d) div (2 * d) = (if d \<le> 2 * (m mod d) then 1 else 0)"
  proof (cases "d \<le> 2 * (m mod d)")
    case True
    have "m mod d < d" using assms by simp
    then have "2 * (m mod d) + d < 2 * (2 * d)" by linarith
    then have "(2 * (m mod d) + d) div (2 * d) < 2" by (simp add: less_mult_imp_div_less)
    moreover have "1 \<le> (2 * (m mod d) + d) div (2 * d)"
      using True assms by (simp add: Suc_le_eq div_greater_zero_iff)
    ultimately show ?thesis using True by simp
  qed simp
  ultimately show ?thesis using f by simp
qed

lemma carry_divmod:
  fixes P q r :: nat
  assumes "r < P"
  shows "(if u \<and> P \<le> r + 1 then q + 1 else q) = (q * P + (r + (if u then 1 else 0))) div P"
    and "(if u then (if P \<le> r + 1 then r + 1 - P else r + 1) else r)
      = (q * P + (r + (if u then 1 else 0))) mod P"
proof -
  have P: "Suc r = P" if "P \<le> Suc r" using assms that by simp
  have "Suc r div P = 1" "Suc r mod P = 0" if "P \<le> Suc r" using assms P [OF that] by simp_all
  then show "(if u \<and> P \<le> r + 1 then q + 1 else q) = (q * P + (r + (if u then 1 else 0))) div P"
    and "(if u then (if P \<le> r + 1 then r + 1 - P else r + 1) else r)
      = (q * P + (r + (if u then 1 else 0))) mod P"
    using assms P by (auto simp: not_le)
qed

lemma FloatString_dec_text: "FloatString x prec = dec_text (x < 0) (dec_units x prec) prec"
proof -
  obtain a b where q: "quotient_of x = (a, b)" by (cases "quotient_of x")
  then have b: "0 < b" and x: "x = of_int a / of_int b"
    by (auto simp: quotient_of_denom_pos quotient_of_div)
  have neg: "x < 0 \<longleftrightarrow> a < 0" using b by (simp add: x divide_less_0_iff)
  define n d where "n = nat \<bar>a\<bar>" and "d = nat b"
  have d: "0 < d" "int d = b" "(of_int b :: rat) = of_nat d"
    using b by (simp_all add: d_def)
  have n: "\<bar>of_int a :: rat\<bar> = of_nat n" by (simp add: n_def)
  have "\<bar>x\<bar> * 10 ^ prec = of_nat (n * 10 ^ prec) / of_nat d"
    using b by (simp add: x abs_divide n d)
  then have U: "dec_units x prec = n * 10 ^ prec div d
      + (if d \<le> 2 * (n * 10 ^ prec mod d) then 1 else 0)"
    by (simp only: dec_units_def round_half_up_nat [OF d(1)])
  show ?thesis
  proof (cases "b = 1")
    case True
    then have "d = 1" by (simp add: d_def)
    with U have units: "dec_units x prec = n * 10 ^ prec" by simp
    have zeros: "replicate prec (CHR ''0'') = pad_left prec (utoa 10 0)" if "0 < prec"
    proof -
      have "utoa 10 0 = [CHR ''0'']" by (simp add: utoa.simps digit_char_0_eq)
      with that show ?thesis by (cases prec) (simp_all add: pad_left_def replicate_append_same)
    qed
    have "itoa 10 a = (if a < 0 then ''-'' else []) @ utoa 10 n"
      by (simp add: itoa_def n_def)
    with True show ?thesis
      by (simp add: FloatString_def q dec_text_def neg units zeros)
  next
    case False
    let ?P = "10 ^ prec :: nat"
    let ?r0 = "n mod d * ?P"
    let ?up = "d \<le> 2 * (?r0 mod d)"
    have split: "n * ?P = n div d * ?P * d + ?r0"
      by (metis add.commute div_mult_mod_eq distrib_right mult.assoc mult.commute)
    then have divd: "n * ?P div d = n div d * ?P + ?r0 div d" and modd: "n * ?P mod d = ?r0 mod d"
      using d(1) by (simp_all)
    have r_lt: "?r0 div d < ?P"
      using d(1) by (simp add: less_mult_imp_div_less mult.commute)
    have units: "dec_units x prec = n div d * ?P + (?r0 div d + (if ?up then 1 else 0))"
      by (simp add: U divd modd)
    note carry = carry_divmod [OF r_lt, of ?up "n div d", folded units]
    show ?thesis
      using False carry by (simp add: FloatString_def q dec_text_def neg Let_def n_def [symmetric] d_def [symmetric])
  qed
qed

lemma dec_units_round:
  "(if x < 0 then - 1 else 1) * of_nat (dec_units x prec) / 10 ^ prec = round_scaled x prec"
proof -
  have "0 \<le> \<lfloor>\<bar>x\<bar> * 10 ^ prec + 1 / 2\<rfloor>" by simp
  then have "(of_nat (dec_units x prec) :: rat) = of_int \<lfloor>\<bar>x\<bar> * 10 ^ prec + 1 / 2\<rfloor>"
    by (simp add: dec_units_def)
  then show ?thesis by (simp add: round_scaled_def)
qed

lemma rat_SetString_FloatString:
  "prec \<le> 1000000 \<Longrightarrow> rat_SetString (FloatString x prec) = Some (round_scaled x prec)"
  by (simp add: FloatString_dec_text rat_SetString_dec_text dec_units_round)

lemma TrimSpace_FloatString [simp]: "TrimSpace (FloatString x prec) = FloatString x prec"
proof -
  obtain qs fs where q: "digits_of (dec_units x prec div 10 ^ prec) qs" and fs: "\<forall>d \<in> set fs. d < 10"
    "length fs = prec"
    and shape: "FloatString x prec = (if x < 0 then ''-'' else []) @ map digit_char qs @
         (if 0 < prec then CHR ''.'' # map digit_char fs else [])"
    using dec_text_shape [of "dec_units x prec" prec "x < 0"] by (auto simp: FloatString_dec_text)
  have qd: "qs \<noteq> []" "\<forall>d \<in> set qs. d < 10" using q by (auto simp: digits_of_def)
  have g: "graphic (CHR ''-'')" by (simp add: graphic_def)
  show ?thesis
  proof (rule TrimSpace_graphic)
    show "FloatString x prec \<noteq> []" using qd by (simp add: shape)
    show "graphic (hd (FloatString x prec))"
      using qd g by (cases qs) (auto simp: shape digit_char_graphic)
    have "fs \<noteq> []" if "0 < prec" using fs that by auto
    then show "graphic (last (FloatString x prec))"
      using qd fs by (auto simp: shape last_append last_map digit_char_graphic)
  qed
qed

lemma FloatString_nonempty [simp]: "FloatString x prec \<noteq> []"
  using dec_text_shape [of "dec_units x prec" prec "x < 0"]
  by (auto simp: FloatString_dec_text digits_of_def)

section \<open>Rounding\<close>

lemma round_scaled_error: "\<bar>round_scaled x prec - x\<bar> \<le> 1 / (2 * 10 ^ prec)"
proof -
  have pos: "\<bar>of_int \<lfloor>y * 10 ^ prec + 1 / 2\<rfloor> / 10 ^ prec - y\<bar> \<le> 1 / (2 * 10 ^ prec)" for y :: rat
  proof -
    let ?z = "y * 10 ^ prec"
    have "\<bar>of_int \<lfloor>?z + 1 / 2\<rfloor> - ?z\<bar> \<le> 1 / 2" by linarith
    then have "\<bar>of_int \<lfloor>?z + 1 / 2\<rfloor> - ?z\<bar> / 10 ^ prec \<le> (1 / 2) / 10 ^ prec"
      by (rule divide_right_mono) simp
    moreover have "\<bar>of_int \<lfloor>?z + 1 / 2\<rfloor> - ?z\<bar> / 10 ^ prec = \<bar>of_int \<lfloor>?z + 1 / 2\<rfloor> / 10 ^ prec - y\<bar>"
    proof -
      have "(of_int \<lfloor>?z + 1 / 2\<rfloor> - ?z) / 10 ^ prec = of_int \<lfloor>?z + 1 / 2\<rfloor> / 10 ^ prec - y"
        by (simp add: diff_divide_distrib)
      then show ?thesis by (metis abs_divide abs_of_pos zero_less_numeral zero_less_power)
    qed
    ultimately show ?thesis by simp
  qed
  show ?thesis using pos [of x] pos [of "- x"] by (auto simp: round_scaled_def)
qed

text \<open>A value with at most \<open>prec\<close> decimals is not changed by rounding.\<close>

definition has_scale :: "rat \<Rightarrow> nat \<Rightarrow> bool" where
  "has_scale x prec \<longleftrightarrow> x * 10 ^ prec = of_int \<lfloor>x * 10 ^ prec\<rfloor>"

lemma has_scaleI: "x * 10 ^ prec = of_int k \<Longrightarrow> has_scale x prec"
  by (simp add: has_scale_def)

lemma round_scaled_exact: "has_scale x prec \<Longrightarrow> round_scaled x prec = x"
proof -
  assume "has_scale x prec"
  then obtain k where k: "x * 10 ^ prec = of_int k" by (auto simp: has_scale_def)
  have f: "\<lfloor>of_int k + 1 / 2 :: rat\<rfloor> = k" "\<lfloor>- of_int k + 1 / 2 :: rat\<rfloor> = - k" by linarith+
  have "- x * 10 ^ prec = - of_int k" by (simp add: k)
  with f k have "round_scaled x prec = of_int k / 10 ^ prec" by (simp add: round_scaled_def)
  with k show ?thesis by (metis nonzero_mult_div_cancel_right power_eq_0_iff zero_neq_numeral)
qed

lemma has_scale_round_scaled [simp]: "has_scale (round_scaled x prec) prec"
  by (auto simp: round_scaled_def intro: has_scaleI [of _ _ "- \<lfloor>- x * 10 ^ prec + 1 / 2\<rfloor>"]
      has_scaleI [of _ _ "\<lfloor>x * 10 ^ prec + 1 / 2\<rfloor>"])

lemma has_scale_add: "has_scale x prec \<Longrightarrow> has_scale y prec \<Longrightarrow> has_scale (x + y) prec"
  by (rule has_scaleI [of _ _ "\<lfloor>x * 10 ^ prec\<rfloor> + \<lfloor>y * 10 ^ prec\<rfloor>"])
    (simp add: has_scale_def distrib_right)

lemma has_scale_diff: "has_scale x prec \<Longrightarrow> has_scale y prec \<Longrightarrow> has_scale (x - y) prec"
  by (rule has_scaleI [of _ _ "\<lfloor>x * 10 ^ prec\<rfloor> - \<lfloor>y * 10 ^ prec\<rfloor>"])
    (simp add: has_scale_def left_diff_distrib)

lemma has_scale_of_int [simp]: "has_scale (of_int k) prec"
  by (rule has_scaleI [of _ _ "k * 10 ^ prec"]) simp

lemma round_scaled_nonneg: "0 \<le> x \<Longrightarrow> 0 \<le> round_scaled x prec"
  by (simp add: round_scaled_def)

lemma round_scaled_mono: "0 \<le> x \<Longrightarrow> x \<le> y \<Longrightarrow> round_scaled x prec \<le> round_scaled y prec"
  by (simp add: round_scaled_def divide_right_mono floor_mono mult_right_mono)

end
