(* ===== verification/Money.thy ===== *)
theory Money
  imports Decimal
begin

text \<open>
  \<open>internal/types/money.go\<close>: amounts of money as decimal text, computed with exact rationals
  and written back at a fixed scale. An error is \<open>Inl\<close>, a result \<open>Inr\<close>.
\<close>

section \<open>Operations\<close>

record Money =
  Currency :: bytes
  Amount :: bytes

definition ParseDecimal :: "bytes \<Rightarrow> goerr + rat" where
  "ParseDecimal s =
     (let s = TrimSpace s in
      if s = [] then Inl (PlainError ''empty decimal'')
      else case rat_SetString s of
          None \<Rightarrow> Inl (PlainError ''cannot parse %q'')
        | Some r \<Rightarrow> Inr r)"

definition Validate :: "Money \<Rightarrow> goerr option" where
  "Validate m =
     (if Currency m = [] then Some (PlainError ''currency is required'')
      else case ParseDecimal (Amount m) of
          Inl e \<Rightarrow> Some (PlainError ''invalid amount: %w'')
        | Inr _ \<Rightarrow> None)"

text \<open>The first argument is a Go pointer: \<open>None\<close> is \<open>nil\<close>.\<close>

definition FormatDecimal :: "rat option \<Rightarrow> int \<Rightarrow> bytes" where
  "FormatDecimal r scale =
     (case r of None \<Rightarrow> ''0''
      | Some x \<Rightarrow> FloatString x (nat (if scale < 0 then 0 else scale)))"

definition AddMoney :: "Money \<Rightarrow> Money \<Rightarrow> int \<Rightarrow> goerr + Money" where
  "AddMoney a b scale =
     (if Currency a \<noteq> Currency b then Inl (PlainError ''currency mismatch'')
      else case ParseDecimal (Amount a) of Inl e \<Rightarrow> Inl e
        | Inr ra \<Rightarrow> (case ParseDecimal (Amount b) of Inl e \<Rightarrow> Inl e
            | Inr rb \<Rightarrow> Inr \<lparr>Currency = Currency a, Amount = FormatDecimal (Some (ra + rb)) scale\<rparr>))"

definition SubMoney :: "Money \<Rightarrow> Money \<Rightarrow> int \<Rightarrow> goerr + Money" where
  "SubMoney a b scale =
     (if Currency a \<noteq> Currency b then Inl (PlainError ''currency mismatch'')
      else case ParseDecimal (Amount a) of Inl e \<Rightarrow> Inl e
        | Inr ra \<Rightarrow> (case ParseDecimal (Amount b) of Inl e \<Rightarrow> Inl e
            | Inr rb \<Rightarrow>
                if ra - rb < 0 then Inl (PlainError ''negative result'')
                else Inr \<lparr>Currency = Currency a, Amount = FormatDecimal (Some (ra - rb)) scale\<rparr>))"

definition ApplyBPS :: "Money \<Rightarrow> uint32 \<Rightarrow> int \<Rightarrow> goerr + Money" where
  "ApplyBPS m bps scale =
     (case ParseDecimal (Amount m) of Inl e \<Rightarrow> Inl e
      | Inr r \<Rightarrow> Inr \<lparr>Currency = Currency m,
          Amount = FormatDecimal (Some (r * (of_int (uint bps) / 10000))) scale\<rparr>)"

section \<open>Values of amounts\<close>

text \<open>\<open>amount_is s x\<close>: the text \<open>s\<close> is a decimal the program reads as \<open>x\<close>.\<close>

definition amount_is :: "bytes \<Rightarrow> rat \<Rightarrow> bool" where
  "amount_is s x \<longleftrightarrow> ParseDecimal s = Inr x"

lemma amount_is_unique: "amount_is s x \<Longrightarrow> amount_is s y \<Longrightarrow> x = y"
  by (simp add: amount_is_def)

lemma ParseDecimal_FloatString [simp]:
  "prec \<le> 1000000 \<Longrightarrow> ParseDecimal (FloatString x prec) = Inr (round_scaled x prec)"
  by (simp add: ParseDecimal_def rat_SetString_FloatString Let_def)

lemma amount_is_FloatString:
  "prec \<le> 1000000 \<Longrightarrow> amount_is (FloatString x prec) (round_scaled x prec)"
  by (simp add: amount_is_def)

lemma FormatDecimal_Some [simp]: "0 \<le> scale \<Longrightarrow> FormatDecimal (Some x) scale = FloatString x (nat scale)"
  by (simp add: FormatDecimal_def)

text \<open>What is formatted at a scale is read back as the value rounded to that scale.\<close>

lemma AddMoney_Inr:
  "AddMoney a b scale = Inr m \<longleftrightarrow> Currency a = Currency b \<and>
     (\<exists>x y. amount_is (Amount a) x \<and> amount_is (Amount b) y
        \<and> m = \<lparr>Currency = Currency a, Amount = FormatDecimal (Some (x + y)) scale\<rparr>)"
  by (auto simp: AddMoney_def amount_is_def split: sum.splits if_splits)

lemma SubMoney_Inr:
  "SubMoney a b scale = Inr m \<longleftrightarrow> Currency a = Currency b \<and>
     (\<exists>x y. amount_is (Amount a) x \<and> amount_is (Amount b) y \<and> y \<le> x
        \<and> m = \<lparr>Currency = Currency a, Amount = FormatDecimal (Some (x - y)) scale\<rparr>)"
  by (auto simp: SubMoney_def amount_is_def split: sum.splits if_splits)

lemma ApplyBPS_Inr:
  "ApplyBPS a bps scale = Inr m \<longleftrightarrow>
     (\<exists>x. amount_is (Amount a) x \<and> m = \<lparr>Currency = Currency a,
        Amount = FormatDecimal (Some (x * (of_int (uint bps) / 10000))) scale\<rparr>)"
  by (auto simp: ApplyBPS_def amount_is_def split: sum.splits if_splits)

section \<open>Round trip\<close>

text \<open>C30: money survives being written down. What \<open>FormatDecimal\<close> writes, \<open>ParseDecimal\<close> reads back, as the
  value rounded to the scale: off by at most half a unit of the last place, and exact for a value that has no more places than
  the scale. So on amounts within the scale addition and subtraction are exact and undo each other.\<close>

theorem money_roundtrip:
  assumes "0 \<le> scale" "scale \<le> 1000000" "Currency a = Currency b" "amount_is (Amount a) x" "amount_is (Amount b) y"
    "has_scale x (nat scale)" "has_scale y (nat scale)" "0 \<le> x"
  shows "(\<exists>w. ParseDecimal (FormatDecimal (Some z) scale) = Inr w \<and> \<bar>w - z\<bar> \<le> 1 / (2 * 10 ^ nat scale)
      \<and> (has_scale z (nat scale) \<longrightarrow> w = z))
    \<and> (\<exists>m d. AddMoney a b scale = Inr m \<and> amount_is (Amount m) (x + y) \<and> SubMoney m b scale = Inr d \<and> amount_is (Amount d) x)"
proof
  have sc: "nat scale \<le> 1000000" using assms(2) by simp
  show "\<exists>w. ParseDecimal (FormatDecimal (Some z) scale) = Inr w \<and> \<bar>w - z\<bar> \<le> 1 / (2 * 10 ^ nat scale)
      \<and> (has_scale z (nat scale) \<longrightarrow> w = z)"
    using assms(1) sc round_scaled_error round_scaled_exact by auto
  have xy: "ParseDecimal (FormatDecimal (Some (x + y)) scale) = Inr (x + y)" "ParseDecimal (FormatDecimal (Some x) scale) = Inr x"
    using assms(1) sc by (simp_all add: round_scaled_exact assms(6,7) has_scale_add)
  then show "\<exists>m d. AddMoney a b scale = Inr m \<and> amount_is (Amount m) (x + y) \<and> SubMoney m b scale = Inr d \<and> amount_is (Amount d) x"
    using assms(3,4,5,8) by (simp add: AddMoney_def SubMoney_def amount_is_def)
qed

theorem money_roundtrip_witness:
  "\<exists>m d. AddMoney \<lparr>Currency = ''CNY'', Amount = ''12.5''\<rparr> \<lparr>Currency = ''CNY'', Amount = ''0.75''\<rparr> 8 = Inr m
    \<and> SubMoney m \<lparr>Currency = ''CNY'', Amount = ''0.75''\<rparr> 8 = Inr d \<and> amount_is (Amount d) (25 / 2)"
proof -
  have a: "amount_is ''12.5'' (25 / 2)" "amount_is ''0.75'' (3 / 4)" unfolding amount_is_def by code_simp+
  have h: "has_scale (25 / 2) 8" by (rule has_scaleI [of _ _ 1250000000]) simp
  have h': "has_scale (3 / 4) 8" by (rule has_scaleI [of _ _ 75000000]) simp
  from money_roundtrip [of 8 "\<lparr>Currency = ''CNY'', Amount = ''12.5''\<rparr>" "\<lparr>Currency = ''CNY'', Amount = ''0.75''\<rparr>" "25 / 2" "3 / 4" 0] a h h'
  show ?thesis by auto
qed

end
