(* ===== verification/Floats.thy ===== *)
theory Floats
  imports Decimal "HOL-Library.Log_Nat"
begin

text \<open>
  IEEE 754 binary floating point as the Go types \<open>float32\<close> and \<open>float64\<close> use it. A finite
  float is the rational it denotes; an operation is the exact operation followed by rounding
  to nearest, ties to even, with gradual underflow. Infinities and NaN do not occur: every
  float of the program comes from a finite JSON number or from a 32-bit integer. The sign of
  zero is not represented. Products and sums are rounded separately (no fused
  multiply-add, as on amd64).
\<close>

definition rat_floor_log2 :: "rat \<Rightarrow> int" where
  "rat_floor_log2 x = (case quotient_of x of (a, b) \<Rightarrow>
     let k = bitlen a - bitlen b
     in if rat_power 2 k * of_int b \<le> of_int a then k else k - 1)"

definition round_half_even :: "rat \<Rightarrow> int" where
  "round_half_even x = (let f = \<lfloor>x\<rfloor>; r = x - of_int f
     in if r < 1 / 2 then f else if 1 / 2 < r then f + 1 else if even f then f else f + 1)"

definition float_round :: "int \<Rightarrow> int \<Rightarrow> rat \<Rightarrow> rat" where
  "float_round prec emin x =
     (if x = 0 then 0
      else let e = max (rat_floor_log2 \<bar>x\<bar> - (prec - 1)) emin
           in sgn x * of_int (round_half_even (\<bar>x\<bar> / rat_power 2 e)) * rat_power 2 e)"

type_synonym float32 = rat
type_synonym float64 = rat

definition fl32 :: "rat \<Rightarrow> float32" where
  "fl32 = float_round 24 (- 149)"

definition fl64 :: "rat \<Rightarrow> float64" where
  "fl64 = float_round 53 (- 1074)"

text \<open>\<open>strconv.ParseFloat\<close> on a JSON number; \<open>None\<close> when the value is out of range.\<close>

definition ParseFloat32 :: "bytes \<Rightarrow> float32 option" where
  "ParseFloat32 s = (case rat_SetString s of None \<Rightarrow> None
     | Some x \<Rightarrow> if \<bar>fl32 x\<bar> < 2 ^ 128 then Some (fl32 x) else None)"

definition ParseFloat64 :: "bytes \<Rightarrow> float64 option" where
  "ParseFloat64 s = (case rat_SetString s of None \<Rightarrow> None
     | Some x \<Rightarrow> if \<bar>fl64 x\<bar> < 2 ^ 1024 then Some (fl64 x) else None)"

text \<open>Conversion of a non-negative float to an integer type truncates.\<close>

definition float_trunc :: "rat \<Rightarrow> int" where
  "float_trunc x = (if x < 0 then \<lceil>x\<rceil> else \<lfloor>x\<rfloor>)"

section \<open>Rounding error\<close>

lemma rat_power_powi: "rat_power x e = x powi e"
  by (simp add: rat_power_def power_int_def power_one_over divide_simps power_inverse)

lemma floor_log2_le:
  assumes "0 < x"
  shows "2 powi (rat_floor_log2 x) \<le> x"
proof -
  obtain a b where ab: "quotient_of x = (a, b)" by fastforce
  have b: "0 < b" using quotient_of_denom_pos [OF ab] .
  have x: "x = of_int a / of_int b" using quotient_of_div [OF ab] .
  then have a: "0 < a" using assms b by (simp add: zero_less_divide_iff)
  have "2 ^ nat (bitlen a - 1) \<le> a" "b < 2 ^ nat (bitlen b)" using bitlen_bounds [OF a] bitlen_bounds [OF b] by simp_all
  then have "(2 :: rat) ^ nat (bitlen a - 1) \<le> of_int a" "of_int b \<le> (2 :: rat) ^ nat (bitlen b)"
    by (metis of_int_le_iff of_int_numeral of_int_power, metis less_imp_le of_int_le_iff of_int_numeral of_int_power)
  moreover have "1 \<le> bitlen a" "0 \<le> bitlen b" using a bitlen_nonneg [of a] bitlen_nonneg [of b] bitlen_eq_zero_iff [of a] by linarith+
  ultimately have "2 powi (bitlen a - 1) * of_int b \<le> of_int a * (2 powi bitlen b :: rat)"
    using a b by (intro mult_mono) (simp_all add: power_int_def)
  then have "2 powi (bitlen a - 1) / 2 powi bitlen b \<le> x" using b by (simp add: x divide_le_eq le_divide_eq mult.commute)
  moreover have "2 powi (bitlen a - bitlen b - 1) = 2 powi (bitlen a - 1) / (2 powi bitlen b :: rat)"
    by (simp add: power_int_diff [symmetric] algebra_simps)
  ultimately have "2 powi (bitlen a - bitlen b - 1) \<le> x" by simp
  moreover have "2 powi (bitlen a - bitlen b) \<le> x" if "2 powi (bitlen a - bitlen b) * of_int b \<le> (of_int a :: rat)"
    using that b by (simp add: x le_divide_eq)
  ultimately show ?thesis by (simp add: rat_floor_log2_def ab Let_def rat_power_powi)
qed

lemma round_half_even_error: "\<bar>of_int (round_half_even y) - y\<bar> \<le> 1 / 2"
proof -
  have "of_int \<lfloor>y\<rfloor> \<le> y" "y < of_int \<lfloor>y\<rfloor> + 1" by linarith+
  then show ?thesis by (auto simp: round_half_even_def Let_def)
qed

lemma float_round_error:
  assumes "\<bar>x\<bar> < 2 powi (m + 1)" "emin \<le> m - (prec - 1)"
  shows "\<bar>float_round prec emin x - x\<bar> \<le> 2 powi (m - prec)"
proof (cases "x = 0")
  case False
  define e where "e = max (rat_floor_log2 \<bar>x\<bar> - (prec - 1)) emin"
  have "2 powi (rat_floor_log2 \<bar>x\<bar>) < (2 powi (m + 1) :: rat)" using floor_log2_le [of "\<bar>x\<bar>"] assms(1) False by simp
  then have "rat_floor_log2 \<bar>x\<bar> \<le> m" by (metis not_less power_int_increasing one_le_numeral zless_imp_add1_zle not_le)
  then have "e \<le> m - prec + 1" using assms(2) by (simp add: e_def)
  then have pe: "2 powi e \<le> (2 powi (m - prec) * 2 :: rat)"
    using power_int_increasing [of e "m - prec + 1" "2::rat"] by (simp add: power_int_add)
  let ?r = "of_int (round_half_even (\<bar>x\<bar> / 2 powi e)) :: rat"
  have fr: "float_round prec emin x = sgn x * ?r * 2 powi e"
    using False by (simp add: float_round_def Let_def e_def rat_power_powi)
  have "x = sgn x * (\<bar>x\<bar> / 2 powi e) * 2 powi e" by (simp add: sgn_mult_abs)
  then have "float_round prec emin x - x = sgn x * (?r - \<bar>x\<bar> / 2 powi e) * 2 powi e"
    unfolding fr by (simp add: algebra_simps)
  then have "\<bar>float_round prec emin x - x\<bar> = \<bar>?r - \<bar>x\<bar> / 2 powi e\<bar> * 2 powi e"
    using False by (simp add: abs_mult abs_sgn_eq)
  also have "\<dots> \<le> 1 / 2 * 2 powi e" by (intro mult_right_mono round_half_even_error) simp
  also have "\<dots> \<le> 2 powi (m - prec)" using pe by simp
  finally show ?thesis .
qed (simp add: float_round_def)

text \<open>Up to \<open>2 ^ 11\<close> a \<open>float64\<close> operation is off by at most \<open>2 ^ -43\<close>.\<close>

lemma fl64_error: "\<bar>x\<bar> < 2048 \<Longrightarrow> \<bar>fl64 x - x\<bar> \<le> 1 / 8796093022208"
  using float_round_error [of x 10 "- 1074" 53] by (simp add: fl64_def power_int_def power_one_over)

lemma fl64_near:
  assumes "- 2000 \<le> x" "x \<le> 2000"
  shows "fl64 x \<le> x + 1 / 1000000000000" "x - 1 / 1000000000000 \<le> fl64 x"
proof -
  have "\<bar>x\<bar> < 2048" using assms by linarith
  from fl64_error [OF this] have "\<bar>fl64 x - x\<bar> \<le> 1 / 1000000000000" by (rule order_trans) simp
  then show "fl64 x \<le> x + 1 / 1000000000000" "x - 1 / 1000000000000 \<le> fl64 x" by linarith+
qed

end
