(* ===== verification/Json.thy ===== *)
theory Json
  imports Floats
begin

text \<open>
  \<open>encoding/json\<close> as the program uses it to read transactions and payloads: the syntax of
  JSON text, and the rules by which a value is stored into a Go struct.
  \<^item> A member is matched to a field by exact name, otherwise by the name with case folded;
    members are stored in order, so a later member overwrites an earlier one; \<open>null\<close> leaves a
    scalar or struct alone; a value of the wrong kind is an error.
  \<^item> A \<open>[]byte\<close> is base64 text (or an array of small numbers).
  A member of an object also carries the text of its value, which is what a field of type
  \<open>json.RawMessage\<close> receives. When an object repeats a member whose value is an array of
  structs, the elements are decoded from fresh zero values.
\<close>

section \<open>Syntax\<close>

datatype json = JNull | JBool bool | JNum bytes | JStr bytes
  | JArr "json list" | JObj "(bytes \<times> bytes \<times> json) list"

definition json_ws :: "char \<Rightarrow> bool" where
  "json_ws c \<longleftrightarrow> c = CHR '' '' \<or> c = CHR 0x09 \<or> c = CHR 0x0D \<or> c = CHR 0x0A"

definition skip_ws :: "bytes \<Rightarrow> bytes" where
  "skip_ws = dropWhile json_ws"

text \<open>The length of the well-formed UTF-8 sequence at the front of the text, 0 if none.\<close>

definition utf8_len :: "bytes \<Rightarrow> nat" where
  "utf8_len s =
     (let n = (\<lambda>i. if i < length s then of_char (s ! i) else 0 :: nat);
          cont = (\<lambda>i. 0x80 \<le> n i \<and> n i \<le> 0xBF); a = n 0
      in if s \<noteq> [] \<and> a < 0x80 then 1
         else if 0xC2 \<le> a \<and> a \<le> 0xDF \<and> cont 1 then 2
         else if 0xE0 \<le> a \<and> a \<le> 0xEF \<and> cont 1 \<and> cont 2
              \<and> (a = 0xE0 \<longrightarrow> 0xA0 \<le> n 1) \<and> (a = 0xED \<longrightarrow> n 1 \<le> 0x9F) then 3
         else if 0xF0 \<le> a \<and> a \<le> 0xF4 \<and> cont 1 \<and> cont 2 \<and> cont 3
              \<and> (a = 0xF0 \<longrightarrow> 0x90 \<le> n 1) \<and> (a = 0xF4 \<longrightarrow> n 1 \<le> 0x8F) then 4
         else 0)"

definition utf8_encode :: "nat \<Rightarrow> bytes" where
  "utf8_encode n =
     map char_of
       (if n < 0x80 then [n]
        else if n < 0x800 then [0xC0 + n div 64, 0x80 + n mod 64]
        else if n < 0x10000 then [0xE0 + n div 4096, 0x80 + n div 64 mod 64, 0x80 + n mod 64]
        else [0xF0 + n div 262144, 0x80 + n div 4096 mod 64, 0x80 + n div 64 mod 64, 0x80 + n mod 64])"

definition replacement :: bytes where
  "replacement = utf8_encode 0xFFFD"

definition hex4 :: "bytes \<Rightarrow> nat option" where
  "hex4 s = (case s of a # b # c # d # _ \<Rightarrow>
       (case (hex_val a, hex_val b, hex_val c, hex_val d) of
          (Some w, Some x, Some y, Some z) \<Rightarrow> Some (((w * 16 + x) * 16 + y) * 16 + z)
        | _ \<Rightarrow> None)
     | _ \<Rightarrow> None)"

definition simple_escape :: "char \<Rightarrow> char option" where
  "simple_escape e = map_of
     [(CHR 0x22, CHR 0x22), (CHR 0x5C, CHR 0x5C), (CHR ''/'', CHR ''/''), (CHR ''b'', CHR 0x08),
      (CHR ''f'', CHR 0x0C), (CHR ''n'', CHR 0x0A), (CHR ''r'', CHR 0x0D), (CHR ''t'', CHR 0x09)] e"

text \<open>A code point above the basic plane from an escaped surrogate pair.\<close>

definition surrogate_pair :: "nat \<Rightarrow> bytes \<Rightarrow> nat option" where
  "surrogate_pair hi r = (case r of
       a # u # r' \<Rightarrow> if a = CHR 0x5C \<and> u = CHR ''u'' \<and> hi < 0xDC00 then
           (case hex4 r' of Some lo \<Rightarrow> if 0xDC00 \<le> lo \<and> lo < 0xE000
              then Some ((hi - 0xD800) * 1024 + (lo - 0xDC00) + 0x10000) else None
            | None \<Rightarrow> None) else None
     | _ \<Rightarrow> None)"

definition emit :: "bytes \<Rightarrow> (bytes \<times> bytes) option \<Rightarrow> (bytes \<times> bytes) option" where
  "emit s = map_option (\<lambda>(t, r). (s @ t, r))"

text \<open>The characters of a string literal after its opening quote.\<close>

function parse_str :: "bytes \<Rightarrow> (bytes \<times> bytes) option" where
  "parse_str [] = None"
| "parse_str (c # r) =
     (if c = CHR 0x22 then Some ([], r)
      else if c = CHR 0x5C then
        (case r of [] \<Rightarrow> None
         | e # r1 \<Rightarrow>
             if e = CHR ''u'' then
               (case hex4 r1 of None \<Rightarrow> None
                | Some n \<Rightarrow>
                    if 0xD800 \<le> n \<and> n < 0xE000 then
                      (case surrogate_pair n (drop 4 r1) of
                         Some m \<Rightarrow> emit (utf8_encode m) (parse_str (drop 10 r1))
                       | None \<Rightarrow> emit replacement (parse_str (drop 4 r1)))
                    else emit (utf8_encode n) (parse_str (drop 4 r1)))
             else (case simple_escape e of None \<Rightarrow> None | Some ch \<Rightarrow> emit [ch] (parse_str r1)))
      else if (of_char c :: nat) < 0x20 then None
      else if utf8_len (c # r) = 0 then emit replacement (parse_str r)
      else emit (take (utf8_len (c # r)) (c # r)) (parse_str (drop (utf8_len (c # r) - 1) r)))"
  by pat_completeness auto
termination
  by (relation "measure length") auto

definition is_digit :: "char \<Rightarrow> bool" where
  "is_digit c \<longleftrightarrow> CHR ''0'' \<le> c \<and> c \<le> CHR ''9''"

text \<open>A number literal: its text and what follows.\<close>

definition parse_num :: "bytes \<Rightarrow> (bytes \<times> bytes) option" where
  "parse_num s =
     (let (sg, r0) = (case s of c # r \<Rightarrow> if c = CHR ''-'' then ([c], r) else ([], s) | [] \<Rightarrow> ([], s));
          ip = takeWhile is_digit r0; r1 = dropWhile is_digit r0;
          (fp, r2) = (case r1 of c # r \<Rightarrow> if c = CHR ''.'' then (c # takeWhile is_digit r, dropWhile is_digit r)
                        else ([], r1) | [] \<Rightarrow> ([], r1));
          (ep, r3) = (case r2 of c # r \<Rightarrow>
               if c = CHR ''e'' \<or> c = CHR ''E'' then
                 (let (es, q) = (case r of d # r' \<Rightarrow> if d = CHR ''+'' \<or> d = CHR ''-'' then ([c, d], r') else ([c], r)
                                 | [] \<Rightarrow> ([c], r))
                  in (es @ takeWhile is_digit q, dropWhile is_digit q))
               else ([], r2) | [] \<Rightarrow> ([], r2))
      in if ip = [] \<or> (1 < length ip \<and> hd ip = CHR ''0'') \<or> length fp = 1
           \<or> (ep \<noteq> [] \<and> \<not> is_digit (last ep)) then None
         else Some (sg @ ip @ fp @ ep, r3))"

definition parse_lit :: "bytes \<Rightarrow> json \<Rightarrow> bytes \<Rightarrow> (json \<times> bytes) option" where
  "parse_lit w v s = (if prefix w s then Some (v, drop (length w) s) else None)"

text \<open>
  Values, array elements and object members. The first argument is the nesting that is
  still allowed (10000 at the top). The comparisons of lengths always hold: what a
  recursive call leaves unread is shorter than what it was given.
\<close>

function parse_value :: "nat \<Rightarrow> bytes \<Rightarrow> (json \<times> bytes) option"
  and parse_elems :: "nat \<Rightarrow> bytes \<Rightarrow> (json list \<times> bytes) option"
  and parse_members :: "nat \<Rightarrow> bytes \<Rightarrow> ((bytes \<times> bytes \<times> json) list \<times> bytes) option" where
  "parse_value d s =
     (case skip_ws s of [] \<Rightarrow> None
      | c # r \<Rightarrow>
          if c = CHR ''{'' then
            (if d = 0 then None
             else case skip_ws r of
                 [] \<Rightarrow> None
               | e # r1 \<Rightarrow> if e = CHR ''}'' then Some (JObj [], r1)
                   else if length r < length s then map_option (\<lambda>(ms, q). (JObj ms, q)) (parse_members (d - 1) r)
                   else None)
          else if c = CHR ''['' then
            (if d = 0 then None
             else case skip_ws r of
                 [] \<Rightarrow> None
               | e # r1 \<Rightarrow> if e = CHR '']'' then Some (JArr [], r1)
                   else if length r < length s then map_option (\<lambda>(vs, q). (JArr vs, q)) (parse_elems (d - 1) r)
                   else None)
          else if c = CHR 0x22 then map_option (\<lambda>(t, q). (JStr t, q)) (parse_str r)
          else if c = CHR ''t'' then parse_lit ''true'' (JBool True) (c # r)
          else if c = CHR ''f'' then parse_lit ''false'' (JBool False) (c # r)
          else if c = CHR ''n'' then parse_lit ''null'' JNull (c # r)
          else map_option (\<lambda>(t, q). (JNum t, q)) (parse_num (c # r)))"
| "parse_elems d s =
     (case parse_value d s of None \<Rightarrow> None
      | Some (v, r) \<Rightarrow>
          (case skip_ws r of [] \<Rightarrow> None
           | c # r1 \<Rightarrow>
               if c = CHR '']'' then Some ([v], r1)
               else if c = CHR '','' \<and> length r1 < length s
                 then map_option (\<lambda>(vs, q). (v # vs, q)) (parse_elems d r1)
               else None))"
| "parse_members d s =
     (case skip_ws s of [] \<Rightarrow> None
      | c # r \<Rightarrow>
          if c \<noteq> CHR 0x22 then None
          else case parse_str r of None \<Rightarrow> None
             | Some (k, r1) \<Rightarrow>
                 (case skip_ws r1 of [] \<Rightarrow> None
                  | e # r2 \<Rightarrow>
                      if e \<noteq> CHR '':'' \<or> \<not> length r2 < length s then None
                      else case parse_value d r2 of None \<Rightarrow> None
                         | Some (v, r3) \<Rightarrow>
                             (let raw = take (length (skip_ws r2) - length r3) (skip_ws r2)
                              in case skip_ws r3 of [] \<Rightarrow> None
                                 | f # r4 \<Rightarrow>
                                     if f = CHR ''}'' then Some ([(k, raw, v)], r4)
                                     else if f = CHR '','' \<and> length r4 < length s
                                       then map_option (\<lambda>(ms, q). ((k, raw, v) # ms, q)) (parse_members d r4)
                                     else None)))"
  by pat_completeness auto
termination
  by (relation "measure (\<lambda>x. case x of Inl (d, s) \<Rightarrow> 2 * length s
        | Inr (Inl (d, s)) \<Rightarrow> 2 * length s + 1 | Inr (Inr (d, s)) \<Rightarrow> 2 * length s + 1)") auto

declare parse_value.simps [simp del] parse_elems.simps [simp del] parse_members.simps [simp del]
declare parse_str.simps [simp del]

definition max_nesting :: nat where
  "max_nesting = 10000"

text \<open>\<open>json.Unmarshal\<close>: one value and nothing but white space after it.\<close>

definition Unmarshal :: "bytes \<Rightarrow> json option" where
  "Unmarshal s = (case parse_value max_nesting s of
     Some (v, r) \<Rightarrow> if skip_ws r = [] then Some v else None | None \<Rightarrow> None)"

text \<open>\<open>Decoder.Decode\<close>: the first value of the stream; what follows it is not read.\<close>

definition DecodeFirst :: "bytes \<Rightarrow> json option" where
  "DecodeFirst s = map_option fst (parse_value max_nesting s)"

section \<open>Storing a value into a Go variable\<close>

text \<open>An integer literal; \<open>strconv.ParseInt\<close> accepts no fraction and no exponent.\<close>

definition lit_int :: "bytes \<Rightarrow> int option" where
  "lit_int s = (case s of
       c # r \<Rightarrow> if c = CHR ''-'' then (if list_all is_digit r then map_option uminus (int_SetString (CHR ''+'' # r)) else None)
               else if list_all is_digit s then int_SetString s else None
     | [] \<Rightarrow> None)"

definition lit_range :: "int \<Rightarrow> int \<Rightarrow> bytes \<Rightarrow> int option" where
  "lit_range lo hi s = (case lit_int s of Some i \<Rightarrow> if lo \<le> i \<and> i < hi then Some i else None | None \<Rightarrow> None)"

text \<open>Decoders into a variable that holds \<open>old\<close>; \<open>None\<close> is a type error.\<close>

definition dec_string :: "json \<Rightarrow> bytes \<Rightarrow> bytes option" where
  "dec_string j old = (case j of JStr s \<Rightarrow> Some s | JNull \<Rightarrow> Some old | _ \<Rightarrow> None)"

definition dec_bool :: "json \<Rightarrow> bool \<Rightarrow> bool option" where
  "dec_bool j old = (case j of JBool b \<Rightarrow> Some b | JNull \<Rightarrow> Some old | _ \<Rightarrow> None)"

definition dec_int64 :: "json \<Rightarrow> int64 \<Rightarrow> int64 option" where
  "dec_int64 j old = (case j of JNum s \<Rightarrow> lit_range (- (2 ^ 63)) (2 ^ 63) s | JNull \<Rightarrow> Some old | _ \<Rightarrow> None)"

text \<open>\<open>strconv.ParseUint\<close> accepts no sign, so \<open>-0\<close> is refused too.\<close>

definition dec_uint :: "int \<Rightarrow> json \<Rightarrow> ('a::len) word \<Rightarrow> 'a word option" where
  "dec_uint hi j old = (case j of
       JNum s \<Rightarrow> if hd s = CHR ''-'' then None else map_option word_of_int (lit_range 0 hi s)
     | JNull \<Rightarrow> Some old | _ \<Rightarrow> None)"

definition dec_uint32 :: "json \<Rightarrow> uint32 \<Rightarrow> uint32 option" where
  "dec_uint32 = dec_uint (2 ^ 32)"

definition dec_uint64 :: "json \<Rightarrow> uint64 \<Rightarrow> uint64 option" where
  "dec_uint64 = dec_uint (2 ^ 64)"

definition dec_float32 :: "json \<Rightarrow> float32 \<Rightarrow> float32 option" where
  "dec_float32 j old = (case j of JNum s \<Rightarrow> ParseFloat32 s | JNull \<Rightarrow> Some old | _ \<Rightarrow> None)"

fun opt_list :: "'a option list \<Rightarrow> 'a list option" where
  "opt_list [] = Some []"
| "opt_list (None # _) = None"
| "opt_list (Some x # xs) = map_option ((#) x) (opt_list xs)"

definition dec_list :: "(json \<Rightarrow> 'a \<Rightarrow> 'a option) \<Rightarrow> 'a \<Rightarrow> json \<Rightarrow> 'a list \<Rightarrow> 'a list option" where
  "dec_list dec zero j old = (case j of JArr js \<Rightarrow> opt_list (map (\<lambda>v. dec v zero) js)
     | JNull \<Rightarrow> Some [] | _ \<Rightarrow> None)"

definition dec_byte :: "json \<Rightarrow> char \<Rightarrow> char option" where
  "dec_byte j old = (case j of
       JNum s \<Rightarrow> if hd s = CHR ''-'' then None else map_option (\<lambda>i. char_of (nat i)) (lit_range 0 256 s)
     | JNull \<Rightarrow> Some old | _ \<Rightarrow> None)"

definition dec_bytes :: "json \<Rightarrow> bytes \<Rightarrow> bytes option" where
  "dec_bytes j old = (case j of JStr s \<Rightarrow> base64_Decode s
     | JArr _ \<Rightarrow> dec_list dec_byte (CHR 0x00) j old | JNull \<Rightarrow> Some [] | _ \<Rightarrow> None)"

text \<open>A field: how a member's text and value change the struct.\<close>

type_synonym 'r field = "bytes \<Rightarrow> json \<Rightarrow> 'r \<Rightarrow> 'r option"

definition fld :: "(json \<Rightarrow> 'a \<Rightarrow> 'a option) \<Rightarrow> ('r \<Rightarrow> 'a) \<Rightarrow> (('a \<Rightarrow> 'a) \<Rightarrow> 'r \<Rightarrow> 'r) \<Rightarrow> 'r field" where
  "fld dec get upd raw j x = map_option (\<lambda>v. upd (\<lambda>_. v) x) (dec j (get x))"

definition find_field :: "(bytes \<times> 'r field) list \<Rightarrow> bytes \<Rightarrow> 'r field option" where
  "find_field fs k = (case map_of fs k of Some f \<Rightarrow> Some f
     | None \<Rightarrow> map_of (map (\<lambda>(n, f). (foldName n, f)) fs) (foldName k))"

text \<open>The members of an object, in order. \<open>strict\<close> is \<open>DisallowUnknownFields\<close>.\<close>

fun store_members :: "bool \<Rightarrow> (bytes \<times> 'r field) list \<Rightarrow> (bytes \<times> bytes \<times> json) list \<Rightarrow> 'r \<Rightarrow> 'r option" where
  "store_members strict fs [] x = Some x"
| "store_members strict fs ((k, raw, v) # ms) x =
     (case find_field fs k of
        None \<Rightarrow> if strict then None else store_members strict fs ms x
      | Some f \<Rightarrow> (case f raw v x of None \<Rightarrow> None | Some y \<Rightarrow> store_members strict fs ms y))"

definition dec_struct :: "bool \<Rightarrow> (bytes \<times> 'r field) list \<Rightarrow> json \<Rightarrow> 'r \<Rightarrow> 'r option" where
  "dec_struct strict fs j x = (case j of JObj ms \<Rightarrow> store_members strict fs ms x
     | JNull \<Rightarrow> Some x | _ \<Rightarrow> None)"

end
