(* ===== verification/Sha256.thy ===== *)
theory Sha256
  imports Prelude
begin

text \<open>
  \<open>crypto/sha256\<close> (FIPS 180-4), which derives every identifier of the chain and the
  application hash. The definitions are executable.
\<close>

unbundle bit_operations_syntax

section \<open>The compression function\<close>

definition sha_k :: "uint32 list" where
  "sha_k =
    [0x428a2f98, 0x71374491, 0xb5c0fbcf, 0xe9b5dba5, 0x3956c25b, 0x59f111f1, 0x923f82a4, 0xab1c5ed5,
     0xd807aa98, 0x12835b01, 0x243185be, 0x550c7dc3, 0x72be5d74, 0x80deb1fe, 0x9bdc06a7, 0xc19bf174,
     0xe49b69c1, 0xefbe4786, 0x0fc19dc6, 0x240ca1cc, 0x2de92c6f, 0x4a7484aa, 0x5cb0a9dc, 0x76f988da,
     0x983e5152, 0xa831c66d, 0xb00327c8, 0xbf597fc7, 0xc6e00bf3, 0xd5a79147, 0x06ca6351, 0x14292967,
     0x27b70a85, 0x2e1b2138, 0x4d2c6dfc, 0x53380d13, 0x650a7354, 0x766a0abb, 0x81c2c92e, 0x92722c85,
     0xa2bfe8a1, 0xa81a664b, 0xc24b8b70, 0xc76c51a3, 0xd192e819, 0xd6990624, 0xf40e3585, 0x106aa070,
     0x19a4c116, 0x1e376c08, 0x2748774c, 0x34b0bcb5, 0x391c0cb3, 0x4ed8aa4a, 0x5b9cca4f, 0x682e6ff3,
     0x748f82ee, 0x78a5636f, 0x84c87814, 0x8cc70208, 0x90befffa, 0xa4506ceb, 0xbef9a3f7, 0xc67178f2]"

definition rotr :: "nat \<Rightarrow> uint32 \<Rightarrow> uint32" where
  "rotr n w = drop_bit n w OR push_bit (32 - n) w"

definition sha_ssig0 :: "uint32 \<Rightarrow> uint32" where
  "sha_ssig0 w = rotr 7 w XOR rotr 18 w XOR drop_bit 3 w"

definition sha_ssig1 :: "uint32 \<Rightarrow> uint32" where
  "sha_ssig1 w = rotr 17 w XOR rotr 19 w XOR drop_bit 10 w"

text \<open>The message schedule, kept as the last sixteen words, newest first.\<close>

definition sha_next :: "uint32 list \<Rightarrow> uint32" where
  "sha_next ws = sha_ssig1 (ws ! 1) + ws ! 6 + sha_ssig0 (ws ! 14) + ws ! 15"

type_synonym sha_state = "uint32 \<times> uint32 \<times> uint32 \<times> uint32 \<times> uint32 \<times> uint32 \<times> uint32 \<times> uint32"

definition sha_round :: "uint32 \<Rightarrow> uint32 \<Rightarrow> sha_state \<Rightarrow> sha_state" where
  "sha_round k w st = (case st of (a, b, c, d, e, f, g, h) \<Rightarrow>
     let t1 = h + (rotr 6 e XOR rotr 11 e XOR rotr 25 e) + ((e AND f) XOR (NOT e AND g)) + k + w;
         t2 = (rotr 2 a XOR rotr 13 a XOR rotr 22 a) + ((a AND b) XOR (a AND c) XOR (b AND c))
     in (t1 + t2, a, b, c, d + t1, e, f, g))"

text \<open>Round \<open>i < 16\<close> takes the message word itself, the later rounds extend the schedule.\<close>

fun sha_rounds :: "uint32 list \<Rightarrow> uint32 list \<Rightarrow> uint32 list \<Rightarrow> sha_state \<Rightarrow> sha_state" where
  "sha_rounds [] msg ws st = st"
| "sha_rounds (k # ks) (m # msg) ws st = sha_rounds ks msg (m # ws) (sha_round k m st)"
| "sha_rounds (k # ks) [] ws st =
     (let w = sha_next ws in sha_rounds ks [] (w # take 15 ws) (sha_round k w st))"

definition sha_add :: "sha_state \<Rightarrow> sha_state \<Rightarrow> sha_state" where
  "sha_add s t = (case s of (a, b, c, d, e, f, g, h) \<Rightarrow>
     (case t of (a', b', c', d', e', f', g', h') \<Rightarrow>
       (a + a', b + b', c + c', d + d', e + e', f + f', g + g', h + h')))"

definition sha_init :: sha_state where
  "sha_init = (0x6a09e667, 0xbb67ae85, 0x3c6ef372, 0xa54ff53a, 0x510e527f, 0x9b05688c, 0x1f83d9ab, 0x5be0cd19)"

section \<open>Padding and output\<close>

fun be_words :: "bytes \<Rightarrow> uint32 list" where
  "be_words (a # b # c # d # r) =
     word_of_nat (((of_char a * 256 + of_char b) * 256 + of_char c) * 256 + of_char d) # be_words r"
| "be_words _ = []"

definition sha_pad :: "bytes \<Rightarrow> bytes" where
  "sha_pad m = m @ [CHR 0x80] @ replicate ((119 - length m mod 64) mod 64) (CHR 0x00)
     @ PutUint64 (word_of_nat (8 * length m))"

fun sha_blocks :: "nat \<Rightarrow> uint32 list \<Rightarrow> sha_state \<Rightarrow> sha_state" where
  "sha_blocks 0 ws st = st"
| "sha_blocks (Suc n) ws st = sha_blocks n (drop 16 ws) (sha_add st (sha_rounds sha_k (take 16 ws) [] st))"

definition be_bytes32 :: "uint32 \<Rightarrow> bytes" where
  "be_bytes32 w = map (\<lambda>i. char_of (unat w div 256 ^ i)) [3, 2, 1, 0]"

text \<open>\<open>sha256.Sum256\<close>, and \<open>h.Sum(nil)\<close> after writing the pieces of \<open>m\<close> to \<open>sha256.New()\<close>.\<close>

definition Sum256 :: "bytes \<Rightarrow> bytes" where
  "Sum256 m = (let ws = be_words (sha_pad m) in
     case sha_blocks (length ws div 16) ws sha_init of (a, b, c, d, e, f, g, h) \<Rightarrow>
       concat (map be_bytes32 [a, b, c, d, e, f, g, h]))"

lemma length_Sum256 [simp]: "length (Sum256 m) = 32"
  by (simp add: Sum256_def Let_def be_bytes32_def split: prod.split)

end
