(* ===== verification/Types.thy ===== *)
theory Types
  imports Money Json Sha256
begin

text \<open>
  \<open>internal/types\<close>: result codes, execution results, events and the transaction envelope,
  with the checks \<open>ValidateBasic\<close> makes and the decoding of an envelope from JSON text.
\<close>

section \<open>errors.go\<close>

abbreviation CodeOK :: uint32 where "CodeOK \<equiv> 0"
abbreviation CodeDecodeFail :: uint32 where "CodeDecodeFail \<equiv> 1"
abbreviation CodeBadSignature :: uint32 where "CodeBadSignature \<equiv> 2"
abbreviation CodeUnknownMod :: uint32 where "CodeUnknownMod \<equiv> 3"
abbreviation CodeBadNonce :: uint32 where "CodeBadNonce \<equiv> 4"
abbreviation CodeOutOfGas :: uint32 where "CodeOutOfGas \<equiv> 5"
abbreviation CodeAMXBase :: uint32 where "CodeAMXBase \<equiv> 10"
abbreviation CodeAAPBase :: uint32 where "CodeAAPBase \<equiv> 20"
abbreviation CodeWEAVEBase :: uint32 where "CodeWEAVEBase \<equiv> 30"
abbreviation CodeCapUTXOBase :: uint32 where "CodeCapUTXOBase \<equiv> 40"
abbreviation CodeREPBase :: uint32 where "CodeREPBase \<equiv> 50"
abbreviation CodeARBBase :: uint32 where "CodeARBBase \<equiv> 60"
abbreviation CodeFIATBase :: uint32 where "CodeFIATBase \<equiv> 70"
abbreviation CodeNodeBase :: uint32 where "CodeNodeBase \<equiv> 80"
abbreviation CodeGovBase :: uint32 where "CodeGovBase \<equiv> 90"
abbreviation CodeAFDBase :: uint32 where "CodeAFDBase \<equiv> 100"

definition NewAppError :: "uint32 \<Rightarrow> bytes \<Rightarrow> goerr" where
  "NewAppError code fmt = AppError code fmt"

definition CodeFromError :: "goerr option \<Rightarrow> uint32 \<Rightarrow> uint32" where
  "CodeFromError err fallback = (case err of None \<Rightarrow> CodeOK
     | Some (AppError c _) \<Rightarrow> c | Some (PlainError _) \<Rightarrow> fallback)"

section \<open>exec_result.go\<close>

text \<open>The attributes of an event are a Go map, written as the list of its entries.\<close>

record Event =
  ev_Type :: bytes
  ev_Attributes :: "(bytes \<times> bytes) list"

record ExecTxResult =
  res_Code :: uint32
  res_Log :: bytes
  res_GasUsed :: uint64
  res_Events :: "Event list"
  res_Data :: bytes
  res_Metadata :: "(bytes \<times> bytes) list"

definition SuccessResult :: "uint64 \<Rightarrow> Event list \<Rightarrow> ExecTxResult" where
  "SuccessResult gasUsed events =
     \<lparr>res_Code = CodeOK, res_Log = [], res_GasUsed = gasUsed, res_Events = events,
      res_Data = [], res_Metadata = []\<rparr>"

definition FailResult :: "uint32 \<Rightarrow> bytes \<Rightarrow> ExecTxResult" where
  "FailResult code msg = \<lparr>res_Code = code, res_Log = msg, res_GasUsed = 0, res_Events = [],
      res_Data = [], res_Metadata = []\<rparr>"

definition mkEvent :: "bytes \<Rightarrow> (bytes \<times> bytes) list \<Rightarrow> Event" where
  "mkEvent t as = \<lparr>ev_Type = t, ev_Attributes = as\<rparr>"

section \<open>tx.go\<close>

definition allowedModules :: "bytes list" where
  "allowedModules = [''amx'', ''aap'', ''weave'', ''caputxo'', ''rep'', ''arb'', ''afd'', ''fiat'', ''gov'', ''node'']"

record TxEnvelope =
  Sender :: bytes
  Nonce :: uint64
  GasLimit :: uint64
  GasPrice :: uint64
  Module :: bytes
  Action :: bytes
  Payload :: bytes
  Signature :: bytes
  Memo :: bytes
  TimeoutHeight :: int64

record signableTx =
  sg_Sender :: bytes
  sg_Nonce :: uint64
  sg_GasLimit :: uint64
  sg_GasPrice :: uint64
  sg_Module :: bytes
  sg_Action :: bytes
  sg_Payload :: bytes

definition ValidateBasic :: "TxEnvelope \<Rightarrow> goerr option" where
  "ValidateBasic t =
     (if length (Sender t) \<noteq> 32 then Some (PlainError ''sender must be 32 bytes'')
      else if GasLimit t = 0 then Some (PlainError ''gas_limit must be > 0'')
      else if Module t = [] \<or> Action t = [] then Some (PlainError ''module and action are required'')
      else if Module t \<notin> set allowedModules then Some (PlainError ''module %q is not allowed'')
      else if length (Signature t) \<noteq> 64 then Some (PlainError ''signature must be 64 bytes'')
      else if 256 < length (Memo t) then Some (PlainError ''memo must be <= 256 chars'')
      else None)"

definition zeroTx :: TxEnvelope where
  "zeroTx = \<lparr>Sender = [], Nonce = 0, GasLimit = 0, GasPrice = 0, Module = [], Action = [],
     Payload = [], Signature = [], Memo = [], TimeoutHeight = 0\<rparr>"

definition tx_fields :: "(bytes \<times> TxEnvelope field) list" where
  "tx_fields =
     [(''sender'', fld dec_bytes Sender Sender_update), (''nonce'', fld dec_uint64 Nonce Nonce_update),
      (''gas_limit'', fld dec_uint64 GasLimit GasLimit_update),
      (''gas_price'', fld dec_uint64 GasPrice GasPrice_update),
      (''module'', fld dec_string Module Module_update), (''action'', fld dec_string Action Action_update),
      (''payload'', \<lambda>raw j t. Some (t\<lparr>Payload := raw\<rparr>)),
      (''signature'', fld dec_bytes Signature Signature_update), (''memo'', fld dec_string Memo Memo_update),
      (''timeout_height'', fld dec_int64 TimeoutHeight TimeoutHeight_update)]"

definition DecodeTx :: "bytes \<Rightarrow> TxEnvelope option" where
  "DecodeTx raw = (case DecodeFirst raw of None \<Rightarrow> None
     | Some j \<Rightarrow> dec_struct True tx_fields j zeroTx)"

text \<open>\<open>DecodeJSONPayload\<close> of \<open>internal/modules/common\<close> for a payload type given by its fields
  and its zero value.\<close>

definition DecodeJSONPayload :: "(bytes \<times> 'p field) list \<Rightarrow> 'p \<Rightarrow> TxEnvelope \<Rightarrow> 'p option" where
  "DecodeJSONPayload fs zero env = (case Unmarshal (Payload env) of None \<Rightarrow> None
     | Some j \<Rightarrow> dec_struct False fs j zero)"

definition money_fields :: "(bytes \<times> Money field) list" where
  "money_fields = [(''currency'', fld dec_string Currency Currency_update),
     (''amount'', fld dec_string Amount Amount_update)]"

definition zeroMoney :: Money where
  "zeroMoney = \<lparr>Currency = [], Amount = []\<rparr>"

abbreviation dec_Money :: "json \<Rightarrow> Money \<Rightarrow> Money option" where
  "dec_Money \<equiv> dec_struct False money_fields"

text \<open>\<open>equalBytes\<close>, which the modules define each for themselves.\<close>

definition equalBytes :: "bytes \<Rightarrow> bytes \<Rightarrow> bool" where
  "equalBytes a b = (if length a \<noteq> length b then False
     else list_all (\<lambda>i. a ! i = b ! i) [0..<length a])"

lemma equalBytes_eq [simp]: "equalBytes a b \<longleftrightarrow> a = b"
  by (auto simp: equalBytes_def list_all_iff intro: nth_equalityI)

lemma SuccessResult_sel [simp]:
  "res_Code (SuccessResult g es) = CodeOK" "res_GasUsed (SuccessResult g es) = g"
  "res_Events (SuccessResult g es) = es"
  by (simp_all add: SuccessResult_def)

lemma FailResult_sel [simp]:
  "res_Code (FailResult c m) = c" "res_Log (FailResult c m) = m" "res_GasUsed (FailResult c m) = 0"
  by (simp_all add: FailResult_def)

lemma CodeFromError_simps [simp]:
  "CodeFromError None f = CodeOK" "CodeFromError (Some (AppError c m)) f = c"
  "CodeFromError (Some (PlainError m)) f = f" "CodeFromError (Some (NewAppError c m)) f = c"
  by (simp_all add: CodeFromError_def NewAppError_def)

end
