(* ===== verification/Ieee.thy ===== *)
theory Ieee
  imports Floats
begin

text \<open>
  Arithmetic on \<open>float64\<close> with infinities and NaN, the square root of \<open>math.Sqrt\<close> and the verb \<open>%.nf\<close> of \<open>fmt\<close>. A finite value
  is the rational it denotes, as in \<open>Floats\<close>; the sign of zero is not represented, and a division by zero is one by
  positive zero.
\<close>

datatype xfloat = Fin rat | Infty bool | NaN

text \<open>\<open>Infty True\<close> is negative. A rounded result whose exponent exceeds the largest of the format is an infinity.\<close>

definition pack :: "int \<Rightarrow> rat \<Rightarrow> xfloat" where
  "pack emax r = (if r \<noteq> 0 \<and> emax < rat_floor_log2 \<bar>r\<bar> then Infty (r < 0) else Fin r)"

definition pack64 :: "rat \<Rightarrow> xfloat" where
  "pack64 x = pack 1023 (fl64 x)"

definition pack32 :: "rat \<Rightarrow> xfloat" where
  "pack32 x = pack 127 (fl32 x)"

fun x_add :: "xfloat \<Rightarrow> xfloat \<Rightarrow> xfloat" where
  "x_add (Fin a) (Fin b) = pack64 (a + b)"
| "x_add (Infty s) (Fin b) = Infty s"
| "x_add (Fin a) (Infty t) = Infty t"
| "x_add (Infty s) (Infty t) = (if s = t then Infty s else NaN)"
| "x_add NaN y = NaN"
| "x_add x NaN = NaN"

fun x_neg :: "xfloat \<Rightarrow> xfloat" where
  "x_neg (Fin a) = Fin (- a)"
| "x_neg (Infty s) = Infty (\<not> s)"
| "x_neg NaN = NaN"

definition x_sub :: "xfloat \<Rightarrow> xfloat \<Rightarrow> xfloat" where
  "x_sub x y = x_add x (x_neg y)"

fun x_mul :: "xfloat \<Rightarrow> xfloat \<Rightarrow> xfloat" where
  "x_mul (Fin a) (Fin b) = pack64 (a * b)"
| "x_mul (Infty s) (Fin b) = (if b = 0 then NaN else Infty (s \<noteq> (b < 0)))"
| "x_mul (Fin a) (Infty t) = (if a = 0 then NaN else Infty (t \<noteq> (a < 0)))"
| "x_mul (Infty s) (Infty t) = Infty (s \<noteq> t)"
| "x_mul NaN y = NaN"
| "x_mul x NaN = NaN"

fun x_div :: "xfloat \<Rightarrow> xfloat \<Rightarrow> xfloat" where
  "x_div (Fin a) (Fin b) = (if b = 0 then if a = 0 then NaN else Infty (a < 0) else pack64 (a / b))"
| "x_div (Infty s) (Fin b) = Infty (s \<noteq> (b < 0))"
| "x_div (Fin a) (Infty t) = Fin 0"
| "x_div (Infty s) (Infty t) = NaN"
| "x_div NaN y = NaN"
| "x_div x NaN = NaN"

fun x_abs :: "xfloat \<Rightarrow> xfloat" where
  "x_abs (Fin a) = Fin \<bar>a\<bar>"
| "x_abs (Infty s) = Infty False"
| "x_abs NaN = NaN"

text \<open>Every comparison with NaN is false.\<close>

fun x_le :: "xfloat \<Rightarrow> xfloat \<Rightarrow> bool" where
  "x_le (Fin a) (Fin b) = (a \<le> b)"
| "x_le (Infty s) (Fin b) = s"
| "x_le (Fin a) (Infty t) = (\<not> t)"
| "x_le (Infty s) (Infty t) = (s \<or> \<not> t)"
| "x_le NaN y = False"
| "x_le x NaN = False"

definition x_eq :: "xfloat \<Rightarrow> xfloat \<Rightarrow> bool" where
  "x_eq x y = (x = y \<and> x \<noteq> NaN)"

definition x_less :: "xfloat \<Rightarrow> xfloat \<Rightarrow> bool" where
  "x_less x y = (x_le x y \<and> \<not> x_eq x y)"

text \<open>\<open>math.Min\<close>: negative infinity wins, then NaN.\<close>

definition x_min :: "xfloat \<Rightarrow> xfloat \<Rightarrow> xfloat" where
  "x_min x y = (if x = Infty True \<or> y = Infty True then Infty True else if x = NaN \<or> y = NaN then NaN else if x_less x y then x else y)"

fun to_float32 :: "xfloat \<Rightarrow> xfloat" where
  "to_float32 (Fin a) = pack32 a"
| "to_float32 x = x"

text \<open>Sums and products of small integers are exact.\<close>

lemma floor_log2_int:
  assumes "\<bar>k\<bar> < 2 ^ 53" "k \<noteq> 0"
  shows "rat_floor_log2 \<bar>of_int k\<bar> < 53"
proof -
  have "2 powi rat_floor_log2 \<bar>of_int k\<bar> \<le> \<bar>of_int k :: rat\<bar>" using assms(2) by (intro floor_log2_le) simp
  also have "\<dots> < 2 powi 53" using assms(1) by (simp add: power_int_def flip: of_int_abs)
  finally show ?thesis by (meson not_le power_int_increasing one_le_numeral)
qed

lemma fl64_int:
  assumes "\<bar>k\<bar> < 2 ^ 53"
  shows "fl64 (of_int k) = of_int k"
proof (cases "k = 0")
  case False
  define e where "e = max (rat_floor_log2 \<bar>of_int k\<bar> - 52) (- 1074)"
  have e: "e \<le> 0" using floor_log2_int [OF assms False] by (simp add: e_def)
  then obtain m where m: "e = - int m" using nonpos_int_cases by blast
  have i: "\<bar>of_int k\<bar> / rat_power 2 e = of_int (\<bar>k\<bar> * 2 ^ m)" by (simp add: m rat_power_powi power_int_minus divide_inverse)
  have "round_half_even (of_int j) = j" for j by (simp add: round_half_even_def)
  then have "of_int (round_half_even (\<bar>of_int k\<bar> / rat_power 2 e)) = \<bar>of_int k\<bar> / rat_power 2 e" by (simp only: i)
  moreover have "fl64 (of_int k) = sgn (of_int k) * of_int (round_half_even (\<bar>of_int k\<bar> / rat_power 2 e)) * rat_power 2 e"
    using False by (simp add: fl64_def float_round_def Let_def e_def)
  ultimately have "fl64 (of_int k) = sgn (of_int k) * (\<bar>of_int k\<bar> / rat_power 2 e) * rat_power 2 e" by simp
  then show ?thesis by (simp add: rat_power_powi sgn_mult_abs)
qed (simp add: fl64_def float_round_def)

lemma pack64_int: "\<bar>k\<bar> < 2 ^ 53 \<Longrightarrow> pack64 (of_int k) = Fin (of_int k)"
  using fl64_int [of k] floor_log2_int [of k] by (cases "k = 0") (simp_all add: pack64_def pack_def)

text \<open>So are powers of two.\<close>

lemma fl64_power:
  shows "rat_floor_log2 (2 ^ m) = int m" and "53 \<le> m \<Longrightarrow> fl64 (2 ^ m) = 2 ^ m"
proof -
  have one: "bitlen 1 = 1" by code_simp
  then have "bitlen (2 ^ m) = int m + 1" using bitlen_pow2 [of 1 m] by simp
  moreover have "quotient_of (2 ^ m) = (2 ^ m, 1)" using quotient_of_int [of "2 ^ m"] by (simp add: Rat.of_int_def)
  ultimately show l: "rat_floor_log2 (2 ^ m) = int m" using one by (simp add: rat_floor_log2_def Let_def rat_power_powi)
  assume m: "53 \<le> m"
  have "(2 ^ m :: rat) = 2 powi (52 + (int m - 52))" by (simp add: power_int_def)
  also have "\<dots> = 2 powi 52 * 2 powi (int m - 52)" by (rule power_int_add) simp
  finally have "(2 ^ m :: rat) = 2 powi 52 * 2 powi (int m - 52)" .
  then have q: "2 ^ m / rat_power 2 (int m - 52) = (of_int (2 ^ 52) :: rat)" by (simp add: rat_power_powi power_int_def)
  have r: "round_half_even (of_int j) = j" for j by (simp add: round_half_even_def)
  have "max (int m - 52) (- 1074) = int m - 52" using m by simp
  then have "fl64 (2 ^ m) = of_int (round_half_even (2 ^ m / rat_power 2 (int m - 52))) * rat_power 2 (int m - 52)"
    by (simp add: fl64_def float_round_def Let_def l)
  also have "\<dots> = 2 ^ m / rat_power 2 (int m - 52) * rat_power 2 (int m - 52)" by (simp only: q r)
  also have "\<dots> = 2 ^ m" by (simp add: rat_power_powi)
  finally show "fl64 (2 ^ m) = 2 ^ m" .
qed

section \<open>The square root\<close>

text \<open>The integer part of a square root, two binary digits at a time.\<close>

function isqrt :: "int \<Rightarrow> int" where
  "isqrt n = (if n \<le> 0 then 0 else let r = 2 * isqrt (n div 4) in if (r + 1) * (r + 1) \<le> n then r + 1 else r)"
  by auto
termination by (relation "measure nat") auto

declare isqrt.simps [simp del]

lemma isqrt_spec: "0 \<le> n \<Longrightarrow> 0 \<le> isqrt n \<and> isqrt n * isqrt n \<le> n \<and> n < (isqrt n + 1) * (isqrt n + 1)"
proof (induction n rule: isqrt.induct)
  case (1 n)
  show ?case
  proof (cases "n \<le> 0")
    case False
    let ?s = "isqrt (n div 4)"
    have ih: "0 \<le> ?s \<and> ?s * ?s \<le> n div 4 \<and> n div 4 < (?s + 1) * (?s + 1)" using 1 False by simp
    then have s: "0 \<le> ?s" "?s * ?s \<le> n div 4" "n div 4 + 1 \<le> (?s + 1) * (?s + 1)" by linarith+
    then have "4 * (?s * ?s) \<le> n" "n < 4 * ((?s + 1) * (?s + 1))" by linarith+
    then show ?thesis using False s(1) by (subst (1 2 3 4 5) isqrt.simps) (simp add: Let_def algebra_simps)
  qed (use 1 in \<open>simp add: isqrt.simps\<close>)
qed

text \<open>The square root rounded to 53 binary digits, ties to even: the root of \<open>y\<close> lies between \<open>2 ^ 52\<close> and \<open>2 ^ 53\<close>.\<close>

definition fl64_sqrt :: "rat \<Rightarrow> float64" where
  "fl64_sqrt x =
     (let e = rat_floor_log2 x div 2 - 52; y = x / rat_power 2 (2 * e); s = isqrt \<lfloor>y\<rfloor>; h = (of_int s + 1 / 2) * (of_int s + 1 / 2)
      in of_int (if y < h then s else if h < y then s + 1 else if even s then s else s + 1) * rat_power 2 e)"

fun x_sqrt :: "xfloat \<Rightarrow> xfloat" where
  "x_sqrt (Fin a) = (if a < 0 then NaN else if a = 0 then Fin 0 else Fin (fl64_sqrt a))"
| "x_sqrt (Infty s) = (if s then NaN else Infty False)"
| "x_sqrt NaN = NaN"

text \<open>No multiple of \<open>2 ^ e\<close> is nearer to the root.\<close>

lemma fl64_sqrt_nearest:
  assumes "0 < x"
  defines "e \<equiv> rat_floor_log2 x div 2 - 52" and "r \<equiv> fl64_sqrt x"
  shows "(r - 2 powi e / 2) * (r - 2 powi e / 2) \<le> x \<and> x \<le> (r + 2 powi e / 2) * (r + 2 powi e / 2)"
proof -
  let ?p = "2 powi e :: rat"
  define y where "y = x / (?p * ?p)"
  define s where "s = isqrt \<lfloor>y\<rfloor>"
  define k where "k = (let h = (of_int s + 1 / 2) * (of_int s + 1 / 2) :: rat in if y < h then s else if h < y then s + 1 else if even s then s else s + 1)"
  have p: "0 < ?p" by simp
  have x: "x = y * (?p * ?p)" using p by (simp add: y_def)
  have "2 powi (2 * e) = ?p * ?p" unfolding mult_2 by (rule power_int_add) simp
  then have pp: "rat_power 2 (2 * e) = ?p * ?p" "rat_power 2 e = ?p" by (simp_all add: rat_power_powi)
  have r: "r = of_int k * ?p"
    unfolding r_def fl64_sqrt_def Let_def e_def [symmetric] pp y_def [symmetric] s_def [symmetric] k_def ..
  have "?p * ?p = 2 powi (2 * e)" using pp(1) by (simp add: rat_power_powi)
  also have "\<dots> \<le> 2 powi (rat_floor_log2 x)" by (rule power_int_increasing) (simp_all add: e_def)
  also have "\<dots> \<le> x" by (rule floor_log2_le [OF assms(1)])
  finally have y1: "1 \<le> y" using p by (simp add: y_def le_divide_eq)
  then have f: "0 \<le> s" "s * s \<le> \<lfloor>y\<rfloor>" "\<lfloor>y\<rfloor> < (s + 1) * (s + 1)" using isqrt_spec [of "\<lfloor>y\<rfloor>"] by (auto simp: s_def)
  then have "of_int (s * s) \<le> y" "y < of_int ((s + 1) * (s + 1))" by linarith+
  then have y: "of_int s * of_int s \<le> y" "y < (of_int s + 1) * (of_int s + 1)" by simp_all
  have "s \<noteq> 0" using y(2) y1 by auto
  then have sp: "1 \<le> (of_int s :: rat)" using f(1) by simp
  have "(of_int k - 1 / 2) * (of_int k - 1 / 2) \<le> y \<and> y \<le> (of_int k + 1 / 2) * (of_int k + 1 / 2)"
  proof (cases "k = s")
    case True
    have "y \<le> (of_int s + 1 / 2) * (of_int s + 1 / 2)" using True by (auto simp: k_def Let_def split: if_splits)
    moreover have "(of_int s - 1 / 2) * (of_int s - 1 / 2) \<le> y" using y(1) sp by (simp add: algebra_simps)
    ultimately show ?thesis using True by simp
  next
    case False
    then have k: "k = s + 1" "(of_int s + 1 / 2) * (of_int s + 1 / 2) \<le> y" by (auto simp: k_def Let_def split: if_splits)
    then show ?thesis using y(2) sp by (simp add: algebra_simps)
  qed
  then have "(of_int k - 1 / 2) * (of_int k - 1 / 2) * (?p * ?p) \<le> x \<and> x \<le> (of_int k + 1 / 2) * (of_int k + 1 / 2) * (?p * ?p)"
    unfolding x using p by (simp add: mult_right_mono)
  then show ?thesis by (simp add: r algebra_simps)
qed

section \<open>Printing\<close>

text \<open>The verb \<open>%.nf\<close>: the exact value at \<open>n\<close> decimals, ties to even.\<close>

fun fmt_f :: "nat \<Rightarrow> xfloat \<Rightarrow> bytes" where
  "fmt_f n (Fin x) = (let N = nat (round_half_even (\<bar>x\<bar> * 10 ^ n)) in
     (if x < 0 then ''-'' else []) @ utoa 10 (N div 10 ^ n) @ (if 0 < n then CHR ''.'' # pad_left n (utoa 10 (N mod 10 ^ n)) else []))"
| "fmt_f n (Infty s) = (if s then ''-Inf'' else ''+Inf'')"
| "fmt_f n NaN = ''NaN''"

end
