(* ===== verification/Schema.thy ===== *)
theory Schema
  imports Types Ieee
begin

text \<open>
  The structs the modules keep in the store, and the type of stored values. The program
  stores \<open>json.Marshal\<close> of a struct and reads it back with \<open>json.Unmarshal\<close> into the same
  type; a stored value is here the struct itself under a constructor that says its type, or
  raw bytes where the program writes bytes. Marshalling these structs cannot fail (strings,
  integers, finite floats, lists and string-keyed maps), so the error branch after a save
  is not reachable and a save always writes. Which keys hold which constructor is an
  invariant of the development (\<open>well_typed\<close> in theory \<open>Store\<close>).

  Field names carry the initials of their struct, since record fields of different structs
  share one name space.
\<close>

section \<open>amx\<close>

record PricingModel =
  pm_Currency :: bytes
  pm_BasePrice :: bytes

record SLATemplate =
  st_MaxLatencyMS :: uint32
  st_TimeoutSec :: uint64

text \<open>A \<open>CapabilityRef\<close> has the single field \<open>CapType\<close>.\<close>

record CapabilityRef =
  cr_CapType :: bytes

record Listing =
  l_ListingID :: bytes
  l_Provider :: bytes
  l_Title :: bytes
  l_Description :: bytes
  l_Capabilities :: "CapabilityRef list"
  l_Pricing :: PricingModel
  l_SLA :: SLATemplate
  l_Tags :: "bytes list"
  l_Status :: bytes
  l_CreatedAt :: int64
  l_UpdatedAt :: int64

record Order =
  o_OrderID :: bytes
  o_ListingID :: bytes
  o_Consumer :: bytes
  o_Provider :: bytes
  o_AgreedPrice :: Money
  o_CommissionBPS :: uint32
  o_CommissionAmount :: Money
  o_EscrowID :: bytes
  o_TaskID :: bytes
  o_Status :: bytes
  o_CreatedAt :: int64
  o_UpdatedAt :: int64

section \<open>aap\<close>

record SLA =
  s_MaxLatencyMS :: uint32
  s_MinAccuracy :: float32
  s_MaxRetries :: uint32
  s_TimeoutSec :: uint64
  s_ServiceFee :: Money
  s_DepositAmount :: Money
  s_CommissionBPS :: uint32
  s_ConsumerSig :: bytes
  s_ProviderSig :: bytes
  s_SignedAt :: int64
  s_ExpiresAt :: int64

record Task =
  t_TaskID :: bytes
  t_OrderID :: bytes
  t_Consumer :: bytes
  t_Provider :: bytes
  t_SLA :: SLA
  t_Status :: bytes
  t_ResultHash :: bytes
  t_ResultIPFS :: bytes
  t_EvidenceRoot :: bytes
  t_CreatedAt :: int64
  t_SLASignedAt :: int64
  t_StartedAt :: int64
  t_CompletedAt :: int64
  t_HeartbeatSeq :: uint64
  t_LastHeartbeat :: int64
  t_RetryCount :: uint32
  t_MaxRetries :: uint32
  t_ServiceFee :: Money

record HeartbeatPayload =
  hb_TaskID :: bytes
  hb_Seq :: uint64
  hb_Progress :: uint32
  hb_StatusMsg :: bytes
  hb_Timestamp :: int64
  hb_Signature :: bytes

section \<open>weave\<close>

record DAGNode =
  n_NodeID :: bytes
  n_Type :: bytes
  n_SubTaskID :: bytes
  n_ListingID :: bytes
  n_Status :: bytes
  n_RetryCount :: uint32
  n_MaxRetries :: uint32
  n_StartedAt :: int64
  n_FinishedAt :: int64
  n_OutputRef :: bytes

record DAGEdge =
  e_FromNode :: bytes
  e_ToNode :: bytes
  e_Condition :: bytes

record TaskDAG =
  d_DAGID :: bytes
  d_RootTask :: bytes
  d_Orchestrator :: bytes
  d_Nodes :: "DAGNode list"
  d_Edges :: "DAGEdge list"
  d_Status :: bytes
  d_CreatedAt :: int64
  d_StartedAt :: int64
  d_FinishedAt :: int64
  d_GlobalTimeoutSec :: uint64

section \<open>caputxo\<close>

record CapabilityUTXO =
  u_UTXOID :: bytes
  u_Issuer :: bytes
  u_Holder :: bytes
  u_CapType :: bytes
  u_CapVersion :: bytes
  u_Scopes :: "bytes list"
  u_IssuedAt :: int64
  u_ExpiresAt :: int64
  u_MaxUses :: uint32
  u_UsedCount :: uint32
  u_Delegatable :: bool
  u_MaxDepth :: uint32
  u_CurDepth :: uint32
  u_ParentUTXO :: bytes
  u_Status :: bytes
  u_HolderSig :: bytes

section \<open>rep\<close>

record ReputationScore =
  rs_Entity :: bytes
  rs_EntityType :: bytes
  rs_QualityScore :: uint32
  rs_TimelinessScore :: uint32
  rs_ReliabilityScore :: uint32
  rs_DisputeScore :: uint32
  rs_NetworkScore :: uint32
  rs_TotalScore :: uint32
  rs_TotalTasks :: uint64
  rs_SuccessTasks :: uint64
  rs_FailedTasks :: uint64
  rs_DisputedTasks :: uint64
  rs_LastUpdated :: int64
  rs_UpdateEpoch :: uint64

section \<open>arb\<close>

record Evidence =
  ev_Submitter :: bytes
  ev_EvidenceType :: bytes
  ev_IPFSCID :: bytes
  ev_InlineData :: bytes
  ev_ContentHash :: bytes
  ev_SubmittedAt :: int64
  ev_Signature :: bytes

record Verdict =
  v_Winner :: bytes
  v_SplitRatio :: bytes
  v_RefundAmount :: Money
  v_SlashAmount :: Money
  v_PlaintiffRepDelta :: int
  v_DefendantRepDelta :: int
  v_BanDefendant :: bool
  v_Reasoning :: bytes

record VoteRecord =
  vr_Validator :: bytes
  vr_Vote :: bytes
  vr_Reasoning :: bytes
  vr_VotedAt :: int64
  vr_Signature :: bytes

record Dispute =
  dp_DisputeID :: bytes
  dp_OrderID :: bytes
  dp_TaskID :: bytes
  dp_Plaintiff :: bytes
  dp_Defendant :: bytes
  dp_ReasonCode :: bytes
  dp_Description :: bytes
  dp_PlaintiffEvidence :: "Evidence list"
  dp_DefendantEvidence :: "Evidence list"
  dp_Phase :: bytes
  dp_Status :: bytes
  dp_Verdict :: Verdict
  dp_CommitteeMembers :: "bytes list"
  dp_CommitteeVotes :: "VoteRecord list"
  dp_FullVotes :: "VoteRecord list"
  dp_FiledAt :: int64
  dp_ResolvedAt :: int64

section \<open>fiat\<close>

record Escrow =
  es_EscrowID :: bytes
  es_OrderID :: bytes
  es_Consumer :: bytes
  es_Provider :: bytes
  es_TotalAmount :: Money
  es_ServiceFee :: Money
  es_Commission :: Money
  es_CommissionBPS :: uint32
  es_Status :: bytes
  es_CreatedAt :: int64
  es_FundedAt :: int64
  es_ReleasedAt :: int64
  es_GatewayTxID :: bytes

record DepositAccount =
  da_Provider :: bytes
  da_Currency :: bytes
  da_TotalDeposited :: bytes
  da_Available :: bytes
  da_Frozen :: bytes
  da_Slashed :: bytes
  da_LastDepositAt :: int64
  da_LastWithdrawAt :: int64
  da_Tier :: bytes

record InsurancePool =
  ip_BalanceCNY :: bytes
  ip_BalanceUSD :: bytes
  ip_TotalIncome :: bytes
  ip_TotalPayout :: bytes
  ip_MaxSinglePayout :: bytes
  ip_SafetyRatioBPS :: uint32

section \<open>node\<close>

record HardwareSpec =
  hw_CPUCores :: uint32
  hw_RAMMB :: uint64
  hw_StorageGB :: uint64
  hw_BandwidthMbps :: uint32
  hw_Arch :: bytes
  hw_GPU :: bytes

record NodeRegistration =
  nr_PubKey :: bytes
  nr_Tier :: bytes
  nr_Moniker :: bytes
  nr_Endpoint :: bytes
  nr_Region :: bytes
  nr_Hardware :: HardwareSpec
  nr_DepositTxID :: bytes
  nr_RegisteredAt :: int64
  nr_Signature :: bytes
  nr_Status :: bytes
  nr_Uptime30d :: float64
  nr_Reputation :: uint32
  nr_Deposit :: bytes

section \<open>gov\<close>

text \<open>A Go value of type \<open>any\<close> decoded from JSON.\<close>

datatype goany = AnyNil | AnyBool bool | AnyNum float64 | AnyStr bytes
  | AnyArr "goany list" | AnyMap "(bytes \<times> goany) list"

record ParamChange =
  pc_Module :: bytes
  pc_Key :: bytes
  pc_Value :: goany

text \<open>\<open>Votes\<close> is a Go map from strings to ints, kept as an association list with distinct keys.\<close>

record Proposal =
  p_ProposalID :: bytes
  p_Type :: bytes
  p_Status :: bytes
  p_Changes :: "ParamChange list"
  p_Votes :: "(bytes \<times> int64) list"
  p_CreatedAt :: int64
  p_ClosedAt :: int64

section \<open>afd\<close>

record FraudAlert =
  fa_AlertID :: bytes
  fa_AlertType :: bytes
  fa_Severity :: bytes
  fa_Action :: bytes
  fa_InvolvedEntities :: "bytes list"
  fa_Description :: bytes
  fa_Confidence :: xfloat
  fa_DetectedAt :: int64
  fa_TxHash :: bytes

section \<open>Stored values\<close>

datatype val =
    VBytes bytes
  | VListing Listing
  | VOrder Order
  | VTask Task
  | VHeartbeat HeartbeatPayload
  | VDAG TaskDAG
  | VUTXO CapabilityUTXO
  | VScore ReputationScore
  | VDispute Dispute
  | VEscrow Escrow
  | VDeposit DepositAccount
  | VPool InsurancePool
  | VNode NodeRegistration
  | VProposal Proposal
  | VAlert FraudAlert
  | VParam goany

end
