(* ===== verification/Marshal.thy ===== *)
theory Marshal
  imports Schema
begin

text \<open>
  \<open>json.Marshal\<close> of \<open>encoding/json\<close> (Go 1.22, with the escaping of HTML that \<open>Marshal\<close> does), as the program uses it to
  write transactions, payloads and stored structs, and what the reader of theory \<open>Json\<close> makes of its output. A
  value to encode is a \<open>gov\<close>: structs and maps are lists of members in the order of output, numbers are their
  text, a \<open>json.RawMessage\<close> is the text it holds.
\<close>

section \<open>Base64\<close>

text \<open>\<open>base64.StdEncoding.EncodeToString\<close>.\<close>

definition b64_char :: "nat \<Rightarrow> char" where
  "b64_char n = ''ABCDEFGHIJKLMNOPQRSTUVWXYZabcdefghijklmnopqrstuvwxyz0123456789+/'' ! n"

fun base64_Encode :: "bytes \<Rightarrow> bytes" where
  "base64_Encode [] = []"
| "base64_Encode [a] = (let x = of_char a in [b64_char (x div 4), b64_char (x mod 4 * 16), CHR ''='', CHR ''=''])"
| "base64_Encode [a, b] = (let x = of_char a; y = of_char b in
     [b64_char (x div 4), b64_char (x mod 4 * 16 + y div 16), b64_char (y mod 16 * 4), CHR ''=''])"
| "base64_Encode (a # b # c # r) = (let x = of_char a; y = of_char b; z = of_char c in
     [b64_char (x div 4), b64_char (x mod 4 * 16 + y div 16), b64_char (y mod 16 * 4 + z div 64), b64_char (z mod 64)] @ base64_Encode r)"

lemma b64_symbols:
  "list_all (\<lambda>(n, c). b64_val c = Some n \<and> c \<noteq> CHR ''='' \<and> c \<noteq> CHR 0x0A \<and> c \<noteq> CHR 0x0D \<and> (of_char c :: nat) < 128)
     (zip [0..<64] ''ABCDEFGHIJKLMNOPQRSTUVWXYZabcdefghijklmnopqrstuvwxyz0123456789+/'')"
  by code_simp

lemma b64_char [simp]:
  assumes "n < 64"
  shows "b64_val (b64_char n) = Some n" "b64_char n \<noteq> CHR ''=''" "b64_char n \<noteq> CHR 0x0A" "b64_char n \<noteq> CHR 0x0D" "(of_char (b64_char n) :: nat) < 128"
proof -
  let ?a = "''ABCDEFGHIJKLMNOPQRSTUVWXYZabcdefghijklmnopqrstuvwxyz0123456789+/''"
  have "(n, b64_char n) \<in> set (zip [0..<64] ?a)"
    using assms by (auto simp: set_zip b64_char_def intro!: exI [of _ n])
  with b64_symbols show "b64_val (b64_char n) = Some n" "b64_char n \<noteq> CHR ''=''" "b64_char n \<noteq> CHR 0x0A" "b64_char n \<noteq> CHR 0x0D" "(of_char (b64_char n) :: nat) < 128"
    unfolding list_all_iff by fast+
qed

text \<open>The three bytes of a group come back from its four symbols.\<close>

lemma b64_bytes:
  assumes "x < 256" "y < 256" "z < (256 :: nat)"
  shows "x div 4 < 64" "x mod 4 * 16 < 64" "x mod 4 * 16 + y div 16 < 64" "y mod 16 * 4 < 64" "y mod 16 * 4 + z div 64 < 64"
    "x div 4 * 4 + x mod 4 * 16 div 16 = x"
    "x div 4 * 4 + (x mod 4 * 16 + y div 16) div 16 = x"
    "(x mod 4 * 16 + y div 16) * 16 + y mod 16 * 4 div 4 = x mod 4 * 256 + y"
    "(x mod 4 * 16 + y div 16) * 16 + (y mod 16 * 4 + z div 64) div 4 = x mod 4 * 256 + y"
    "(y mod 16 * 4 + z div 64) * 64 + z mod 64 = y mod 16 * 256 + z"
proof -
  have "y div 16 < 16" "z div 64 < 4" using assms by (simp_all add: less_mult_imp_div_less)
  moreover have "x mod 4 < 4" "y mod 16 < 16" by simp_all
  moreover have "x div 4 * 4 + x mod 4 = x" "y div 16 * 16 + y mod 16 = y" "z div 64 * 64 + z mod 64 = z" by (rule div_mult_mod_eq)+
  ultimately show "x div 4 < 64" "x mod 4 * 16 < 64" "x mod 4 * 16 + y div 16 < 64" "y mod 16 * 4 < 64" "y mod 16 * 4 + z div 64 < 64"
    "x div 4 * 4 + x mod 4 * 16 div 16 = x"
    "x div 4 * 4 + (x mod 4 * 16 + y div 16) div 16 = x"
    "(x mod 4 * 16 + y div 16) * 16 + y mod 16 * 4 div 4 = x mod 4 * 256 + y"
    "(x mod 4 * 16 + y div 16) * 16 + (y mod 16 * 4 + z div 64) div 4 = x mod 4 * 256 + y"
    "(y mod 16 * 4 + z div 64) * 64 + z mod 64 = y mod 16 * 256 + z"
    using assms by (simp_all add: less_mult_imp_div_less div_add1_eq)
qed

lemmas b64_of_char = b64_bytes [OF nat_of_char_less_256 nat_of_char_less_256 nat_of_char_less_256]

lemma char_of_high [simp]: "char_of (k * 256 + n) = char_of (n :: nat)" "char_of (n + 256 * k) = char_of n"
  by (metis char_of_mod_256 mod_mult_self3, metis char_of_mod_256 mod_mult_self2)

lemma div_64_div_4 [simp]: "of_char c div 64 div 4 = (0 :: nat)"
  by (simp add: div_mult2_eq [symmetric])

lemma b64_groups_Encode: "b64_groups (base64_Encode bs) = Some bs"
proof (induction bs rule: base64_Encode.induct)
  case (4 a b c r)
  show ?case
  proof (cases "base64_Encode r")
    case Nil
    then have "r = []" using 4 by simp
    with Nil show ?thesis by (simp add: Let_def b64_of_char)
  next
    case (Cons d ds)
    with 4 show ?thesis by (simp add: Let_def b64_of_char)
  qed
qed (simp_all add: Let_def b64_of_char)

lemma base64_clean: "c \<in> set (base64_Encode bs) \<Longrightarrow> c \<noteq> CHR 0x0A \<and> c \<noteq> CHR 0x0D"
  by (induction bs rule: base64_Encode.induct) (auto simp: Let_def b64_of_char)

lemma base64_roundtrip [simp]: "base64_Decode (base64_Encode bs) = Some bs"
proof -
  have "filter (\<lambda>c. c \<noteq> CHR 0x0A \<and> c \<noteq> CHR 0x0D) (base64_Encode bs) = base64_Encode bs"
    by (rule filter_True) (auto dest: base64_clean)
  then show ?thesis by (simp add: base64_Decode_def b64_groups_Encode)
qed

section \<open>Strings\<close>

text \<open>A byte below 128 inside a string literal.\<close>

definition quote_byte :: "char \<Rightarrow> bytes" where
  "quote_byte c =
     (if c = CHR 0x5C \<or> c = CHR 0x22 then [CHR 0x5C, c]
      else if c = CHR 0x08 then [CHR 0x5C, CHR ''b''] else if c = CHR 0x0C then [CHR 0x5C, CHR ''f'']
      else if c = CHR 0x0A then [CHR 0x5C, CHR ''n''] else if c = CHR 0x0D then [CHR 0x5C, CHR ''r'']
      else if c = CHR 0x09 then [CHR 0x5C, CHR ''t'']
      else if (of_char c :: nat) < 0x20 \<or> c \<in> set ''<>&'' then [CHR 0x5C, CHR ''u'', CHR ''0'', CHR ''0''] @ hex_of_byte c
      else [c])"

text \<open>The line and paragraph separators U+2028 and U+2029, and an invalid byte, are written as escapes.\<close>

definition separators :: "bytes list" where
  "separators = [[CHR 0xE2, CHR 0x80, CHR 0xA8], [CHR 0xE2, CHR 0x80, CHR 0xA9]]"

function quote_body :: "bytes \<Rightarrow> bytes" where
  "quote_body [] = []"
| "quote_body (c # r) =
     (if (of_char c :: nat) < 0x80 then quote_byte c @ quote_body r
      else if utf8_len (c # r) = 0 then [CHR 0x5C] @ ''ufffd'' @ quote_body r
      else if take 3 (c # r) \<in> set separators
      then [CHR 0x5C] @ ''u202'' @ [if r ! 1 = CHR 0xA8 then CHR ''8'' else CHR ''9''] @ quote_body (drop 2 r)
      else take (utf8_len (c # r)) (c # r) @ quote_body (drop (utf8_len (c # r) - 1) r))"
  by pat_completeness auto
termination
  by (relation "measure length") auto

declare quote_body.simps [simp del]

definition quote :: "bytes \<Rightarrow> bytes" where
  "quote s = [CHR 0x22] @ quote_body s @ [CHR 0x22]"

text \<open>What a reader gets back: the text with every invalid byte replaced by U+FFFD. Valid text is unchanged.\<close>

function to_valid :: "bytes \<Rightarrow> bytes" where
  "to_valid [] = []"
| "to_valid (c # r) =
     (if utf8_len (c # r) = 0 then replacement @ to_valid r
      else take (utf8_len (c # r)) (c # r) @ to_valid (drop (utf8_len (c # r) - 1) r))"
  by pat_completeness auto
termination
  by (relation "measure length") auto

declare to_valid.simps [simp del]

text \<open>\<open>utf8.Valid\<close>.\<close>

function utf8_Valid :: "bytes \<Rightarrow> bool" where
  "utf8_Valid s = (if s = [] then True else if utf8_len s = 0 then False else utf8_Valid (drop (utf8_len s) s))"
  by pat_completeness auto
termination
  by (relation "measure length") auto

declare utf8_Valid.simps [simp del]

lemma to_valid_id: "utf8_Valid s \<Longrightarrow> to_valid s = s"
proof (induction s rule: to_valid.induct)
  case (2 c r)
  have l: "utf8_len (c # r) \<noteq> 0" and v: "utf8_Valid (drop (utf8_len (c # r)) (c # r))"
    using "2.prems" by (auto simp: utf8_Valid.simps [of "c # r"] split: if_splits)
  then have d: "drop (utf8_len (c # r)) (c # r) = drop (utf8_len (c # r) - 1) r" by (cases "utf8_len (c # r)") auto
  have "to_valid (c # r) = take (utf8_len (c # r)) (c # r) @ drop (utf8_len (c # r)) (c # r)"
    using "2.IH"(2) [OF l] l v by (simp add: to_valid.simps d)
  then show ?case by simp
qed (simp add: to_valid.simps)

lemma utf8_len_ascii [simp]: "(of_char c :: nat) < 128 \<Longrightarrow> utf8_len (c # r) = 1"
  by (simp add: utf8_len_def)

lemma utf8_len_le: "utf8_len s \<le> length s"
proof -
  define g where "g i = (if i < length s then of_char (s ! i) else 0 :: nat)" for i
  have "0 < g i \<Longrightarrow> Suc i \<le> length s" for i by (simp add: g_def split: if_splits)
  from this [of 0] this [of 1] this [of 2] this [of 3] show ?thesis
    unfolding utf8_len_def Let_def g_def [symmetric] by (auto simp: Suc_le_eq split: if_splits)
qed

lemma utf8_len_cases: "utf8_len s \<noteq> 0 \<Longrightarrow> utf8_len s \<in> {1, 2, 3, 4}"
  by (simp add: utf8_len_def Let_def split: if_splits)

lemma utf8_len_local:
  assumes "utf8_len s = n" "n \<noteq> 0" "n \<le> length t" "\<And>i. i < n \<Longrightarrow> t ! i = s ! i"
  shows "utf8_len t = n"
proof -
  have le: "n \<le> length s" using utf8_len_le [of s] assms(1) by simp
  have e: "\<And>i. i < n \<Longrightarrow> (if i < length t then of_char (t ! i) else 0 :: nat) = (if i < length s then of_char (s ! i) else 0)"
    using le assms(3,4) by simp
  have ne: "s \<noteq> []" "t \<noteq> []" using le assms(2,3) by auto
  define f where "f i = (if i < length t then of_char (t ! i) else 0 :: nat)" for i
  define g where "g i = (if i < length s then of_char (s ! i) else 0 :: nat)" for i
  have fg: "\<And>i. i < n \<Longrightarrow> f i = g i" using e by (simp add: f_def g_def)
  have "n \<in> {1, 2, 3, 4}" using utf8_len_cases [of s] assms(1,2) by simp
  then show ?thesis using assms(1) ne fg [of 0] fg [of 1] fg [of 2] fg [of 3]
    unfolding utf8_len_def Let_def f_def [symmetric] g_def [symmetric] by (auto split: if_splits)
qed

lemma utf8_len_take: "utf8_len s \<noteq> 0 \<Longrightarrow> utf8_len (take (utf8_len s) s @ t) = utf8_len s"
  using utf8_len_le [of s] by (rule_tac utf8_len_local [OF refl]) (simp_all add: nth_append)

lemma hex4_byte: "hex4 (CHR ''0'' # CHR ''0'' # hex_of_byte c @ t) = Some (of_char c)"
proof -
  have "hex_val (CHR ''0'') = Some 0" by code_simp
  moreover have "(of_char c div 16) * 16 + of_char c mod 16 = (of_char c :: nat)" by (rule div_mult_mod_eq)
  moreover have "of_char c div 16 < (16 :: nat)" by (simp add: less_mult_imp_div_less)
  ultimately show ?thesis by (simp add: hex4_def hex_of_byte_def hex_val_digit)
qed

lemma parse_simple_escape:
  "simple_escape e = Some ch \<Longrightarrow> e \<noteq> CHR ''u'' \<Longrightarrow> parse_str (CHR 0x5C # e # t) = emit [ch] (parse_str t)"
  by (simp add: parse_str.simps(2))

lemma parse_byte_escape:
  assumes "(of_char c :: nat) < 128"
  shows "parse_str (CHR 0x5C # CHR ''u'' # CHR ''0'' # CHR ''0'' # hex_of_byte c @ t) = emit [c] (parse_str t)"
proof -
  have "drop 4 (CHR ''0'' # CHR ''0'' # hex_of_byte c @ t) = t" by (simp add: hex_of_byte_def)
  moreover have "\<not> 0xD800 \<le> (of_char c :: nat)" "utf8_encode (of_char c) = [c]" using assms by (simp_all add: utf8_encode_def)
  ultimately show ?thesis by (simp add: parse_str.simps(2) hex4_byte)
qed

lemma parse_quote_byte:
  assumes "(of_char c :: nat) < 128"
  shows "parse_str (quote_byte c @ t) = emit [c] (parse_str t)"
proof -
  consider "c = CHR 0x5C \<or> c = CHR 0x22" | "c = CHR 0x08" | "c = CHR 0x0C" | "c = CHR 0x0A" | "c = CHR 0x0D" | "c = CHR 0x09"
    | (escape) "c \<notin> {CHR 0x5C, CHR 0x22, CHR 0x08, CHR 0x0C, CHR 0x0A, CHR 0x0D, CHR 0x09}" "(of_char c :: nat) < 0x20 \<or> c \<in> set ''<>&''"
    | (plain) "c \<notin> {CHR 0x5C, CHR 0x22, CHR 0x08, CHR 0x0C, CHR 0x0A, CHR 0x0D, CHR 0x09}" "\<not> ((of_char c :: nat) < 0x20 \<or> c \<in> set ''<>&'')" by blast
  then show ?thesis
  proof cases
    case escape
    then have "quote_byte c = CHR 0x5C # CHR ''u'' # CHR ''0'' # CHR ''0'' # hex_of_byte c" by (simp add: quote_byte_def)
    then show ?thesis using parse_byte_escape [OF assms] by simp
  next
    case plain
    then have "quote_byte c = [c]" by (simp add: quote_byte_def)
    then show ?thesis using plain assms by (simp add: parse_str.simps(2) utf8_len_ascii)
  qed (auto simp: quote_byte_def parse_simple_escape simple_escape_def)
qed

lemma parse_multi_byte:
  assumes "\<not> (of_char c :: nat) < 128" "utf8_len (c # r) \<noteq> 0"
  shows "parse_str (take (utf8_len (c # r)) (c # r) @ t) = emit (take (utf8_len (c # r)) (c # r)) (parse_str t)"
proof -
  let ?w = "take (utf8_len (c # r)) (c # r)"
  have l: "utf8_len (?w @ t) = utf8_len (c # r)" by (rule utf8_len_take [OF assms(2)])
  have lw: "length ?w = utf8_len (c # r)" using utf8_len_le [of "c # r"] by simp
  obtain w where w: "?w = c # w" using assms(2) by (cases "utf8_len (c # r)") auto
  then have d: "utf8_len (c # r) - 1 = length w" using lw by simp
  have c: "c \<noteq> CHR 0x22" "c \<noteq> CHR 0x5C" "\<not> (of_char c :: nat) < 0x20" using assms(1) by auto
  have "utf8_len (c # w @ t) = Suc (length w)" using l lw w by simp
  then have "parse_str (c # w @ t) = emit (c # w) (parse_str t)" using c by (simp add: parse_str.simps(2))
  then show ?thesis by (simp only: w append_Cons)
qed

lemma parse_str_quote: "parse_str (quote_body s @ CHR 0x22 # t) = Some (to_valid s, t)"
proof (induction s rule: quote_body.induct)
  case 1
  then show ?case by (simp add: quote_body.simps to_valid.simps parse_str.simps)
next
  case (2 c r)
  consider (ascii) "(of_char c :: nat) < 128" | (bad) "\<not> (of_char c :: nat) < 128" "utf8_len (c # r) = 0"
    | (sep) "\<not> (of_char c :: nat) < 128" "utf8_len (c # r) \<noteq> 0" "take 3 (c # r) \<in> set separators"
    | (multi) "\<not> (of_char c :: nat) < 128" "utf8_len (c # r) \<noteq> 0" "take 3 (c # r) \<notin> set separators" by blast
  then show ?case
  proof cases
    case ascii
    then show ?thesis using 2(1) by (simp add: quote_body.simps(2) to_valid.simps(2) parse_quote_byte emit_def)
  next
    case bad
    have "hex4 (''fffd'' @ u) = Some 0xFFFD" for u by (simp add: hex4_def hex_val_def)
    then have "parse_str (CHR 0x5C # ''ufffd'' @ u) = emit replacement (parse_str u)" for u
      by (simp add: parse_str.simps(2) replacement_def)
    then show ?thesis using 2(2) bad by (simp add: quote_body.simps(2) to_valid.simps(2) emit_def)
  next
    case sep
    let ?x = "if r ! 1 = CHR 0xA8 then CHR ''8'' else CHR ''9''"
    obtain y u where r: "c = CHR 0xE2" "r = CHR 0x80 # y # u" "y = CHR 0xA8 \<or> y = CHR 0xA9"
      using sep(3) by (cases r; cases "tl r") (auto simp: separators_def)
    have "utf8_encode 0x2028 = [CHR 0xE2, CHR 0x80, CHR 0xA8]" "utf8_encode 0x2029 = [CHR 0xE2, CHR 0x80, CHR 0xA9]" by code_simp+
    then have w: "take 3 (c # r) = utf8_encode (if r ! 1 = CHR 0xA8 then 0x2028 else 0x2029)" using r by auto
    have l: "utf8_len (c # r) = 3" using r by (auto simp: utf8_len_def)
    have "hex4 (''202'' @ ?x # u) = Some (if r ! 1 = CHR 0xA8 then 0x2028 else 0x2029)" for u by (simp add: hex4_def hex_val_def)
    then have "parse_str (CHR 0x5C # ''u202'' @ ?x # u) = emit (take 3 (c # r)) (parse_str u)" for u
      unfolding w by (simp add: parse_str.simps(2))
    then show ?thesis using 2(3) [OF sep] sep l by (simp add: quote_body.simps(2) to_valid.simps(2) emit_def)
  next
    case multi
    from 2(4) [OF this] this show ?thesis
      by (simp add: quote_body.simps(2) to_valid.simps(2) parse_multi_byte emit_def del: take_Suc_Cons)
  qed
qed

section \<open>Numbers\<close>

lemma is_digit_of_char: "is_digit c \<longleftrightarrow> 48 \<le> (of_char c :: nat) \<and> (of_char c :: nat) \<le> 57"
  by (simp add: is_digit_def less_eq_char_def)

lemma is_digit_digit_char [simp]: "d < 10 \<Longrightarrow> is_digit (digit_char d)"
  by (simp add: is_digit_of_char of_char_digit_char)

text \<open>The text of a number in JSON, and a text that does not go on with one.\<close>

definition digit_text :: "bytes \<Rightarrow> bool" where
  "digit_text s \<longleftrightarrow> s \<noteq> [] \<and> list_all is_digit s"

definition frac_text :: "bytes \<Rightarrow> bool" where
  "frac_text s \<longleftrightarrow> s = [] \<or> (\<exists>ds. digit_text ds \<and> s = CHR ''.'' # ds)"

definition exp_text :: "bytes \<Rightarrow> bool" where
  "exp_text s \<longleftrightarrow> s = [] \<or> (\<exists>e sn ds. e \<in> {CHR ''e'', CHR ''E''} \<and> sn \<in> {[], ''+'', ''-''} \<and> digit_text ds \<and> s = e # sn @ ds)"

definition num_text :: "bytes \<Rightarrow> bool" where
  "num_text s \<longleftrightarrow> (\<exists>sg ip fp ep. s = sg @ ip @ fp @ ep \<and> sg \<in> {[], ''-''} \<and> digit_text ip \<and> (1 < length ip \<longrightarrow> hd ip \<noteq> CHR ''0'')
     \<and> frac_text fp \<and> exp_text ep)"

definition stops :: "bytes \<Rightarrow> bool" where
  "stops t \<longleftrightarrow> t = [] \<or> (\<not> is_digit (hd t) \<and> hd t \<notin> set ''.eE'')"

lemma digits_span:
  assumes "list_all is_digit ds" "t = [] \<or> \<not> is_digit (hd t)"
  shows "takeWhile is_digit (ds @ t) = ds" "dropWhile is_digit (ds @ t) = t"
proof -
  have "takeWhile is_digit t = []" "dropWhile is_digit t = t" using assms(2) by (cases t; simp)+
  then show "takeWhile is_digit (ds @ t) = ds" "dropWhile is_digit (ds @ t) = t"
    using assms(1) by (simp_all add: list_all_iff takeWhile_append2 dropWhile_append2)
qed

lemma digit_marks [simp]: "\<not> is_digit (CHR ''-'')" "\<not> is_digit (CHR ''+'')" "\<not> is_digit (CHR ''.'')" "\<not> is_digit (CHR ''e'')" "\<not> is_digit (CHR ''E'')"
  by (simp_all add: is_digit_of_char)

lemma parse_num_append:
  assumes "num_text s" "stops t"
  shows "parse_num (s @ t) = Some (s, t)"
proof -
  obtain sg ip fp ep where s: "s = sg @ ip @ fp @ ep" and sg: "sg \<in> {[], ''-''}" and ip: "digit_text ip" "1 < length ip \<longrightarrow> hd ip \<noteq> CHR ''0''"
    and fp: "frac_text fp" and ep: "exp_text ep" using assms(1) by (auto simp: num_text_def)
  have t: "t = [] \<or> \<not> is_digit (hd t)" using assms(2) by (auto simp: stops_def)
  have e: "ep @ t = [] \<or> \<not> is_digit (hd (ep @ t))" using ep t by (auto simp: exp_text_def)
  have f: "fp @ ep @ t = [] \<or> \<not> is_digit (hd (fp @ ep @ t))" using fp e by (auto simp: frac_text_def)
  obtain d ds where d: "ip = d # ds" "is_digit d" using ip(1) by (cases ip) (auto simp: digit_text_def)
  then have "d \<noteq> CHR ''-''" by auto
  then have 0: "(case s @ t of c # r \<Rightarrow> if c = CHR ''-'' then ([c], r) else ([], s @ t) | [] \<Rightarrow> ([], s @ t)) = (sg, ip @ fp @ ep @ t)"
    using sg by (auto simp: s d)
  have 1: "takeWhile is_digit (ip @ fp @ ep @ t) = ip" "dropWhile is_digit (ip @ fp @ ep @ t) = fp @ ep @ t"
    using digits_span [OF _ f] ip(1) by (simp_all add: digit_text_def)
  have no_dot: "ep @ t = [] \<or> hd (ep @ t) \<noteq> CHR ''.''" using ep assms(2) by (auto simp: exp_text_def stops_def)
  have 2: "(case fp @ ep @ t of c # r \<Rightarrow> if c = CHR ''.'' then (c # takeWhile is_digit r, dropWhile is_digit r)
                        else ([], fp @ ep @ t) | [] \<Rightarrow> ([], fp @ ep @ t)) = (fp, ep @ t)"
    using fp no_dot digits_span [OF _ e] by (cases "ep @ t") (auto simp: frac_text_def digit_text_def)
  have 3: "(case ep @ t of c # r \<Rightarrow>
               if c = CHR ''e'' \<or> c = CHR ''E'' then
                 (let (es, q) = (case r of d # r' \<Rightarrow> if d = CHR ''+'' \<or> d = CHR ''-'' then ([c, d], r') else ([c], r)
                                 | [] \<Rightarrow> ([c], r))
                  in (es @ takeWhile is_digit q, dropWhile is_digit q))
               else ([], ep @ t) | [] \<Rightarrow> ([], ep @ t)) = (ep, t)"
  proof (cases "ep = []")
    case True
    then show ?thesis using assms(2) by (cases t) (auto simp: stops_def)
  next
    case False
    then obtain m sn ds where m: "m \<in> {CHR ''e'', CHR ''E''}" "sn \<in> {[], ''+'', ''-''}" "digit_text ds" "ep = m # sn @ ds"
      using ep unfolding exp_text_def by blast
    moreover obtain x xs where "ds = x # xs" using m(3) by (cases ds) (simp_all add: digit_text_def)
    ultimately have x: "m \<in> {CHR ''e'', CHR ''E''}" "sn \<in> {[], ''+'', ''-''}" "list_all is_digit (x # xs)" "ep = m # sn @ x # xs"
      by (simp_all add: digit_text_def)
    moreover have "x \<noteq> CHR ''+''" "x \<noteq> CHR ''-''" using x(3) by auto
    ultimately show ?thesis using digits_span [OF x(3) t] by auto
  qed
  have "\<not> (ep \<noteq> [] \<and> \<not> is_digit (last ep))" using ep by (auto simp: exp_text_def digit_text_def list_all_iff)
  moreover have "length fp \<noteq> 1" using fp by (auto simp: frac_text_def digit_text_def)
  ultimately show ?thesis
    using ip d(1) unfolding parse_num_def 0 Let_def prod.case 1 2 3 [unfolded Let_def] by (auto simp: s digit_text_def)
qed

lemma num_text_utoa [simp]: "num_text (utoa 10 n)"
proof -
  obtain ds where ds: "digits_of n ds" using digits_of_ex by blast
  then have "digit_text (utoa 10 n)" by (simp add: digits_of_def digit_text_def list_all_iff)
  moreover have "1 < length (utoa 10 n) \<longrightarrow> hd (utoa 10 n) \<noteq> CHR ''0''"
    using ds by (cases ds) (auto simp: digits_of_def digit_char_0)
  ultimately show ?thesis
    unfolding num_text_def by (intro exI [of _ "[]"] exI [of _ "utoa 10 n"]) (simp add: frac_text_def exp_text_def)
qed

lemma num_text_neg:
  assumes "num_text s" "hd s \<noteq> CHR ''-''"
  shows "num_text (CHR ''-'' # s)"
proof -
  obtain sg ip fp ep where s: "s = sg @ ip @ fp @ ep" "sg \<in> {[], ''-''}" "digit_text ip \<and> (1 < length ip \<longrightarrow> hd ip \<noteq> CHR ''0'') \<and> frac_text fp \<and> exp_text ep"
    using assms(1) unfolding num_text_def by blast
  then have "CHR ''-'' # s = ''-'' @ ip @ fp @ ep" using assms(2) by auto
  then show ?thesis using s(3) unfolding num_text_def by blast
qed

section \<open>Values\<close>

datatype gov = GNull | GBool bool | GNum bytes | GStr bytes | GArr "gov list" | GObj "(bytes \<times> gov) list" | GRaw bytes

fun commas :: "bytes list \<Rightarrow> bytes" where
  "commas [] = []"
| "commas [x] = x"
| "commas (x # xs) = x @ [CHR '',''] @ commas xs"

text \<open>What the encoder does to the text of a \<open>json.RawMessage\<close>: white space between tokens is dropped, and the
  characters that are escaped in strings are escaped. The flag says whether the position is inside a string.\<close>

function compact :: "bool \<Rightarrow> bytes \<Rightarrow> bytes" where
  "compact q [] = []"
| "compact q (c # r) =
     (if c \<in> set ''<>&'' then [CHR 0x5C, CHR ''u'', CHR ''0'', CHR ''0''] @ hex_of_byte c @ compact q r
      else if take 3 (c # r) \<in> set separators
      then [CHR 0x5C] @ ''u202'' @ [if r ! 1 = CHR 0xA8 then CHR ''8'' else CHR ''9''] @ compact q (drop 2 r)
      else if q then
        (if c = CHR 0x5C then c # take 1 r @ compact True (drop 1 r) else c # compact (c \<noteq> CHR 0x22) r)
      else if json_ws c then compact False r else c # compact (c = CHR 0x22) r)"
  by pat_completeness auto
termination
  by (relation "measure (length \<circ> snd)") auto

declare compact.simps(2) [simp del]

fun enc :: "gov \<Rightarrow> bytes" where
  "enc GNull = ''null''"
| "enc (GBool b) = (if b then ''true'' else ''false'')"
| "enc (GNum s) = s"
| "enc (GStr s) = quote s"
| "enc (GArr gs) = ''['' @ commas (map enc gs) @ '']''"
| "enc (GObj kvs) = ''{'' @ commas (map (\<lambda>kv. quote (fst kv) @ '':'' @ enc (snd kv)) kvs) @ ''}''"
| "enc (GRaw s) = (if s = [] then ''null'' else compact False s)"

text \<open>The only error: a raw message that is not JSON.\<close>

fun raw_ok :: "gov \<Rightarrow> bool" where
  "raw_ok (GArr gs) = list_all raw_ok gs"
| "raw_ok (GObj kvs) = list_all (\<lambda>kv. raw_ok (snd kv)) kvs"
| "raw_ok (GRaw s) = (s = [] \<or> Unmarshal s \<noteq> None)"
| "raw_ok _ = True"

definition Marshal :: "gov \<Rightarrow> bytes option" where
  "Marshal g = (if raw_ok g then Some (enc g) else None)"

text \<open>A Go map is written in the order of its keys.\<close>

definition go_map :: "(bytes \<times> gov) list \<Rightarrow> gov" where
  "go_map kvs = GObj (sort_key fst kvs)"

section \<open>Reading back what was written\<close>

fun json_of :: "gov \<Rightarrow> json" where
  "json_of GNull = JNull"
| "json_of (GBool b) = JBool b"
| "json_of (GNum s) = JNum s"
| "json_of (GStr s) = JStr (to_valid s)"
| "json_of (GArr gs) = JArr (map json_of gs)"
| "json_of (GObj kvs) = JObj (map (\<lambda>kv. (to_valid (fst kv), enc (snd kv), json_of (snd kv))) kvs)"
| "json_of (GRaw s) = JNull"

text \<open>Values without raw text whose numbers are numbers, and their nesting.\<close>

fun plain :: "gov \<Rightarrow> bool" where
  "plain (GNum s) = num_text s"
| "plain (GArr gs) = list_all plain gs"
| "plain (GObj kvs) = list_all (\<lambda>kv. plain (snd kv)) kvs"
| "plain (GRaw s) = False"
| "plain _ = True"

fun nesting :: "gov \<Rightarrow> nat" where
  "nesting (GArr gs) = Suc (foldr max (map nesting gs) 0)"
| "nesting (GObj kvs) = Suc (foldr max (map (\<lambda>kv. nesting (snd kv)) kvs) 0)"
| "nesting _ = 0"

lemma foldr_max_le: "foldr max ns 0 \<le> (d :: nat) \<longleftrightarrow> (\<forall>n \<in> set ns. n \<le> d)"
  by (induction ns) auto

lemma num_text_head:
  assumes "num_text s"
  obtains c u where "s = c # u" "is_digit c \<or> c = CHR ''-''"
  using assms by (auto simp: num_text_def digit_text_def neq_Nil_conv)

lemma number_head:
  assumes "is_digit c \<or> c = CHR ''-''"
  shows "\<not> json_ws c" "c \<notin> set '']},:''" "c \<notin> set ''{[tfn''" "c \<noteq> CHR 0x22"
proof -
  have "(of_char c :: nat) \<in> {45} \<union> {48..57}" using assms by (auto simp: is_digit_of_char)
  moreover have "(of_char d :: nat) \<notin> {45} \<union> {48..57}" if "json_ws d \<or> d \<in> set '']},:{[tfn'' \<or> d = CHR 0x22" for d
    using that by (auto simp: json_ws_def)
  ultimately show "\<not> json_ws c" "c \<notin> set '']},:''" "c \<notin> set ''{[tfn''" "c \<noteq> CHR 0x22" by fastforce+
qed

lemma enc_head:
  assumes "plain g"
  obtains c u where "enc g = c # u" "\<not> json_ws c" "c \<notin> set '']},:''"
proof (cases g)
  case (GNum s)
  then obtain c u where "s = c # u" "is_digit c \<or> c = CHR ''-''" using assms num_text_head by auto
  then show ?thesis using that [OF _ number_head(1,2)] GNum by simp
next
  case (GBool b)
  then show ?thesis using that by (cases b) (simp_all add: json_ws_def)
qed (use assms that in \<open>auto simp: json_ws_def quote_def split: if_splits\<close>)

lemma skip_ws_enc: "plain g \<Longrightarrow> skip_ws (enc g @ t) = enc g @ t"
  by (erule enc_head) (simp add: skip_ws_def)

lemma skip_ws_token [simp]: "\<not> json_ws c \<Longrightarrow> skip_ws (c # t) = c # t"
  by (simp add: skip_ws_def)

lemma token_not_ws [simp]: "\<not> json_ws (CHR ''{'')" "\<not> json_ws (CHR ''}'')" "\<not> json_ws (CHR ''['')" "\<not> json_ws (CHR '']'')" "\<not> json_ws (CHR '','')"
  "\<not> json_ws (CHR '':'')" "\<not> json_ws (CHR 0x22)" "\<not> json_ws (CHR ''t'')" "\<not> json_ws (CHR ''f'')" "\<not> json_ws (CHR ''n'')"
  by (simp_all add: json_ws_def)

lemma stops_token [simp]: "stops (CHR ''}'' # t)" "stops (CHR '']'' # t)" "stops (CHR '','' # t)" "stops []"
  by (simp_all add: stops_def is_digit_of_char)

lemma commas_Cons: "xs \<noteq> [] \<Longrightarrow> commas (x # xs) = x @ CHR '','' # commas xs"
  by (cases xs) simp_all

lemma parse_elems_enc:
  assumes "gs \<noteq> []" "\<And>g t. g \<in> set gs \<Longrightarrow> stops t \<Longrightarrow> parse_value d (enc g @ t) = Some (json_of g, t)"
  shows "parse_elems d (commas (map enc gs) @ CHR '']'' # t) = Some (map json_of gs, t)"
  using assms
proof (induction gs)
  case (Cons g gs)
  show ?case
  proof (cases "gs = []")
    case True
    then show ?thesis using Cons.prems(2) [of g "CHR '']'' # t"] by (simp add: parse_elems.simps)
  next
    case False
    let ?r = "commas (map enc gs) @ CHR '']'' # t"
    have "parse_value d (enc g @ CHR '','' # ?r) = Some (json_of g, CHR '','' # ?r)" using Cons.prems(2) by simp
    moreover have "parse_elems d ?r = Some (map json_of gs, t)" using Cons False by simp
    ultimately show ?thesis using False by (simp add: commas_Cons parse_elems.simps [of d "enc g @ _"])
  qed
qed simp

lemma parse_members_enc:
  assumes "kvs \<noteq> []" "\<And>kv t. kv \<in> set kvs \<Longrightarrow> stops t \<Longrightarrow> plain (snd kv) \<and> parse_value d (enc (snd kv) @ t) = Some (json_of (snd kv), t)"
  shows "parse_members d (commas (map (\<lambda>kv. quote (fst kv) @ '':'' @ enc (snd kv)) kvs) @ CHR ''}'' # t)
    = Some (map (\<lambda>kv. (to_valid (fst kv), enc (snd kv), json_of (snd kv))) kvs, t)"
  using assms
proof (induction kvs)
  case (Cons kv kvs)
  have pl: "plain (snd kv)" using Cons.prems(2) [of kv "[]"] by simp
  show ?case
  proof (cases "kvs = []")
    case True
    have "parse_value d (enc (snd kv) @ CHR ''}'' # t) = Some (json_of (snd kv), CHR ''}'' # t)" using Cons.prems(2) by simp
    then show ?thesis using True pl
      by (simp add: parse_members.simps quote_def parse_str_quote skip_ws_enc Let_def)
  next
    case False
    let ?r = "commas (map (\<lambda>kv. quote (fst kv) @ '':'' @ enc (snd kv)) kvs) @ CHR ''}'' # t"
    have "parse_value d (enc (snd kv) @ CHR '','' # ?r) = Some (json_of (snd kv), CHR '','' # ?r)" using Cons.prems(2) by simp
    moreover have "parse_members d ?r = Some (map (\<lambda>kv. (to_valid (fst kv), enc (snd kv), json_of (snd kv))) kvs, t)" using Cons False by simp
    ultimately show ?thesis using False pl
      by (simp add: commas_Cons parse_members.simps [of d "_ # _"] quote_def parse_str_quote skip_ws_enc Let_def)
  qed
qed simp

lemma parse_value_num:
  assumes "num_text s" "stops t"
  shows "parse_value d (s @ t) = Some (JNum s, t)"
proof -
  obtain c u where s: "s = c # u" "is_digit c \<or> c = CHR ''-''" using assms(1) by (rule num_text_head)
  have "\<not> json_ws c" "c \<notin> set ''{[tfn''" "c \<noteq> CHR 0x22" using number_head [OF s(2)] by simp_all
  then show ?thesis using parse_num_append [OF assms] by (simp add: parse_value.simps [of d "c # u @ t"] s(1))
qed

lemma parse_enc: "plain g \<Longrightarrow> nesting g \<le> d \<Longrightarrow> stops t \<Longrightarrow> parse_value d (enc g @ t) = Some (json_of g, t)"
proof (induction g arbitrary: d t)
  case (GArr gs)
  obtain e where d: "d = Suc e" using GArr.prems by (cases d) auto
  have pl: "\<And>g. g \<in> set gs \<Longrightarrow> plain g \<and> nesting g \<le> e" using GArr.prems by (auto simp: list_all_iff d foldr_max_le)
  show ?case
  proof (cases gs)
    case (Cons g gs')
    obtain c u where c: "enc g = c # u" "\<not> json_ws c" "c \<notin> set '']},:''" using enc_head pl Cons by force
    then obtain v where v: "commas (map enc gs) = c # v" using Cons by (cases gs') simp_all
    have "parse_elems e (commas (map enc gs) @ CHR '']'' # t) = Some (map json_of gs, t)"
      using GArr.IH pl Cons by (intro parse_elems_enc) auto
    then show ?thesis using c unfolding v by (simp add: parse_value.simps [of "Suc e" "CHR ''['' # c # v @ CHR '']'' # t"] d v)
  qed (simp add: parse_value.simps d)
next
  case (GObj kvs)
  obtain e where d: "d = Suc e" using GObj.prems by (cases d) auto
  have pl: "\<And>kv. kv \<in> set kvs \<Longrightarrow> plain (snd kv) \<and> nesting (snd kv) \<le> e" using GObj.prems by (auto simp: list_all_iff d foldr_max_le)
  show ?case
  proof (cases kvs)
    case (Cons kv kvs')
    let ?ms = "commas (map (\<lambda>kv. quote (fst kv) @ '':'' @ enc (snd kv)) kvs)"
    obtain v where v: "?ms = CHR 0x22 # v" using Cons by (cases kvs') (simp_all add: quote_def)
    have "parse_members e (?ms @ CHR ''}'' # t) = Some (map (\<lambda>kv. (to_valid (fst kv), enc (snd kv), json_of (snd kv))) kvs, t)"
    proof (rule parse_members_enc)
      fix kv u assume kv: "kv \<in> set kvs" "stops u"
      have "parse_value e (enc (snd kv) @ u) = Some (json_of (snd kv), u)"
        using GObj.IH [of kv "snd kv" e u] pl [OF kv(1)] kv by (cases kv) auto
      then show "plain (snd kv) \<and> parse_value e (enc (snd kv) @ u) = Some (json_of (snd kv), u)" using pl [OF kv(1)] by simp
    qed (simp add: Cons)
    then show ?thesis unfolding enc.simps append_assoc unfolding v by (simp add: parse_value.simps [of "Suc e" "CHR ''{'' # CHR 0x22 # v @ CHR ''}'' # t"] d)
  qed (simp add: parse_value.simps d)
next
  case (GStr s)
  then show ?case by (simp add: parse_value.simps quote_def parse_str_quote)
next
  case (GNum s)
  then show ?case by (simp add: parse_value_num)
qed (simp_all add: parse_value.simps parse_lit_def)

theorem Unmarshal_Marshal:
  assumes "plain g" "nesting g \<le> max_nesting"
  shows "Unmarshal (enc g) = Some (json_of g)" "DecodeFirst (enc g) = Some (json_of g)"
  using parse_enc [OF assms, of "[]"] by (simp_all add: Unmarshal_def DecodeFirst_def skip_ws_def)

lemma raw_ok_plain [simp]: "plain g \<Longrightarrow> raw_ok g"
  by (induction g rule: raw_ok.induct) (auto simp: list_all_iff)

text \<open>What the encoder writes can be told apart: equal texts that go on after a value hold the same value.\<close>

lemma enc_peel:
  assumes "enc g @ t = enc h @ u" "plain g" "plain h" "stops t" "stops u"
  shows "json_of g = json_of h \<and> t = u"
  using parse_enc [OF assms(2), of "max (nesting g) (nesting h)" t] parse_enc [OF assms(3), of "max (nesting g) (nesting h)" u] assms(1,4,5)
  by simp

section \<open>Raw text\<close>

text \<open>Written text is not changed when it is encoded again as a raw message.\<close>

definition safe :: "char \<Rightarrow> bool" where
  "safe c \<longleftrightarrow> c \<notin> set ''<>&'' \<and> c \<noteq> CHR 0xE2 \<and> c \<noteq> CHR 0x22 \<and> c \<noteq> CHR 0x5C"

lemma not_separator: "c \<noteq> CHR 0xE2 \<Longrightarrow> take 3 (c # r) \<notin> set separators"
  by (auto simp: separators_def)

lemma compact_copy:
  "list_all safe w \<Longrightarrow> q \<or> list_all (\<lambda>c. \<not> json_ws c) w \<Longrightarrow> compact q (w @ t) = w @ compact q t"
proof (induction w)
  case (Cons c w)
  have "take 3 (c # w @ t) \<notin> set separators" using Cons.prems by (intro not_separator) (simp add: safe_def)
  then show ?case using Cons by (cases q) (simp_all add: compact.simps(2) safe_def)
qed simp

lemma compact_escape: "compact True (CHR 0x5C # e # t) = CHR 0x5C # e # compact True t"
proof -
  have "take 3 (CHR 0x5C # e # t) \<notin> set separators" by (rule not_separator) simp
  then show ?thesis by (simp add: compact.simps(2))
qed

lemma compact_u: "list_all safe w \<Longrightarrow> compact True (CHR 0x5C # e # w @ t) = CHR 0x5C # e # w @ compact True t"
  by (simp add: compact_escape compact_copy)

lemma safe_hex: "list_all safe (hex_of_byte c)"
proof -
  have "list_all (\<lambda>d. safe (digit_char d)) [0..<16]" by code_simp
  moreover have "of_char c div 16 < (16 :: nat)" by (simp add: less_mult_imp_div_less)
  ultimately show ?thesis by (simp add: hex_of_byte_def list_all_iff)
qed

lemma compact_quote_byte:
  assumes "(of_char c :: nat) < 128"
  shows "compact True (quote_byte c @ t) = quote_byte c @ compact True t"
proof -
  consider (simple) "c \<in> {CHR 0x5C, CHR 0x22, CHR 0x08, CHR 0x0C, CHR 0x0A, CHR 0x0D, CHR 0x09}"
    | (escape) "c \<notin> {CHR 0x5C, CHR 0x22, CHR 0x08, CHR 0x0C, CHR 0x0A, CHR 0x0D, CHR 0x09}" "(of_char c :: nat) < 0x20 \<or> c \<in> set ''<>&''"
    | (plain) "c \<notin> {CHR 0x5C, CHR 0x22, CHR 0x08, CHR 0x0C, CHR 0x0A, CHR 0x0D, CHR 0x09}" "\<not> ((of_char c :: nat) < 0x20 \<or> c \<in> set ''<>&'')" by blast
  then show ?thesis
  proof cases
    case simple
    then show ?thesis by (auto simp: quote_byte_def compact_escape)
  next
    case escape
    then have "quote_byte c = CHR 0x5C # CHR ''u'' # ''00'' @ hex_of_byte c" by (simp add: quote_byte_def)
    moreover have "list_all safe (''00'' @ hex_of_byte c)" using safe_hex by (simp add: safe_def)
    ultimately show ?thesis using compact_u [of "''00'' @ hex_of_byte c" "CHR ''u''" t] by simp
  next
    case plain
    then have "quote_byte c = [c]" by (simp add: quote_byte_def)
    moreover have "c \<noteq> CHR 0xE2" using assms by auto
    then have "safe c" using plain by (simp add: safe_def)
    ultimately show ?thesis using compact_copy [of "[c]" True t] by simp
  qed
qed

lemma utf8_tail:
  assumes "x \<in> set (take (utf8_len (c # r) - 1) r)"
  shows "128 \<le> (of_char x :: nat) \<and> (of_char x :: nat) \<le> 191"
proof -
  obtain i where i: "i < utf8_len (c # r) - 1" "i < length r" "x = r ! i" using assms by (auto simp: in_set_conv_nth)
  define g where "g i = (if i < length (c # r) then of_char ((c # r) ! i) else 0 :: nat)" for i
  have "utf8_len (c # r) \<le> 4" by (simp add: utf8_len_def Let_def)
  then have "i = 0 \<or> i = 1 \<or> i = 2" using i(1) by linarith
  moreover have "1 < utf8_len (c # r) \<Longrightarrow> 128 \<le> g 1 \<and> g 1 \<le> 191" "2 < utf8_len (c # r) \<Longrightarrow> 128 \<le> g 2 \<and> g 2 \<le> 191"
    "3 < utf8_len (c # r) \<Longrightarrow> 128 \<le> g 3 \<and> g 3 \<le> 191"
    unfolding utf8_len_def Let_def g_def [symmetric] by (simp_all split: if_splits)
  ultimately have "128 \<le> g (Suc i) \<and> g (Suc i) \<le> 191" using i(1) by (auto simp: numeral_2_eq_2 numeral_3_eq_3)
  moreover have "g (Suc i) = of_char x" using i by (simp add: g_def)
  ultimately show ?thesis by simp
qed

lemma compact_multi_byte:
  assumes "\<not> (of_char c :: nat) < 128" "utf8_len (c # r) \<noteq> 0" "take 3 (c # r) \<notin> set separators"
  shows "compact True (take (utf8_len (c # r)) (c # r) @ t) = take (utf8_len (c # r)) (c # r) @ compact True t"
proof -
  let ?w = "take (utf8_len (c # r) - 1) r"
  have w: "take (utf8_len (c # r)) (c # r) = c # ?w" using assms(2) by (cases "utf8_len (c # r)") simp_all
  have "safe x" if "x \<in> set ?w" for x using utf8_tail [OF that] by (auto simp: safe_def)
  then have tail: "compact True (?w @ t) = ?w @ compact True t" by (intro compact_copy) (simp_all add: list_all_iff)
  have "take 3 (c # ?w @ t) \<notin> set separators"
  proof (cases "c = CHR 0xE2")
    case True
    then have "utf8_len (c # r) = 3" using assms(2) by (auto simp: utf8_len_def split: if_splits)
    then show ?thesis using utf8_len_le [of "c # r"] assms(3) by simp
  qed (rule not_separator)
  moreover have "c \<notin> set ''<>&''" "c \<noteq> CHR 0x5C" "c \<noteq> CHR 0x22" using assms(1) by auto
  ultimately show ?thesis using tail unfolding w append_Cons by (simp only: compact.simps(2) if_False if_True simp_thms)
qed

lemma compact_quote_body: "compact True (quote_body s @ CHR 0x22 # t) = quote_body s @ CHR 0x22 # compact False t"
proof (induction s rule: quote_body.induct)
  case 1
  have "take 3 (CHR 0x22 # t) \<notin> set separators" by (rule not_separator) simp
  then show ?case by (simp add: quote_body.simps compact.simps(2))
next
  case (2 c r)
  consider (ascii) "(of_char c :: nat) < 128" | (bad) "\<not> (of_char c :: nat) < 128" "utf8_len (c # r) = 0"
    | (sep) "\<not> (of_char c :: nat) < 128" "utf8_len (c # r) \<noteq> 0" "take 3 (c # r) \<in> set separators"
    | (multi) "\<not> (of_char c :: nat) < 128" "utf8_len (c # r) \<noteq> 0" "take 3 (c # r) \<notin> set separators" by blast
  then show ?case
  proof cases
    case ascii
    then show ?thesis using 2(1) by (simp add: quote_body.simps(2) compact_quote_byte)
  next
    case bad
    then show ?thesis using 2(2) compact_u [of "''fffd''" "CHR ''u''"] by (simp add: quote_body.simps(2) safe_def)
  next
    case sep
    then show ?thesis using 2(3) [OF sep] compact_u [of "''202'' @ [if r ! 1 = CHR 0xA8 then CHR ''8'' else CHR ''9'']" "CHR ''u''"]
      by (simp add: quote_body.simps(2) safe_def)
  next
    case multi
    then show ?thesis using 2(4) [OF multi] by (simp add: quote_body.simps(2) compact_multi_byte del: take_Suc_Cons)
  qed
qed

lemma compact_quote: "compact False (quote s @ t) = quote s @ compact False t"
proof -
  have "compact False (CHR 0x22 # u) = CHR 0x22 # compact True u" for u
    using not_separator [of "CHR 0x22" u] by (simp add: compact.simps(2))
  then show ?thesis by (simp add: quote_def compact_quote_body)
qed

lemma compact_tokens:
  "list_all (\<lambda>c. c \<in> set ''{}[],:truefalsn'') w \<Longrightarrow> compact False (w @ t) = w @ compact False t"
proof -
  assume w: "list_all (\<lambda>c. c \<in> set ''{}[],:truefalsn'') w"
  have "list_all (\<lambda>c. safe c \<and> \<not> json_ws c) ''{}[],:truefalsn''" by code_simp
  with w show ?thesis by (intro compact_copy) (simp_all only: list_all_iff, blast+)
qed

lemma safe_digit: "is_digit c \<Longrightarrow> safe c \<and> \<not> json_ws c"
  by (auto simp: safe_def json_ws_def is_digit_of_char)

lemma compact_num:
  assumes "num_text s"
  shows "compact False (s @ t) = s @ compact False t"
proof -
  have "c \<in> set ''-+.eE'' \<or> is_digit c" if "c \<in> set s" for c
    using that assms by (auto simp: num_text_def digit_text_def frac_text_def exp_text_def list_all_iff)
  then have "safe c \<and> \<not> json_ws c" if "c \<in> set s" for c
    using that safe_digit [of c] by (fastforce simp: safe_def json_ws_def)
  then show ?thesis by (intro compact_copy) (simp_all add: list_all_iff)
qed

lemma compact_commas:
  assumes "\<And>x u. x \<in> set xs \<Longrightarrow> compact False (x @ u) = x @ compact False u"
  shows "compact False (commas xs @ t) = commas xs @ compact False t"
  using assms
proof (induction xs rule: commas.induct)
  case (3 x y ys)
  then show ?case using compact_tokens [of "'',''"] by simp
qed simp_all

lemma compact_enc: "plain g \<Longrightarrow> compact False (enc g @ t) = enc g @ compact False t"
proof (induction g arbitrary: t)
  case (GArr gs)
  have "compact False (commas (map enc gs) @ u) = commas (map enc gs) @ compact False u" for u
    using GArr by (intro compact_commas) (auto simp: list_all_iff)
  then show ?case using compact_tokens [of "''[''"] compact_tokens [of "'']''"] by simp
next
  case (GObj kvs)
  have "compact False (commas (map (\<lambda>kv. quote (fst kv) @ '':'' @ enc (snd kv)) kvs) @ u)
      = commas (map (\<lambda>kv. quote (fst kv) @ '':'' @ enc (snd kv)) kvs) @ compact False u" for u
  proof (rule compact_commas)
    fix x v assume "x \<in> set (map (\<lambda>kv. quote (fst kv) @ '':'' @ enc (snd kv)) kvs)"
    then obtain kv where kv: "kv \<in> set kvs" "x = quote (fst kv) @ '':'' @ enc (snd kv)" by auto
    have "compact False (enc (snd kv) @ v) = enc (snd kv) @ compact False v" for v
      using GObj.IH [of kv "snd kv" v] GObj.prems kv(1) by (cases kv) (auto simp: list_all_iff)
    then show "compact False (x @ v) = x @ compact False v" using compact_tokens [of "'':''"] by (simp add: kv(2) compact_quote)
  qed
  then show ?case using compact_tokens [of "''{''"] compact_tokens [of "''}''"] by simp
qed (use compact_tokens [of "''null''"] compact_tokens [of "''true''"] compact_tokens [of "''false''"] in \<open>simp_all add: compact_quote compact_num\<close>)

corollary enc_raw: "plain g \<Longrightarrow> enc (GRaw (enc g)) = enc g"
  using compact_enc [of g "[]"] by (auto elim: enc_head)

section \<open>Go values\<close>

text \<open>Unsigned and signed integers, byte slices (\<open>nil\<close> is \<open>null\<close>) and lists of strings.\<close>

definition guint :: "('a::len) word \<Rightarrow> gov" where
  "guint w = GNum (utoa 10 (unat w))"

definition gint :: "int64 \<Rightarrow> gov" where
  "gint i = GNum (itoa 10 i)"

definition gbytes :: "bytes \<Rightarrow> gov" where
  "gbytes bs = (if bs = [] then GNull else GStr (base64_Encode bs))"

definition gstrings :: "bytes list \<Rightarrow> gov" where
  "gstrings ss = GArr (map GStr ss)"

lemma nat_scan_utoa: "nat_scan False (utoa 10 n) = Some (n, 10, int (length (utoa 10 n)), [])"
proof -
  obtain ds where ds: "digits_of n ds" using digits_of_ex by blast
  then have u: "utoa 10 n = map digit_char ds" and all: "\<forall>d \<in> set ds. d < 10" "ds \<noteq> []" and val: "digs_val ds = n"
    and lead: "hd ds = 0 \<longrightarrow> ds = [0]" by (simp_all add: digits_of_def)
  show ?thesis
  proof (cases "hd ds = 0")
    case True
    with lead val show ?thesis by (simp add: utoa.simps [of 10 0] nat_scan_def scan_prefix_def digit_char_0_eq scan_init_def digs_val_def)
  next
    case False
    then obtain d ds' where d: "ds = d # ds'" "digit_char d \<noteq> CHR ''0''" using all by (cases ds) (auto simp: digit_char_0)
    then have "scan_prefix False (map digit_char ds) = (10, None, scan_init False (CHR ''.'') 0, map digit_char ds)"
      by (cases ds') (simp_all add: scan_prefix_def)
    then show ?thesis
      using scan_loop_digits [OF all, of "scan_init False (CHR ''.'') 0" "[]"] val d(1) by (simp add: nat_scan_def u scan_init_def)
  qed
qed

lemma utoa_head:
  obtains c u where "utoa 10 n = c # u" "is_digit c" "list_all is_digit u"
proof -
  obtain ds where "digits_of n ds" using digits_of_ex by blast
  then show ?thesis using that by (cases ds) (auto simp: digits_of_def list_all_iff)
qed

lemma lit_int_utoa [simp]: "lit_int (utoa 10 n) = Some (int n)"
proof -
  obtain c u where c: "utoa 10 n = c # u" "is_digit c" "list_all is_digit u" by (rule utoa_head)
  then have "c \<noteq> CHR ''-''" "c \<noteq> CHR ''+''" by auto
  then show ?thesis using c nat_scan_utoa [of n] by (simp add: lit_int_def int_SetString_def scan_sign_def)
qed

lemma lit_int_itoa [simp]: "lit_int (itoa 10 i) = Some i"
proof (cases "i < 0")
  case True
  obtain c u where c: "utoa 10 (nat (- i)) = c # u" "is_digit c" "list_all is_digit u" by (rule utoa_head)
  then show ?thesis using True nat_scan_utoa [of "nat (- i)"] by (simp add: itoa_def lit_int_def int_SetString_def scan_sign_def)
qed (simp add: itoa_def)

lemma hd_utoa [simp]: "hd (utoa 10 n) \<noteq> CHR ''-''"
proof -
  obtain c u where "utoa 10 n = c # u" "is_digit c" "list_all is_digit u" by (rule utoa_head)
  then show ?thesis by auto
qed

lemma dec_guint:
  "dec_uint64 (json_of (guint w)) old = Some w" "dec_uint32 (json_of (guint v)) old' = Some v"
  using unsigned_less [of w, where ?'a = int] unsigned_less [of v, where ?'a = int]
  by (simp_all add: guint_def dec_uint64_def dec_uint32_def dec_uint_def lit_range_def)

lemma dec_gint: "in_int64 i \<Longrightarrow> dec_int64 (json_of (gint i)) old = Some i"
  by (simp add: gint_def dec_int64_def lit_range_def in_int64_def)

lemma utf8_Valid_ascii: "list_all (\<lambda>c. (of_char c :: nat) < 128) s \<Longrightarrow> utf8_Valid s"
  by (induction s) (simp_all add: utf8_Valid.simps)

lemma base64_ascii: "list_all (\<lambda>c. (of_char c :: nat) < 128) (base64_Encode bs)"
  by (induction bs rule: base64_Encode.induct) (simp_all add: Let_def b64_of_char)

lemma to_valid_base64 [simp]: "to_valid (base64_Encode bs) = base64_Encode bs"
  by (intro to_valid_id utf8_Valid_ascii base64_ascii)

lemma dec_gbytes: "dec_bytes (json_of (gbytes bs)) old = Some bs"
  by (simp add: gbytes_def dec_bytes_def)

lemma plain_values [simp]: "plain (guint w)" "plain (gbytes bs)" "plain (gstrings ss)" "plain (gint i)"
proof -
  show "plain (gint i)" using num_text_neg [of "utoa 10 (nat (- i))"] by (simp add: gint_def itoa_def)
qed (simp_all add: guint_def gbytes_def gstrings_def list_all_iff)

lemma nesting_values [simp]: "nesting (guint w) = 0" "nesting (gbytes bs) = 0" "nesting (gint i) = 0"
  by (simp_all add: guint_def gbytes_def gint_def)

section \<open>Transactions\<close>

text \<open>\<open>json.Marshal\<close> of the signed part of an envelope, the bytes that are signed, and \<open>EncodeTx\<close>.\<close>

definition marshal_signable :: "signableTx \<Rightarrow> bytes option" where
  "marshal_signable s = Marshal (GObj [(''sender'', gbytes (sg_Sender s)), (''nonce'', guint (sg_Nonce s)), (''gas_limit'', guint (sg_GasLimit s)),
     (''gas_price'', guint (sg_GasPrice s)), (''module'', GStr (sg_Module s)), (''action'', GStr (sg_Action s)), (''payload'', GRaw (sg_Payload s))])"

definition SignBytes :: "TxEnvelope \<Rightarrow> bytes option" where
  "SignBytes t = marshal_signable \<lparr>sg_Sender = Sender t, sg_Nonce = Nonce t, sg_GasLimit = GasLimit t, sg_GasPrice = GasPrice t,
     sg_Module = Module t, sg_Action = Action t, sg_Payload = Payload t\<rparr>"

definition tx_members :: "TxEnvelope \<Rightarrow> gov \<Rightarrow> (bytes \<times> gov) list" where
  "tx_members tx payload = [(''sender'', gbytes (Sender tx)), (''nonce'', guint (Nonce tx)), (''gas_limit'', guint (GasLimit tx)),
     (''gas_price'', guint (GasPrice tx)), (''module'', GStr (Module tx)), (''action'', GStr (Action tx)), (''payload'', payload),
     (''signature'', gbytes (Signature tx))]
     @ (if Memo tx = [] then [] else [(''memo'', GStr (Memo tx))])
     @ (if TimeoutHeight tx = 0 then [] else [(''timeout_height'', gint (TimeoutHeight tx))])"

definition EncodeTx :: "TxEnvelope \<Rightarrow> bytes option" where
  "EncodeTx tx = Marshal (GObj (tx_members tx (GRaw (Payload tx))))"

text \<open>The bytes to sign exist exactly when the payload is JSON.\<close>

lemma SignBytes_defined: "SignBytes t \<noteq> None \<longleftrightarrow> Payload t = [] \<or> Unmarshal (Payload t) \<noteq> None"
  by (simp add: SignBytes_def marshal_signable_def Marshal_def gbytes_def guint_def)

lemma enc_GObj_cong:
  assumes "map fst kvs = map fst kvs'" "map (enc \<circ> snd) kvs = map (enc \<circ> snd) kvs'"
  shows "enc (GObj kvs) = enc (GObj kvs')"
proof -
  have "map (\<lambda>kv. quote (fst kv) @ '':'' @ enc (snd kv)) kvs = map (\<lambda>(k, e). quote k @ '':'' @ e) (zip (map fst kvs) (map (enc \<circ> snd) kvs))" for kvs
    by (induction kvs) simp_all
  then show ?thesis using assms by simp
qed

lemma tx_keys:
  "to_valid ''sender'' = ''sender''" "to_valid ''nonce'' = ''nonce''" "to_valid ''gas_limit'' = ''gas_limit''" "to_valid ''gas_price'' = ''gas_price''"
  "to_valid ''module'' = ''module''" "to_valid ''action'' = ''action''" "to_valid ''payload'' = ''payload''" "to_valid ''signature'' = ''signature''"
  "to_valid ''memo'' = ''memo''" "to_valid ''timeout_height'' = ''timeout_height''"
  by code_simp+

lemma tx_field:
  "find_field tx_fields ''sender'' = Some (fld dec_bytes Sender Sender_update)"
  "find_field tx_fields ''nonce'' = Some (fld dec_uint64 Nonce Nonce_update)"
  "find_field tx_fields ''gas_limit'' = Some (fld dec_uint64 GasLimit GasLimit_update)"
  "find_field tx_fields ''gas_price'' = Some (fld dec_uint64 GasPrice GasPrice_update)"
  "find_field tx_fields ''module'' = Some (fld dec_string Module Module_update)"
  "find_field tx_fields ''action'' = Some (fld dec_string Action Action_update)"
  "find_field tx_fields ''payload'' = Some (\<lambda>raw j t. Some (t\<lparr>Payload := raw\<rparr>))"
  "find_field tx_fields ''signature'' = Some (fld dec_bytes Signature Signature_update)"
  "find_field tx_fields ''memo'' = Some (fld dec_string Memo Memo_update)"
  "find_field tx_fields ''timeout_height'' = Some (fld dec_int64 TimeoutHeight TimeoutHeight_update)"
  by (simp_all add: find_field_def tx_fields_def)

text \<open>What is written is read back: of an envelope whose texts are valid UTF-8, whose time-out is a machine integer and whose
  payload was itself written by the encoder.\<close>

lemma tx_roundtrip:
  assumes "utf8_Valid (Module tx)" "utf8_Valid (Action tx)" "utf8_Valid (Memo tx)" "in_int64 (TimeoutHeight tx)"
    and "Payload tx = enc g" "plain g" "nesting g < max_nesting"
  shows "\<exists>raw. EncodeTx tx = Some raw \<and> DecodeTx raw = Some tx"
proof -
  let ?o = "GObj (tx_members tx g)"
  have pl: "plain ?o" using assms(6) by (simp add: tx_members_def)
  have ne: "nesting ?o \<le> max_nesting" using assms(7) by (simp add: tx_members_def max_nesting_def foldr_max_le)
  have raw: "enc (GObj (tx_members tx (GRaw (Payload tx)))) = enc ?o"
    using enc_raw [OF assms(6)] by (intro enc_GObj_cong) (simp_all add: tx_members_def assms(5))
  have ok: "raw_ok (GObj (tx_members tx (GRaw (Payload tx))))"
    using assms(5-7) Unmarshal_Marshal(1) [of g] by (simp add: tx_members_def)
  have "DecodeFirst (enc ?o) = Some (json_of ?o)" by (rule Unmarshal_Marshal [OF pl ne])
  moreover have "dec_struct True tx_fields (json_of ?o) zeroTx = Some tx"
    using assms(1-5) by (simp add: tx_members_def dec_struct_def tx_field tx_keys fld_def zeroTx_def dec_guint dec_gint dec_gbytes
        to_valid_id dec_string_def)
  ultimately show ?thesis using ok by (simp add: EncodeTx_def Marshal_def raw DecodeTx_def del: enc.simps json_of.simps raw_ok.simps)
qed

text \<open>Two objects with the same names and the same text have the same members; the last one may be raw text.\<close>

lemma members_peel:
  fixes kvs kvs' :: "(bytes \<times> gov) list"
  defines "f \<equiv> \<lambda>kv. quote (fst kv) @ '':'' @ enc (snd kv)"
  assumes "map fst kvs = map fst kvs'" "\<forall>kv \<in> set kvs \<union> set kvs'. plain (snd kv)"
    and "commas (map f (kvs @ [(k, x)])) = commas (map f (kvs' @ [(k, x')]))"
  shows "map (json_of \<circ> snd) kvs = map (json_of \<circ> snd) kvs' \<and> enc x = enc x'"
  using assms(2-4)
proof (induction kvs arbitrary: kvs')
  case Nil
  then show ?case by (simp add: f_def)
next
  case (Cons kv kvs)
  then obtain kv' kvs'' where k: "kvs' = kv' # kvs''" "fst kv = fst kv'" by (cases kvs') auto
  have "enc (snd kv) @ CHR '','' # commas (map f (kvs @ [(k, x)])) = enc (snd kv') @ CHR '','' # commas (map f (kvs'' @ [(k, x')]))"
    using Cons.prems(3) by (simp add: k commas_Cons f_def)
  then have "json_of (snd kv) = json_of (snd kv') \<and> commas (map f (kvs @ [(k, x)])) = commas (map f (kvs'' @ [(k, x')]))"
    using enc_peel Cons.prems(2) by (fastforce simp: k)
  then show ?case using Cons.IH [of kvs''] Cons.prems(1,2) by (simp add: k)
qed

lemma enc_GObj_inject:
  "enc (GObj kvs) = enc (GObj kvs') \<Longrightarrow>
    commas (map (\<lambda>kv. quote (fst kv) @ '':'' @ enc (snd kv)) kvs) = commas (map (\<lambda>kv. quote (fst kv) @ '':'' @ enc (snd kv)) kvs')"
  by simp

lemma guint_inject: "json_of (guint (v :: uint64)) = json_of (guint w) \<Longrightarrow> v = w"
  by (metis dec_guint(1) option.inject)

lemma gbytes_inject: "json_of (gbytes a) = json_of (gbytes b) \<Longrightarrow> a = b"
  by (metis dec_gbytes option.inject)

lemma signable_binds:
  assumes "marshal_signable s = Some b" "marshal_signable s' = Some b"
  shows "sg_Sender s = sg_Sender s' \<and> sg_Nonce s = sg_Nonce s' \<and> sg_GasLimit s = sg_GasLimit s' \<and> sg_GasPrice s = sg_GasPrice s'
    \<and> to_valid (sg_Module s) = to_valid (sg_Module s') \<and> to_valid (sg_Action s) = to_valid (sg_Action s')
    \<and> enc (GRaw (sg_Payload s)) = enc (GRaw (sg_Payload s'))"
proof -
  define ms where "ms s = [(''sender'', gbytes (sg_Sender s)), (''nonce'', guint (sg_Nonce s)), (''gas_limit'', guint (sg_GasLimit s)),
     (''gas_price'', guint (sg_GasPrice s)), (''module'', GStr (sg_Module s)), (''action'', GStr (sg_Action s))]" for s :: signableTx
  have b: "marshal_signable s = Some c \<Longrightarrow> c = enc (GObj (ms s @ [(''payload'', GRaw (sg_Payload s))]))" for s c
    by (simp add: marshal_signable_def Marshal_def ms_def del: enc.simps split: if_splits)
  have "enc (GObj (ms s @ [(''payload'', GRaw (sg_Payload s))])) = enc (GObj (ms s' @ [(''payload'', GRaw (sg_Payload s'))]))"
    using b [OF assms(1)] b [OF assms(2)] by (simp del: enc.simps)
  then have "map (json_of \<circ> snd) (ms s) = map (json_of \<circ> snd) (ms s') \<and> enc (GRaw (sg_Payload s)) = enc (GRaw (sg_Payload s'))"
    by (intro members_peel [where k = "''payload''", OF _ _ enc_GObj_inject]) (simp_all add: ms_def del: enc.simps)
  then show ?thesis by (auto simp: ms_def dest: guint_inject gbytes_inject simp del: enc.simps)
qed

section \<open>The reader only makes valid text\<close>

lemma utf8_Valid_append:
  assumes "utf8_Valid s" "utf8_Valid t"
  shows "utf8_Valid (s @ t)"
  using assms(1)
proof (induction s rule: utf8_Valid.induct)
  case (1 s)
  show ?case
  proof (cases "s = []")
    case False
    then have l: "utf8_len s \<noteq> 0" and v: "utf8_Valid (drop (utf8_len s) s)" using 1(2) by (auto simp: utf8_Valid.simps [of s] split: if_splits)
    have le: "utf8_len s \<le> length s" by (rule utf8_len_le)
    then have "utf8_len (s @ t) = utf8_len s" using l by (intro utf8_len_local [OF refl]) (simp_all add: nth_append)
    then show ?thesis using 1(1) [OF False l v] l le by (simp add: utf8_Valid.simps [of "s @ t"])
  qed (simp add: assms(2))
qed

lemma utf8_Valid_unit: "utf8_len s \<noteq> 0 \<Longrightarrow> utf8_Valid (take (utf8_len s) s)"
  using utf8_len_take [of s "[]"] utf8_len_le [of s] by (subst utf8_Valid.simps) (auto simp: utf8_Valid.simps [of "[]"])

lemma utf8_Valid_encode:
  assumes "n < 0x110000" "\<not> (0xD800 \<le> n \<and> n < 0xE000)"
  shows "utf8_Valid (utf8_encode n)"
proof -
  have n: "n = n div 64 * 64 + n mod 64" "n div 64 = n div 4096 * 64 + n div 64 mod 64" "n div 4096 = n div 262144 * 64 + n div 4096 mod 64"
    using div_mult_mod_eq [of n 64] div_mult_mod_eq [of "n div 64" 64] div_mult_mod_eq [of "n div 4096" 64]
    by (simp_all add: div_mult2_eq [symmetric])
  have "n mod 64 < 64" "n div 64 mod 64 < 64" "n div 4096 mod 64 < 64" by simp_all
  then have small: "n mod 64 \<le> 63" "n div 64 mod 64 \<le> 63" "n div 4096 mod 64 \<le> 63" by linarith+
  consider "n < 0x80" | "0x80 \<le> n" "n < 0x800" | "0x800 \<le> n" "n < 0x10000" | "0x10000 \<le> n" by linarith
  then have "utf8_len (utf8_encode n) = length (utf8_encode n)"
  proof cases
    case 1
    then show ?thesis by (simp add: utf8_encode_def utf8_len_def)
  next
    case 2
    then have "n div 64 < 32" "2 \<le> n div 64" using n(1) small by linarith+
    then show ?thesis using 2 small by (simp add: utf8_encode_def utf8_len_def)
  next
    case 3
    then have "n div 4096 < 16" using n(1,2) by linarith
    moreover have "n div 4096 = 0 \<Longrightarrow> 32 \<le> n div 64 mod 64" using 3 n(1,2) small by linarith
    moreover have "n div 4096 = 13 \<Longrightarrow> n div 64 mod 64 \<le> 31" using 3 n(1,2) small assms(2) by linarith
    ultimately show ?thesis using 3 small by (simp add: utf8_encode_def utf8_len_def)
  next
    case 4
    then have "n div 262144 < 5" using n assms(1) by linarith
    moreover have "n div 262144 = 0 \<Longrightarrow> 16 \<le> n div 4096 mod 64" using 4 n small by linarith
    moreover have "n div 262144 = 4 \<Longrightarrow> n div 4096 mod 64 \<le> 15" using n small assms(1) by linarith
    ultimately show ?thesis using 4 small by (simp add: utf8_encode_def utf8_len_def)
  qed
  moreover have "utf8_encode n \<noteq> []" by (simp add: utf8_encode_def)
  ultimately show ?thesis using utf8_Valid_unit [of "utf8_encode n"] by simp
qed

lemma hex4_bound:
  assumes "hex4 s = Some n"
  shows "n < 0x10000"
proof -
  have v: "hex_val c = Some x \<Longrightarrow> x < 16" for c x by (auto simp: hex_val_def Let_def split: if_splits)
  obtain a b c d w x y z where "hex_val a = Some w" "hex_val b = Some x" "hex_val c = Some y" "hex_val d = Some z"
    "n = ((w * 16 + x) * 16 + y) * 16 + z"
    using assms by (auto simp: hex4_def split: list.splits option.splits)
  moreover from this have "w < 16" "x < 16" "y < 16" "z < 16" using v by blast+
  ultimately show ?thesis by (simp add: distrib_right)
qed

lemma surrogate_pair_bound: "surrogate_pair hi r = Some m \<Longrightarrow> 0xD800 \<le> hi \<Longrightarrow> 0x10000 \<le> m \<and> m < 0x110000"
  by (auto simp: surrogate_pair_def split: list.splits option.splits if_splits)

lemma emit_Some: "emit w x = Some (t, r) \<longleftrightarrow> (\<exists>u. x = Some (u, r) \<and> t = w @ u)"
  by (auto simp: emit_def)

lemma emit_valid: "emit w x = Some (t, r) \<Longrightarrow> utf8_Valid w \<Longrightarrow> (\<And>u. x = Some (u, r) \<Longrightarrow> utf8_Valid u) \<Longrightarrow> utf8_Valid t"
  by (auto simp: emit_Some intro: utf8_Valid_append)

lemma replacement_valid: "utf8_Valid replacement"
  unfolding replacement_def by (rule utf8_Valid_encode) simp_all

lemma simple_escape_valid: "simple_escape e = Some ch \<Longrightarrow> utf8_Valid [ch]"
  by (intro utf8_Valid_ascii) (auto simp: simple_escape_def split: if_splits)

lemma parse_str_valid: "parse_str s = Some (t, r) \<Longrightarrow> utf8_Valid t"
proof (induction s arbitrary: t r rule: parse_str.induct)
  case 1
  then show ?case by (simp add: parse_str.simps)
next
  case (2 c s)
  consider (quote) "c = CHR 0x22" | (escape) "c = CHR 0x5C"
    | (other) "c \<noteq> CHR 0x22" "c \<noteq> CHR 0x5C" "\<not> (of_char c :: nat) < 0x20"
    using 2(7) by (auto simp: parse_str.simps(2) split: if_splits)
  then show ?case
  proof cases
    case quote
    then show ?thesis using 2(7) by (simp add: parse_str.simps(2) utf8_Valid.simps)
  next
    case other
    show ?thesis
    proof (cases "utf8_len (c # s) = 0")
      case True
      then show ?thesis using 2(5,7) other replacement_valid by (auto simp: parse_str.simps(2) elim!: emit_valid)
    next
      case False
      then have "emit (take (utf8_len (c # s)) (c # s)) (parse_str (drop (utf8_len (c # s) - 1) s)) = Some (t, r)"
        using 2(7) other by (simp add: parse_str.simps(2))
      then show ?thesis using 2(6) other False utf8_Valid_unit [OF False] by (elim emit_valid) blast
    qed
  next
    case escape
    then obtain e r1 where s: "s = e # r1" using 2(7) by (cases s) (simp_all add: parse_str.simps(2))
    show ?thesis
    proof (cases "e = CHR ''u''")
      case True
      then obtain n where n: "hex4 r1 = Some n" using 2(7) escape by (cases "hex4 r1") (simp_all add: s parse_str.simps(2))
      show ?thesis
      proof (cases "0xD800 \<le> n \<and> n < 0xE000")
        case sur: True
        show ?thesis
        proof (cases "surrogate_pair n (drop 4 r1)")
          case None
          then show ?thesis using 2(1,7) escape True sur n replacement_valid by (auto simp: s parse_str.simps(2) elim!: emit_valid)
        next
          case (Some m)
          have "utf8_Valid (utf8_encode m)" using surrogate_pair_bound [OF Some] sur by (intro utf8_Valid_encode) auto
          then show ?thesis using 2(2,7) escape True sur n Some by (auto simp: s parse_str.simps(2) elim!: emit_valid)
        qed
      next
        case False
        have "utf8_Valid (utf8_encode n)" using hex4_bound [OF n] False by (intro utf8_Valid_encode) auto
        then show ?thesis using 2(3,7) escape True False n by (auto simp: s parse_str.simps(2) elim!: emit_valid)
      qed
    next
      case False
      then obtain ch where ch: "simple_escape e = Some ch" using 2(7) escape by (cases "simple_escape e") (simp_all add: s parse_str.simps(2))
      then show ?thesis using 2(4,7) escape False simple_escape_valid by (auto simp: s parse_str.simps(2) elim!: emit_valid)
    qed
  qed
qed

lemma parse_value_str: "parse_value d s = Some (JStr x, r) \<Longrightarrow> utf8_Valid x"
  by (auto simp: parse_value.simps [of d s] parse_lit_def split: list.splits if_splits dest: parse_str_valid)

text \<open>The string members of an object.\<close>

definition valid_strings :: "(bytes \<times> bytes \<times> json) list \<Rightarrow> bool" where
  "valid_strings ms \<longleftrightarrow> (\<forall>m \<in> set ms. \<forall>x. snd (snd m) = JStr x \<longrightarrow> utf8_Valid x)"

lemma parse_members_step:
  assumes "parse_members d s = Some (ms, r)"
  obtains k raw v ms' u r' where "ms = (k, raw, v) # ms'" "parse_value d u = Some (v, r')"
    "ms' = [] \<or> (\<exists>s'. length s' < length s \<and> parse_members d s' = Some (ms', r))"
proof -
  obtain q where q: "skip_ws s = CHR 0x22 # q" using assms by (auto simp: parse_members.simps [of d s] split: list.splits if_splits)
  obtain k r1 where k: "parse_str q = Some (k, r1)" using assms q by (auto simp: parse_members.simps [of d s] split: option.splits)
  obtain r2 where r2: "skip_ws r1 = CHR '':'' # r2" using assms q k by (auto simp: parse_members.simps [of d s] split: list.splits if_splits)
  obtain v r3 where v: "parse_value d r2 = Some (v, r3)"
    using assms q k r2 by (auto simp: parse_members.simps [of d s] split: option.splits if_splits)
  obtain f r4 where f: "skip_ws r3 = f # r4" using assms q k r2 v by (cases "skip_ws r3") (simp_all add: parse_members.simps [of d s] Let_def split: if_splits)
  show ?thesis
    using assms q k r2 v f by (auto simp: parse_members.simps [of d s] Let_def split: if_splits intro: that [OF _ v])
qed

lemma parse_members_valid: "parse_members d s = Some (ms, r) \<Longrightarrow> valid_strings ms"
proof (induction "length s" arbitrary: s ms rule: less_induct)
  case less
  obtain k raw v ms' u r' where m: "ms = (k, raw, v) # ms'" "parse_value d u = Some (v, r')"
    "ms' = [] \<or> (\<exists>s'. length s' < length s \<and> parse_members d s' = Some (ms', r))" using less.prems by (rule parse_members_step)
  then have "valid_strings ms'" using less.hyps by (auto simp: valid_strings_def)
  then show ?case using m(2) by (auto simp: m(1) valid_strings_def dest: parse_value_str)
qed

definition valid_texts :: "TxEnvelope \<Rightarrow> bool" where
  "valid_texts t \<longleftrightarrow> utf8_Valid (Module t) \<and> utf8_Valid (Action t) \<and> utf8_Valid (Memo t)"

lemma find_field_mem: "find_field fs k = Some f \<Longrightarrow> f \<in> snd ` set fs"
  by (force simp: find_field_def split: option.splits dest: map_of_SomeD)

lemma tx_field_valid:
  assumes "f \<in> snd ` set tx_fields" "f raw v x = Some y" "\<forall>s. v = JStr s \<longrightarrow> utf8_Valid s" "valid_texts x"
  shows "valid_texts y"
  using assms by (auto simp: tx_fields_def fld_def dec_string_def valid_texts_def split: json.splits)

lemma store_members_valid:
  "store_members True tx_fields ms x = Some y \<Longrightarrow> valid_strings ms \<Longrightarrow> valid_texts x \<Longrightarrow> valid_texts y"
proof (induction ms arbitrary: x)
  case (Cons m ms)
  obtain k raw v where m: "m = (k, raw, v)" by (cases m)
  obtain f z where f: "find_field tx_fields k = Some f" "f raw v x = Some z" "store_members True tx_fields ms z = Some y"
    using Cons.prems(1) by (auto simp: m split: option.splits)
  have "valid_texts z" using tx_field_valid [OF find_field_mem [OF f(1)] f(2) _ Cons.prems(3)] Cons.prems(2) by (auto simp: m valid_strings_def)
  then show ?case using Cons.IH [OF f(3)] Cons.prems(2) by (simp add: valid_strings_def)
qed simp

lemma parse_value_members: "parse_value d s = Some (JObj ms, r) \<Longrightarrow> valid_strings ms"
  by (auto simp: parse_value.simps [of d s] parse_lit_def valid_strings_def split: list.splits if_splits
      dest!: parse_members_valid [unfolded valid_strings_def])

lemma DecodeTx_valid:
  assumes "DecodeTx raw = Some t"
  shows "valid_texts t"
proof -
  have z: "valid_texts zeroTx" by (simp add: valid_texts_def zeroTx_def utf8_Valid.simps)
  obtain j r where j: "parse_value max_nesting raw = Some (j, r)" "dec_struct True tx_fields j zeroTx = Some t"
    using assms by (auto simp: DecodeTx_def DecodeFirst_def split: option.splits)
  then show ?thesis using z store_members_valid parse_value_members by (cases j) (auto simp: dec_struct_def)
qed

section \<open>What a signature covers\<close>


text \<open>C31: A transaction written by \<open>EncodeTx\<close> is decoded to itself, if its texts are valid UTF-8, its time-out is a machine
  integer and its payload was written by the encoder.\<close>

theorem EncodeTx_DecodeTx:
  assumes "valid_texts tx" "in_int64 (TimeoutHeight tx)" "Payload tx = enc g" "plain g" "nesting g < max_nesting"
  shows "\<exists>raw. EncodeTx tx = Some raw \<and> DecodeTx raw = Some tx"
  using tx_roundtrip assms by (simp add: valid_texts_def)

definition compact_tx :: TxEnvelope where
  "compact_tx = zeroTx\<lparr>Nonce := 7, Action := ''a<b'', Payload := ''{\"x\":\"&\"}''\<rparr>"

definition spaced_tx :: TxEnvelope where
  "spaced_tx = compact_tx\<lparr>Payload := ''{ \"x\" : \"'' @ [CHR 0x5C] @ ''u0026\" }'', Memo := ''m''\<rparr>"


definition sample_tx :: TxEnvelope where
  "sample_tx = zeroTx\<lparr>Sender := ''ABC'', Nonce := 18446744073709551615, GasLimit := 5, Module := ''gov'', Action := ''a<b'',
     Payload := enc (go_map [(''z'', gint (- 5)), (''a'', GArr [GNull, GBool True, GStr [CHR 0x0A, CHR 0xE2, CHR 0x80, CHR 0xA8]])]),
     Signature := ''xy'', Memo := ''m'', TimeoutHeight := - 3\<rparr>"

theorem EncodeTx_DecodeTx_witness: "\<exists>raw. EncodeTx sample_tx = Some raw \<and> DecodeTx raw = Some sample_tx"
proof -
  let ?g = "go_map [(''z'', gint (- 5)), (''a'', GArr [GNull, GBool True, GStr [CHR 0x0A, CHR 0xE2, CHR 0x80, CHR 0xA8]])]"
  have "valid_texts sample_tx" "nesting ?g < max_nesting" by code_simp+
  moreover have "plain ?g" by (simp add: go_map_def)
  ultimately show ?thesis by (intro EncodeTx_DecodeTx [where g = ?g]) (simp_all add: sample_tx_def in_int64_def)
qed

end
