(* ===== verification/Store.thy ===== *)
theory Store
  imports Schema
begin

text \<open>
  \<open>internal/state\<close>: the key-value store behind the interface \<open>engine\<close>, its in-memory engine,
  the key scheme, account nonces and parameters. The interface is the locale \<open>kv_engine\<close>;
  the in-memory engine is its interpretation \<open>mem\<close>.
  The mutex of the engine serialises whole operations; an operation is one step here.
\<close>

section \<open>keys.go\<close>

abbreviation PrefixAMXListing :: bytes where "PrefixAMXListing \<equiv> ''amx/l/''"
abbreviation PrefixAMXOrder :: bytes where "PrefixAMXOrder \<equiv> ''amx/o/''"
abbreviation PrefixAMXIndex :: bytes where "PrefixAMXIndex \<equiv> ''amx/i/''"
abbreviation PrefixAAPTask :: bytes where "PrefixAAPTask \<equiv> ''aap/t/''"
abbreviation PrefixAAPEvidence :: bytes where "PrefixAAPEvidence \<equiv> ''aap/e/''"
abbreviation PrefixAAPSLA :: bytes where "PrefixAAPSLA \<equiv> ''aap/s/''"
abbreviation PrefixAAPHeartbeat :: bytes where "PrefixAAPHeartbeat \<equiv> ''aap/h/''"
abbreviation PrefixWeaveDAG :: bytes where "PrefixWeaveDAG \<equiv> ''weave/d/''"
abbreviation PrefixWeaveNode :: bytes where "PrefixWeaveNode \<equiv> ''weave/n/''"
abbreviation PrefixCapUTXO :: bytes where "PrefixCapUTXO \<equiv> ''cap/u/''"
abbreviation PrefixCapHolder :: bytes where "PrefixCapHolder \<equiv> ''cap/h/''"
abbreviation PrefixCapType :: bytes where "PrefixCapType \<equiv> ''cap/t/''"
abbreviation PrefixCapDerive :: bytes where "PrefixCapDerive \<equiv> ''cap/d/''"
abbreviation PrefixRepScore :: bytes where "PrefixRepScore \<equiv> ''rep/s/''"
abbreviation PrefixArbDispute :: bytes where "PrefixArbDispute \<equiv> ''arb/d/''"
abbreviation PrefixArbVote :: bytes where "PrefixArbVote \<equiv> ''arb/v/''"
abbreviation PrefixFiatEscrow :: bytes where "PrefixFiatEscrow \<equiv> ''fiat/e/''"
abbreviation PrefixFiatDeposit :: bytes where "PrefixFiatDeposit \<equiv> ''fiat/dep/''"
abbreviation PrefixFiatPool :: bytes where "PrefixFiatPool \<equiv> ''fiat/pool''"
abbreviation PrefixNodeReg :: bytes where "PrefixNodeReg \<equiv> ''node/r/''"
abbreviation PrefixNodeVal :: bytes where "PrefixNodeVal \<equiv> ''node/v/''"
abbreviation PrefixGovProp :: bytes where "PrefixGovProp \<equiv> ''gov/p/''"
abbreviation PrefixGovVote :: bytes where "PrefixGovVote \<equiv> ''gov/v/''"
abbreviation PrefixAccNonce :: bytes where "PrefixAccNonce \<equiv> ''acc/n/''"
abbreviation PrefixParams :: bytes where "PrefixParams \<equiv> ''params/''"

definition ListingKey :: "bytes \<Rightarrow> bytes" where "ListingKey ident = PrefixAMXListing @ ident"
definition OrderKey :: "bytes \<Rightarrow> bytes" where "OrderKey ident = PrefixAMXOrder @ ident"
definition TaskKey :: "bytes \<Rightarrow> bytes" where "TaskKey ident = PrefixAAPTask @ ident"
definition UTXOKey :: "bytes \<Rightarrow> bytes" where "UTXOKey ident = PrefixCapUTXO @ ident"
definition RepKey :: "bytes \<Rightarrow> bytes" where "RepKey entity = PrefixRepScore @ entity"
definition NonceKey :: "bytes \<Rightarrow> bytes" where "NonceKey pubHex = PrefixAccNonce @ pubHex"

definition ParamKey :: "bytes \<Rightarrow> bytes \<Rightarrow> bytes" where
  "ParamKey modname key = PrefixParams @ modname @ ''/'' @ key"

definition HeartbeatKey :: "bytes \<Rightarrow> uint64 \<Rightarrow> bytes" where
  "HeartbeatKey taskID sq = PrefixAAPHeartbeat @ taskID @ ''/'' @ pad_left 10 (utoa 10 (unat sq))"

definition WeaveNodeKey :: "bytes \<Rightarrow> bytes \<Rightarrow> bytes" where
  "WeaveNodeKey dagID nodeID = PrefixWeaveNode @ dagID @ ''/'' @ nodeID"

lemmas key_defs [key_simps] = ListingKey_def OrderKey_def TaskKey_def UTXOKey_def RepKey_def
  NonceKey_def ParamKey_def HeartbeatKey_def WeaveNodeKey_def

section \<open>store.go: the in-memory engine\<close>

text \<open>\<open>data\<close> is a Go map: an association list whose keys are distinct (\<open>mem_inv\<close>), in the
  order in which a \<open>range\<close> loop visits it.\<close>

record memoryEngine =
  data :: "(bytes \<times> val) list"
  version :: uint64

definition newMemoryEngine :: memoryEngine where
  "newMemoryEngine = \<lparr>data = [], version = 0\<rparr>"

definition mem_Get :: "memoryEngine \<Rightarrow> bytes \<Rightarrow> val option" where
  "mem_Get m key = map_of (data m) key"

definition mem_Set :: "memoryEngine \<Rightarrow> bytes \<Rightarrow> val \<Rightarrow> memoryEngine" where
  "mem_Set m key v = m\<lparr>data := AList.update key v (data m)\<rparr>"

definition mem_Delete :: "memoryEngine \<Rightarrow> bytes \<Rightarrow> memoryEngine" where
  "mem_Delete m key = m\<lparr>data := AList.delete key (data m)\<rparr>"

definition mem_IteratePrefix :: "memoryEngine \<Rightarrow> bytes \<Rightarrow> (bytes \<times> val) list" where
  "mem_IteratePrefix m p = sort_key fst (filter (\<lambda>(k, v). prefix p k) (data m))"

text \<open>The bytes of a stored value: the bytes themselves, or the JSON text of a struct, which
  the argument \<open>marshal\<close> gives.\<close>

definition val_bytes :: "(val \<Rightarrow> bytes) \<Rightarrow> val \<Rightarrow> bytes" where
  "val_bytes marshal v = (case v of VBytes b \<Rightarrow> b | _ \<Rightarrow> marshal v)"

definition mem_Commit :: "(val \<Rightarrow> bytes) \<Rightarrow> memoryEngine \<Rightarrow> bytes \<times> uint64 \<times> memoryEngine" where
  "mem_Commit marshal m =
     (let m' = m\<lparr>version := version m + 1\<rparr>;
          keys = sort (map fst (data m'));
          pre = concat (map (\<lambda>k. k @ (case map_of (data m') k of
                  Some v \<Rightarrow> val_bytes marshal v | None \<Rightarrow> [])) keys)
      in (Sum256 (pre @ PutUint64 (version m')), version m', m'))"

definition mem_Version :: "memoryEngine \<Rightarrow> uint64" where
  "mem_Version m = version m"

definition mem_inv :: "memoryEngine \<Rightarrow> bool" where
  "mem_inv m \<longleftrightarrow> distinct (map fst (data m))"

section \<open>The engine interface\<close>

text \<open>What the modules rely on: a lookup returns what was stored last, and the iteration over
  a prefix lists the entries under it in ascending key order, each once.\<close>

locale kv_engine =
  fixes get :: "'s \<Rightarrow> bytes \<Rightarrow> 'v option"
    and put :: "'s \<Rightarrow> bytes \<Rightarrow> 'v \<Rightarrow> 's"
    and del :: "'s \<Rightarrow> bytes \<Rightarrow> 's"
    and iter :: "'s \<Rightarrow> bytes \<Rightarrow> (bytes \<times> 'v) list"
    and inv :: "'s \<Rightarrow> bool"
  assumes get_put: "get (put s k v) k' = (if k' = k then Some v else get s k')"
    and get_del: "get (del s k) k' = (if k' = k then None else get s k')"
    and iter_sorted: "inv s \<Longrightarrow> sorted (map fst (iter s p))"
    and iter_distinct: "inv s \<Longrightarrow> distinct (map fst (iter s p))"
    and iter_mem: "inv s \<Longrightarrow> (k, v) \<in> set (iter s p) \<longleftrightarrow> prefix p k \<and> get s k = Some v"
    and inv_put: "inv s \<Longrightarrow> inv (put s k v)"
    and inv_del: "inv s \<Longrightarrow> inv (del s k)"
begin

lemma get_put_same: "get (put s k v) k = Some v"
  by (simp add: get_put)

lemma get_put_other: "k' \<noteq> k \<Longrightarrow> get (put s k v) k' = get s k'"
  by (simp add: get_put)

text \<open>The iteration is determined by what the lookups return.\<close>

lemma iter_keys: "inv s \<Longrightarrow> fst ` set (iter s p) = {k. prefix p k \<and> get s k \<noteq> None}"
proof -
  assume "inv s"
  have "k \<in> fst ` set (iter s p) \<longleftrightarrow> (\<exists>v. (k, v) \<in> set (iter s p))" for k by force
  with \<open>inv s\<close> show ?thesis by (auto simp: iter_mem)
qed

lemma iter_eq_map:
  assumes "inv s"
  shows "iter s p = map (\<lambda>k. (k, the (get s k))) (map fst (iter s p))"
proof -
  have "(\<lambda>k. (k, the (get s k))) (fst x) = x" if "x \<in> set (iter s p)" for x
  proof (cases x)
    case (Pair k v)
    with that assms show ?thesis by (simp add: iter_mem)
  qed
  then have "map ((\<lambda>k. (k, the (get s k))) \<circ> fst) (iter s p) = map (\<lambda>x. x) (iter s p)"
    by (intro map_cong) auto
  then show ?thesis by simp
qed

lemma iter_determined:
  assumes "inv s" "inv t" and eq: "\<And>k. prefix p k \<Longrightarrow> get s k = get t k"
  shows "iter s p = iter t p"
proof -
  have "set (map fst (iter s p)) = set (map fst (iter t p))"
    using iter_keys [OF assms(1), of p] iter_keys [OF assms(2), of p] eq by auto
  then have keys: "map fst (iter s p) = map fst (iter t p)"
    using assms by (intro sorted_distinct_set_unique) (simp_all add: iter_sorted iter_distinct)
  have "the (get s k) = the (get t k)" if "k \<in> set (map fst (iter t p))" for k
  proof -
    have "prefix p k" using that assms(2) by (auto simp: iter_mem)
    then show ?thesis by (simp add: eq)
  qed
  then have "map (\<lambda>k. (k, the (get s k))) (map fst (iter s p))
      = map (\<lambda>k. (k, the (get t k))) (map fst (iter t p))"
    unfolding keys by (intro map_cong refl) auto
  then show ?thesis
    using iter_eq_map [OF assms(1), of p] iter_eq_map [OF assms(2), of p] by simp
qed

lemma iter_put_outside: "inv s \<Longrightarrow> \<not> prefix p k \<Longrightarrow> iter (put s k v) p = iter s p"
  by (rule iter_determined) (auto simp: inv_put get_put)

end

lemma mem_iter_mem:
  "mem_inv m \<Longrightarrow> (k, v) \<in> set (mem_IteratePrefix m p) \<longleftrightarrow> prefix p k \<and> mem_Get m k = Some v"
  by (auto simp: mem_IteratePrefix_def mem_Get_def mem_inv_def)

interpretation mem: kv_engine mem_Get mem_Set mem_Delete mem_IteratePrefix mem_inv
proof (unfold_locales, goal_cases)
  case (1 s k v k')
  then show ?case by (simp add: mem_Get_def mem_Set_def update_conv)
next
  case (2 s k k')
  then show ?case by (simp add: mem_Get_def mem_Delete_def delete_conv)
next
  case (3 s p)
  then show ?case by (simp add: mem_IteratePrefix_def)
next
  case (4 s p)
  then have "distinct (map fst (filter (\<lambda>(k, v). prefix p k) (data s)))"
    by (simp add: mem_inv_def distinct_map_filter)
  moreover have "mset (map fst (mem_IteratePrefix s p)) = mset (map fst (filter (\<lambda>(k, v). prefix p k) (data s)))"
    by (simp add: mem_IteratePrefix_def)
  ultimately show ?case by (metis mset_eq_imp_distinct_iff)
next
  case (5 s k v p)
  then show ?case by (rule mem_iter_mem)
next
  case (6 s k v)
  then show ?case by (simp add: mem_inv_def mem_Set_def distinct_update)
next
  case (7 s k)
  then show ?case by (simp add: mem_inv_def mem_Delete_def distinct_delete)
qed

section \<open>store.go: the store\<close>

text \<open>\<open>NewStoreWithBackend\<close> knows the backends \<open>memory\<close> and \<open>iavl\<close>; the second is compiled in
  only under a build tag and its stub returns an error, which is the default build.\<close>

record Store =
  backendName :: bytes
  engine :: memoryEngine

definition NewStoreWithBackend :: "bytes \<Rightarrow> goerr + Store" where
  "NewStoreWithBackend backend =
     (if backend = ''memory'' then Inr \<lparr>backendName = ''memory'', engine = newMemoryEngine\<rparr>
      else if backend = ''iavl'' then Inl (PlainError ''init iavl engine: %w'')
      else Inl (PlainError ''unsupported backend %q''))"

text \<open>The argument is the environment variable \<open>AACP_STATE_BACKEND\<close>, empty when unset.\<close>

definition NewStoreFromEnv :: "bytes \<Rightarrow> goerr + Store" where
  "NewStoreFromEnv backend = NewStoreWithBackend (if backend = [] then ''memory'' else backend)"

definition NewStore :: "bytes \<Rightarrow> Store outcome" where
  "NewStore backend = (case NewStoreFromEnv backend of Inl _ \<Rightarrow> Panic | Inr st \<Rightarrow> Ret st)"

definition Get :: "Store \<Rightarrow> bytes \<Rightarrow> val option" where
  "Get st key = mem_Get (engine st) key"

definition Set :: "Store \<Rightarrow> bytes \<Rightarrow> val \<Rightarrow> Store" where
  "Set st key v = st\<lparr>engine := mem_Set (engine st) key v\<rparr>"

definition Delete :: "Store \<Rightarrow> bytes \<Rightarrow> Store" where
  "Delete st key = st\<lparr>engine := mem_Delete (engine st) key\<rparr>"

definition IteratePrefix :: "Store \<Rightarrow> bytes \<Rightarrow> (bytes \<times> val) list" where
  "IteratePrefix st p = mem_IteratePrefix (engine st) p"

definition Commit :: "(val \<Rightarrow> bytes) \<Rightarrow> Store \<Rightarrow> bytes \<times> uint64 \<times> Store" where
  "Commit marshal st = (case mem_Commit marshal (engine st) of
     (h, v, m) \<Rightarrow> (h, v, st\<lparr>engine := m\<rparr>))"

definition Version :: "Store \<Rightarrow> uint64" where
  "Version st = mem_Version (engine st)"

definition store_inv :: "Store \<Rightarrow> bool" where
  "store_inv st \<longleftrightarrow> mem_inv (engine st)"

lemma Get_Set: "Get (Set st k v) k' = (if k' = k then Some v else Get st k')"
  by (simp add: Get_def Set_def mem.get_put)

lemma Get_Set_same [simp]: "Get (Set st k v) k = Some v"
  by (simp add: Get_Set)

lemma Get_Set_other [simp]: "k' \<noteq> k \<Longrightarrow> Get (Set st k v) k' = Get st k'"
  by (simp add: Get_Set)

interpretation store: kv_engine Get Set Delete IteratePrefix store_inv
  by unfold_locales
    (simp_all add: mem.get_put Get_def Delete_def Set_def IteratePrefix_def store_inv_def mem.get_del
      mem.iter_sorted mem.iter_distinct mem.iter_mem mem.inv_put mem.inv_del)

lemma store_inv_Set [simp, intro]: "store_inv st \<Longrightarrow> store_inv (Set st k v)"
  by (rule store.inv_put)

lemma store_inv_new: "NewStoreFromEnv b = Inr st \<Longrightarrow> store_inv st \<and> Get st k = None"
  by (auto simp: NewStoreFromEnv_def NewStoreWithBackend_def store_inv_def mem_inv_def
      newMemoryEngine_def Get_def mem_Get_def split: if_splits)

lemma Commit_simps [simp]:
  "Get (snd (snd (Commit m st))) k = Get st k"
  "fst (snd (Commit m st)) = Version st + 1"
  "Version (snd (snd (Commit m st))) = Version st + 1"
  "store_inv (snd (snd (Commit m st))) = store_inv st"
  by (simp_all add: Commit_def mem_Commit_def Get_def mem_Get_def Version_def mem_Version_def
      store_inv_def mem_inv_def Let_def)

section \<open>nonce.go and params.go\<close>

definition GetNonce :: "Store \<Rightarrow> bytes \<Rightarrow> uint64" where
  "GetNonce st pub = (case Get st (NonceKey (hex_EncodeToString pub)) of
     Some (VBytes raw) \<Rightarrow> if length raw \<noteq> 8 then 0 else Uint64 raw
   | _ \<Rightarrow> 0)"

definition SetNonce :: "Store \<Rightarrow> bytes \<Rightarrow> uint64 \<Rightarrow> Store" where
  "SetNonce st pub n = Set st (NonceKey (hex_EncodeToString pub)) (VBytes (PutUint64 n))"

definition SetParam :: "Store \<Rightarrow> bytes \<Rightarrow> bytes \<Rightarrow> goany \<Rightarrow> Store" where
  "SetParam st modname key v = Set st (ParamKey modname key) (VParam v)"

text \<open>\<open>GetParam\<close> into a variable of type \<open>any\<close>.\<close>

definition GetParam :: "Store \<Rightarrow> bytes \<Rightarrow> bytes \<Rightarrow> goany option" where
  "GetParam st modname key = (case Get st (ParamKey modname key) of
     Some (VParam v) \<Rightarrow> Some v | _ \<Rightarrow> None)"

lemma NonceKey_inject: "NonceKey (hex_EncodeToString a) = NonceKey (hex_EncodeToString b) \<longleftrightarrow> a = b"
  by (simp add: NonceKey_def)

lemma GetNonce_SetNonce: "GetNonce (SetNonce st pub n) pub' = (if pub' = pub then n else GetNonce st pub')"
  by (simp add: GetNonce_def SetNonce_def Get_Set NonceKey_inject)

lemma GetParam_SetParam_same: "GetParam (SetParam st m k v) m k = Some v"
  by (simp add: GetParam_def SetParam_def)

section \<open>Which keys hold which values\<close>

definition key_kinds :: "(bytes \<times> (val \<Rightarrow> bool)) list" where
  "key_kinds =
     [(PrefixAMXListing, \<lambda>v. case v of VListing _ \<Rightarrow> True | _ \<Rightarrow> False),
      (PrefixAMXOrder, \<lambda>v. case v of VOrder _ \<Rightarrow> True | _ \<Rightarrow> False),
      (PrefixAAPTask, \<lambda>v. case v of VTask _ \<Rightarrow> True | _ \<Rightarrow> False),
      (PrefixAAPHeartbeat, \<lambda>v. case v of VHeartbeat _ \<Rightarrow> True | _ \<Rightarrow> False),
      (PrefixWeaveDAG, \<lambda>v. case v of VDAG _ \<Rightarrow> True | _ \<Rightarrow> False),
      (PrefixCapUTXO, \<lambda>v. case v of VUTXO _ \<Rightarrow> True | _ \<Rightarrow> False),
      (PrefixRepScore, \<lambda>v. case v of VScore _ \<Rightarrow> True | _ \<Rightarrow> False),
      (PrefixArbDispute, \<lambda>v. case v of VDispute _ \<Rightarrow> True | _ \<Rightarrow> False),
      (PrefixFiatEscrow, \<lambda>v. case v of VEscrow _ \<Rightarrow> True | _ \<Rightarrow> False),
      (PrefixFiatDeposit, \<lambda>v. case v of VDeposit _ \<Rightarrow> True | _ \<Rightarrow> False),
      (PrefixFiatPool, \<lambda>v. case v of VPool _ \<Rightarrow> True | _ \<Rightarrow> False),
      (PrefixNodeReg, \<lambda>v. case v of VNode _ \<Rightarrow> True | _ \<Rightarrow> False),
      (PrefixGovProp, \<lambda>v. case v of VProposal _ \<Rightarrow> True | _ \<Rightarrow> False),
      (PrefixParams, \<lambda>v. case v of VParam _ \<Rightarrow> True | _ \<Rightarrow> False),
      (PrefixAccNonce, \<lambda>v. case v of VBytes b \<Rightarrow> length b = 8 | _ \<Rightarrow> False)]"

definition val_ok :: "bytes \<Rightarrow> val \<Rightarrow> bool" where
  "val_ok k v \<longleftrightarrow> list_all (\<lambda>(p, q). prefix p k \<longrightarrow> q v) key_kinds"

definition well_typed :: "Store \<Rightarrow> bool" where
  "well_typed st \<longleftrightarrow> (\<forall>k v. Get st k = Some v \<longrightarrow> val_ok k v)"

lemma well_typed_Set [intro]: "well_typed st \<Longrightarrow> val_ok k v \<Longrightarrow> well_typed (Set st k v)"
  by (auto simp: well_typed_def Get_Set)

lemma well_typedD: "well_typed st \<Longrightarrow> Get st k = Some v \<Longrightarrow> val_ok k v"
  by (simp add: well_typed_def)

text \<open>A key under one of the known prefixes can be told from a key under another.\<close>

lemma prefix_append_lit:
  "prefix (a # p) ((b # q) @ r) \<longleftrightarrow> a = b \<and> prefix p (q @ r)" "prefix [] r"
  by auto

lemma val_ok_simps [simp]:
  "val_ok (PrefixAMXListing @ i) (VListing l)" "val_ok (PrefixAMXOrder @ i) (VOrder ord)"
  "val_ok (PrefixAMXIndex @ i) v" "val_ok (PrefixAAPTask @ i) (VTask t)"
  "val_ok (PrefixAAPHeartbeat @ i) (VHeartbeat hb)" "val_ok (PrefixAAPEvidence @ i) v"
  "val_ok (PrefixWeaveDAG @ i) (VDAG dag)" "val_ok (PrefixCapUTXO @ i) (VUTXO u)"
  "val_ok (PrefixCapHolder @ i) v" "val_ok (PrefixCapType @ i) v" "val_ok (PrefixCapDerive @ i) v"
  "val_ok (PrefixRepScore @ i) (VScore sc)" "val_ok (PrefixArbDispute @ i) (VDispute dsp)"
  "val_ok (PrefixFiatEscrow @ i) (VEscrow esc)" "val_ok (PrefixFiatDeposit @ i) (VDeposit acc)"
  "val_ok PrefixFiatPool (VPool pl)" "val_ok (PrefixNodeReg @ i) (VNode nd)"
  "val_ok (PrefixNodeVal @ i) v" "val_ok (PrefixGovProp @ i) (VProposal pr)"
  "val_ok (PrefixGovVote @ i) v" "val_ok (PrefixParams @ i) (VParam pv)"
  "val_ok (PrefixAccNonce @ i) (VBytes (PutUint64 n))"
  by (simp_all add: val_ok_def key_kinds_def)

lemmas val_ok_normal [simp] = val_ok_simps [unfolded append_Cons append_Nil]

end
