(* ===== verification/Router.thy ===== *)
theory Router
  imports Store
begin

text \<open>
  \<open>internal/eventbus\<close>, \<open>internal/router\<close> and \<open>internal/modules/common\<close>: the execution context,
  the module interface, the dispatch by module and action, and the behaviour all modules
  share. A handler takes the context and the envelope and returns the context it leaves
  (the writes before an error stay, there is no roll back) with a result, an error or a panic.
\<close>

section \<open>The event bus\<close>

record Bus =
  events :: "Event list"

definition newBus :: Bus where
  "newBus = \<lparr>events = []\<rparr>"

definition Emit :: "Bus \<Rightarrow> Event \<Rightarrow> Bus" where
  "Emit b ev = b\<lparr>events := events b @ [ev]\<rparr>"

definition Flush :: "Bus \<Rightarrow> Event list \<times> Bus" where
  "Flush b = (events b, b\<lparr>events := []\<rparr>)"

section \<open>The context and the module interface\<close>

record Context =
  ctxStore :: Store
  ctxEventBus :: Bus
  ctxHeight :: int64
  ctxBlockTime :: time

abbreviation now :: "Context \<Rightarrow> int64" where
  "now ctx \<equiv> Unix (ctxBlockTime ctx)"

abbreviation upd_store :: "Context \<Rightarrow> Store \<Rightarrow> Context" where
  "upd_store ctx st \<equiv> ctx\<lparr>ctxStore := st\<rparr>"

type_synonym handler = "Context \<Rightarrow> TxEnvelope \<Rightarrow> Context \<times> ExecTxResult outcome"

record Module =
  mName :: bytes
  mInitGenesis :: "Context \<Rightarrow> bytes \<Rightarrow> Context \<times> unit outcome"
  mExecuteTx :: handler
  mEndBlock :: "Context \<Rightarrow> Context \<times> Event list outcome"
  mQuery :: "Context \<Rightarrow> bytes \<Rightarrow> bytes \<Rightarrow> bytes outcome"

section \<open>The router\<close>

text \<open>\<open>modules\<close> is a Go map from names to modules.\<close>

record Router =
  modules :: "(bytes \<times> Module) list"

definition newRouter :: Router where
  "newRouter = \<lparr>modules = []\<rparr>"

definition Register :: "Router \<Rightarrow> Module \<Rightarrow> goerr + Router" where
  "Register r m =
     (if mName m = [] then Inl (PlainError ''module name cannot be empty'')
      else if map_of (modules r) (mName m) \<noteq> None then Inl (PlainError ''module %q already registered'')
      else Inr (r\<lparr>modules := AList.update (mName m) m (modules r)\<rparr>))"

definition Unregister :: "Router \<Rightarrow> bytes \<Rightarrow> Router" where
  "Unregister r name = r\<lparr>modules := AList.delete name (modules r)\<rparr>"

definition Execute :: "Router \<Rightarrow> handler" where
  "Execute r ctx env = (case map_of (modules r) (Module env) of
     None \<Rightarrow> (ctx, Err (NewAppError CodeUnknownMod ''unknown module %q''))
   | Some m \<Rightarrow> mExecuteTx m ctx env)"

text \<open>
  \<open>InitGenesis\<close> and \<open>EndBlock\<close> visit the modules in the order in which Go ranges over a map,
  which is not specified: the order is the argument \<open>mods\<close>, any arrangement of the registered
  modules (\<open>visits\<close>).
\<close>

definition visits :: "Router \<Rightarrow> Module list \<Rightarrow> bool" where
  "visits r mods \<longleftrightarrow> mset mods = mset (map snd (modules r))"

fun router_InitGenesis :: "Module list \<Rightarrow> Context \<Rightarrow> (bytes \<Rightarrow> bytes) \<Rightarrow> Context \<times> unit outcome" where
  "router_InitGenesis [] ctx genesis = (ctx, Ret ())"
| "router_InitGenesis (m # ms) ctx genesis =
     (case mInitGenesis m ctx (genesis (mName m)) of
        (ctx', Ret _) \<Rightarrow> router_InitGenesis ms ctx' genesis
      | (ctx', Err e) \<Rightarrow> (ctx', Err (PlainError ''module %s init genesis failed: %w''))
      | (ctx', Panic) \<Rightarrow> (ctx', Panic))"

fun router_EndBlock_from :: "Module list \<Rightarrow> Event list \<Rightarrow> Context \<Rightarrow> Context \<times> Event list outcome" where
  "router_EndBlock_from [] out ctx = (ctx, Ret out)"
| "router_EndBlock_from (m # ms) out ctx =
     (case mEndBlock m ctx of
        (ctx', Ret evs) \<Rightarrow> router_EndBlock_from ms (out @ evs) ctx'
      | (ctx', Err e) \<Rightarrow> (ctx', Err (PlainError ''module %s end block failed: %w''))
      | (ctx', Panic) \<Rightarrow> (ctx', Panic))"

definition router_EndBlock :: "Module list \<Rightarrow> Context \<Rightarrow> Context \<times> Event list outcome" where
  "router_EndBlock mods ctx = router_EndBlock_from mods [] ctx"

definition router_Query :: "Router \<Rightarrow> Context \<Rightarrow> bytes \<Rightarrow> bytes \<Rightarrow> bytes \<Rightarrow> bytes outcome" where
  "router_Query r ctx name path dat = (case map_of (modules r) name of
     None \<Rightarrow> Err (NewAppError CodeUnknownMod ''unknown module %q'')
   | Some m \<Rightarrow> mQuery m ctx path dat)"

section \<open>common/module.go\<close>

text \<open>A JSON value stored into a variable of type \<open>any\<close>: numbers become \<open>float64\<close> (an error
  when out of range), objects become maps in which a repeated key keeps its last value.\<close>

fun dec_any :: "json \<Rightarrow> goany option" where
  "dec_any JNull = Some AnyNil"
| "dec_any (JBool b) = Some (AnyBool b)"
| "dec_any (JNum s) = map_option AnyNum (ParseFloat64 s)"
| "dec_any (JStr s) = Some (AnyStr s)"
| "dec_any (JArr js) = map_option AnyArr (opt_list (map dec_any js))"
| "dec_any (JObj ms) = map_option (\<lambda>kvs. AnyMap (fold (\<lambda>(k, v). AList.update k v) kvs []))
     (opt_list (map (\<lambda>m. map_option (Pair (fst m)) (dec_any (snd (snd m)))) ms))"

text \<open>\<open>genesis_ok\<close>: \<open>json.Unmarshal\<close> into a \<open>map[string]any\<close> succeeds.\<close>

definition genesis_ok :: "bytes \<Rightarrow> bool" where
  "genesis_ok raw = (case Unmarshal raw of None \<Rightarrow> False
     | Some JNull \<Rightarrow> True | Some (JObj ms) \<Rightarrow> dec_any (JObj ms) \<noteq> None | Some _ \<Rightarrow> False)"

definition common_InitGenesis :: "bytes \<Rightarrow> Context \<Rightarrow> bytes \<Rightarrow> Context \<times> unit outcome" where
  "common_InitGenesis name ctx raw =
     (if length raw = 0 then (ctx, Ret ())
      else if \<not> genesis_ok raw then (ctx, Err (PlainError ''unmarshal genesis''))
      else (ctx\<lparr>ctxEventBus := Emit (ctxEventBus ctx) (mkEvent ''module_init'' [(''module'', name)])\<rparr>, Ret ()))"

definition common_ExecuteTx :: "(bytes \<times> handler) list \<Rightarrow> handler" where
  "common_ExecuteTx handlers ctx env = (case map_of handlers (Action env) of
     None \<Rightarrow> (ctx, Err (NewAppError CodeUnknownMod ''%s action %q is not supported''))
   | Some h \<Rightarrow> h ctx env)"

definition common_EndBlock :: "Context \<Rightarrow> Context \<times> Event list outcome" where
  "common_EndBlock ctx = (ctx, Ret [])"

definition common_Query :: "Context \<Rightarrow> bytes \<Rightarrow> bytes \<Rightarrow> bytes outcome" where
  "common_Query ctx path dat = Err (PlainError ''%s query %q is not implemented'')"

text \<open>A module as its constructor \<open>New\<close> builds it: the shared behaviour, its handlers, and
  its \<open>EndBlock\<close>.\<close>

definition mkModule :: "bytes \<Rightarrow> (bytes \<times> handler) list \<Rightarrow> (Context \<Rightarrow> Context \<times> Event list outcome) \<Rightarrow> Module" where
  "mkModule name handlers eb = \<lparr>mName = name, mInitGenesis = common_InitGenesis name,
     mExecuteTx = common_ExecuteTx handlers, mEndBlock = eb, mQuery = common_Query\<rparr>"

lemma mkModule_sel [simp]:
  "mName (mkModule n hs eb) = n" "mExecuteTx (mkModule n hs eb) = common_ExecuteTx hs"
  "mEndBlock (mkModule n hs eb) = eb" "mInitGenesis (mkModule n hs eb) = common_InitGenesis n"
  by (simp_all add: mkModule_def)

end
