(* ===== verification/Table.thy ===== *)
theory Table
  imports Router
begin

text \<open>
  What the modules share in their use of the store. A module keeps structs in tables, one
  key prefix each; the interface of a table (load and save of a struct under the key of its
  identifier) is the locale \<open>table\<close>, which every module interprets on its own load and save
  functions. What one module promises to the others is the locale \<open>module_contract\<close>: it
  writes under its own prefixes only and keeps the store well formed. The second is what the
  block execution relies on.
\<close>

section \<open>Loading a struct\<close>

text \<open>A lookup followed by \<open>json.Unmarshal\<close> into a struct, with the errors for a missing key and
  for bytes that do not decode: \<open>un\<close> recognises the values of the type. Where the source
  returns the decoder's own error, that error is \<open>json_error\<close>.\<close>

definition json_error :: goerr where
  "json_error = PlainError ''json: cannot unmarshal''"

definition load_rec :: "(val \<Rightarrow> 'r option) \<Rightarrow> goerr \<Rightarrow> goerr \<Rightarrow> Store \<Rightarrow> bytes \<Rightarrow> goerr + 'r" where
  "load_rec un missing bad st k = (case Get st k of None \<Rightarrow> Inl missing
     | Some v \<Rightarrow> (case un v of None \<Rightarrow> Inl bad | Some r \<Rightarrow> Inr r))"

lemma load_rec_cong: "Get st k = Get st' k \<Longrightarrow> load_rec un e b st k = load_rec un e b st' k"
  by (simp add: load_rec_def)

lemma load_rec_Set:
  "load_rec un e b (Set st k v) k' = (if k' = k then (case un v of None \<Rightarrow> Inl b | Some r \<Rightarrow> Inr r)
     else load_rec un e b st k')"
  by (simp add: load_rec_def Get_Set)

lemma load_rec_InrD: "load_rec un e b st k = Inr r \<Longrightarrow> \<exists>v. Get st k = Some v \<and> un v = Some r"
  by (auto simp: load_rec_def split: option.splits)

text \<open>The structs of an iteration whose bytes decode; the loops skip the others.\<close>

definition decoded :: "(val \<Rightarrow> 'r option) \<Rightarrow> (bytes \<times> val) list \<Rightarrow> 'r list" where
  "decoded un kvs = List.map_filter (\<lambda>kv. un (snd kv)) kvs"

definition un_listing :: "val \<Rightarrow> Listing option" where
  "un_listing v = (case v of VListing x \<Rightarrow> Some x | _ \<Rightarrow> None)"
definition un_order :: "val \<Rightarrow> Order option" where
  "un_order v = (case v of VOrder x \<Rightarrow> Some x | _ \<Rightarrow> None)"
definition un_task :: "val \<Rightarrow> Task option" where
  "un_task v = (case v of VTask x \<Rightarrow> Some x | _ \<Rightarrow> None)"
definition un_dag :: "val \<Rightarrow> TaskDAG option" where
  "un_dag v = (case v of VDAG x \<Rightarrow> Some x | _ \<Rightarrow> None)"
definition un_utxo :: "val \<Rightarrow> CapabilityUTXO option" where
  "un_utxo v = (case v of VUTXO x \<Rightarrow> Some x | _ \<Rightarrow> None)"
definition un_score :: "val \<Rightarrow> ReputationScore option" where
  "un_score v = (case v of VScore x \<Rightarrow> Some x | _ \<Rightarrow> None)"
definition un_dispute :: "val \<Rightarrow> Dispute option" where
  "un_dispute v = (case v of VDispute x \<Rightarrow> Some x | _ \<Rightarrow> None)"
definition un_escrow :: "val \<Rightarrow> Escrow option" where
  "un_escrow v = (case v of VEscrow x \<Rightarrow> Some x | _ \<Rightarrow> None)"
definition un_deposit :: "val \<Rightarrow> DepositAccount option" where
  "un_deposit v = (case v of VDeposit x \<Rightarrow> Some x | _ \<Rightarrow> None)"
definition un_pool :: "val \<Rightarrow> InsurancePool option" where
  "un_pool v = (case v of VPool x \<Rightarrow> Some x | _ \<Rightarrow> None)"
definition un_node :: "val \<Rightarrow> NodeRegistration option" where
  "un_node v = (case v of VNode x \<Rightarrow> Some x | _ \<Rightarrow> None)"
definition un_proposal :: "val \<Rightarrow> Proposal option" where
  "un_proposal v = (case v of VProposal x \<Rightarrow> Some x | _ \<Rightarrow> None)"

lemmas un_defs = un_listing_def un_order_def un_task_def un_dag_def un_utxo_def un_score_def
  un_dispute_def un_escrow_def un_deposit_def un_pool_def un_node_def un_proposal_def

lemma un_simps [simp]:
  "un_listing (VListing a) = Some a" "un_order (VOrder b) = Some b" "un_task (VTask c) = Some c"
  "un_dag (VDAG d) = Some d" "un_utxo (VUTXO e) = Some e" "un_score (VScore f) = Some f"
  "un_dispute (VDispute g) = Some g" "un_escrow (VEscrow h) = Some h" "un_deposit (VDeposit i) = Some i"
  "un_pool (VPool j) = Some j" "un_node (VNode n) = Some n" "un_proposal (VProposal p) = Some p"
  by (simp_all add: un_defs)

lemma un_SomeD:
  "un_listing v = Some a \<Longrightarrow> v = VListing a" "un_order v = Some b \<Longrightarrow> v = VOrder b"
  "un_task v = Some c \<Longrightarrow> v = VTask c" "un_dag v = Some d \<Longrightarrow> v = VDAG d"
  "un_utxo v = Some e \<Longrightarrow> v = VUTXO e" "un_score v = Some f \<Longrightarrow> v = VScore f"
  "un_dispute v = Some g \<Longrightarrow> v = VDispute g" "un_escrow v = Some h \<Longrightarrow> v = VEscrow h"
  "un_deposit v = Some i \<Longrightarrow> v = VDeposit i" "un_pool v = Some j \<Longrightarrow> v = VPool j"
  "un_node v = Some n \<Longrightarrow> v = VNode n" "un_proposal v = Some p \<Longrightarrow> v = VProposal p"
  by (auto simp: un_defs split: val.splits)

section \<open>Confinement\<close>

text \<open>\<open>confined ps c c'\<close>: going from \<open>c\<close> to \<open>c'\<close> only wrote well-typed values under the
  prefixes \<open>ps\<close>, and changed neither the height, nor the time, nor the version of the store.\<close>

definition confined :: "bytes list \<Rightarrow> Context \<Rightarrow> Context \<Rightarrow> bool" where
  "confined ps c c' \<longleftrightarrow> ctxHeight c' = ctxHeight c \<and> ctxBlockTime c' = ctxBlockTime c
     \<and> Version (ctxStore c') = Version (ctxStore c)
     \<and> (\<forall>k. (\<forall>p\<in>set ps. \<not> prefix p k) \<longrightarrow> Get (ctxStore c') k = Get (ctxStore c) k)
     \<and> (store_inv (ctxStore c) \<longrightarrow> store_inv (ctxStore c'))
     \<and> (well_typed (ctxStore c) \<longrightarrow> well_typed (ctxStore c'))"

lemma Version_Set [simp]: "Version (Set st k v) = Version st"
  by (simp add: Version_def mem_Version_def Set_def mem_Set_def)

lemma Version_Delete [simp]: "Version (Delete st k) = Version st"
  by (simp add: Version_def mem_Version_def Delete_def mem_Delete_def)

lemma confined_refl [simp, intro]: "confined ps c c"
  by (simp add: confined_def)

lemma confined_trans [trans]: "confined ps a b \<Longrightarrow> confined ps b c \<Longrightarrow> confined ps a c"
  by (simp add: confined_def)

lemma confined_mono: "confined ps a b \<Longrightarrow> set ps \<subseteq> set qs \<Longrightarrow> confined qs a b"
  by (auto simp: confined_def)

lemma confined_bus [simp]: "confined ps c (c'\<lparr>ctxEventBus := b\<rparr>) = confined ps c c'"
  by (simp add: confined_def)

lemma confined_Set:
  assumes "p \<in> set ps" "prefix p k" "val_ok k v"
  shows "confined ps c (upd_store c (Set (ctxStore c) k v))"
  using assms by (auto simp: confined_def Get_Set)

lemma well_typed_Delete: "well_typed st \<Longrightarrow> well_typed (Delete st k)"
  by (auto simp: well_typed_def store.get_del split: if_splits)

lemma confined_Delete:
  assumes "p \<in> set ps" "prefix p k"
  shows "confined ps c (upd_store c (Delete (ctxStore c) k))"
  using assms by (auto simp: confined_def store.get_del store.inv_del well_typed_Delete)

lemma confined_get: "confined ps c c' \<Longrightarrow> (\<And>p. p \<in> set ps \<Longrightarrow> \<not> prefix p k) \<Longrightarrow>
    Get (ctxStore c') k = Get (ctxStore c) k"
  by (simp add: confined_def)

section \<open>Loops over a snapshot\<close>

text \<open>
  The loops of the ends of block read a list of structs once, then for some of them save a
  changed struct and append events. \<open>sweep save f\<close> is such a loop; \<open>f\<close> gives the changed struct
  and the events, or \<open>None\<close> when the body leaves the struct alone.
\<close>

definition sweep :: "(Store \<Rightarrow> 'r \<Rightarrow> Store) \<Rightarrow> ('r \<Rightarrow> ('r \<times> Event list) option) \<Rightarrow> 'r list \<Rightarrow> Store \<Rightarrow> Store \<times> Event list" where
  "sweep sv f rs st = foldl (\<lambda>(st, evs) r. case f r of None \<Rightarrow> (st, evs)
     | Some (r', ev) \<Rightarrow> (sv st r', evs @ ev)) (st, []) rs"

lemma sweep_Nil: "sweep sv f [] st = (st, [])"
  by (simp add: sweep_def)

lemma sweep_snoc: "sweep sv f (rs @ [r]) st = (case sweep sv f rs st of (st', evs) \<Rightarrow>
    (case f r of None \<Rightarrow> (st', evs) | Some (r', ev) \<Rightarrow> (sv st' r', evs @ ev)))"
  by (simp add: sweep_def split: prod.split)

lemma sweep_events: "snd (sweep sv f rs st) = concat (map (\<lambda>r. case f r of None \<Rightarrow> [] | Some (r', ev) \<Rightarrow> ev) rs)"
  by (induction rs rule: rev_induct) (auto simp: sweep_Nil sweep_snoc split: prod.split option.split)

text \<open>What every save of the loop keeps holds after the loop.\<close>

lemma sweep_keeps:
  assumes "\<And>r r' ev. r \<in> set rs \<Longrightarrow> f r = Some (r', ev) \<Longrightarrow> P r'" "\<And>st r. I st \<Longrightarrow> P r \<Longrightarrow> I (sv st r)" "I st"
  shows "I (fst (sweep sv f rs st))"
  using assms(1)
proof (induction rs rule: rev_induct)
  case (snoc r rs)
  obtain st' evs where sw: "sweep sv f rs st = (st', evs)" by fastforce
  have "I st'" using snoc.IH snoc.prems sw by (metis (no_types, lifting) Un_iff fst_conv set_append)
  then show ?case using snoc.prems [of r] assms(2) by (auto simp: sweep_snoc sw split: option.split)
qed (simp add: sweep_Nil assms(3))

section \<open>Tables\<close>

text \<open>\<open>own_ids\<close>: a struct is stored under the key of its own identifier.\<close>

definition own_ids :: "(Store \<Rightarrow> 'i \<Rightarrow> goerr + 'r) \<Rightarrow> ('r \<Rightarrow> 'i) \<Rightarrow> Store \<Rightarrow> bool" where
  "own_ids ld ident st \<longleftrightarrow> (\<forall>i r. ld st i = Inr r \<longrightarrow> ident r = i)"

locale table =
  fixes load :: "Store \<Rightarrow> 'i \<Rightarrow> goerr + 'r"
    and save :: "Store \<Rightarrow> 'r \<Rightarrow> Store"
    and ident :: "'r \<Rightarrow> 'i"
    and key :: "'i \<Rightarrow> bytes"
    and pre :: bytes
  assumes load_save: "load (save st r) i = (if i = ident r then Inr r else load st i)"
    and load_frame: "Get st (key i) = Get st' (key i) \<Longrightarrow> load st i = load st' i"
    and save_frame: "k \<noteq> key (ident r) \<Longrightarrow> Get (save st r) k = Get st k"
    and save_inv: "store_inv st \<Longrightarrow> store_inv (save st r)"
    and save_typed: "well_typed st \<Longrightarrow> well_typed (save st r)"
    and save_version: "Version (save st r) = Version st"
    and key_pre: "prefix pre (key i)"
begin

lemma load_save_same: "load (save st r) (ident r) = Inr r"
  by (simp add: load_save)

lemma load_save_other: "i \<noteq> ident r \<Longrightarrow> load (save st r) i = load st i"
  by (simp add: load_save)

lemma save_confined: "pre \<in> set ps \<Longrightarrow> confined ps c (upd_store c (save (ctxStore c) r))"
  using key_pre [of "ident r"] save_frame
  by (auto simp: confined_def save_inv save_typed save_version)

lemma load_save_elsewhere: "\<not> prefix pre k \<Longrightarrow> Get (save st r) k = Get st k"
  using key_pre [of "ident r"] by (intro save_frame) auto

lemma own_ids_save: "own_ids load ident st \<Longrightarrow> own_ids load ident (save st r)"
  by (simp add: own_ids_def load_save)

text \<open>An update of the struct that was loaded, which keeps its identifier, is what the next
  load returns, and no other struct of the table changes.\<close>

lemma load_update:
  assumes "own_ids load ident st" "load st i = Inr r" "ident r' = ident r"
  shows "load (save st r') j = (if j = i then Inr r' else load st j)"
  using assms by (auto simp: own_ids_def load_save)

text \<open>After a loop over structs of the snapshot \<open>st0\<close>, the ones the body changed are changed and the
  others are as they were.\<close>

lemma sweep_load:
  assumes "\<And>r. r \<in> set rs \<Longrightarrow> load st0 (ident r) = Inr r" "\<And>r r' ev. f r = Some (r', ev) \<Longrightarrow> ident r' = ident r"
  shows "load (fst (sweep save f rs st)) i =
    (if \<exists>r\<in>set rs. ident r = i \<and> f r \<noteq> None then Inr (fst (the (f (projr (load st0 i))))) else load st i)"
  using assms(1)
proof (induction rs rule: rev_induct)
  case (snoc r rs)
  have IH: "load (fst (sweep save f rs st)) i =
    (if \<exists>r\<in>set rs. ident r = i \<and> f r \<noteq> None then Inr (fst (the (f (projr (load st0 i))))) else load st i)"
    using snoc by simp
  show ?case
  proof (cases "f r")
    case None
    then show ?thesis using IH by (simp add: sweep_snoc split: prod.split)
  next
    case (Some x)
    then obtain r' ev where x: "f r = Some (r', ev)" by (cases x) auto
    have "ident r' = ident r" by (rule assms(2) [OF x])
    moreover have "load st0 (ident r) = Inr r" using snoc.prems by simp
    ultimately show ?thesis using IH x by (auto simp: sweep_snoc load_save split: prod.split)
  qed
qed (simp add: sweep_Nil)

lemma sweep_all:
  assumes own: "own_ids load ident st" and all: "\<And>r. r \<in> set rs \<longleftrightarrow> (\<exists>i. load st i = Inr r)"
    and keep: "\<And>r r' ev. f r = Some (r', ev) \<Longrightarrow> ident r' = ident r"
  shows "load (fst (sweep save f rs st)) i = (case load st i of Inl e \<Rightarrow> Inl e
    | Inr r \<Rightarrow> Inr (case f r of None \<Rightarrow> r | Some (r', ev) \<Rightarrow> r'))"
proof -
  have ids: "load st (ident r) = Inr r" if "r \<in> set rs" for r
    using that own all by (auto simp: own_ids_def)
  show ?thesis
  proof (cases "load st i")
    case (Inl e)
    then have "\<not> (\<exists>r\<in>set rs. ident r = i \<and> f r \<noteq> None)" using ids by fastforce
    with Inl sweep_load [OF ids keep, of rs] show ?thesis by simp
  next
    case (Inr r)
    then have "ident r = i" "r \<in> set rs" using own all by (auto simp: own_ids_def)
    moreover have "x = r" if "x \<in> set rs" "ident x = i" for x using ids [OF that(1)] that(2) Inr by simp
    ultimately have "(\<exists>x\<in>set rs. ident x = i \<and> f x \<noteq> None) \<longleftrightarrow> f r \<noteq> None" by metis
    with Inr sweep_load [OF ids keep, of rs] show ?thesis by (auto split: option.split)
  qed
qed

lemma sweep_own: "own_ids load ident st \<Longrightarrow> own_ids load ident (fst (sweep save f rs st))"
  by (induction rs rule: rev_induct) (auto simp: sweep_Nil sweep_snoc own_ids_save split: prod.splits option.splits)

lemma sweep_confined: "pre \<in> set ps \<Longrightarrow> confined ps c (upd_store c (fst (sweep save f rs (ctxStore c))))"
proof (induction rs rule: rev_induct)
  case (snoc r rs)
  have "confined ps (upd_store c st) (upd_store c (save st x))" for st x
    using save_confined [OF snoc.prems, of "upd_store c st" x] by simp
  with snoc show ?case
    by (auto simp: sweep_snoc split: prod.split option.split intro: confined_trans)
qed (simp add: sweep_Nil)

lemma load_confined:
  assumes "confined ps c c'" "\<And>p. p \<in> set ps \<Longrightarrow> \<not> prefix p (key i)"
  shows "load (ctxStore c') i = load (ctxStore c) i"
  using confined_get [OF assms(1), of "key i"] assms(2) by (intro load_frame) simp

end

text \<open>A load and a save that follow the pattern of the modules make a table.\<close>

lemma tableI:
  assumes "\<And>st i. ld st i = load_rec un e b st (k i)" "\<And>st r. sv st r = Set st (k (ident r)) (con r)"
    and "\<And>r. un (con r) = Some r" "inj k" "\<And>i. prefix pre (k i)" "\<And>r. val_ok (k (ident r)) (con r)"
  shows "table ld sv ident k pre"
  using assms by unfold_locales (auto simp: load_rec_Set inj_eq Get_Set intro: load_rec_cong)

lemma decoded_iff:
  assumes "store_inv st"
  shows "r \<in> set (decoded un (IteratePrefix st pre)) \<longleftrightarrow> (\<exists>k v. prefix pre k \<and> Get st k = Some v \<and> un v = Some r)"
proof -
  have "r \<in> set (decoded un (IteratePrefix st pre)) \<longleftrightarrow> (\<exists>k v. (k, v) \<in> set (IteratePrefix st pre) \<and> un v = Some r)"
    by (force simp: decoded_def map_filter_def)
  then show ?thesis by (simp add: store.iter_mem [OF assms] conj_assoc)
qed

text \<open>A loop over a prefix sees exactly the structs that a load can return.\<close>

lemma decoded_mem:
  assumes "store_inv st" and ld: "\<And>st i. ld st i = load_rec un e b st (k i)" and k: "\<And>i. k i = pre @ i"
  shows "r \<in> set (decoded un (IteratePrefix st pre)) \<longleftrightarrow> (\<exists>i. ld st i = Inr r)"
proof
  assume "r \<in> set (decoded un (IteratePrefix st pre))"
  then obtain key v where kv: "(key, v) \<in> set (IteratePrefix st pre)" "un v = Some r"
    by (auto simp: decoded_def map_filter_def)
  then have "prefix pre key" "Get st key = Some v" using store.iter_mem [OF assms(1)] by auto
  moreover from this(1) obtain i where "key = k i" by (auto simp: prefix_def k)
  ultimately have "ld st i = Inr r" using kv(2) by (simp add: ld load_rec_def)
  then show "\<exists>i. ld st i = Inr r" by blast
next
  assume "\<exists>i. ld st i = Inr r"
  then obtain i v where "Get st (k i) = Some v" and v: "un v = Some r"
    by (auto simp: ld dest!: load_rec_InrD)
  then have "(k i, v) \<in> set (IteratePrefix st pre)" using store.iter_mem [OF assms(1)] by (simp add: k)
  with v show "r \<in> set (decoded un (IteratePrefix st pre))" by (force simp: decoded_def map_filter_def)
qed

section \<open>The contract of a module\<close>

locale module_contract =
  fixes m :: Module
    and owned :: "bytes list"
  assumes init_confined: "confined owned c (fst (mInitGenesis m c raw))"
    and exec_confined: "confined owned c (fst (mExecuteTx m c env))"
    and end_confined: "confined owned c (fst (mEndBlock m c))"
begin

text \<open>What lies under no prefix of the module is as it was.\<close>

lemma exec_get: "(\<And>p. p \<in> set owned \<Longrightarrow> \<not> prefix p k) \<Longrightarrow>
    Get (ctxStore (fst (mExecuteTx m c env))) k = Get (ctxStore c) k"
  using exec_confined [of c env] by (rule confined_get)

lemma exec_nonce:
  assumes "\<And>p k. p \<in> set owned \<Longrightarrow> \<not> prefix p (NonceKey k)"
  shows "GetNonce (ctxStore (fst (mExecuteTx m c env))) pub = GetNonce (ctxStore c) pub"
  using assms by (simp add: GetNonce_def exec_get)

lemma end_nonce:
  assumes "\<And>p k. p \<in> set owned \<Longrightarrow> \<not> prefix p (NonceKey k)"
  shows "GetNonce (ctxStore (fst (mEndBlock m c))) pub = GetNonce (ctxStore c) pub"
  using assms confined_get [OF end_confined [of c]] by (simp add: GetNonce_def)

end

text \<open>A module that \<open>mkModule\<close> builds keeps the contract when each handler does.\<close>

definition handlers_confined :: "bytes list \<Rightarrow> (bytes \<times> handler) list \<Rightarrow> bool" where
  "handlers_confined ps hs \<longleftrightarrow> (\<forall>h \<in> snd ` set hs. \<forall>c env. confined ps c (fst (h c env)))"

lemma handlers_confined_simps [simp]:
  "handlers_confined ps []"
  "handlers_confined ps ((n, h) # hs) \<longleftrightarrow> (\<forall>c env. confined ps c (fst (h c env))) \<and> handlers_confined ps hs"
  by (auto simp: handlers_confined_def)

lemma common_InitGenesis_confined: "confined ps c (fst (common_InitGenesis n c raw))"
  by (simp add: common_InitGenesis_def)

lemma common_ExecuteTx_confined:
  assumes "handlers_confined ps hs"
  shows "confined ps c (fst (common_ExecuteTx hs c env))"
proof (cases "map_of hs (Action env)")
  case (Some h)
  then have "h \<in> snd ` set hs" by (force dest: map_of_SomeD)
  with assms Some show ?thesis by (auto simp: common_ExecuteTx_def handlers_confined_def)
qed (simp add: common_ExecuteTx_def)

text \<open>Dispatch over a list of handlers.\<close>

lemma common_ExecuteTx_Nil:
  "common_ExecuteTx [] c env = (c, Err (NewAppError CodeUnknownMod ''%s action %q is not supported''))"
  by (simp add: common_ExecuteTx_def)

lemma common_ExecuteTx_Cons:
  "common_ExecuteTx ((n, h) # hs) c env = (if Action env = n then h c env else common_ExecuteTx hs c env)"
  by (auto simp: common_ExecuteTx_def)

lemmas dispatch = common_ExecuteTx_Nil common_ExecuteTx_Cons

lemma mkModule_contract:
  assumes "handlers_confined ps hs" "\<And>c. confined ps c (fst (eb c))"
  shows "module_contract (mkModule n hs eb) ps"
  by unfold_locales
    (simp_all add: assms common_InitGenesis_confined common_ExecuteTx_confined)

lemma common_EndBlock_confined: "confined ps c (fst (common_EndBlock c))"
  by (simp add: common_EndBlock_def)

section \<open>Concrete contexts\<close>

text \<open>An empty store in the memory backend at height 1 and a given time in seconds, and a
  transaction with given sender, module, action and payload: the inputs of the witnesses.\<close>

definition fresh_ctx :: "int \<Rightarrow> Context" where
  "fresh_ctx secs = \<lparr>ctxStore = \<lparr>backendName = ''memory'', engine = newMemoryEngine\<rparr>,
     ctxEventBus = newBus, ctxHeight = 1, ctxBlockTime = secs * 1000000000\<rparr>"

definition mk_tx :: "bytes \<Rightarrow> bytes \<Rightarrow> bytes \<Rightarrow> bytes \<Rightarrow> TxEnvelope" where
  "mk_tx sender modname action payload = \<lparr>Sender = sender, Nonce = 0, GasLimit = 100000, GasPrice = 1,
     Module = modname, Action = action, Payload = payload, Signature = [], Memo = [], TimeoutHeight = 0\<rparr>"

lemma Get_fresh_ctx [simp]: "Get (ctxStore (fresh_ctx t)) k = None"
  by (simp add: fresh_ctx_def Get_def mem_Get_def newMemoryEngine_def)

lemma fresh_ctx_inv [simp]: "store_inv (ctxStore (fresh_ctx t))" "well_typed (ctxStore (fresh_ctx t))"
  by (simp_all add: fresh_ctx_def store_inv_def mem_inv_def newMemoryEngine_def well_typed_def
      Get_def mem_Get_def)

lemma own_ids_fresh: "(\<And>i r. ld (ctxStore (fresh_ctx t)) i \<noteq> Inr r) \<Longrightarrow> own_ids ld ident (ctxStore (fresh_ctx t))"
  by (simp add: own_ids_def)

section \<open>Invariants\<close>

text \<open>The states a module can bring a store to: its transactions and its end of block, with the
  clock moving freely in between.\<close>

inductive reach :: "Module \<Rightarrow> Context \<Rightarrow> bool" for m :: Module where
  init: "reach m (fresh_ctx t)"
| exec: "reach m c \<Longrightarrow> reach m (fst (mExecuteTx m c env))"
| block: "reach m c \<Longrightarrow> reach m (fst (mEndBlock m c))"
| tick: "reach m c \<Longrightarrow> reach m (c\<lparr>ctxHeight := h, ctxBlockTime := t\<rparr>)"

text \<open>The same steps as data, for statements about sequences of them.\<close>

datatype step = Tx TxEnvelope | BlockEnd | Clock int64 time

fun do_step :: "Module \<Rightarrow> Context \<Rightarrow> step \<Rightarrow> Context" where
  "do_step m c (Tx env) = fst (mExecuteTx m c env)"
| "do_step m c BlockEnd = fst (mEndBlock m c)"
| "do_step m c (Clock h t) = c\<lparr>ctxHeight := h, ctxBlockTime := t\<rparr>"

definition run :: "Module \<Rightarrow> Context \<Rightarrow> step list \<Rightarrow> Context" where
  "run m = foldl (do_step m)"

lemma run_simps [simp]: "run m c [] = c" "run m c (s # ss) = run m (do_step m c s) ss"
  by (simp_all add: run_def)

lemma reach_run: "reach m c \<Longrightarrow> reach m (run m c ss)"
proof (induction ss arbitrary: c)
  case (Cons s ss)
  have "reach m (do_step m c s)" using Cons.prems by (cases s) (auto intro: reach.intros)
  then show ?case by (simp add: Cons.IH)
qed simp

text \<open>An invariant of a module: it holds of an empty store, its transactions and its end of block
  keep it, and it speaks of the module's own keys only, so that no other module can break it.\<close>

locale module_invariant = module_contract +
  fixes I :: "Store \<Rightarrow> bool"
  assumes inv_fresh: "I (ctxStore (fresh_ctx t))"
    and inv_exec: "I (ctxStore c) \<Longrightarrow> I (ctxStore (fst (mExecuteTx m c env)))"
    and inv_end: "I (ctxStore c) \<Longrightarrow> I (ctxStore (fst (mEndBlock m c)))"
    and inv_local: "I st \<Longrightarrow> (store_inv st \<Longrightarrow> store_inv st') \<Longrightarrow>
      (\<And>p k. p \<in> set owned \<Longrightarrow> prefix p k \<Longrightarrow> Get st' k = Get st k) \<Longrightarrow> I st'"
begin

lemma reach_inv: "reach m c \<Longrightarrow> I (ctxStore c)"
  by (induction rule: reach.induct) (simp_all add: inv_fresh inv_exec inv_end)

text \<open>A step that is confined to other prefixes keeps the invariant.\<close>

lemma inv_confined:
  assumes "I (ctxStore c)" "confined ps c c'"
    and "\<And>p q. p \<in> set owned \<Longrightarrow> q \<in> set ps \<Longrightarrow> \<not> prefix p q \<and> \<not> prefix q p"
  shows "I (ctxStore c')"
proof (rule inv_local [OF assms(1)])
  show "store_inv (ctxStore c) \<Longrightarrow> store_inv (ctxStore c')" using assms(2) by (simp add: confined_def)
  fix p k assume p: "p \<in> set owned" "prefix p k"
  have "\<not> prefix q k" if "q \<in> set ps" for q
    using prefix_same_cases [OF p(2)] assms(3) [OF p(1) that] by blast
  then show "Get (ctxStore c') k = Get (ctxStore c) k" using assms(2) by (intro confined_get) auto
qed

end

section \<open>What the end of a block reads\<close>

text \<open>Two contexts agree on a list of prefixes: they have the same height and time, and their stores, both well formed,
  hold the same values under the prefixes.\<close>

definition agree :: "bytes list \<Rightarrow> Store \<Rightarrow> Store \<Rightarrow> bool" where
  "agree ps st st' \<longleftrightarrow> store_inv st \<and> store_inv st' \<and> (\<forall>p \<in> set ps. \<forall>k. prefix p k \<longrightarrow> Get st' k = Get st k)"

lemma agree_Set: "agree ps st st' \<Longrightarrow> agree ps (Set st k v) (Set st' k v)"
  by (auto simp: agree_def Get_Set)

lemma agree_get: "agree ps st st' \<Longrightarrow> p \<in> set ps \<Longrightarrow> prefix p k \<Longrightarrow> Get st' k = Get st k"
  by (auto simp: agree_def)

lemma agree_iterate: "agree ps st st' \<Longrightarrow> p \<in> set ps \<Longrightarrow> prefix p q \<Longrightarrow> IteratePrefix st' q = IteratePrefix st q"
  by (rule store.iter_determined) (auto simp: agree_def dest: prefix_order.trans)

lemma agree_load: "agree ps st st' \<Longrightarrow> p \<in> set ps \<Longrightarrow> prefix p k \<Longrightarrow> load_rec un e b st' k = load_rec un e b st k"
  by (rule load_rec_cong) (rule agree_get)

lemma agree_sweep:
  assumes "agree ps st st'" "\<And>st st' r. agree ps st st' \<Longrightarrow> agree ps (sv st r) (sv st' r)"
  shows "agree ps (fst (sweep sv f rs st)) (fst (sweep sv f rs st'))"
proof (induction rs rule: rev_induct)
  case (snoc r rs)
  then show ?case using assms(2) by (auto simp: sweep_snoc split: prod.splits option.splits)
qed (simp add: sweep_Nil assms(1))

text \<open>The end of a block of a module is a function of what lies under its own prefixes, of the height and of the time; the events
  it has are returned and not put on the bus.\<close>

locale end_local = module_contract +
  assumes end_local: "agree owned (ctxStore c) (ctxStore c') \<Longrightarrow> ctxHeight c' = ctxHeight c \<Longrightarrow> ctxBlockTime c' = ctxBlockTime c \<Longrightarrow>
      agree owned (ctxStore (fst (mEndBlock m c))) (ctxStore (fst (mEndBlock m c'))) \<and> snd (mEndBlock m c') = snd (mEndBlock m c)"
    and end_bus: "ctxEventBus (fst (mEndBlock m c)) = ctxEventBus c"

lemma idle_end_local:
  assumes "module_contract m owned" "\<And>c. mEndBlock m c = (c, Ret [])"
  shows "end_local m owned"
  using assms by (simp add: end_local_def end_local_axioms_def)

text \<open>An end of block that is one loop over a table.\<close>

lemma sweep_end_local:
  assumes "module_contract m owned" "p \<in> set owned" "\<And>st r. sv st r = Set st (k r) (con r)"
    and "\<And>c. mEndBlock m c = (case sweep sv (f (now c)) (decoded un (IteratePrefix (ctxStore c) p)) (ctxStore c) of
        (st, evs) \<Rightarrow> (upd_store c st, Ret evs))"
  shows "end_local m owned"
proof (intro end_local.intro assms(1) end_local_axioms.intro conjI)
  fix c c' :: Context assume ag: "agree owned (ctxStore c) (ctxStore c')" and t: "ctxBlockTime c' = ctxBlockTime c"
  have it: "IteratePrefix (ctxStore c') p = IteratePrefix (ctxStore c) p" by (rule agree_iterate [OF ag assms(2)]) simp
  have "agree owned (fst (sweep sv (f (now c)) (decoded un (IteratePrefix (ctxStore c) p)) (ctxStore c)))
      (fst (sweep sv (f (now c)) (decoded un (IteratePrefix (ctxStore c) p)) (ctxStore c')))"
    by (rule agree_sweep [OF ag]) (simp add: assms(3) agree_Set)
  then show "agree owned (ctxStore (fst (mEndBlock m c))) (ctxStore (fst (mEndBlock m c')))"
    by (simp add: assms(4) it t case_prod_beta)
  show "snd (mEndBlock m c') = snd (mEndBlock m c)"
    by (simp add: assms(4) it t case_prod_beta sweep_events)
qed (simp add: assms(4) case_prod_beta)

end
