(* ===== verification/Amx.thy ===== *)
theory Amx
  imports Table
begin

text \<open>
  \<open>internal/modules/amx/module.go\<close>: the market. Providers publish listings, a consumer submits a
  request that is matched at once with the best listing, and the parties confirm, reject or cancel
  the order. The Unicode case tables behind \<open>strings.ToUpper\<close> are the argument \<open>uni\<close>.
\<close>

section \<open>Payloads\<close>

definition CapabilityRef_fields :: "(bytes \<times> CapabilityRef field) list" where
  "CapabilityRef_fields = [(''cap_type'', fld dec_string cr_CapType cr_CapType_update)]"

definition zeroCapRef :: CapabilityRef where
  "zeroCapRef = \<lparr>cr_CapType = []\<rparr>"

definition PricingModel_fields :: "(bytes \<times> PricingModel field) list" where
  "PricingModel_fields = [(''currency'', fld dec_string pm_Currency pm_Currency_update),
     (''base_price'', fld dec_string pm_BasePrice pm_BasePrice_update)]"

definition zeroPricing :: PricingModel where
  "zeroPricing = \<lparr>pm_Currency = [], pm_BasePrice = []\<rparr>"

definition SLATemplate_fields :: "(bytes \<times> SLATemplate field) list" where
  "SLATemplate_fields = [(''max_latency_ms'', fld dec_uint32 st_MaxLatencyMS st_MaxLatencyMS_update),
     (''timeout_sec'', fld dec_uint64 st_TimeoutSec st_TimeoutSec_update)]"

definition zeroSLATemplate :: SLATemplate where
  "zeroSLATemplate = \<lparr>st_MaxLatencyMS = 0, st_TimeoutSec = 0\<rparr>"

record CreateListingPayload =
  cl_Title :: bytes
  cl_Description :: bytes
  cl_Capabilities :: "CapabilityRef list"
  cl_Pricing :: PricingModel
  cl_SLA :: SLATemplate
  cl_Tags :: "bytes list"

definition CreateListingPayload_fields :: "(bytes \<times> CreateListingPayload field) list" where
  "CreateListingPayload_fields =
     [(''title'', fld dec_string cl_Title cl_Title_update),
      (''description'', fld dec_string cl_Description cl_Description_update),
      (''capabilities'', fld (dec_list (dec_struct False CapabilityRef_fields) zeroCapRef) cl_Capabilities cl_Capabilities_update),
      (''pricing'', fld (dec_struct False PricingModel_fields) cl_Pricing cl_Pricing_update),
      (''sla'', fld (dec_struct False SLATemplate_fields) cl_SLA cl_SLA_update),
      (''tags'', fld (dec_list dec_string []) cl_Tags cl_Tags_update)]"

definition zeroCreateListing :: CreateListingPayload where
  "zeroCreateListing = \<lparr>cl_Title = [], cl_Description = [], cl_Capabilities = [], cl_Pricing = zeroPricing,
     cl_SLA = zeroSLATemplate, cl_Tags = []\<rparr>"

record UpdateListingPayload =
  ul_ListingID :: bytes
  ul_Title :: bytes
  ul_Description :: bytes
  ul_Pricing :: PricingModel

definition UpdateListingPayload_fields :: "(bytes \<times> UpdateListingPayload field) list" where
  "UpdateListingPayload_fields =
     [(''listing_id'', fld dec_string ul_ListingID ul_ListingID_update),
      (''title'', fld dec_string ul_Title ul_Title_update),
      (''description'', fld dec_string ul_Description ul_Description_update),
      (''pricing'', fld (dec_struct False PricingModel_fields) ul_Pricing ul_Pricing_update)]"

definition zeroUpdateListing :: UpdateListingPayload where
  "zeroUpdateListing = \<lparr>ul_ListingID = [], ul_Title = [], ul_Description = [], ul_Pricing = zeroPricing\<rparr>"

text \<open>\<open>ToggleListingPayload\<close> has the one field \<open>ListingID\<close>, \<open>transitionPayload\<close> the one field \<open>OrderID\<close>.\<close>

definition ToggleListingPayload_fields :: "(bytes \<times> bytes field) list" where
  "ToggleListingPayload_fields = [(''listing_id'', fld dec_string id id)]"

definition transitionPayload_fields :: "(bytes \<times> bytes field) list" where
  "transitionPayload_fields = [(''order_id'', fld dec_string id id)]"

record SubmitRequestPayload =
  rq_RequiredCaps :: "bytes list"
  rq_Budget :: Money
  rq_MaxLatencyMS :: uint32
  rq_Deadline :: int64

definition SubmitRequestPayload_fields :: "(bytes \<times> SubmitRequestPayload field) list" where
  "SubmitRequestPayload_fields =
     [(''required_caps'', fld (dec_list dec_string []) rq_RequiredCaps rq_RequiredCaps_update),
      (''budget'', fld dec_Money rq_Budget rq_Budget_update),
      (''max_latency_ms'', fld dec_uint32 rq_MaxLatencyMS rq_MaxLatencyMS_update),
      (''deadline'', fld dec_int64 rq_Deadline rq_Deadline_update)]"

definition zeroSubmitRequest :: SubmitRequestPayload where
  "zeroSubmitRequest = \<lparr>rq_RequiredCaps = [], rq_Budget = zeroMoney, rq_MaxLatencyMS = 0, rq_Deadline = 0\<rparr>"

abbreviation statusActive :: bytes where "statusActive \<equiv> ''LISTING_ACTIVE''"
abbreviation statusPaused :: bytes where "statusPaused \<equiv> ''LISTING_PAUSED''"
abbreviation statusDelisted :: bytes where "statusDelisted \<equiv> ''LISTING_DELISTED''"
abbreviation orderMatched :: bytes where "orderMatched \<equiv> ''ORDER_MATCHED''"
abbreviation orderEscrowed :: bytes where "orderEscrowed \<equiv> ''ORDER_ESCROWED''"
abbreviation orderActive :: bytes where "orderActive \<equiv> ''ORDER_ACTIVE''"
abbreviation orderCanceled :: bytes where "orderCanceled \<equiv> ''ORDER_CANCELED''"
abbreviation orderFailed :: bytes where "orderFailed \<equiv> ''ORDER_FAILED''"
abbreviation orderRejected :: bytes where "orderRejected \<equiv> ''ORDER_REJECTED''"

section \<open>Helpers\<close>

definition saveListing :: "Store \<Rightarrow> Listing \<Rightarrow> Store" where
  "saveListing st l = Set st (ListingKey (l_ListingID l)) (VListing l)"

definition loadListing :: "Store \<Rightarrow> bytes \<Rightarrow> goerr + Listing" where
  "loadListing st i = load_rec un_listing (NewAppError CodeAMXBase ''listing not found'')
     (NewAppError CodeDecodeFail ''decode listing: %v'') st (ListingKey i)"

definition saveOrder :: "Store \<Rightarrow> Order \<Rightarrow> Store" where
  "saveOrder st ord = Set st (OrderKey (o_OrderID ord)) (VOrder ord)"

definition loadOrder :: "Store \<Rightarrow> bytes \<Rightarrow> goerr + Order" where
  "loadOrder st i = load_rec un_order (NewAppError CodeAMXBase ''order not found'')
     (NewAppError CodeDecodeFail ''decode order: %v'') st (OrderKey i)"

definition shortHash :: "bytes list \<Rightarrow> bytes" where
  "shortHash parts = hex_EncodeToString (take 8 (Sum256 (concat parts)))"

definition capsContain :: "CapabilityRef list \<Rightarrow> bytes list \<Rightarrow> bool" where
  "capsContain caps required = (if required = [] then True
     else list_all (\<lambda>r. r \<in> set (map cr_CapType caps)) required)"

definition ptoPrice :: "bytes \<Rightarrow> goerr option" where
  "ptoPrice s = (case ParseDecimal s of Inl e \<Rightarrow> Some e | Inr _ \<Rightarrow> None)"

definition exceedsBudget :: "bytes \<Rightarrow> bytes \<Rightarrow> bool" where
  "exceedsBudget price budget = (case ParseDecimal price of Inl _ \<Rightarrow> True
     | Inr p \<Rightarrow> (case ParseDecimal budget of Inl _ \<Rightarrow> True | Inr b \<Rightarrow> b < p))"

text \<open>The price of a listing, with zero for a text that does not parse.\<close>

definition listing_price :: "Listing \<Rightarrow> rat" where
  "listing_price l = (case ParseDecimal (pm_BasePrice (l_Pricing l)) of Inl _ \<Rightarrow> 0 | Inr p \<Rightarrow> p)"

fun minMax_loop :: "nat \<Rightarrow> Listing list \<Rightarrow> rat \<Rightarrow> rat \<Rightarrow> rat \<times> rat" where
  "minMax_loop i [] lo hi = (lo, hi)"
| "minMax_loop i (l # ls) lo hi =
     (let p = listing_price l
      in minMax_loop (i + 1) ls (if i = 0 \<or> p < lo then p else lo) (if i = 0 \<or> hi < p then p else hi))"

definition minMaxPrice :: "Listing list \<Rightarrow> rat \<times> rat" where
  "minMaxPrice ls = minMax_loop 0 ls 0 0"

text \<open>The range is at least \<open>epsilon\<close> for the prices of \<open>minMaxPrice\<close>, so \<open>Quo\<close> never divides by zero.\<close>

definition scoreListing :: "Listing \<Rightarrow> rat \<Rightarrow> rat \<Rightarrow> rat" where
  "scoreListing l minPrice maxPrice =
     (let price = listing_price l;
          rangeP = maxPrice - minPrice + 1 / 1000000;
          priceNorm = (price - minPrice) / rangeP;
          priceScore = 1 - priceNorm;
          priceScore = (if priceScore < 0 then 0 else priceScore);
          priceScore = (if 1 < priceScore then 1 else priceScore);
          capScore = of_nat (length (l_Capabilities l)) / of_nat (length (l_Capabilities l) + 1)
      in 30 / 100 * priceScore + 30 / 100 * (700 / 1000) + 20 / 100 * (8 / 10) + 20 / 100 * capScore)"

definition amx_error :: "uint32 \<Rightarrow> bytes \<Rightarrow> goerr" where
  "amx_error n msg = NewAppError (CodeAMXBase + n) msg"

section \<open>Handlers\<close>

definition set_index :: "bytes \<Rightarrow> CapabilityRef list \<Rightarrow> Store \<Rightarrow> Store" where
  "set_index ident caps st = foldl (\<lambda>st c. Set st (PrefixAMXIndex @ cr_CapType c @ ''/'' @ ident)
     (VBytes [CHR 0x01])) st caps"

definition createListing :: handler where
  "createListing ctx env = (case DecodeJSONPayload CreateListingPayload_fields zeroCreateListing env of
     None \<Rightarrow> (ctx, Err (amx_error 1 ''decode create_listing: %v''))
   | Some p \<Rightarrow>
     if cl_Capabilities p = [] then (ctx, Err (amx_error 2 ''capabilities must not be empty''))
     else if ptoPrice (pm_BasePrice (cl_Pricing p)) \<noteq> None then (ctx, Err (amx_error 2 ''invalid base_price: %v''))
     else let i = shortHash [Sender env, utoa 10 (unat (Nonce env)), cl_Title p];
              l = \<lparr>l_ListingID = i, l_Provider = Sender env, l_Title = cl_Title p, l_Description = cl_Description p,
                   l_Capabilities = cl_Capabilities p, l_Pricing = cl_Pricing p, l_SLA = cl_SLA p, l_Tags = cl_Tags p,
                   l_Status = statusActive, l_CreatedAt = now ctx, l_UpdatedAt = now ctx\<rparr>;
              st = saveListing (ctxStore ctx) l;
              st = set_index (l_ListingID l) (l_Capabilities l) st
          in (upd_store ctx st, Ret (SuccessResult 5000
                [mkEvent ''OrderBookChanged'' [(''listing_id'', i), (''status'', statusActive)]])))"

definition updateListing :: handler where
  "updateListing ctx env = (case DecodeJSONPayload UpdateListingPayload_fields zeroUpdateListing env of
     None \<Rightarrow> (ctx, Err (amx_error 1 ''decode update_listing: %v''))
   | Some p \<Rightarrow>
     (case loadListing (ctxStore ctx) (ul_ListingID p) of Inl e \<Rightarrow> (ctx, Err e)
      | Inr l \<Rightarrow>
        if \<not> equalBytes (l_Provider l) (Sender env) then (ctx, Err (amx_error 3 ''provider mismatch''))
        else let l = (if ul_Title p \<noteq> [] then l\<lparr>l_Title := ul_Title p\<rparr> else l);
                 l = (if ul_Description p \<noteq> [] then l\<lparr>l_Description := ul_Description p\<rparr> else l);
                 l = (if pm_Currency (ul_Pricing p) \<noteq> [] then l\<lparr>l_Pricing := ul_Pricing p\<rparr> else l);
                 l = l\<lparr>l_UpdatedAt := now ctx\<rparr>
             in (upd_store ctx (saveListing (ctxStore ctx) l), Ret (SuccessResult 3000 []))))"

definition toggleListing :: "bytes \<Rightarrow> uint64 \<Rightarrow> handler" where
  "toggleListing next gas ctx env = (case DecodeJSONPayload ToggleListingPayload_fields [] env of
     None \<Rightarrow> (ctx, Err (amx_error 1 ''decode toggle_listing: %v''))
   | Some i \<Rightarrow>
     (case loadListing (ctxStore ctx) i of Inl e \<Rightarrow> (ctx, Err e)
      | Inr l \<Rightarrow>
        if \<not> equalBytes (l_Provider l) (Sender env) then (ctx, Err (amx_error 3 ''provider mismatch''))
        else (upd_store ctx (saveListing (ctxStore ctx) (l\<lparr>l_Status := next, l_UpdatedAt := now ctx\<rparr>)),
              Ret (SuccessResult gas []))))"

definition pauseListing :: handler where
  "pauseListing = toggleListing statusPaused 1000"

definition delistListing :: handler where
  "delistListing = toggleListing statusDelisted 1000"

text \<open>The guards of the loop that collects the candidates.\<close>

definition is_candidate :: "(bytes \<Rightarrow> bytes) \<Rightarrow> SubmitRequestPayload \<Rightarrow> Listing \<Rightarrow> bool" where
  "is_candidate uni p l =
     (if l_Status l \<noteq> statusActive then False
      else if ToUpper uni (pm_Currency (l_Pricing l)) \<noteq> ToUpper uni (Currency (rq_Budget p)) then False
      else if \<not> capsContain (l_Capabilities l) (rq_RequiredCaps p) then False
      else if exceedsBudget (pm_BasePrice (l_Pricing l)) (Amount (rq_Budget p)) then False
      else True)"

definition candidates :: "(bytes \<Rightarrow> bytes) \<Rightarrow> Store \<Rightarrow> SubmitRequestPayload \<Rightarrow> Listing list" where
  "candidates uni st p = filter (is_candidate uni p) (decoded un_listing (IteratePrefix st PrefixAMXListing))"

text \<open>The comparison of \<open>sort.Slice\<close>: a higher score first, then the smaller identifier.\<close>

definition better :: "Listing \<times> rat \<Rightarrow> Listing \<times> rat \<Rightarrow> bool" where
  "better a b = (if snd a = snd b then l_ListingID (fst a) < l_ListingID (fst b) else snd b < snd a)"

definition best_listing :: "Listing list \<Rightarrow> Listing" where
  "best_listing cand = (case minMaxPrice cand of (minPrice, maxPrice) \<Rightarrow>
     fst (hd (sort_slice better (map (\<lambda>l. (l, scoreListing l minPrice maxPrice)) cand))))"

definition zeroOrder :: Order where
  "zeroOrder = \<lparr>o_OrderID = [], o_ListingID = [], o_Consumer = [], o_Provider = [], o_AgreedPrice = zeroMoney,
     o_CommissionBPS = 0, o_CommissionAmount = zeroMoney, o_EscrowID = [], o_TaskID = [], o_Status = [],
     o_CreatedAt = 0, o_UpdatedAt = 0\<rparr>"

definition submitRequest :: "(bytes \<Rightarrow> bytes) \<Rightarrow> handler" where
  "submitRequest uni ctx env = (case DecodeJSONPayload SubmitRequestPayload_fields zeroSubmitRequest env of
     None \<Rightarrow> (ctx, Err (amx_error 1 ''decode submit_request: %v''))
   | Some p \<Rightarrow>
     if 0 < rq_Deadline p \<and> rq_Deadline p < now ctx then (ctx, Err (amx_error 12 ''match timeout''))
     else let cand = candidates uni (ctxStore ctx) p in
       if cand = [] then
         let i = shortHash [Sender env, utoa 10 (unat (Nonce env)), ''failed''];
             ord = zeroOrder\<lparr>o_OrderID := i, o_Status := orderFailed, o_Consumer := Sender env,
               o_CreatedAt := now ctx, o_UpdatedAt := now ctx\<rparr>
         in (upd_store ctx (saveOrder (ctxStore ctx) ord),
             Ret (SuccessResult 8000 [mkEvent ''OrderFailed'' [(''order_id'', i)]]))
       else
         let best = best_listing cand;
             agreed = \<lparr>Currency = pm_Currency (l_Pricing best), Amount = pm_BasePrice (l_Pricing best)\<rparr>
         in (case ApplyBPS agreed 1200 8 of Inl e \<Rightarrow> (ctx, Err (amx_error 11 ''commission calc failed: %v''))
             | Inr commission \<Rightarrow>
               let i = shortHash [Sender env, utoa 10 (unat (Nonce env)), l_ListingID best];
                   ord = zeroOrder\<lparr>o_OrderID := i, o_ListingID := l_ListingID best, o_Consumer := Sender env,
                     o_Provider := l_Provider best, o_AgreedPrice := agreed, o_CommissionBPS := 1200,
                     o_CommissionAmount := commission, o_EscrowID := shortHash [i, ''escrow''],
                     o_Status := orderMatched, o_CreatedAt := now ctx, o_UpdatedAt := now ctx\<rparr>
               in (upd_store ctx (saveOrder (ctxStore ctx) ord),
                   Ret (SuccessResult 8000 [mkEvent ''OrderMatched'' [(''order_id'', i), (''listing_id'', l_ListingID best)]]))))"

definition transitionOrder :: "(bytes \<times> bytes) list \<Rightarrow> uint64 \<Rightarrow> handler" where
  "transitionOrder transitions gas ctx env = (case DecodeJSONPayload transitionPayload_fields [] env of
     None \<Rightarrow> (ctx, Err (amx_error 1 ''decode order transition: %v''))
   | Some i \<Rightarrow>
     (case loadOrder (ctxStore ctx) i of Inl e \<Rightarrow> (ctx, Err e)
      | Inr ord \<Rightarrow>
        if \<not> equalBytes (o_Consumer ord) (Sender env) \<and> \<not> equalBytes (o_Provider ord) (Sender env)
        then (ctx, Err (amx_error 13 ''sender has no permission''))
        else (case map_of transitions (o_Status ord) of
                None \<Rightarrow> (ctx, Err (amx_error 13 ''invalid order state transition: %s''))
              | Some next \<Rightarrow>
                (upd_store ctx (saveOrder (ctxStore ctx) (ord\<lparr>o_Status := next, o_UpdatedAt := now ctx\<rparr>)),
                 Ret (SuccessResult gas [])))))"

definition confirmMatch :: handler where
  "confirmMatch = transitionOrder [(orderMatched, orderEscrowed), (orderEscrowed, orderActive)] 2000"

definition rejectMatch :: handler where
  "rejectMatch = transitionOrder [(orderMatched, orderRejected)] 1500"

definition cancelOrder :: handler where
  "cancelOrder = transitionOrder [(orderMatched, orderCanceled), (orderEscrowed, orderCanceled),
     (orderActive, orderCanceled)] 2000"

definition amx_handlers :: "(bytes \<Rightarrow> bytes) \<Rightarrow> (bytes \<times> handler) list" where
  "amx_handlers uni = [(''create_listing'', createListing), (''update_listing'', updateListing),
     (''pause_listing'', pauseListing), (''delist_listing'', delistListing), (''submit_request'', submitRequest uni),
     (''confirm_match'', confirmMatch), (''reject_match'', rejectMatch), (''cancel_order'', cancelOrder)]"

definition amx_New :: "(bytes \<Rightarrow> bytes) \<Rightarrow> Module" where
  "amx_New uni = mkModule ''amx'' (amx_handlers uni) common_EndBlock"

lemmas amx_exec = amx_New_def mkModule_sel amx_handlers_def dispatch

section \<open>Contract\<close>

interpretation listings: table loadListing saveListing l_ListingID ListingKey PrefixAMXListing
  by (rule tableI, rule loadListing_def, rule saveListing_def) (simp_all add: ListingKey_def inj_def)

interpretation orders: table loadOrder saveOrder o_OrderID OrderKey PrefixAMXOrder
  by (rule tableI, rule loadOrder_def, rule saveOrder_def) (simp_all add: OrderKey_def inj_def)

definition amx_prefixes :: "bytes list" where
  "amx_prefixes = [PrefixAMXListing, PrefixAMXOrder, PrefixAMXIndex]"

lemma saveListing_confined: "confined amx_prefixes c (upd_store c (saveListing (ctxStore c) l))"
  by (rule listings.save_confined) (simp add: amx_prefixes_def)

lemma saveOrder_confined: "confined amx_prefixes c (upd_store c (saveOrder (ctxStore c) ord))"
  by (rule orders.save_confined) (simp add: amx_prefixes_def)

lemma set_index_snoc:
  "set_index i (cs @ [c]) st = Set (set_index i cs st) (PrefixAMXIndex @ cr_CapType c @ ''/'' @ i) (VBytes [CHR 0x01])"
  by (simp add: set_index_def)

lemma set_index_confined: "confined [PrefixAMXIndex] c (upd_store c (set_index i cs (ctxStore c)))"
proof (induction cs rule: rev_induct)
  case (snoc x cs)
  have "confined [PrefixAMXIndex] (upd_store c (set_index i cs (ctxStore c)))
      (upd_store c (set_index i (cs @ [x]) (ctxStore c)))"
    using confined_Set [of PrefixAMXIndex "[PrefixAMXIndex]" _ _ "upd_store c (set_index i cs (ctxStore c))"]
    by (simp add: set_index_snoc)
  with snoc show ?case by (rule confined_trans)
qed (simp add: set_index_def)

lemma set_index_get: "\<not> prefix PrefixAMXIndex k \<Longrightarrow> Get (set_index i cs st) k = Get st k"
  by (induction cs rule: rev_induct) (auto simp: set_index_snoc Get_Set, simp add: set_index_def)

lemma set_index_inv: "store_inv st \<Longrightarrow> store_inv (set_index i cs st)"
  by (induction cs rule: rev_induct) (auto simp: set_index_snoc, simp add: set_index_def)

lemma load_set_index [simp]:
  "loadListing (set_index i cs st) j = loadListing st j" "loadOrder (set_index i cs st) j = loadOrder st j"
  by (rule listings.load_frame orders.load_frame; simp add: set_index_get ListingKey_def OrderKey_def)+

lemma create_confined: "confined amx_prefixes c (upd_store c (set_index i cs (saveListing (ctxStore c) l)))"
proof -
  have "confined amx_prefixes (upd_store c (saveListing (ctxStore c) l)) (upd_store c (set_index i cs (saveListing (ctxStore c) l)))"
    using confined_mono [OF set_index_confined [of "upd_store c (saveListing (ctxStore c) l)"], of amx_prefixes]
    by (simp add: amx_prefixes_def)
  with saveListing_confined show ?thesis by (rule confined_trans)
qed

lemma toggleListing_confined: "confined amx_prefixes c (fst (toggleListing s g c env))"
  by (simp add: toggleListing_def saveListing_confined split: option.split sum.split)

lemma transitionOrder_confined: "confined amx_prefixes c (fst (transitionOrder ts g c env))"
  by (simp add: transitionOrder_def saveOrder_confined split: option.split sum.split)

lemma submitRequest_confined: "confined amx_prefixes c (fst (submitRequest uni c env))"
  by (simp add: submitRequest_def Let_def saveOrder_confined split: option.split sum.split)

lemma amx_handlers_confined: "handlers_confined amx_prefixes (amx_handlers uni)"
  unfolding amx_handlers_def handlers_confined_simps
  by (intro conjI allI; simp add: createListing_def updateListing_def pauseListing_def delistListing_def confirmMatch_def
      rejectMatch_def cancelOrder_def Let_def saveListing_confined create_confined toggleListing_confined
      transitionOrder_confined submitRequest_confined split: option.split sum.split)

interpretation amx_mod: module_contract "amx_New uni" amx_prefixes for uni
  unfolding amx_New_def by (rule mkModule_contract [OF amx_handlers_confined common_EndBlock_confined])

lemma load_save_cross [simp]:
  "loadOrder (saveListing st l) i = loadOrder st i" "loadListing (saveOrder st ord) i = loadListing st i"
  by (rule orders.load_frame listings.load_frame;
      simp add: listings.load_save_elsewhere orders.load_save_elsewhere ListingKey_def OrderKey_def)+

section \<open>The score and the best listing\<close>

lemma is_candidate_iff:
  "is_candidate uni p l \<longleftrightarrow> l_Status l = statusActive
    \<and> ToUpper uni (pm_Currency (l_Pricing l)) = ToUpper uni (Currency (rq_Budget p))
    \<and> set (rq_RequiredCaps p) \<subseteq> cr_CapType ` set (l_Capabilities l)
    \<and> (\<exists>x y. amount_is (pm_BasePrice (l_Pricing l)) x \<and> amount_is (Amount (rq_Budget p)) y \<and> x \<le> y)"
  by (auto simp: is_candidate_def capsContain_def exceedsBudget_def amount_is_def list_all_iff split: sum.splits if_splits)

lemma candidate_price: "is_candidate uni p l \<Longrightarrow> amount_is (pm_BasePrice (l_Pricing l)) (listing_price l)"
  by (auto simp: is_candidate_iff listing_price_def amount_is_def)

lemmas listing_mem = decoded_mem [OF _ loadListing_def ListingKey_def]

lemma candidates_mem:
  "store_inv st \<Longrightarrow> l \<in> set (candidates uni st p) \<longleftrightarrow> (\<exists>i. loadListing st i = Inr l) \<and> is_candidate uni p l"
  by (auto simp: candidates_def listing_mem)

lemma minMax_loop_bounds:
  "(i = 0 \<or> lo \<le> hi) \<Longrightarrow> minMax_loop i ls lo hi = (lo', hi') \<Longrightarrow>
   (\<forall>l\<in>set ls. lo' \<le> listing_price l \<and> listing_price l \<le> hi') \<and> (0 < i \<longrightarrow> lo' \<le> lo \<and> hi \<le> hi')"
  by (induction i ls lo hi rule: minMax_loop.induct) (fastforce simp: Let_def split: if_splits)+

lemma minMaxPrice_bounds:
  assumes "minMaxPrice ls = (lo, hi)" "l \<in> set ls"
  shows "lo \<le> listing_price l" "listing_price l \<le> hi"
  using minMax_loop_bounds [of 0 0 0 ls lo hi] assms by (auto simp: minMaxPrice_def)

text \<open>On the prices of the candidates the two clamps of the price score have no effect.\<close>

lemma scoreListing_eq:
  assumes "lo \<le> listing_price l" "listing_price l \<le> hi"
  shows "scoreListing l lo hi = 37 / 100 + 3 / 10 * (1 - (listing_price l - lo) / (hi - lo + 1 / 1000000))
    + 2 / 10 * (of_nat (length (l_Capabilities l)) / of_nat (length (l_Capabilities l) + 1))"
proof -
  have pos: "0 < hi - lo + 1 / 1000000" using assms by linarith
  have "0 \<le> (listing_price l - lo) / (hi - lo + 1 / 1000000)" using assms pos by simp
  moreover have "(listing_price l - lo) / (hi - lo + 1 / 1000000) \<le> 1" using assms pos by (simp add: divide_le_eq)
  ultimately show ?thesis by (simp add: scoreListing_def Let_def)
qed

lemma cap_fraction_mono: "m \<le> n \<Longrightarrow> of_nat m / of_nat (m + 1) \<le> (of_nat n / of_nat (n + 1) :: rat)"
  by (simp add: frac_le_eq divide_le_eq field_simps)

lemma weigh:
  fixes q c :: rat
  assumes "0 \<le> q" "q < 1" "0 \<le> c" "c < 1"
  shows "37 / 100 < 37 / 100 + 3 / 10 * (1 - q) + 2 / 10 * c" "37 / 100 + 3 / 10 * (1 - q) + 2 / 10 * c < 87 / 100"
  using assms by (simp_all add: field_simps)

lemma weigh_mono:
  fixes q c q' c' :: rat
  assumes "q < q'" "c' \<le> c"
  shows "37 / 100 + 3 / 10 * (1 - q') + 2 / 10 * c' < 37 / 100 + 3 / 10 * (1 - q) + 2 / 10 * c"
  using assms by (simp add: field_simps)

lemma score_bounds:
  assumes "lo \<le> listing_price l" "listing_price l \<le> hi"
  shows "37 / 100 < scoreListing l lo hi" "scoreListing l lo hi < 87 / 100"
proof -
  let ?c = "of_nat (length (l_Capabilities l)) / of_nat (length (l_Capabilities l) + 1) :: rat"
  let ?q = "(listing_price l - lo) / (hi - lo + 1 / 1000000)"
  have pos: "0 < hi - lo + 1 / 1000000" using assms by linarith
  have "0 \<le> ?q" using assms pos by simp
  moreover have "?q < 1" using assms pos by (simp add: divide_less_eq)
  moreover have "0 \<le> ?c" "?c < 1" by (simp_all add: divide_less_eq)
  ultimately show "37 / 100 < scoreListing l lo hi" "scoreListing l lo hi < 87 / 100"
    unfolding scoreListing_eq [OF assms] by (rule weigh)+
qed

lemma score_mono:
  assumes "lo \<le> listing_price a" "listing_price a < listing_price b" "listing_price b \<le> hi"
    and "length (l_Capabilities b) \<le> length (l_Capabilities a)"
  shows "scoreListing b lo hi < scoreListing a lo hi"
proof -
  have pos: "0 < hi - lo + 1 / 1000000" using assms by linarith
  then have "(listing_price a - lo) / (hi - lo + 1 / 1000000) < (listing_price b - lo) / (hi - lo + 1 / 1000000)"
    using assms by (simp add: divide_strict_right_mono)
  moreover note cap_fraction_mono [OF assms(4)]
  moreover have "lo \<le> listing_price b" "listing_price a \<le> hi" using assms by simp_all
  ultimately show ?thesis using assms(1,3) by (simp only: scoreListing_eq weigh_mono)
qed

lemma better_asym: "better a b \<Longrightarrow> \<not> better b a"
  by (auto simp: better_def split: if_splits)

lemma better_negtrans: "\<not> better b a \<Longrightarrow> \<not> better c b \<Longrightarrow> \<not> better c a"
  by (auto simp: better_def split: if_splits)

text \<open>The best listing is one of the candidates, and none of them comes before it.\<close>

lemma best_listing_spec:
  assumes "cand \<noteq> []" "minMaxPrice cand = (lo, hi)"
  shows "best_listing cand \<in> set cand"
    and "l \<in> set cand \<Longrightarrow> \<not> better (l, scoreListing l lo hi) (best_listing cand, scoreListing (best_listing cand) lo hi)"
proof -
  let ?sc = "\<lambda>l. (l, scoreListing l lo hi)"
  let ?s = "sort_slice better (map ?sc cand)"
  have "hd ?s \<in> set ?s" using assms(1) by (intro hd_in_set) simp
  then obtain b where b: "hd ?s = ?sc b" "b \<in> set cand" by auto
  then have best: "best_listing cand = b" by (simp add: best_listing_def assms(2))
  show "best_listing cand \<in> set cand" using b best by simp
  assume "l \<in> set cand"
  then have "?sc l \<in> set (map ?sc cand)" by simp
  from hd_sort_slice [of better, OF better_asym better_negtrans this]
  show "\<not> better (?sc l) (?sc (best_listing cand))" by (simp add: b best)
qed

section \<open>Invariant\<close>

text \<open>An order whose price was agreed: its commission is 12 percent of the price, rounded to eight decimals.\<close>

definition order_ok :: "Order \<Rightarrow> bool" where
  "order_ok ord \<longleftrightarrow> (if o_Status ord = orderFailed then o_Provider ord = []
     else o_CommissionBPS ord = 1200 \<and> Currency (o_CommissionAmount ord) = Currency (o_AgreedPrice ord)
       \<and> (\<exists>x. amount_is (Amount (o_AgreedPrice ord)) x
            \<and> amount_is (Amount (o_CommissionAmount ord)) (round_scaled (x * (12 / 100)) 8)))"

definition amx_ok :: "Store \<Rightarrow> bool" where
  "amx_ok st \<longleftrightarrow> store_inv st \<and> own_ids loadListing l_ListingID st \<and> own_ids loadOrder o_OrderID st
     \<and> (\<forall>i l. loadListing st i = Inr l \<longrightarrow> l_Capabilities l \<noteq> [])
     \<and> (\<forall>i ord. loadOrder st i = Inr ord \<longrightarrow> order_ok ord)"

lemma order_okD:
  "order_ok ord \<Longrightarrow> o_Status ord \<noteq> orderFailed \<Longrightarrow> Currency (o_CommissionAmount ord) = Currency (o_AgreedPrice ord)
    \<and> (\<exists>x. amount_is (Amount (o_AgreedPrice ord)) x \<and> amount_is (Amount (o_CommissionAmount ord)) (round_scaled (x * (12 / 100)) 8))"
  by (simp add: order_ok_def)

lemma own_ids_cong: "(\<And>i. ld st' i = ld st i) \<Longrightarrow> own_ids ld ident st' = own_ids ld ident st"
  by (simp add: own_ids_def)

lemma own_ids_cross [simp]:
  "own_ids loadOrder o_OrderID (saveListing st l) = own_ids loadOrder o_OrderID st"
  "own_ids loadListing l_ListingID (saveOrder st ord) = own_ids loadListing l_ListingID st"
  "own_ids loadOrder o_OrderID (set_index i cs st) = own_ids loadOrder o_OrderID st"
  "own_ids loadListing l_ListingID (set_index i cs st) = own_ids loadListing l_ListingID st"
  by (rule own_ids_cong; simp)+

lemma amx_ok_saveListing: "amx_ok st \<Longrightarrow> l_Capabilities l \<noteq> [] \<Longrightarrow> amx_ok (saveListing st l)"
  by (auto simp: amx_ok_def listings.save_inv listings.own_ids_save listings.load_save)

lemma amx_ok_saveOrder: "amx_ok st \<Longrightarrow> order_ok ord \<Longrightarrow> amx_ok (saveOrder st ord)"
  by (auto simp: amx_ok_def orders.save_inv orders.own_ids_save orders.load_save)

lemma amx_ok_set_index: "amx_ok st \<Longrightarrow> amx_ok (set_index i cs st)"
  by (simp add: amx_ok_def set_index_inv)

lemma commission_12:
  "ApplyBPS m 1200 8 = Inr c \<longleftrightarrow> (\<exists>x. amount_is (Amount m) x \<and> c = \<lparr>Currency = Currency m, Amount = FloatString (x * (12 / 100)) 8\<rparr>)"
  by (simp add: ApplyBPS_Inr)

lemma submitRequest_ok:
  assumes "amx_ok (ctxStore c)"
  shows "amx_ok (ctxStore (fst (submitRequest uni c env)))"
proof -
  have "order_ok ord" if "o_Status ord = orderFailed" "o_Provider ord = []" for ord
    using that by (simp add: order_ok_def)
  moreover have "order_ok ord" if bps: "ApplyBPS (o_AgreedPrice ord) 1200 8 = Inr (o_CommissionAmount ord)"
      "o_CommissionBPS ord = 1200" "o_Status ord = orderMatched" for ord
  proof -
    obtain x where "amount_is (Amount (o_AgreedPrice ord)) x" "o_CommissionAmount ord =
        \<lparr>Currency = Currency (o_AgreedPrice ord), Amount = FloatString (x * (12 / 100)) 8\<rparr>"
      using bps unfolding commission_12 by (elim exE conjE)
    then show ?thesis using that(2,3) by (auto simp: order_ok_def amount_is_FloatString intro!: exI [of _ x])
  qed
  ultimately show ?thesis using assms
    by (auto simp: submitRequest_def Let_def zeroOrder_def intro!: amx_ok_saveOrder split: option.split sum.split)
qed

lemma transitionOrder_ok:
  assumes "amx_ok (ctxStore c)" "orderFailed \<notin> fst ` set ts" "orderFailed \<notin> snd ` set ts"
  shows "amx_ok (ctxStore (fst (transitionOrder ts g c env)))"
proof -
  have "order_ok (ord\<lparr>o_Status := s, o_UpdatedAt := t\<rparr>)"
    if "loadOrder (ctxStore c) i = Inr ord" "map_of ts (o_Status ord) = Some s" for i ord s t
  proof -
    have "(o_Status ord, s) \<in> set ts" using that(2) by (rule map_of_SomeD)
    then have "o_Status ord \<noteq> orderFailed" "s \<noteq> orderFailed" using assms(2,3) by force+
    moreover have "order_ok ord" using assms(1) that(1) by (simp add: amx_ok_def)
    ultimately show ?thesis by (simp add: order_ok_def)
  qed
  then show ?thesis using assms(1)
    by (auto simp: transitionOrder_def intro!: amx_ok_saveOrder split: option.split sum.split)
qed

lemma amx_ok_exec:
  assumes "amx_ok (ctxStore c)"
  shows "amx_ok (ctxStore (fst (mExecuteTx (amx_New uni) c env)))"
proof -
  have caps: "l_Capabilities l \<noteq> []" if "loadListing (ctxStore c) i = Inr l" for i l
    using assms that by (auto simp: amx_ok_def)
  have "amx_ok (ctxStore (fst (createListing c env)))" using assms
    by (auto simp: createListing_def Let_def intro!: amx_ok_set_index amx_ok_saveListing split: option.split)
  moreover have "amx_ok (ctxStore (fst (updateListing c env)))" using assms caps
    by (auto simp: updateListing_def Let_def intro!: amx_ok_saveListing split: option.split sum.split)
  moreover have "amx_ok (ctxStore (fst (toggleListing s g c env)))" for s g using assms caps
    by (auto simp: toggleListing_def intro!: amx_ok_saveListing split: option.split sum.split)
  ultimately show ?thesis
    using assms by (simp add: amx_exec pauseListing_def delistListing_def submitRequest_ok confirmMatch_def rejectMatch_def
        cancelOrder_def transitionOrder_ok)
qed

lemma amx_ok_local:
  assumes "amx_ok st" "store_inv st \<Longrightarrow> store_inv st'"
    and "\<And>p k. p \<in> set amx_prefixes \<Longrightarrow> prefix p k \<Longrightarrow> Get st' k = Get st k"
  shows "amx_ok st'"
proof -
  have "loadListing st' i = loadListing st i" "loadOrder st' i = loadOrder st i" for i
    by (rule listings.load_frame orders.load_frame;
        use assms(3) listings.key_pre orders.key_pre in \<open>auto simp: amx_prefixes_def\<close>)+
  with assms(1,2) show ?thesis by (simp add: amx_ok_def own_ids_def)
qed

lemma amx_ok_fresh: "amx_ok (ctxStore (fresh_ctx t))"
  by (simp add: amx_ok_def own_ids_fresh loadListing_def loadOrder_def load_rec_def)

interpretation amx_inv: module_invariant "amx_New uni" amx_prefixes amx_ok for uni
proof (unfold_locales, goal_cases)
  case (4 st st')
  then show ?case by (rule amx_ok_local)
qed (simp_all add: amx_ok_exec amx_ok_fresh, simp add: amx_New_def common_EndBlock_def)

section \<open>Matching\<close>

text \<open>What a request gives, by whether there is a candidate.\<close>

lemma submitRequest_matched:
  assumes "store_inv (ctxStore ctx)"
    and "DecodeJSONPayload SubmitRequestPayload_fields zeroSubmitRequest env = Some p" "\<not> (0 < rq_Deadline p \<and> rq_Deadline p < now ctx)"
    and "candidates uni (ctxStore ctx) p \<noteq> []"
  defines "best \<equiv> best_listing (candidates uni (ctxStore ctx) p)"
  shows "\<exists>ord. submitRequest uni ctx env = (upd_store ctx (saveOrder (ctxStore ctx) ord),
      Ret (SuccessResult 8000 [mkEvent ''OrderMatched'' [(''order_id'', o_OrderID ord), (''listing_id'', l_ListingID best)]]))
    \<and> o_ListingID ord = l_ListingID best \<and> o_Provider ord = l_Provider best \<and> o_Consumer ord = Sender env
    \<and> o_Status ord = orderMatched \<and> o_AgreedPrice ord = \<lparr>Currency = pm_Currency (l_Pricing best), Amount = pm_BasePrice (l_Pricing best)\<rparr>
    \<and> Amount (o_CommissionAmount ord) = FloatString (listing_price best * (12 / 100)) 8"
proof -
  obtain lo hi where mm: "minMaxPrice (candidates uni (ctxStore ctx) p) = (lo, hi)" by fastforce
  have "best \<in> set (candidates uni (ctxStore ctx) p)" unfolding best_def by (rule best_listing_spec(1) [OF assms(4) mm])
  then have price: "amount_is (pm_BasePrice (l_Pricing best)) (listing_price best)"
    using candidates_mem [OF assms(1)] candidate_price by blast
  let ?i = "shortHash [Sender env, utoa 10 (unat (Nonce env)), l_ListingID best]"
    and ?m = "\<lparr>Currency = pm_Currency (l_Pricing best), Amount = pm_BasePrice (l_Pricing best)\<rparr>"
    and ?c = "\<lparr>Currency = pm_Currency (l_Pricing best), Amount = FloatString (listing_price best * (12 / 100)) 8\<rparr>"
  from price have c: "ApplyBPS ?m 1200 8 = Inr ?c" unfolding commission_12 by auto
  show ?thesis
    by (rule exI [of _ "zeroOrder\<lparr>o_OrderID := ?i, o_ListingID := l_ListingID best, o_Consumer := Sender env,
          o_Provider := l_Provider best, o_AgreedPrice := ?m, o_CommissionBPS := 1200, o_CommissionAmount := ?c,
          o_EscrowID := shortHash [?i, ''escrow''], o_Status := orderMatched, o_CreatedAt := now ctx, o_UpdatedAt := now ctx\<rparr>"])
      (use assms(2-4) c in \<open>simp add: submitRequest_def Let_def best_def [symmetric]\<close>)
qed

text \<open>The listings that fit a request: stored, active, in the currency of the budget, with all the
  capabilities that are required and a price within the budget.\<close>

definition eligible :: "(bytes \<Rightarrow> bytes) \<Rightarrow> Store \<Rightarrow> SubmitRequestPayload \<Rightarrow> Listing set" where
  "eligible uni st p = {l. (\<exists>i. loadListing st i = Inr l) \<and> l_Status l = ''LISTING_ACTIVE''
     \<and> ToUpper uni (pm_Currency (l_Pricing l)) = ToUpper uni (Currency (rq_Budget p))
     \<and> set (rq_RequiredCaps p) \<subseteq> cr_CapType ` set (l_Capabilities l)
     \<and> (\<exists>x y. amount_is (pm_BasePrice (l_Pricing l)) x \<and> amount_is (Amount (rq_Budget p)) y \<and> x \<le> y)}"

lemma eligible_candidates: "store_inv st \<Longrightarrow> eligible uni st p = set (candidates uni st p)"
  by (simp add: eligible_def set_eq_iff candidates_mem is_candidate_iff)

lemma minMax_loop_attained:
  "minMax_loop i ls lo hi = (lo', hi') \<Longrightarrow> (lo' \<in> listing_price ` set ls \<or> 0 < i \<and> lo' = lo \<or> ls = [])
    \<and> (hi' \<in> listing_price ` set ls \<or> 0 < i \<and> hi' = hi \<or> ls = [])"
  by (induction i ls lo hi rule: minMax_loop.induct) (fastforce simp: Let_def split: if_splits)+

lemma minMaxPrice_eq:
  assumes "ls \<noteq> []"
  shows "minMaxPrice ls = (Min (listing_price ` set ls), Max (listing_price ` set ls))"
proof -
  obtain lo hi where mm: "minMaxPrice ls = (lo, hi)" by fastforce
  then have "lo \<in> listing_price ` set ls" "hi \<in> listing_price ` set ls"
    using minMax_loop_attained [of 0 ls 0 0 lo hi] assms by (auto simp: minMaxPrice_def)
  with minMaxPrice_bounds [OF mm] have "Min (listing_price ` set ls) = lo" "Max (listing_price ` set ls) = hi"
    by (auto intro!: Min_eqI Max_eqI)
  with mm show ?thesis by simp
qed

text \<open>The score of a listing among a set of listings.\<close>

definition score_in :: "Listing set \<Rightarrow> Listing \<Rightarrow> rat" where
  "score_in E l = scoreListing l (Min (listing_price ` E)) (Max (listing_price ` E))"

lemma best_listing_eligible:
  assumes "cand \<noteq> []" "l \<in> set cand"
  shows "score_in (set cand) l < score_in (set cand) (best_listing cand) \<or>
    score_in (set cand) l = score_in (set cand) (best_listing cand) \<and> l_ListingID (best_listing cand) \<le> l_ListingID l"
  using best_listing_spec(2) [OF assms(1) minMaxPrice_eq [OF assms(1)] assms(2)]
  by (auto simp: better_def score_in_def split: if_splits)

text \<open>C23: a request in time is matched with the best listing. Of the listings that fit the request one
  with the highest score is taken, and of those with equal score the one with the smallest
  identifier; the order names it, its provider and its price, with 12 percent commission rounded to
  eight decimals, and the request never fails for another reason. When no listing fits, a failed
  order is recorded.\<close>

theorem match_is_best:
  assumes "store_inv (ctxStore ctx)"
    and "DecodeJSONPayload SubmitRequestPayload_fields zeroSubmitRequest env = Some p"
    and "rq_Deadline p \<le> 0 \<or> now ctx \<le> rq_Deadline p"
  shows "\<exists>ord ev. submitRequest uni ctx env = (upd_store ctx (saveOrder (ctxStore ctx) ord), Ret (SuccessResult 8000 [ev]))
    \<and> o_Consumer ord = Sender env
    \<and> (if eligible uni (ctxStore ctx) p = {} then o_Status ord = orderFailed
       else o_Status ord = orderMatched \<and> (\<exists>best \<in> eligible uni (ctxStore ctx) p.
          o_ListingID ord = l_ListingID best \<and> o_Provider ord = l_Provider best
        \<and> Amount (o_AgreedPrice ord) = pm_BasePrice (l_Pricing best)
        \<and> Amount (o_CommissionAmount ord) = FloatString (listing_price best * (12 / 100)) 8
        \<and> (\<forall>l \<in> eligible uni (ctxStore ctx) p.
             score_in (eligible uni (ctxStore ctx) p) l < score_in (eligible uni (ctxStore ctx) p) best
           \<or> score_in (eligible uni (ctxStore ctx) p) l = score_in (eligible uni (ctxStore ctx) p) best
             \<and> l_ListingID best \<le> l_ListingID l)))"
proof (cases "candidates uni (ctxStore ctx) p = []")
  case True
  then show ?thesis using assms(2,3)
    by (auto simp: submitRequest_def Let_def eligible_candidates [OF assms(1)] zeroOrder_def)
next
  case False
  have dl: "\<not> (0 < rq_Deadline p \<and> rq_Deadline p < now ctx)" using assms(3) by auto
  let ?b = "best_listing (candidates uni (ctxStore ctx) p)"
  obtain ord where "submitRequest uni ctx env = (upd_store ctx (saveOrder (ctxStore ctx) ord),
      Ret (SuccessResult 8000 [mkEvent ''OrderMatched'' [(''order_id'', o_OrderID ord), (''listing_id'', l_ListingID ?b)]]))"
    "o_ListingID ord = l_ListingID ?b" "o_Provider ord = l_Provider ?b" "o_Consumer ord = Sender env" "o_Status ord = orderMatched"
    "Amount (o_AgreedPrice ord) = pm_BasePrice (l_Pricing ?b)"
    "Amount (o_CommissionAmount ord) = FloatString (listing_price ?b * (12 / 100)) 8"
    using submitRequest_matched [OF assms(1,2) dl False] by auto
  moreover have "?b \<in> set (candidates uni (ctxStore ctx) p)"
    by (rule best_listing_spec(1) [OF False minMaxPrice_eq [OF False]])
  ultimately show ?thesis
    using best_listing_eligible [OF False] False
    by (intro exI [of _ ord] exI) (auto simp: eligible_candidates [OF assms(1)])
qed

text \<open>The matched listing is never dominated: no listing that fits the request offers at least as many
  capabilities at a lower price.\<close>

theorem match_not_dominated:
  assumes "store_inv (ctxStore ctx)" "eligible uni (ctxStore ctx) p \<noteq> {}"
    and "best = best_listing (candidates uni (ctxStore ctx) p)"
  shows "best \<in> eligible uni (ctxStore ctx) p \<and> (\<forall>l \<in> eligible uni (ctxStore ctx) p.
    length (l_Capabilities best) \<le> length (l_Capabilities l) \<longrightarrow> listing_price best \<le> listing_price l)"
proof -
  let ?c = "candidates uni (ctxStore ctx) p"
  have ne: "?c \<noteq> []" using assms(2) by (simp add: eligible_candidates [OF assms(1)])
  note mm = minMaxPrice_eq [OF ne]
  have b: "best \<in> set ?c" unfolding assms(3) by (rule best_listing_spec(1) [OF ne mm])
  have "listing_price best \<le> listing_price l"
    if l: "l \<in> set ?c" and caps: "length (l_Capabilities best) \<le> length (l_Capabilities l)" for l
  proof (rule ccontr)
    assume "\<not> listing_price best \<le> listing_price l"
    then have "score_in (set ?c) best < score_in (set ?c) l"
      unfolding score_in_def using minMaxPrice_bounds [OF mm] l b caps by (intro score_mono) auto
    with best_listing_eligible [OF ne l] assms(3) show False by auto
  qed
  with b show ?thesis by (simp add: eligible_candidates [OF assms(1)])
qed

text \<open>The score of a listing that fits a request lies strictly between 0.37 and 0.87; the clamps in the
  code never change it.\<close>

theorem score_range:
  assumes "store_inv st" "l \<in> eligible uni st p"
  shows "37 / 100 < score_in (eligible uni st p) l \<and> score_in (eligible uni st p) l < 87 / 100"
proof -
  have l: "l \<in> set (candidates uni st p)" using assms by (simp add: eligible_candidates)
  then have ne: "candidates uni st p \<noteq> []" by auto
  show ?thesis
    unfolding score_in_def eligible_candidates [OF assms(1)]
    using score_bounds [OF minMaxPrice_bounds [OF minMaxPrice_eq [OF ne] l]] by simp
qed

section \<open>Orders and listings change only as their parties want\<close>

inductive order_move :: "bytes \<Rightarrow> bytes \<Rightarrow> bytes \<Rightarrow> bool" where
  "order_move ''confirm_match'' ''ORDER_MATCHED'' ''ORDER_ESCROWED''"
| "order_move ''confirm_match'' ''ORDER_ESCROWED'' ''ORDER_ACTIVE''"
| "order_move ''reject_match'' ''ORDER_MATCHED'' ''ORDER_REJECTED''"
| "order_move ''cancel_order'' ''ORDER_MATCHED'' ''ORDER_CANCELED''"
| "order_move ''cancel_order'' ''ORDER_ESCROWED'' ''ORDER_CANCELED''"
| "order_move ''cancel_order'' ''ORDER_ACTIVE'' ''ORDER_CANCELED''"

inductive_simps order_move_final: "order_move a ''ORDER_CANCELED'' t" "order_move a ''ORDER_REJECTED'' t" "order_move a ''ORDER_FAILED'' t"

lemma order_move_live: "order_move a s t \<Longrightarrow> s \<notin> {''ORDER_CANCELED'', ''ORDER_REJECTED'', ''ORDER_FAILED''}"
  by (auto simp: order_move_final)

lemma transitionOrder_load:
  assumes "own_ids loadOrder o_OrderID (ctxStore ctx)" "loadOrder (ctxStore ctx) i = Inr ord"
  shows "loadOrder (ctxStore (fst (transitionOrder ts g ctx env))) i = Inr ord \<or>
    (\<exists>s t. map_of ts (o_Status ord) = Some s \<and> Sender env \<in> {o_Consumer ord, o_Provider ord}
     \<and> loadOrder (ctxStore (fst (transitionOrder ts g ctx env))) i = Inr (ord\<lparr>o_Status := s, o_UpdatedAt := t\<rparr>))"
proof -
  have "loadOrder (saveOrder (ctxStore ctx) (o2\<lparr>o_Status := s, o_UpdatedAt := t\<rparr>)) i =
      (if i = j then Inr (o2\<lparr>o_Status := s, o_UpdatedAt := t\<rparr>) else Inr ord)"
    if "loadOrder (ctxStore ctx) j = Inr o2" for j o2 s t
    using orders.load_update [OF assms(1) that, of "o2\<lparr>o_Status := s, o_UpdatedAt := t\<rparr>" i] assms(2) by auto
  then show ?thesis using assms(2)
    by (auto simp: transitionOrder_def split: option.split sum.split)
qed

lemma loadOrder_listing_handlers:
  "loadOrder (ctxStore (fst (createListing ctx env))) i = loadOrder (ctxStore ctx) i"
  "loadOrder (ctxStore (fst (updateListing ctx env))) i = loadOrder (ctxStore ctx) i"
  "loadOrder (ctxStore (fst (toggleListing s g ctx env))) i = loadOrder (ctxStore ctx) i"
  by (simp_all add: createListing_def updateListing_def toggleListing_def Let_def split: option.split sum.split)

text \<open>\<open>order_kept act sender ord x\<close>: the lookup \<open>x\<close> finds the order as it was or after a move by a party.\<close>

definition order_kept :: "bytes \<Rightarrow> bytes \<Rightarrow> Order \<Rightarrow> goerr + Order \<Rightarrow> bool" where
  "order_kept act sender ord x \<longleftrightarrow> x = Inr ord \<or> (\<exists>s t. x = Inr (ord\<lparr>o_Status := s, o_UpdatedAt := t\<rparr>)
     \<and> order_move act (o_Status ord) s \<and> (sender = o_Consumer ord \<or> sender = o_Provider ord)
     \<and> o_Status ord \<notin> {''ORDER_CANCELED'', ''ORDER_REJECTED'', ''ORDER_FAILED''})"

lemma transition_kept:
  assumes "own_ids loadOrder o_OrderID (ctxStore ctx)" "loadOrder (ctxStore ctx) i = Inr ord"
    and "\<And>a b. (a, b) \<in> set ts \<Longrightarrow> order_move act a b"
  shows "order_kept act (Sender env) ord (loadOrder (ctxStore (fst (transitionOrder ts g ctx env))) i)"
  using transitionOrder_load [OF assms(1,2), of ts g env]
proof (elim disjE exE conjE)
  fix s t
  assume "map_of ts (o_Status ord) = Some s" and snd: "Sender env \<in> {o_Consumer ord, o_Provider ord}"
    and l: "loadOrder (ctxStore (fst (transitionOrder ts g ctx env))) i = Inr (ord\<lparr>o_Status := s, o_UpdatedAt := t\<rparr>)"
  then have m: "order_move act (o_Status ord) s" by (auto intro: assms(3) dest: map_of_SomeD)
  show ?thesis unfolding order_kept_def l
    using m order_move_live [OF m] snd by (intro disjI2 exI [of _ s] exI [of _ t]) auto
qed (simp add: order_kept_def)

lemma order_kept_same: "order_kept act sender ord (Inr ord)"
  by (simp add: order_kept_def)

lemma order_kept_exec:
  assumes "own_ids loadOrder o_OrderID (ctxStore ctx)" "Action env \<noteq> ''submit_request''" "loadOrder (ctxStore ctx) i = Inr ord"
  shows "order_kept (Action env) (Sender env) ord (loadOrder (ctxStore (fst (mExecuteTx (amx_New uni) ctx env))) i)"
  using assms(2,3)
  by (simp add: amx_exec pauseListing_def delistListing_def confirmMatch_def rejectMatch_def cancelOrder_def
      loadOrder_listing_handlers order_kept_same)
    (auto intro!: transition_kept [OF assms(1,3)] intro: order_move.intros)

text \<open>C20: a transaction other than a new request leaves an order as it is, or moves its status by one step of
  \<open>order_move\<close>, and then it was sent by the consumer or the provider of the order. Price,
  commission and parties never change; a cancelled, rejected or failed order stays as it is.\<close>

theorem order_transitions:
  assumes "own_ids loadOrder o_OrderID (ctxStore ctx)" "Action env \<noteq> ''submit_request''"
    and "loadOrder (ctxStore ctx) i = Inr ord"
  shows "loadOrder (ctxStore (fst (mExecuteTx (amx_New uni) ctx env))) i = Inr ord
    \<or> (\<exists>s t. loadOrder (ctxStore (fst (mExecuteTx (amx_New uni) ctx env))) i = Inr (ord\<lparr>o_Status := s, o_UpdatedAt := t\<rparr>)
        \<and> order_move (Action env) (o_Status ord) s \<and> (Sender env = o_Consumer ord \<or> Sender env = o_Provider ord)
        \<and> o_Status ord \<notin> {''ORDER_CANCELED'', ''ORDER_REJECTED'', ''ORDER_FAILED''})"
  using order_kept_exec [OF assms] unfolding order_kept_def .

definition listing_kept :: "bytes \<Rightarrow> Listing \<Rightarrow> goerr + Listing \<Rightarrow> bool" where
  "listing_kept sender l x \<longleftrightarrow> (\<exists>l'. x = Inr l' \<and> (l' = l \<or> sender = l_Provider l) \<and> l_ListingID l' = l_ListingID l
     \<and> l_Provider l' = l_Provider l \<and> l_Capabilities l' = l_Capabilities l \<and> l_SLA l' = l_SLA l \<and> l_Tags l' = l_Tags l
     \<and> l_CreatedAt l' = l_CreatedAt l)"

lemma listing_kept_same: "listing_kept sender l (Inr l)"
  by (simp add: listing_kept_def)

lemma listing_kept_save:
  assumes "own_ids loadListing l_ListingID st" "loadListing st i = Inr l" "loadListing st j = Inr l2" "l_Provider l2 = sender"
    and "l_ListingID l' = l_ListingID l2" "l_Provider l' = l_Provider l2" "l_Capabilities l' = l_Capabilities l2"
    "l_SLA l' = l_SLA l2" "l_Tags l' = l_Tags l2" "l_CreatedAt l' = l_CreatedAt l2"
  shows "listing_kept sender l (loadListing (saveListing st l') i)"
  using listings.load_update [OF assms(1,3,5), of i] assms by (auto simp: listing_kept_same listing_kept_def)

lemma listing_kept_handlers:
  assumes "own_ids loadListing l_ListingID (ctxStore ctx)" "loadListing (ctxStore ctx) i = Inr l"
  shows "listing_kept (Sender env) l (loadListing (ctxStore (fst (updateListing ctx env))) i)"
    and "listing_kept (Sender env) l (loadListing (ctxStore (fst (toggleListing s g ctx env))) i)"
  using assms(2) listing_kept_save [OF assms]
  by (auto simp: updateListing_def toggleListing_def Let_def listing_kept_same split: option.split sum.split)

lemma loadListing_order_handlers:
  "loadListing (ctxStore (fst (transitionOrder ts g ctx env))) i = loadListing (ctxStore ctx) i"
  "loadListing (ctxStore (fst (submitRequest uni ctx env))) i = loadListing (ctxStore ctx) i"
  by (simp_all add: transitionOrder_def submitRequest_def Let_def split: option.split sum.split)

text \<open>Only its provider changes a listing, and never its identifier, provider, capabilities, service terms,
  tags or creation time.\<close>

theorem listing_ownership:
  assumes "own_ids loadListing l_ListingID (ctxStore ctx)" "Action env \<noteq> ''create_listing''"
    and "loadListing (ctxStore ctx) i = Inr l"
  shows "\<exists>l'. loadListing (ctxStore (fst (mExecuteTx (amx_New uni) ctx env))) i = Inr l'
    \<and> (l' = l \<or> Sender env = l_Provider l) \<and> l_ListingID l' = l_ListingID l \<and> l_Provider l' = l_Provider l
    \<and> l_Capabilities l' = l_Capabilities l \<and> l_SLA l' = l_SLA l \<and> l_Tags l' = l_Tags l \<and> l_CreatedAt l' = l_CreatedAt l"
proof -
  have "listing_kept (Sender env) l (loadListing (ctxStore (fst (mExecuteTx (amx_New uni) ctx env))) i)"
    using assms(2,3) listing_kept_handlers [OF assms(1,3), of env]
    by (simp add: amx_exec pauseListing_def delistListing_def confirmMatch_def rejectMatch_def cancelOrder_def
        loadListing_order_handlers listing_kept_same)
  then show ?thesis by (simp add: listing_kept_def)
qed


section \<open>Concrete markets\<close>

definition listing0 :: "bytes \<Rightarrow> bytes \<Rightarrow> Listing" where
  "listing0 i price = \<lparr>l_ListingID = i, l_Provider = ''p'', l_Title = [], l_Description = [],
     l_Capabilities = [\<lparr>cr_CapType = ''ocr''\<rparr>], l_Pricing = \<lparr>pm_Currency = ''usd'', pm_BasePrice = price\<rparr>,
     l_SLA = zeroSLATemplate, l_Tags = [], l_Status = statusActive, l_CreatedAt = 1, l_UpdatedAt = 1\<rparr>"

definition order0 :: Order where
  "order0 = zeroOrder\<lparr>o_OrderID := ''o'', o_Consumer := ''c'', o_Provider := ''p'', o_Status := orderMatched\<rparr>"

definition market_ctx :: Context where
  "market_ctx = (fresh_ctx 100)\<lparr>ctxStore := saveOrder (saveListing (saveListing (ctxStore (fresh_ctx 100))
     (listing0 ''a'' ''5'')) (listing0 ''b'' ''3'')) order0\<rparr>"

definition market_request :: TxEnvelope where
  "market_request = mk_tx ''c'' ''amx'' ''submit_request''
     ''{\"required_caps\":[\"ocr\"],\"budget\":{\"currency\":\"USD\",\"amount\":\"4.50\"}}''"

definition request0 :: SubmitRequestPayload where
  "request0 = \<lparr>rq_RequiredCaps = [''ocr''], rq_Budget = \<lparr>Currency = ''USD'', Amount = ''4.50''\<rparr>, rq_MaxLatencyMS = 0, rq_Deadline = 0\<rparr>"

lemma market_request_decoded:
  "DecodeJSONPayload SubmitRequestPayload_fields zeroSubmitRequest market_request = Some request0"
  by code_simp

lemma market_ctx_inv: "store_inv (ctxStore market_ctx)"
  by (simp add: market_ctx_def orders.save_inv listings.save_inv)

lemma market_candidates: "candidates id (ctxStore market_ctx) request0 = [listing0 ''b'' ''3'']"
  by code_simp

lemma market_eligible: "eligible id (ctxStore market_ctx) request0 = {listing0 ''b'' ''3''}"
  by (simp add: eligible_candidates market_ctx_inv market_candidates)

lemma market_own:
  "own_ids loadListing l_ListingID (ctxStore market_ctx)" "own_ids loadOrder o_OrderID (ctxStore market_ctx)"
  by (simp_all add: market_ctx_def listings.own_ids_save orders.own_ids_save own_ids_fresh loadListing_def loadOrder_def load_rec_def)

theorem match_is_best_witness:
  "\<exists>ord ev. submitRequest id market_ctx market_request = (upd_store market_ctx (saveOrder (ctxStore market_ctx) ord),
     Ret (SuccessResult 8000 [ev])) \<and> o_Status ord = ''ORDER_MATCHED'' \<and> o_ListingID ord = ''b''"
proof -
  have "rq_Deadline request0 \<le> 0 \<or> now market_ctx \<le> rq_Deadline request0" by (simp add: request0_def)
  from match_is_best [of market_ctx market_request request0 id, OF market_ctx_inv market_request_decoded this]
  show ?thesis by (auto simp: market_eligible listing0_def)
qed

theorem match_not_dominated_witness:
  "best_listing (candidates id (ctxStore market_ctx) request0) \<in> eligible id (ctxStore market_ctx) request0"
  using match_not_dominated [of market_ctx id request0, OF market_ctx_inv _ refl] by (simp add: market_eligible)

theorem score_range_witness:
  "37 / 100 < score_in (eligible id (ctxStore market_ctx) request0) (listing0 ''b'' ''3'')"
  using score_range [of "ctxStore market_ctx" "listing0 ''b'' ''3''" id request0, OF market_ctx_inv] by (simp add: market_eligible)

lemma market_order: "loadOrder (ctxStore market_ctx) ''o'' = Inr order0"
  by (simp add: market_ctx_def orders.load_save order0_def)

lemma market_listing: "loadListing (ctxStore market_ctx) ''a'' = Inr (listing0 ''a'' ''5'')"
  by (simp add: market_ctx_def listings.load_save listing0_def)

definition market_confirm :: TxEnvelope where
  "market_confirm = mk_tx ''p'' ''amx'' ''confirm_match'' ''{\"order_id\":\"o\"}''"

lemma market_confirmed:
  "map_sum id o_Status (loadOrder (ctxStore (fst (mExecuteTx (amx_New id) market_ctx market_confirm))) ''o'') = Inr ''ORDER_ESCROWED''"
  by code_simp

theorem order_transitions_witness:
  "\<exists>s t. loadOrder (ctxStore (fst (mExecuteTx (amx_New id) market_ctx market_confirm))) ''o'' = Inr (order0\<lparr>o_Status := s, o_UpdatedAt := t\<rparr>)
    \<and> order_move ''confirm_match'' ''ORDER_MATCHED'' s"
proof -
  have act: "Action market_confirm = ''confirm_match''" by (simp add: market_confirm_def mk_tx_def)
  then have ne: "Action market_confirm \<noteq> ''submit_request''" by simp
  have st: "o_Status order0 = ''ORDER_MATCHED''" by (simp add: order0_def)
  from order_transitions [OF market_own(2) ne market_order, of id] market_confirmed show ?thesis
    by (auto simp: act st)
qed

theorem listing_ownership_witness:
  "\<exists>l'. loadListing (ctxStore (fst (mExecuteTx (amx_New id) market_ctx market_confirm))) ''a'' = Inr l' \<and> l_Provider l' = ''p''"
proof -
  have "Action market_confirm \<noteq> ''create_listing''" by (simp add: market_confirm_def mk_tx_def)
  from listing_ownership [OF market_own(1) this market_listing, of id] show ?thesis by (auto simp: listing0_def)
qed

definition market_create :: TxEnvelope where
  "market_create = mk_tx ''p'' ''amx'' ''create_listing''
     ''{\"title\":\"t\",\"capabilities\":[{\"cap_type\":\"ocr\"}],\"pricing\":{\"currency\":\"usd\",\"base_price\":\"5\"}}''"

lemma market_create_decoded:
  "DecodeJSONPayload CreateListingPayload_fields zeroCreateListing market_create =
     Some (zeroCreateListing\<lparr>cl_Title := ''t'', cl_Capabilities := [\<lparr>cr_CapType = ''ocr''\<rparr>],
       cl_Pricing := \<lparr>pm_Currency = ''usd'', pm_BasePrice = ''5''\<rparr>\<rparr>)"
  by code_simp

lemma market_create_price: "ptoPrice ''5'' = None"
  by code_simp

definition created_ctx :: Context where
  "created_ctx = fst (mExecuteTx (amx_New id) (fresh_ctx 5) market_create)"

lemma created_listing: "\<exists>i l. loadListing (ctxStore created_ctx) i = Inr l \<and> l_Provider l = ''p''"
proof -
  have "Action market_create = ''create_listing''" "Sender market_create = ''p''" by (simp_all add: market_create_def mk_tx_def)
  then show ?thesis
    by (intro exI [of _ "shortHash [''p'', utoa 10 (unat (Nonce market_create)), ''t'']"])
      (simp add: created_ctx_def amx_exec createListing_def market_create_decoded market_create_price Let_def listings.load_save)
qed


section \<open>The end of a block\<close>

interpretation amx_end: end_local "amx_New uni" amx_prefixes for uni
  by (rule idle_end_local [OF amx_mod.module_contract_axioms]) (simp add: amx_New_def common_EndBlock_def)

end
