(* ===== verification/Aap.thy ===== *)
theory Aap
  imports Table
begin

text \<open>
  \<open>internal/modules/aap/module.go\<close>: the life of a task from its creation over heartbeats, result
  and verification to settlement or dispute, and the heartbeat timeout at the end of a block.
\<close>

section \<open>Payloads\<close>

record CreateTaskPayload =
  ct_OrderID :: bytes
  ct_Consumer :: bytes
  ct_Provider :: bytes
  ct_MaxRetries :: uint32
  ct_ServiceFee :: Money
  ct_TimeoutSec :: uint64
  ct_MaxLatency :: uint32
  ct_MinAccuracy :: float32

definition CreateTaskPayload_fields :: "(bytes \<times> CreateTaskPayload field) list" where
  "CreateTaskPayload_fields =
     [(''order_id'', fld dec_string ct_OrderID ct_OrderID_update),
      (''consumer'', fld dec_bytes ct_Consumer ct_Consumer_update),
      (''provider'', fld dec_bytes ct_Provider ct_Provider_update),
      (''max_retries'', fld dec_uint32 ct_MaxRetries ct_MaxRetries_update),
      (''service_fee'', fld dec_Money ct_ServiceFee ct_ServiceFee_update),
      (''timeout_sec'', fld dec_uint64 ct_TimeoutSec ct_TimeoutSec_update),
      (''max_latency_ms'', fld dec_uint32 ct_MaxLatency ct_MaxLatency_update),
      (''min_accuracy'', fld dec_float32 ct_MinAccuracy ct_MinAccuracy_update)]"

definition zeroCreateTask :: CreateTaskPayload where
  "zeroCreateTask = \<lparr>ct_OrderID = [], ct_Consumer = [], ct_Provider = [], ct_MaxRetries = 0,
     ct_ServiceFee = zeroMoney, ct_TimeoutSec = 0, ct_MaxLatency = 0, ct_MinAccuracy = 0\<rparr>"

record SignSLAPayload =
  ss_TaskID :: bytes
  ss_ConsumerSig :: bytes
  ss_ProviderSig :: bytes
  ss_TimeoutSec :: uint64
  ss_CommissionBP :: uint32

definition SignSLAPayload_fields :: "(bytes \<times> SignSLAPayload field) list" where
  "SignSLAPayload_fields =
     [(''task_id'', fld dec_string ss_TaskID ss_TaskID_update),
      (''consumer_sig'', fld dec_bytes ss_ConsumerSig ss_ConsumerSig_update),
      (''provider_sig'', fld dec_bytes ss_ProviderSig ss_ProviderSig_update),
      (''timeout_sec'', fld dec_uint64 ss_TimeoutSec ss_TimeoutSec_update),
      (''commission_bps'', fld dec_uint32 ss_CommissionBP ss_CommissionBP_update)]"

definition zeroSignSLA :: SignSLAPayload where
  "zeroSignSLA = \<lparr>ss_TaskID = [], ss_ConsumerSig = [], ss_ProviderSig = [], ss_TimeoutSec = 0, ss_CommissionBP = 0\<rparr>"

definition HeartbeatPayload_fields :: "(bytes \<times> HeartbeatPayload field) list" where
  "HeartbeatPayload_fields =
     [(''task_id'', fld dec_string hb_TaskID hb_TaskID_update),
      (''seq'', fld dec_uint64 hb_Seq hb_Seq_update),
      (''progress'', fld dec_uint32 hb_Progress hb_Progress_update),
      (''status_msg'', fld dec_string hb_StatusMsg hb_StatusMsg_update),
      (''timestamp'', fld dec_int64 hb_Timestamp hb_Timestamp_update),
      (''signature'', fld dec_bytes hb_Signature hb_Signature_update)]"

definition zeroHeartbeat :: HeartbeatPayload where
  "zeroHeartbeat = \<lparr>hb_TaskID = [], hb_Seq = 0, hb_Progress = 0, hb_StatusMsg = [], hb_Timestamp = 0, hb_Signature = []\<rparr>"

record SubmitResultPayload =
  sr_TaskID :: bytes
  sr_ResultData :: bytes
  sr_ResultIPFS :: bytes
  sr_ContentHash :: bytes

definition SubmitResultPayload_fields :: "(bytes \<times> SubmitResultPayload field) list" where
  "SubmitResultPayload_fields =
     [(''task_id'', fld dec_string sr_TaskID sr_TaskID_update),
      (''result_data'', fld dec_bytes sr_ResultData sr_ResultData_update),
      (''result_ipfs'', fld dec_string sr_ResultIPFS sr_ResultIPFS_update),
      (''content_hash'', fld dec_string sr_ContentHash sr_ContentHash_update)]"

definition zeroSubmitResult :: SubmitResultPayload where
  "zeroSubmitResult = \<lparr>sr_TaskID = [], sr_ResultData = [], sr_ResultIPFS = [], sr_ContentHash = []\<rparr>"

record VerifyPayload =
  vp_TaskID :: bytes
  vp_Passed :: bool
  vp_Reason :: bytes
  vp_Verifier :: bytes

definition VerifyPayload_fields :: "(bytes \<times> VerifyPayload field) list" where
  "VerifyPayload_fields =
     [(''task_id'', fld dec_string vp_TaskID vp_TaskID_update),
      (''passed'', fld dec_bool vp_Passed vp_Passed_update),
      (''reason'', fld dec_string vp_Reason vp_Reason_update),
      (''verifier'', fld dec_bytes vp_Verifier vp_Verifier_update)]"

definition zeroVerify :: VerifyPayload where
  "zeroVerify = \<lparr>vp_TaskID = [], vp_Passed = False, vp_Reason = [], vp_Verifier = []\<rparr>"

text \<open>\<open>settlePayload\<close> has the one field \<open>TaskID\<close>; \<open>disputePayload\<close> is the pair of \<open>TaskID\<close> and \<open>Reason\<close>.\<close>

definition settlePayload_fields :: "(bytes \<times> bytes field) list" where
  "settlePayload_fields = [(''task_id'', fld dec_string id id)]"

record disputePayload =
  dt_TaskID :: bytes
  dt_Reason :: bytes

definition disputePayload_fields :: "(bytes \<times> disputePayload field) list" where
  "disputePayload_fields =
     [(''task_id'', fld dec_string dt_TaskID dt_TaskID_update),
      (''reason'', fld dec_string dt_Reason dt_Reason_update)]"

definition zeroDisputePayload :: disputePayload where
  "zeroDisputePayload = \<lparr>dt_TaskID = [], dt_Reason = []\<rparr>"

section \<open>Helpers\<close>

definition saveTask :: "Store \<Rightarrow> Task \<Rightarrow> Store" where
  "saveTask st t = Set st (TaskKey (t_TaskID t)) (VTask t)"

definition loadTask :: "Store \<Rightarrow> bytes \<Rightarrow> goerr + Task" where
  "loadTask st i = load_rec un_task (NewAppError CodeAAPBase ''task not found'')
     (NewAppError CodeDecodeFail ''decode task: %v'') st (TaskKey i)"

definition taskID :: "bytes \<Rightarrow> uint64 \<Rightarrow> bytes" where
  "taskID orderID nonce = hex_EncodeToString (take 8 (Sum256 (orderID @ '':'' @ utoa 10 (unat nonce))))"

definition computeEvidenceRoot :: "Task \<Rightarrow> bytes" where
  "computeEvidenceRoot t = hex_EncodeToString (Sum256
     (t_TaskID t @ ''|'' @ t_OrderID t @ ''|'' @ t_ResultHash t @ ''|'' @ t_Status t))"

definition aap_error :: "uint32 \<Rightarrow> bytes \<Rightarrow> goerr" where
  "aap_error n msg = NewAppError (CodeAAPBase + n) msg"

definition zeroSLA :: SLA where
  "zeroSLA = \<lparr>s_MaxLatencyMS = 0, s_MinAccuracy = 0, s_MaxRetries = 0, s_TimeoutSec = 0,
     s_ServiceFee = zeroMoney, s_DepositAmount = zeroMoney, s_CommissionBPS = 0, s_ConsumerSig = [],
     s_ProviderSig = [], s_SignedAt = 0, s_ExpiresAt = 0\<rparr>"

section \<open>Handlers\<close>

definition createTask :: handler where
  "createTask ctx env = (case DecodeJSONPayload CreateTaskPayload_fields zeroCreateTask env of
     None \<Rightarrow> (ctx, Err (aap_error 1 ''decode create_task: %v''))
   | Some p \<Rightarrow>
     let i = taskID (ct_OrderID p) (Nonce env);
         maxRetries = (if ct_MaxRetries p = 0 then 3 else ct_MaxRetries p);
         t = \<lparr>t_TaskID = i, t_OrderID = ct_OrderID p, t_Consumer = ct_Consumer p, t_Provider = ct_Provider p,
              t_SLA = zeroSLA\<lparr>s_TimeoutSec := ct_TimeoutSec p, s_MaxLatencyMS := ct_MaxLatency p,
                s_MinAccuracy := ct_MinAccuracy p, s_MaxRetries := maxRetries,
                s_ServiceFee := ct_ServiceFee p, s_CommissionBPS := 1200\<rparr>,
              t_Status = ''TASK_CREATED'', t_ResultHash = [], t_ResultIPFS = [], t_EvidenceRoot = [],
              t_CreatedAt = now ctx, t_SLASignedAt = 0, t_StartedAt = 0, t_CompletedAt = 0,
              t_HeartbeatSeq = 0, t_LastHeartbeat = 0, t_RetryCount = 0, t_MaxRetries = maxRetries,
              t_ServiceFee = ct_ServiceFee p\<rparr>
     in (upd_store ctx (saveTask (ctxStore ctx) t),
         Ret (SuccessResult 3000 [mkEvent ''TaskCreated'' [(''task_id'', i), (''order_id'', ct_OrderID p)]])))"

definition signSLA :: handler where
  "signSLA ctx env = (case DecodeJSONPayload SignSLAPayload_fields zeroSignSLA env of
     None \<Rightarrow> (ctx, Err (aap_error 1 ''decode sign_sla: %v''))
   | Some p \<Rightarrow>
     (case loadTask (ctxStore ctx) (ss_TaskID p) of Inl e \<Rightarrow> (ctx, Err e)
      | Inr t \<Rightarrow>
        if t_Status t \<noteq> ''TASK_CREATED'' then (ctx, Err (aap_error 2 ''task status %s cannot sign sla''))
        else let sla = (t_SLA t)\<lparr>s_ConsumerSig := ss_ConsumerSig p, s_ProviderSig := ss_ProviderSig p,
                   s_SignedAt := now ctx, s_ExpiresAt := Unix (ctxBlockTime ctx + 30 * 60 * 1000000000),
                   s_TimeoutSec := (if 0 < ss_TimeoutSec p then ss_TimeoutSec p else s_TimeoutSec (t_SLA t)),
                   s_CommissionBPS := (if 0 < ss_CommissionBP p then ss_CommissionBP p else s_CommissionBPS (t_SLA t))\<rparr>
             in (upd_store ctx (saveTask (ctxStore ctx) (t\<lparr>t_SLA := sla, t_Status := ''TASK_SLA_SIGNED'',
                   t_SLASignedAt := s_SignedAt sla\<rparr>)), Ret (SuccessResult 2000 []))))"

definition submitHeartbeat :: handler where
  "submitHeartbeat ctx env = (case DecodeJSONPayload HeartbeatPayload_fields zeroHeartbeat env of
     None \<Rightarrow> (ctx, Err (aap_error 1 ''decode submit_heartbeat: %v''))
   | Some p \<Rightarrow>
     (case loadTask (ctxStore ctx) (hb_TaskID p) of Inl e \<Rightarrow> (ctx, Err e)
      | Inr t \<Rightarrow>
        if \<not> equalBytes (t_Provider t) (Sender env) then (ctx, Err (aap_error 2 ''provider mismatch''))
        else if hb_Seq p \<le> t_HeartbeatSeq t then (ctx, Err (aap_error 2 ''heartbeat sequence must increase''))
        else let t = (if t_Status t = ''TASK_AUTHORIZED'' \<or> t_Status t = ''TASK_CREATED'' \<or> t_Status t = ''TASK_SLA_SIGNED''
                      then t\<lparr>t_Status := ''TASK_EXECUTING'', t_StartedAt := now ctx\<rparr> else t);
                 t = t\<lparr>t_HeartbeatSeq := hb_Seq p,
                       t_LastHeartbeat := (if hb_Timestamp p = 0 then now ctx else hb_Timestamp p)\<rparr>;
                 st = Set (ctxStore ctx) (HeartbeatKey (t_TaskID t) (hb_Seq p)) (VHeartbeat p)
             in (upd_store ctx (saveTask st t), Ret (SuccessResult 500 []))))"

definition submitResult :: handler where
  "submitResult ctx env = (case DecodeJSONPayload SubmitResultPayload_fields zeroSubmitResult env of
     None \<Rightarrow> (ctx, Err (aap_error 1 ''decode submit_result: %v''))
   | Some p \<Rightarrow>
     (case loadTask (ctxStore ctx) (sr_TaskID p) of Inl e \<Rightarrow> (ctx, Err e)
      | Inr t \<Rightarrow>
        if \<not> equalBytes (t_Provider t) (Sender env) then (ctx, Err (aap_error 2 ''provider mismatch''))
        else (upd_store ctx (saveTask (ctxStore ctx) (t\<lparr>t_ResultHash := sr_ContentHash p,
                t_ResultIPFS := sr_ResultIPFS p, t_Status := ''TASK_SUBMIT_RESULT''\<rparr>)),
              Ret (SuccessResult 5000 []))))"

definition verifyResult :: handler where
  "verifyResult ctx env = (case DecodeJSONPayload VerifyPayload_fields zeroVerify env of
     None \<Rightarrow> (ctx, Err (aap_error 1 ''decode verify_result: %v''))
   | Some p \<Rightarrow>
     (case loadTask (ctxStore ctx) (vp_TaskID p) of Inl e \<Rightarrow> (ctx, Err e)
      | Inr t \<Rightarrow>
        if t_Status t \<noteq> ''TASK_SUBMIT_RESULT'' \<and> t_Status t \<noteq> ''TASK_VERIFYING''
        then (ctx, Err (aap_error 23 ''task is not ready for verification''))
        else let t = (if vp_Passed p then t\<lparr>t_Status := ''TASK_VERIFIED''\<rparr>
                      else let t = t\<lparr>t_RetryCount := t_RetryCount t + 1\<rparr> in
                        if t_MaxRetries t \<le> t_RetryCount t then t\<lparr>t_Status := ''TASK_DISPUTED''\<rparr>
                        else t\<lparr>t_Status := ''TASK_AUTHORIZED''\<rparr>)
             in (upd_store ctx (saveTask (ctxStore ctx) t), Ret (SuccessResult 3000 []))))"

definition settleTask :: handler where
  "settleTask ctx env = (case DecodeJSONPayload settlePayload_fields [] env of
     None \<Rightarrow> (ctx, Err (aap_error 1 ''decode settle_task: %v''))
   | Some i \<Rightarrow>
     (case loadTask (ctxStore ctx) i of Inl e \<Rightarrow> (ctx, Err e)
      | Inr t \<Rightarrow>
        if t_Status t \<noteq> ''TASK_VERIFIED'' then (ctx, Err (aap_error 23 ''task status %s cannot settle''))
        else let t = t\<lparr>t_Status := ''TASK_COMPLETED'', t_CompletedAt := now ctx\<rparr>;
                 t = t\<lparr>t_EvidenceRoot := computeEvidenceRoot t\<rparr>;
                 st = saveTask (ctxStore ctx) t;
                 st = Set st (PrefixAAPEvidence @ t_TaskID t) (VBytes (t_EvidenceRoot t))
             in (upd_store ctx st, Ret (SuccessResult 4000 [mkEvent ''TaskCompleted'' [(''task_id'', t_TaskID t)]]))))"

definition aap_fileDispute :: handler where
  "aap_fileDispute ctx env = (case DecodeJSONPayload disputePayload_fields zeroDisputePayload env of
     None \<Rightarrow> (ctx, Err (aap_error 1 ''decode file_dispute: %v''))
   | Some p \<Rightarrow>
     (case loadTask (ctxStore ctx) (dt_TaskID p) of Inl e \<Rightarrow> (ctx, Err e)
      | Inr t \<Rightarrow>
        let ctx = upd_store ctx (saveTask (ctxStore ctx) (t\<lparr>t_Status := ''TASK_DISPUTED''\<rparr>))
        in (ctx\<lparr>ctxEventBus := Emit (ctxEventBus ctx) (mkEvent ''DisputeFiled''
              [(''task_id'', t_TaskID t), (''reason'', dt_Reason p)])\<rparr>,
            Ret (SuccessResult 3000 []))))"

text \<open>The body of the loop at the end of a block.\<close>

definition heartbeat_timeout :: "int64 \<Rightarrow> Task \<Rightarrow> (Task \<times> Event list) option" where
  "heartbeat_timeout t task = (if t_Status task \<noteq> ''TASK_EXECUTING'' then None
     else if 180 < wrap64 (t - t_LastHeartbeat task)
     then Some (task\<lparr>t_Status := ''TASK_FAILED''\<rparr>, [mkEvent ''TaskFailed''
       [(''task_id'', t_TaskID task), (''reason'', ''heartbeat_timeout'')]])
     else None)"

definition aap_EndBlock :: "Context \<Rightarrow> Context \<times> Event list outcome" where
  "aap_EndBlock ctx = (case sweep saveTask (heartbeat_timeout (now ctx))
       (decoded un_task (IteratePrefix (ctxStore ctx) PrefixAAPTask)) (ctxStore ctx) of
     (st, failures) \<Rightarrow> (upd_store ctx st, Ret failures))"

definition aap_handlers :: "(bytes \<times> handler) list" where
  "aap_handlers = [(''create_task'', createTask), (''sign_sla'', signSLA), (''submit_heartbeat'', submitHeartbeat),
     (''submit_result'', submitResult), (''verify_result'', verifyResult), (''settle_task'', settleTask),
     (''file_dispute'', aap_fileDispute)]"

definition aap_New :: Module where
  "aap_New = mkModule ''aap'' aap_handlers aap_EndBlock"

lemmas aap_exec = aap_New_def mkModule_sel aap_handlers_def dispatch

section \<open>Contract and invariant\<close>

interpretation tasks: table loadTask saveTask t_TaskID TaskKey PrefixAAPTask
  by (rule tableI, rule loadTask_def, rule saveTask_def) (simp_all add: TaskKey_def inj_def)

definition aap_prefixes :: "bytes list" where
  "aap_prefixes = [PrefixAAPTask, PrefixAAPHeartbeat, PrefixAAPEvidence]"

lemma saveTask_confined: "confined aap_prefixes c (upd_store c (saveTask (ctxStore c) t))"
  by (rule tasks.save_confined) (simp add: aap_prefixes_def)

lemma aap_Set_confined:
  "confined aap_prefixes c (upd_store c (Set (ctxStore c) (HeartbeatKey i n) (VHeartbeat p)))"
  "confined aap_prefixes c (upd_store c (Set (ctxStore c) (PrefixAAPEvidence @ i) (VBytes b)))"
  by (rule confined_Set [of PrefixAAPHeartbeat] confined_Set [of PrefixAAPEvidence];
      simp add: aap_prefixes_def HeartbeatKey_def)+

lemma heartbeat_confined:
  "confined aap_prefixes c (upd_store c (saveTask (Set (ctxStore c) (HeartbeatKey i n) (VHeartbeat p)) t))"
  using confined_trans [OF aap_Set_confined(1) saveTask_confined [of "upd_store c _"]] by simp

lemma settle_confined:
  "confined aap_prefixes c (upd_store c (Set (saveTask (ctxStore c) t) (PrefixAAPEvidence @ i) (VBytes b)))"
  using confined_trans [OF saveTask_confined aap_Set_confined(2) [of "upd_store c _"]] by simp

lemmas aap_handler_defs = createTask_def signSLA_def submitHeartbeat_def submitResult_def
  verifyResult_def settleTask_def aap_fileDispute_def

lemma aap_handlers_confined: "handlers_confined aap_prefixes aap_handlers"
  unfolding aap_handlers_def handlers_confined_simps
  by (intro conjI allI; simp add: aap_handler_defs Let_def saveTask_confined heartbeat_confined
      settle_confined [simplified] split: option.split sum.split)

lemma aap_EndBlock_confined: "confined aap_prefixes c (fst (aap_EndBlock c))"
  using tasks.sweep_confined [of aap_prefixes c]
  by (auto simp: aap_EndBlock_def aap_prefixes_def split: prod.split) (metis fst_conv)

interpretation aap_mod: module_contract aap_New aap_prefixes
  unfolding aap_New_def by (rule mkModule_contract [OF aap_handlers_confined aap_EndBlock_confined])

definition aap_ok :: "Store \<Rightarrow> bool" where
  "aap_ok st \<longleftrightarrow> store_inv st \<and> own_ids loadTask t_TaskID st"

lemma aap_ok_save: "aap_ok st \<Longrightarrow> aap_ok (saveTask st t)"
  by (simp add: aap_ok_def tasks.save_inv tasks.own_ids_save)

lemma loadTask_Set_other: "\<not> prefix PrefixAAPTask k \<Longrightarrow> loadTask (Set st k v) i = loadTask st i"
  using tasks.key_pre [of i] by (intro tasks.load_frame) (auto simp: Get_Set)

lemma loadTask_Set_simps [simp]:
  "loadTask (Set st (HeartbeatKey j n) v) i = loadTask st i"
  "loadTask (Set st (PrefixAAPEvidence @ j) v) i = loadTask st i"
  by (simp_all add: loadTask_Set_other HeartbeatKey_def)

lemmas task_mem = decoded_mem [OF _ loadTask_def TaskKey_def]

lemma heartbeat_timeout_id: "heartbeat_timeout n r = Some (r', ev) \<Longrightarrow> t_TaskID r' = t_TaskID r"
  by (auto simp: heartbeat_timeout_def split: if_splits)

lemma heartbeat_timeout_run:
  assumes "aap_ok (ctxStore ctx)"
  shows "\<exists>st' evs. mEndBlock aap_New ctx = (upd_store ctx st', Ret evs)
    \<and> (\<forall>i. loadTask st' i = (case loadTask (ctxStore ctx) i of Inl e \<Rightarrow> Inl e
        | Inr t \<Rightarrow> Inr (if t_Status t = ''TASK_EXECUTING'' \<and> 180 < wrap64 (now ctx - t_LastHeartbeat t)
            then t\<lparr>t_Status := ''TASK_FAILED''\<rparr> else t)))
    \<and> (\<forall>i. mkEvent ''TaskFailed'' [(''task_id'', i), (''reason'', ''heartbeat_timeout'')] \<in> set evs \<longleftrightarrow>
        (\<exists>t. loadTask (ctxStore ctx) i = Inr t \<and> t_Status t = ''TASK_EXECUTING''
          \<and> 180 < wrap64 (now ctx - t_LastHeartbeat t)))"
proof -
  let ?st = "ctxStore ctx" and ?rs = "decoded un_task (IteratePrefix (ctxStore ctx) PrefixAAPTask)"
  let ?f = "heartbeat_timeout (now ctx)"
  obtain st' evs where sw: "sweep saveTask ?f ?rs ?st = (st', evs)" by fastforce
  have own: "own_ids loadTask t_TaskID ?st" and inv: "store_inv ?st" using assms by (auto simp: aap_ok_def)
  have mem: "r \<in> set ?rs \<longleftrightarrow> (\<exists>i. loadTask ?st i = Inr r)" for r by (rule task_mem [OF inv])
  have ld: "loadTask st' i = (case loadTask ?st i of Inl e \<Rightarrow> Inl e
      | Inr r \<Rightarrow> Inr (case ?f r of None \<Rightarrow> r | Some (r', ev) \<Rightarrow> r'))" for i
    using tasks.sweep_all [where f = ?f and i = i, OF own mem heartbeat_timeout_id] sw by simp
  have evs: "evs = concat (map (\<lambda>r. case ?f r of None \<Rightarrow> [] | Some (r', ev) \<Rightarrow> ev) ?rs)"
    using sweep_events [of saveTask ?f ?rs ?st] sw by simp
  have ev: "mkEvent ''TaskFailed'' [(''task_id'', i), (''reason'', ''heartbeat_timeout'')] \<in> set evs \<longleftrightarrow>
      (\<exists>t. loadTask ?st i = Inr t \<and> t_Status t = ''TASK_EXECUTING'' \<and> 180 < wrap64 (now ctx - t_LastHeartbeat t))" for i
    unfolding evs using own mem
    by (auto simp: heartbeat_timeout_def mkEvent_def own_ids_def split: option.splits if_splits) metis
  show ?thesis
    by (intro exI [of _ st'] exI [of _ evs] conjI allI)
      (use ld ev in \<open>auto simp: aap_New_def aap_EndBlock_def sw heartbeat_timeout_def split: sum.split\<close>)
qed

lemma heartbeat_timeout_load:
  "aap_ok (ctxStore ctx) \<Longrightarrow> loadTask (ctxStore ctx) i = Inr t \<Longrightarrow>
   \<exists>st'. fst (mEndBlock aap_New ctx) = upd_store ctx st' \<and> loadTask st' i =
     Inr (if t_Status t = ''TASK_EXECUTING'' \<and> 180 < wrap64 (now ctx - t_LastHeartbeat t)
       then t\<lparr>t_Status := ''TASK_FAILED''\<rparr> else t)"
  using heartbeat_timeout_run [of ctx] by auto

text \<open>C35: the end of a block fails exactly the tasks that are executing and whose last heartbeat is more
  than 180 seconds old, and reports each of them; it changes no other task and no other field.\<close>

theorem heartbeat_timeout_exact:
  assumes "aap_ok (ctxStore ctx)"
  shows "\<exists>st' evs. mEndBlock aap_New ctx = (upd_store ctx st', Ret evs)
    \<and> (\<forall>i. loadTask st' i = (case loadTask (ctxStore ctx) i of Inl e \<Rightarrow> Inl e
        | Inr t \<Rightarrow> Inr (if t_Status t = ''TASK_EXECUTING'' \<and> 180 < wrap64 (now ctx - t_LastHeartbeat t)
            then t\<lparr>t_Status := ''TASK_FAILED''\<rparr> else t)))
    \<and> (\<forall>i. mkEvent ''TaskFailed'' [(''task_id'', i), (''reason'', ''heartbeat_timeout'')] \<in> set evs \<longleftrightarrow>
        (\<exists>t. loadTask (ctxStore ctx) i = Inr t \<and> t_Status t = ''TASK_EXECUTING''
          \<and> 180 < wrap64 (now ctx - t_LastHeartbeat t)))"
  using heartbeat_timeout_run [OF assms] .

section \<open>The life of a task\<close>

text \<open>\<open>task_move act own s s'\<close>: a transaction with action \<open>act\<close> may move a task from status \<open>s\<close> to
  \<open>s'\<close>; \<open>own\<close> says whether the provider of the task sends it.\<close>

inductive task_move :: "bytes \<Rightarrow> bool \<Rightarrow> bytes \<Rightarrow> bytes \<Rightarrow> bool" where
  sign: "task_move ''sign_sla'' own ''TASK_CREATED'' ''TASK_SLA_SIGNED''"
| start: "s \<in> {''TASK_AUTHORIZED'', ''TASK_CREATED'', ''TASK_SLA_SIGNED''} \<Longrightarrow>
    task_move ''submit_heartbeat'' True s ''TASK_EXECUTING''"
| submit: "task_move ''submit_result'' True s ''TASK_SUBMIT_RESULT''"
| verify: "s \<in> {''TASK_SUBMIT_RESULT'', ''TASK_VERIFYING''} \<Longrightarrow>
    s' \<in> {''TASK_VERIFIED'', ''TASK_AUTHORIZED'', ''TASK_DISPUTED''} \<Longrightarrow> task_move ''verify_result'' own s s'"
| settle: "task_move ''settle_task'' own ''TASK_VERIFIED'' ''TASK_COMPLETED''"
| dispute: "task_move ''file_dispute'' own s ''TASK_DISPUTED''"

definition task_kept :: "Task \<Rightarrow> Task \<Rightarrow> bool" where
  "task_kept t t' \<longleftrightarrow> t_TaskID t' = t_TaskID t \<and> t_OrderID t' = t_OrderID t \<and> t_Consumer t' = t_Consumer t
     \<and> t_Provider t' = t_Provider t \<and> t_ServiceFee t' = t_ServiceFee t \<and> t_MaxRetries t' = t_MaxRetries t
     \<and> t_CreatedAt t' = t_CreatedAt t \<and> t_HeartbeatSeq t \<le> t_HeartbeatSeq t'"

definition task_moves :: "bytes \<Rightarrow> bytes \<Rightarrow> Store \<Rightarrow> Store \<Rightarrow> bool" where
  "task_moves act sender st st' \<longleftrightarrow> own_ids loadTask t_TaskID st \<longrightarrow> own_ids loadTask t_TaskID st' \<and>
     (\<forall>i t. loadTask st i = Inr t \<longrightarrow> (\<exists>t'. loadTask st' i = Inr t' \<and> task_kept t t'
        \<and> (t_Status t' = t_Status t \<or> task_move act (sender = t_Provider t) (t_Status t) (t_Status t'))))"

lemma task_moves_refl [simp]: "task_moves a s st st"
  by (auto simp: task_moves_def task_kept_def)

lemma task_moves_save:
  assumes "loadTask st i = Inr t" "task_kept t t'"
    "t_Status t' = t_Status t \<or> task_move a (s = t_Provider t) (t_Status t) (t_Status t')"
  shows "task_moves a s st (saveTask st t')"
  unfolding task_moves_def
proof (intro impI conjI allI)
  assume own: "own_ids loadTask t_TaskID st"
  then show "own_ids loadTask t_TaskID (saveTask st t')" by (rule tasks.own_ids_save)
  fix j x assume "loadTask st j = Inr x"
  then show "\<exists>y. loadTask (saveTask st t') j = Inr y \<and> task_kept x y
      \<and> (t_Status y = t_Status x \<or> task_move a (s = t_Provider x) (t_Status x) (t_Status y))"
    using tasks.load_update [OF own assms(1), of t' j] assms by (cases "j = i") (auto simp: task_kept_def)
qed

lemma task_moves_Set:
  "task_moves a s st st' \<Longrightarrow> task_moves a s st (Set st' (PrefixAAPEvidence @ j) v)"
  unfolding task_moves_def own_ids_def loadTask_Set_simps .

lemma task_moves_heartbeat:
  "task_moves a s (Set st (HeartbeatKey j n) v) st' \<Longrightarrow> task_moves a s st st'"
  unfolding task_moves_def own_ids_def loadTask_Set_simps .

lemma task_moves_handlers:
  "task_moves ''sign_sla'' (Sender env) (ctxStore ctx) (ctxStore (fst (signSLA ctx env)))"
  "task_moves ''submit_result'' (Sender env) (ctxStore ctx) (ctxStore (fst (submitResult ctx env)))"
  "task_moves ''verify_result'' (Sender env) (ctxStore ctx) (ctxStore (fst (verifyResult ctx env)))"
  "task_moves ''file_dispute'' (Sender env) (ctxStore ctx) (ctxStore (fst (aap_fileDispute ctx env)))"
  "task_moves ''settle_task'' (Sender env) (ctxStore ctx) (ctxStore (fst (settleTask ctx env)))"
  unfolding signSLA_def submitResult_def verifyResult_def aap_fileDispute_def settleTask_def
  by (auto simp: Let_def task_kept_def split: option.split sum.split
      intro!: task_moves_save task_moves_Set [simplified] intro: task_move.intros)

lemma task_moves_submitHeartbeat:
  "task_moves ''submit_heartbeat'' (Sender env) (ctxStore ctx) (ctxStore (fst (submitHeartbeat ctx env)))"
  unfolding submitHeartbeat_def
  by (auto simp: Let_def task_kept_def split: option.split sum.split
      intro!: task_moves_heartbeat [OF task_moves_save] intro: task_move.intros)

lemma task_moves_exec:
  assumes "Action env \<noteq> ''create_task''"
  shows "task_moves (Action env) (Sender env) (ctxStore ctx) (ctxStore (fst (mExecuteTx aap_New ctx env)))"
  using assms task_moves_handlers task_moves_submitHeartbeat by (auto simp: aap_exec)


text \<open>Concrete tasks.\<close>

definition task0 :: Task where
  "task0 = \<lparr>t_TaskID = ''t'', t_OrderID = ''o'', t_Consumer = ''C'', t_Provider = ''P'', t_SLA = zeroSLA,
     t_Status = ''TASK_EXECUTING'', t_ResultHash = [], t_ResultIPFS = [], t_EvidenceRoot = [], t_CreatedAt = 0,
     t_SLASignedAt = 0, t_StartedAt = 0, t_CompletedAt = 0, t_HeartbeatSeq = 4, t_LastHeartbeat = 100,
     t_RetryCount = 0, t_MaxRetries = 3, t_ServiceFee = zeroMoney\<rparr>"

definition task_ctx :: "Task \<Rightarrow> Context" where
  "task_ctx t = upd_store (fresh_ctx 300) (saveTask (ctxStore (fresh_ctx 300)) t)"

lemma task_ctx_ok: "aap_ok (ctxStore (task_ctx t))"
proof -
  have "aap_ok (ctxStore (fresh_ctx 300))"
    by (simp add: aap_ok_def own_ids_fresh loadTask_def load_rec_def)
  then show ?thesis by (simp add: task_ctx_def aap_ok_save)
qed

lemma task_ctx_load: "loadTask (ctxStore (task_ctx t)) (t_TaskID t) = Inr t"
  by (simp add: task_ctx_def tasks.load_save)


theorem heartbeat_timeout_exact_witness:
  "loadTask (ctxStore (fst (mEndBlock aap_New (task_ctx task0)))) ''t''
     = Inr (task0\<lparr>t_Status := ''TASK_FAILED''\<rparr>)"
proof -
  have t: "loadTask (ctxStore (task_ctx task0)) ''t'' = Inr task0"
    using task_ctx_load [of task0] by (simp add: task0_def)
  have "now (task_ctx task0) = 300" "wrap64 200 = 200" by code_simp+
  with heartbeat_timeout_exact [OF task_ctx_ok [of task0]] show ?thesis
    by (auto simp: t) (auto simp: task0_def)
qed

section \<open>No completion without a result\<close>

text \<open>The statuses on the way to payment.\<close>

definition on_payment_path :: "bytes \<Rightarrow> bool" where
  "on_payment_path s \<longleftrightarrow> s \<in> {''TASK_SUBMIT_RESULT'', ''TASK_VERIFYING'', ''TASK_VERIFIED'', ''TASK_COMPLETED''}"

lemma task_move_path:
  "task_move act own s s' \<Longrightarrow> \<not> on_payment_path s \<Longrightarrow> on_payment_path s' \<Longrightarrow> own \<and> act = ''submit_result''"
  by (erule task_move.cases) (auto simp: on_payment_path_def)

text \<open>A step that gives the provider of task \<open>i\<close> no way onto the path.\<close>

definition no_result_step :: "bytes \<Rightarrow> step \<Rightarrow> bool" where
  "no_result_step provider s = (case s of Tx env \<Rightarrow> Action env \<noteq> ''create_task''
     \<and> \<not> (Action env = ''submit_result'' \<and> Sender env = provider) | _ \<Rightarrow> True)"

definition unpaid :: "bytes \<Rightarrow> bytes \<Rightarrow> Store \<Rightarrow> bool" where
  "unpaid i provider st \<longleftrightarrow> aap_ok st \<and>
     (\<exists>t. loadTask st i = Inr t \<and> t_Provider t = provider \<and> \<not> on_payment_path (t_Status t))"

lemma aap_ok_exec: "aap_ok (ctxStore c) \<Longrightarrow> aap_ok (ctxStore (fst (mExecuteTx aap_New c env)))"
proof -
  assume ok: "aap_ok (ctxStore c)"
  have "store_inv (ctxStore (fst (mExecuteTx aap_New c env)))"
    using aap_mod.exec_confined [of c env] ok by (simp add: confined_def aap_ok_def)
  moreover have "own_ids loadTask t_TaskID (ctxStore (fst (createTask c env)))"
    using ok by (auto simp: createTask_def Let_def aap_ok_def tasks.own_ids_save split: option.split)
  moreover have "Action env \<noteq> ''create_task'' \<Longrightarrow> own_ids loadTask t_TaskID (ctxStore (fst (mExecuteTx aap_New c env)))"
    using task_moves_exec [of env c] ok by (simp add: task_moves_def aap_ok_def)
  ultimately show ?thesis by (cases "Action env = ''create_task''") (auto simp: aap_ok_def aap_exec)
qed

lemma aap_ok_end:
  assumes "aap_ok (ctxStore c)"
  shows "aap_ok (ctxStore (fst (mEndBlock aap_New c)))"
proof -
  have "ctxStore (fst (mEndBlock aap_New c)) = fst (sweep saveTask (heartbeat_timeout (now c))
      (decoded un_task (IteratePrefix (ctxStore c) PrefixAAPTask)) (ctxStore c))"
    by (simp add: aap_New_def aap_EndBlock_def split: prod.split)
  then have "own_ids loadTask t_TaskID (ctxStore (fst (mEndBlock aap_New c)))"
    using assms by (simp add: aap_ok_def tasks.sweep_own)
  with aap_mod.end_confined [of c] assms show ?thesis by (simp add: aap_ok_def confined_def)
qed

lemma aap_ok_fresh: "aap_ok (ctxStore (fresh_ctx t))"
  by (simp add: aap_ok_def own_ids_fresh loadTask_def load_rec_def)

lemma aap_ok_local:
  assumes "aap_ok st" "store_inv st \<Longrightarrow> store_inv st'"
    and "\<And>p k. p \<in> set aap_prefixes \<Longrightarrow> prefix p k \<Longrightarrow> Get st' k = Get st k"
  shows "aap_ok st'"
proof -
  have "loadTask st' i = loadTask st i" for i
    by (rule tasks.load_frame) (use assms(3) tasks.key_pre in \<open>auto simp: aap_prefixes_def\<close>)
  with assms(1,2) show ?thesis by (simp add: aap_ok_def own_ids_def)
qed

interpretation aap_inv: module_invariant aap_New aap_prefixes aap_ok
proof (unfold_locales, goal_cases)
  case (4 st st')
  then show ?case by (rule aap_ok_local)
qed (simp_all add: aap_ok_exec aap_ok_end aap_ok_fresh)

lemma unpaid_step:
  assumes "unpaid i p (ctxStore c)" "no_result_step p s"
  shows "unpaid i p (ctxStore (do_step aap_New c s))"
proof -
  obtain t where t: "loadTask (ctxStore c) i = Inr t" "t_Provider t = p" "\<not> on_payment_path (t_Status t)"
    and ok: "aap_ok (ctxStore c)" using assms(1) by (auto simp: unpaid_def)
  show ?thesis
  proof (cases s)
    case (Tx env)
    obtain t' where t': "loadTask (ctxStore (fst (mExecuteTx aap_New c env))) i = Inr t'" "task_kept t t'"
      "t_Status t' = t_Status t \<or> task_move (Action env) (Sender env = t_Provider t) (t_Status t) (t_Status t')"
      using task_moves_exec [of env c] assms(2) t(1) ok Tx by (auto simp: task_moves_def no_result_step_def aap_ok_def)
    have "\<not> on_payment_path (t_Status t')"
      using t'(3) task_move_path t assms(2) by (auto simp: Tx no_result_step_def)
    with t' t(2) aap_ok_exec [OF ok] Tx show ?thesis by (auto simp: unpaid_def task_kept_def)
  next
    case BlockEnd
    obtain st' where st': "fst (mEndBlock aap_New c) = upd_store c st'"
      "loadTask st' i = Inr (if t_Status t = ''TASK_EXECUTING'' \<and> 180 < wrap64 (now c - t_LastHeartbeat t)
            then t\<lparr>t_Status := ''TASK_FAILED''\<rparr> else t)"
      using heartbeat_timeout_load [OF ok, of i] t(1) by auto
    with t aap_ok_end [OF ok] BlockEnd show ?thesis by (auto simp: unpaid_def on_payment_path_def)
  qed (use assms(1) in simp)
qed

lemma unpaid_run:
  "unpaid i p (ctxStore c) \<Longrightarrow> (\<And>s. s \<in> set ss \<Longrightarrow> no_result_step p s) \<Longrightarrow> unpaid i p (ctxStore (run aap_New c ss))"
  by (induction ss arbitrary: c) (simp_all add: unpaid_step)



text \<open>The status of the task is not checked when a result is submitted: a completed, failed or
  disputed task too is then open for verification again.\<close>

lemma submitResult_reopens:
  assumes "DecodeJSONPayload SubmitResultPayload_fields zeroSubmitResult env = Some p"
    and "loadTask (ctxStore ctx) (sr_TaskID p) = Inr t" "t_Provider t = Sender env" "own_ids loadTask t_TaskID (ctxStore ctx)"
  shows "\<exists>t'. loadTask (ctxStore (fst (submitResult ctx env))) (sr_TaskID p) = Inr t' \<and> t_Status t' = ''TASK_SUBMIT_RESULT''"
  using assms by (simp add: submitResult_def tasks.load_save own_ids_def)

section \<open>The end of a block\<close>

interpretation aap_end: end_local aap_New aap_prefixes
  by (rule sweep_end_local [OF aap_mod.module_contract_axioms, where p = PrefixAAPTask, OF _ saveTask_def])
    (simp_all add: aap_prefixes_def aap_New_def aap_EndBlock_def)

end
