(* ===== verification/Weave.thy ===== *)
theory Weave
  imports Table "HOL-Library.While_Combinator"
begin

text \<open>
  \<open>internal/modules/weave/module.go\<close>: graphs of tasks. A graph is checked when it is created
  (\<open>ValidateDAG\<close>, a topological sort by in-degrees), started, and advanced at the end of every
  block. The loop of the topological sort is the while combinator, so that its termination is a
  theorem and not a bound.
\<close>

section \<open>Payloads\<close>

definition DAGNode_fields :: "(bytes \<times> DAGNode field) list" where
  "DAGNode_fields =
     [(''node_id'', fld dec_string n_NodeID n_NodeID_update), (''type'', fld dec_string n_Type n_Type_update),
      (''sub_task_id'', fld dec_string n_SubTaskID n_SubTaskID_update),
      (''listing_id'', fld dec_string n_ListingID n_ListingID_update),
      (''status'', fld dec_string n_Status n_Status_update),
      (''retry_count'', fld dec_uint32 n_RetryCount n_RetryCount_update),
      (''max_retries'', fld dec_uint32 n_MaxRetries n_MaxRetries_update),
      (''started_at'', fld dec_int64 n_StartedAt n_StartedAt_update),
      (''finished_at'', fld dec_int64 n_FinishedAt n_FinishedAt_update),
      (''output_ref'', fld dec_string n_OutputRef n_OutputRef_update)]"

definition zeroDAGNode :: DAGNode where
  "zeroDAGNode = \<lparr>n_NodeID = [], n_Type = [], n_SubTaskID = [], n_ListingID = [], n_Status = [],
     n_RetryCount = 0, n_MaxRetries = 0, n_StartedAt = 0, n_FinishedAt = 0, n_OutputRef = []\<rparr>"

definition DAGEdge_fields :: "(bytes \<times> DAGEdge field) list" where
  "DAGEdge_fields =
     [(''from_node'', fld dec_string e_FromNode e_FromNode_update),
      (''to_node'', fld dec_string e_ToNode e_ToNode_update),
      (''condition'', fld dec_string e_Condition e_Condition_update)]"

definition zeroDAGEdge :: DAGEdge where
  "zeroDAGEdge = \<lparr>e_FromNode = [], e_ToNode = [], e_Condition = []\<rparr>"

record createDAGPayload =
  cd_DAGID :: bytes
  cd_RootTask :: bytes
  cd_Nodes :: "DAGNode list"
  cd_Edges :: "DAGEdge list"
  cd_GlobalTimeoutSec :: uint64

definition createDAGPayload_fields :: "(bytes \<times> createDAGPayload field) list" where
  "createDAGPayload_fields =
     [(''dag_id'', fld dec_string cd_DAGID cd_DAGID_update),
      (''root_task'', fld dec_string cd_RootTask cd_RootTask_update),
      (''nodes'', fld (dec_list (dec_struct False DAGNode_fields) zeroDAGNode) cd_Nodes cd_Nodes_update),
      (''edges'', fld (dec_list (dec_struct False DAGEdge_fields) zeroDAGEdge) cd_Edges cd_Edges_update),
      (''global_timeout_sec'', fld dec_uint64 cd_GlobalTimeoutSec cd_GlobalTimeoutSec_update)]"

definition zeroCreateDAG :: createDAGPayload where
  "zeroCreateDAG = \<lparr>cd_DAGID = [], cd_RootTask = [], cd_Nodes = [], cd_Edges = [], cd_GlobalTimeoutSec = 0\<rparr>"

text \<open>\<open>simpleDAGPayload\<close> has the one field \<open>DAGID\<close>.\<close>

definition simpleDAGPayload_fields :: "(bytes \<times> bytes field) list" where
  "simpleDAGPayload_fields = [(''dag_id'', fld dec_string id id)]"

text \<open>The two payload types that handlers declare for themselves; their third field is a status and
  an output reference.\<close>

record nodePayload =
  np_DAGID :: bytes
  np_NodeID :: bytes
  np_Value :: bytes

definition nodePayload_fields :: "bytes \<Rightarrow> (bytes \<times> nodePayload field) list" where
  "nodePayload_fields third =
     [(''dag_id'', fld dec_string np_DAGID np_DAGID_update),
      (''node_id'', fld dec_string np_NodeID np_NodeID_update),
      (third, fld dec_string np_Value np_Value_update)]"

definition zeroNodePayload :: nodePayload where
  "zeroNodePayload = \<lparr>np_DAGID = [], np_NodeID = [], np_Value = []\<rparr>"

section \<open>Validation\<close>

fun node_loop :: "bytes list \<Rightarrow> DAGNode list \<Rightarrow> goerr option" where
  "node_loop seen [] = None"
| "node_loop seen (n # ns) =
     (if n_NodeID n = [] then Some (PlainError ''node_id must not be empty'')
      else if n_NodeID n \<in> set seen then Some (PlainError ''duplicate node_id: %s'')
      else node_loop (n_NodeID n # seen) ns)"

fun edge_loop :: "bytes list \<Rightarrow> DAGEdge list \<Rightarrow> (bytes \<Rightarrow> int) \<Rightarrow> (bytes \<Rightarrow> bytes list)
    \<Rightarrow> goerr + (bytes \<Rightarrow> int) \<times> (bytes \<Rightarrow> bytes list)" where
  "edge_loop nodeSet [] indeg adj = Inr (indeg, adj)"
| "edge_loop nodeSet (e # es) indeg adj =
     (if e_FromNode e \<notin> set nodeSet then Inl (PlainError ''edge from unknown node: %s'')
      else if e_ToNode e \<notin> set nodeSet then Inl (PlainError ''edge to unknown node: %s'')
      else if e_FromNode e = e_ToNode e then Inl (PlainError ''self loop: %s'')
      else edge_loop nodeSet es (indeg(e_ToNode e := indeg (e_ToNode e) + 1))
             (adj(e_FromNode e := adj (e_FromNode e) @ [e_ToNode e])))"

text \<open>One pass of the inner loop of the sort.\<close>

definition relax :: "bytes list \<times> (bytes \<Rightarrow> int) \<Rightarrow> bytes \<Rightarrow> bytes list \<times> (bytes \<Rightarrow> int)" where
  "relax s nxt = (case s of (q, indeg) \<Rightarrow>
     let indeg = indeg(nxt := indeg nxt - 1)
     in if indeg nxt = 0 then (sort (q @ [nxt]), indeg) else (q, indeg))"

definition kahn_step :: "(bytes \<Rightarrow> bytes list) \<Rightarrow> bytes list \<times> nat \<times> (bytes \<Rightarrow> int) \<Rightarrow> bytes list \<times> nat \<times> (bytes \<Rightarrow> int)" where
  "kahn_step adj s = (case s of (q, visited, indeg) \<Rightarrow>
     let cur = hd q; q = tl q; visited = visited + 1; nexts = sort (adj cur)
     in case foldl relax (q, indeg) nexts of (q, indeg) \<Rightarrow> (q, visited, indeg))"

definition kahn :: "(bytes \<Rightarrow> bytes list) \<Rightarrow> bytes list \<Rightarrow> (bytes \<Rightarrow> int) \<Rightarrow> nat option" where
  "kahn adj q indeg = map_option (\<lambda>(q, visited, indeg). visited)
     (while_option (\<lambda>(q, visited, indeg). q \<noteq> []) (kahn_step adj) (q, 0, indeg))"

text \<open>The keys of \<open>indeg\<close> are the node identifiers; the queue of the nodes without predecessors is
  sorted, so the order of the iteration over the map does not matter. A loop that does not end
  is a panic here; \<open>kahn_total\<close> shows that this does not happen.\<close>

definition ValidateDAG :: "TaskDAG \<Rightarrow> goerr option outcome" where
  "ValidateDAG dag =
     (if length (d_Nodes dag) < 2 then Ret (Some (PlainError ''dag must have at least 2 nodes''))
      else case node_loop [] (d_Nodes dag) of Some e \<Rightarrow> Ret (Some e)
      | None \<Rightarrow>
        let ids = map n_NodeID (d_Nodes dag) in
        (case edge_loop ids (d_Edges dag) (\<lambda>_. 0) (\<lambda>_. []) of Inl e \<Rightarrow> Ret (Some e)
         | Inr (indeg, adj) \<Rightarrow>
           (case kahn adj (sort (filter (\<lambda>i. indeg i = 0) ids)) indeg of None \<Rightarrow> Panic
            | Some visited \<Rightarrow>
              if visited \<noteq> length (d_Nodes dag) then Ret (Some (PlainError ''cycle detected''))
              else if d_GlobalTimeoutSec dag = 0 then Ret (Some (PlainError ''global_timeout_sec must be > 0''))
              else Ret None)))"

section \<open>Handlers\<close>

definition DAGKey :: "bytes \<Rightarrow> bytes" where
  "DAGKey i = PrefixWeaveDAG @ i"

definition saveDAG :: "Store \<Rightarrow> TaskDAG \<Rightarrow> Store" where
  "saveDAG st dag = Set st (DAGKey (d_DAGID dag)) (VDAG dag)"

definition loadDAG :: "Store \<Rightarrow> bytes \<Rightarrow> goerr + TaskDAG" where
  "loadDAG st i = load_rec un_dag (NewAppError (CodeWEAVEBase + 1) ''dag not found'')
     (NewAppError CodeDecodeFail ''decode dag: %v'') st (DAGKey i)"

definition weave_error :: "bytes \<Rightarrow> goerr" where
  "weave_error msg = NewAppError (CodeWEAVEBase + 1) msg"

text \<open>\<open>fmt.Sprintf(...)[:16]\<close> panics when the text is shorter.\<close>

definition createDAG :: handler where
  "createDAG ctx env = (case DecodeJSONPayload createDAGPayload_fields zeroCreateDAG env of
     None \<Rightarrow> (ctx, Err (weave_error ''decode create_dag: %v''))
   | Some p \<Rightarrow>
     let stamp = itoa 16 (UnixNano (ctxBlockTime ctx)) in
     if cd_DAGID p = [] \<and> length stamp < 16 then (ctx, Panic)
     else let dag = \<lparr>d_DAGID = (if cd_DAGID p = [] then take 16 stamp else cd_DAGID p), d_RootTask = cd_RootTask p,
                d_Orchestrator = Sender env, d_Nodes = cd_Nodes p, d_Edges = cd_Edges p, d_Status = ''DAG_PENDING'',
                d_CreatedAt = now ctx, d_StartedAt = 0, d_FinishedAt = 0, d_GlobalTimeoutSec = cd_GlobalTimeoutSec p\<rparr>
          in case ValidateDAG dag of
               Ret None \<Rightarrow> (upd_store ctx (saveDAG (ctxStore ctx) dag),
                 Ret (SuccessResult (3000 + 500 * of_nat (length (d_Nodes dag))) []))
             | Ret (Some e) \<Rightarrow> (ctx, Err (NewAppError CodeWEAVEBase ''invalid dag: %v''))
             | Err e \<Rightarrow> (ctx, Err e)
             | Panic \<Rightarrow> (ctx, Panic))"

definition startDAG :: handler where
  "startDAG ctx env = (case DecodeJSONPayload simpleDAGPayload_fields [] env of
     None \<Rightarrow> (ctx, Err (weave_error ''decode start_dag: %v''))
   | Some i \<Rightarrow>
     (case loadDAG (ctxStore ctx) i of Inl e \<Rightarrow> (ctx, Err e)
      | Inr dag \<Rightarrow>
        if d_Status dag \<noteq> ''DAG_PENDING'' then (ctx, Err (weave_error ''dag status %s cannot start''))
        else (upd_store ctx (saveDAG (ctxStore ctx) (dag\<lparr>d_Status := ''DAG_RUNNING'', d_StartedAt := now ctx,
                d_Nodes := map (\<lambda>n. n\<lparr>n_Status := ''NODE_PENDING''\<rparr>) (d_Nodes dag)\<rparr>)),
              Ret (SuccessResult 2000 []))))"

text \<open>The loop that changes the first node with the given identifier.\<close>

fun change_node :: "bytes \<Rightarrow> (DAGNode \<Rightarrow> DAGNode) \<Rightarrow> DAGNode list \<Rightarrow> DAGNode list" where
  "change_node i f [] = []"
| "change_node i f (n # ns) = (if n_NodeID n = i then f n # ns else n # change_node i f ns)"

definition updateNodeStatus :: handler where
  "updateNodeStatus ctx env = (case DecodeJSONPayload (nodePayload_fields ''status'') zeroNodePayload env of
     None \<Rightarrow> (ctx, Err (weave_error ''decode update_node_status: %v''))
   | Some p \<Rightarrow>
     (case loadDAG (ctxStore ctx) (np_DAGID p) of Inl e \<Rightarrow> (ctx, Err e)
      | Inr dag \<Rightarrow> (upd_store ctx (saveDAG (ctxStore ctx) (dag\<lparr>d_Nodes := change_node (np_NodeID p)
            (\<lambda>n. n\<lparr>n_Status := np_Value p, n_FinishedAt := now ctx\<rparr>) (d_Nodes dag)\<rparr>)),
          Ret (SuccessResult 1000 []))))"

definition cancelDAG :: handler where
  "cancelDAG ctx env = (case DecodeJSONPayload simpleDAGPayload_fields [] env of
     None \<Rightarrow> (ctx, Err (weave_error ''decode cancel_dag: %v''))
   | Some i \<Rightarrow>
     (case loadDAG (ctxStore ctx) i of Inl e \<Rightarrow> (ctx, Err e)
      | Inr dag \<Rightarrow> (upd_store ctx (saveDAG (ctxStore ctx) (dag\<lparr>d_Status := ''DAG_CANCELED'', d_FinishedAt := now ctx\<rparr>)),
          Ret (SuccessResult 2000 []))))"

definition submitNodeOutput :: handler where
  "submitNodeOutput ctx env = (case DecodeJSONPayload (nodePayload_fields ''output_ref'') zeroNodePayload env of
     None \<Rightarrow> (ctx, Err (weave_error ''decode submit_node_output: %v''))
   | Some p \<Rightarrow>
     (case loadDAG (ctxStore ctx) (np_DAGID p) of Inl e \<Rightarrow> (ctx, Err e)
      | Inr dag \<Rightarrow> (upd_store ctx (saveDAG (ctxStore ctx) (dag\<lparr>d_Nodes := change_node (np_NodeID p)
            (\<lambda>n. n\<lparr>n_OutputRef := np_Value p, n_Status := ''NODE_COMPLETED'', n_FinishedAt := now ctx\<rparr>) (d_Nodes dag)\<rparr>)),
          Ret (SuccessResult 2000 []))))"

definition progress_node :: "int64 \<Rightarrow> DAGNode \<Rightarrow> DAGNode" where
  "progress_node t n =
     (let n = (if n_Status n = ''NODE_PENDING'' then n\<lparr>n_Status := ''NODE_READY''\<rparr> else n)
      in if n_Status n = ''NODE_READY'' then n\<lparr>n_Status := ''NODE_RUNNING'', n_StartedAt := t\<rparr>
         else if n_Status n = ''NODE_RUNNING'' then n\<lparr>n_Status := ''NODE_COMPLETED'', n_FinishedAt := t\<rparr>
         else n)"

definition progressDag :: "TaskDAG \<Rightarrow> int64 \<Rightarrow> TaskDAG" where
  "progressDag dag t =
     (let dag = dag\<lparr>d_Nodes := map (progress_node t) (d_Nodes dag)\<rparr>;
          allDone = list_all (\<lambda>n. n_Status n = ''NODE_COMPLETED'' \<or> n_Status n = ''NODE_SKIPPED'') (d_Nodes dag)
      in if allDone then dag\<lparr>d_Status := ''DAG_COMPLETED'', d_FinishedAt := t\<rparr> else dag)"

text \<open>\<open>int64(dag.GlobalTimeoutSec)\<close> reads the 64 bits as a signed number.\<close>

definition advance_dag :: "int64 \<Rightarrow> TaskDAG \<Rightarrow> (TaskDAG \<times> Event list) option" where
  "advance_dag t dag =
     (if d_Status dag \<noteq> ''DAG_RUNNING'' then None
      else if 0 < d_GlobalTimeoutSec dag \<and> sint (d_GlobalTimeoutSec dag) < wrap64 (t - d_StartedAt dag)
      then Some (dag\<lparr>d_Status := ''DAG_FAILED'', d_FinishedAt := t\<rparr>,
             [mkEvent ''DAGFailed'' [(''dag_id'', d_DAGID dag), (''reason'', ''global_timeout'')]])
      else let dag = progressDag dag t
           in Some (dag, if d_Status dag = ''DAG_COMPLETED'' then [mkEvent ''DAGCompleted'' [(''dag_id'', d_DAGID dag)]] else []))"

definition weave_EndBlock :: "Context \<Rightarrow> Context \<times> Event list outcome" where
  "weave_EndBlock ctx = (case sweep saveDAG (advance_dag (now ctx))
       (decoded un_dag (IteratePrefix (ctxStore ctx) PrefixWeaveDAG)) (ctxStore ctx) of
     (st, out) \<Rightarrow> (upd_store ctx st, Ret out))"

definition weave_handlers :: "(bytes \<times> handler) list" where
  "weave_handlers = [(''create_dag'', createDAG), (''start_dag'', startDAG), (''update_node_status'', updateNodeStatus),
     (''cancel_dag'', cancelDAG), (''submit_node_output'', submitNodeOutput)]"

definition weave_New :: Module where
  "weave_New = mkModule ''weave'' weave_handlers weave_EndBlock"

lemmas weave_exec = weave_New_def mkModule_sel weave_handlers_def dispatch

section \<open>The topological sort\<close>

lemma count_list_sort [simp]: "count_list (sort xs) x = count_list xs x"
  by (metis count_mset mset_sort)

text \<open>The inner loop lowers the in-degrees by the number of edges and queues what reaches zero.\<close>

lemma relax_all:
  "foldl relax (q, d) ns = (q', d') \<Longrightarrow> distinct q \<Longrightarrow> (\<And>x. x \<in> set q \<Longrightarrow> d x = 0) \<Longrightarrow>
   d' = (\<lambda>x. d x - int (count_list ns x)) \<and> distinct q'
   \<and> set q' = set q \<union> {x. 0 < d x \<and> d x \<le> int (count_list ns x)}"
proof (induction ns arbitrary: q' d' rule: rev_induct)
  case Nil
  then show ?case by auto
next
  case (snoc y ns)
  obtain p e where pe: "foldl relax (q, d) ns = (p, e)" by fastforce
  have e: "e = (\<lambda>x. d x - int (count_list ns x))" and dis: "distinct p"
    and p: "set p = set q \<union> {x. 0 < d x \<and> d x \<le> int (count_list ns x)}"
    using snoc.IH [OF pe snoc.prems(2,3)] by auto
  have last: "relax (p, e) y = (q', d')" using snoc.prems(1) by (simp add: pe)
  have d': "d' = e(y := e y - 1)" and q': "q' = (if e y - 1 = 0 then sort (p @ [y]) else p)"
    using last by (auto simp: relax_def Let_def split: if_splits)
  have new: "y \<notin> set p" if "e y = 1"
    using that snoc.prems(3) [of y] by (auto simp: e p)
  have "set q' = set q \<union> {x. 0 < d x \<and> d x \<le> int (count_list (ns @ [y]) x)}"
    unfolding q' by (auto simp: p e)
  moreover have "d' = (\<lambda>x. d x - int (count_list (ns @ [y]) x))" by (auto simp: d' e)
  ultimately show ?case using dis new by (auto simp: q')
qed

definition edge_rel :: "DAGEdge list \<Rightarrow> (bytes \<times> bytes) set" where
  "edge_rel es = (\<lambda>e. (e_FromNode e, e_ToNode e)) ` set es"

text \<open>The edges into \<open>x\<close> that do not start in \<open>D\<close>.\<close>

definition indegree :: "DAGEdge list \<Rightarrow> bytes set \<Rightarrow> bytes \<Rightarrow> int" where
  "indegree es D x = int (length (filter (\<lambda>e. e_ToNode e = x \<and> e_FromNode e \<notin> D) es))"

definition targets :: "DAGEdge list \<Rightarrow> bytes \<Rightarrow> bytes list" where
  "targets es u = map e_ToNode (filter (\<lambda>e. e_FromNode e = u) es)"

lemma indegree_insert:
  "u \<notin> D \<Longrightarrow> indegree es (insert u D) x = indegree es D x - int (count_list (targets es u) x)"
  by (induction es) (auto simp: indegree_def targets_def)

lemma count_targets_le: "u \<notin> D \<Longrightarrow> int (count_list (targets es u) x) \<le> indegree es D x"
  by (induction es) (auto simp: indegree_def targets_def)

lemma indegree_0: "indegree es D x = 0 \<longleftrightarrow> (\<forall>u. (u, x) \<in> edge_rel es \<longrightarrow> u \<in> D)"
  by (auto simp: indegree_def edge_rel_def filter_empty_conv)

lemma indegree_nonneg: "0 \<le> indegree es D x"
  by (simp add: indegree_def)

text \<open>The invariant: \<open>D\<close> is the set of nodes taken from the queue, numbered in the order in which
  they were taken.\<close>

definition kahn_inv :: "bytes set \<Rightarrow> DAGEdge list \<Rightarrow> bytes list \<times> nat \<times> (bytes \<Rightarrow> int) \<Rightarrow> bool" where
  "kahn_inv N es s = (case s of (q, v, d) \<Rightarrow> \<exists>D rank. finite D \<and> D \<subseteq> N \<and> v = card D \<and> distinct q
     \<and> set q \<inter> D = {} \<and> d = indegree es D \<and> (\<forall>x\<in>N. x \<in> D \<union> set q \<longleftrightarrow> d x = 0) \<and> set q \<subseteq> N
     \<and> (\<forall>x\<in>D. rank x < card D) \<and> (\<forall>u x. (u, x) \<in> edge_rel es \<longrightarrow> x \<in> D \<longrightarrow> u \<in> D \<and> rank u < (rank x :: nat)))"

lemma kahn_invI:
  assumes "finite D" "D \<subseteq> N" "v = card D" "distinct q" "set q \<inter> D = {}" "d = indegree es D"
    "\<And>x. x \<in> N \<Longrightarrow> x \<in> D \<union> set q \<longleftrightarrow> d x = 0" "set q \<subseteq> N" "\<And>x. x \<in> D \<Longrightarrow> rank x < card D"
    "\<And>u x. (u, x) \<in> edge_rel es \<Longrightarrow> x \<in> D \<Longrightarrow> u \<in> D \<and> rank u < (rank x :: nat)"
  shows "kahn_inv N es (q, v, d)"
  unfolding kahn_inv_def prod.case by (intro exI [of _ D] exI [of _ rank] conjI ballI allI impI) (simp_all only: assms)

lemma kahn_invE:
  assumes "kahn_inv N es (q, v, d)"
  obtains D rank where "finite D" "D \<subseteq> N" "v = card D" "distinct q" "set q \<inter> D = {}" "d = indegree es D"
    "\<And>x. x \<in> N \<Longrightarrow> x \<in> D \<union> set q \<longleftrightarrow> d x = 0" "set q \<subseteq> N" "\<And>x. x \<in> D \<Longrightarrow> rank x < card D"
    "\<And>u x. (u, x) \<in> edge_rel es \<Longrightarrow> x \<in> D \<Longrightarrow> u \<in> D \<and> rank u < (rank x :: nat)"
proof -
  from assms obtain D rank where *: "finite D \<and> D \<subseteq> N \<and> v = card D \<and> distinct q
     \<and> set q \<inter> D = {} \<and> d = indegree es D \<and> (\<forall>x\<in>N. x \<in> D \<union> set q \<longleftrightarrow> d x = 0) \<and> set q \<subseteq> N
     \<and> (\<forall>x\<in>D. rank x < card D) \<and> (\<forall>u x. (u, x) \<in> edge_rel es \<longrightarrow> x \<in> D \<longrightarrow> u \<in> D \<and> rank u < (rank x :: nat))"
    unfolding kahn_inv_def prod.case by (elim exE) (rule that)
  show thesis by (rule that [of D rank]; use * in blast)
qed

lemma kahn_inv_step:
  assumes inv: "kahn_inv N es (q, v, d)" and q: "q \<noteq> []"
    and fin: "finite N" and into: "\<And>u x. (u, x) \<in> edge_rel es \<Longrightarrow> x \<in> N"
  shows "kahn_inv N es (kahn_step (targets es) (q, v, d))"
proof -
  obtain c r where qc: "q = c # r" using q by (cases q) auto
  from inv obtain D rank where D: "finite D" "D \<subseteq> N" "v = card D" "set q \<inter> D = {}" "d = indegree es D"
    "\<And>x. x \<in> N \<Longrightarrow> x \<in> D \<union> set q \<longleftrightarrow> d x = 0" "set q \<subseteq> N" "distinct q"
    and rank: "\<And>x. x \<in> D \<Longrightarrow> rank x < card D"
      "\<And>u x. (u, x) \<in> edge_rel es \<Longrightarrow> x \<in> D \<Longrightarrow> u \<in> D \<and> rank u < (rank x :: nat)"
    by (rule kahn_invE) (rule that)
  have c: "c \<notin> D" "c \<in> N" "c \<notin> set r" "distinct r" "d c = 0" using D qc by auto
  have zero: "d x = 0" if "x \<in> set r" for x using D qc that by auto
  obtain q' d' where run: "foldl relax (r, d) (sort (targets es c)) = (q', d')" by fastforce
  note rel = relax_all [OF run c(4) zero, simplified]
  have d': "d' = indegree es (insert c D)" using rel D(5) indegree_insert [OF c(1)] by auto
  have le: "int (count_list (targets es c) x) \<le> d x" for x unfolding D(5) by (rule count_targets_le [OF c(1)])
  have pos: "0 < d x \<Longrightarrow> x \<in> N" for x
    using into indegree_0 [of es D x] unfolding D(5) by force
  have sq: "set q' = set r \<union> {x. 0 < d x \<and> d' x = 0}"
    using rel le by (auto simp: order.antisym)
  have iff: "x \<in> insert c D \<union> set q' \<longleftrightarrow> d' x = 0" if "x \<in> N" for x
  proof -
    have "d x = 0 \<Longrightarrow> d' x = 0"
      using le [of x] rel indegree_nonneg [of es D x] by (simp add: D(5))
    moreover have "0 \<le> d x" unfolding D(5) by (rule indegree_nonneg)
    ultimately show ?thesis using D(6) [OF that] by (auto simp: sq qc)
  qed
  have pre: "u \<in> D" if "(u, c) \<in> edge_rel es" for u using indegree_0 [of es D c] c(5) that by (auto simp: D(5))
  let ?rank = "rank(c := card D)"
  have "kahn_inv N es (q', v + 1, d')"
  proof (rule kahn_invI [where D = "insert c D" and rank = ?rank])
    show "?rank x < card (insert c D)" if "x \<in> insert c D" for x
      using that rank(1) D(1) c(1) by (auto intro: less_SucI)
    show "u \<in> insert c D \<and> ?rank u < ?rank x" if "(u, x) \<in> edge_rel es" "x \<in> insert c D" for u x
      using that rank pre c(1) by (cases "x = c") fastforce+
    have "d x = 0" if "x \<in> insert c D" for x using that D(2,6) c(2,5) by auto
    then show "set q' \<inter> insert c D = {}" using sq c(1,3) D(4) qc by auto
    show "distinct q'" "set q' \<subseteq> N" using rel sq D(7) pos by (auto simp: qc)
  qed (use D(1-3) c d' iff in auto)
  then show ?thesis by (simp add: kahn_step_def qc run)
qed

lemma kahn_measure:
  assumes inv: "kahn_inv N es (q, v, d)" and q: "q \<noteq> []" and fin: "finite N"
    and inv': "kahn_inv N es (kahn_step adj (q, v, d))"
  shows "card N - fst (snd (kahn_step adj (q, v, d))) < card N - v"
proof -
  have v': "fst (snd (kahn_step adj (q, v, d))) = v + 1"
    by (simp add: kahn_step_def Let_def split: prod.split)
  obtain q' d' where "kahn_step adj (q, v, d) = (q', v + 1, d')"
    using v' by (metis prod.collapse)
  with inv' obtain D where "D \<subseteq> N" "v + 1 = card D" unfolding kahn_inv_def by auto
  then have "v + 1 \<le> card N" using card_mono [OF fin] by metis
  then show ?thesis using v' by simp
qed

lemma kahn_runs:
  assumes inv: "kahn_inv N es (q, 0, d)" and fin: "finite N" and into: "\<And>u x. (u, x) \<in> edge_rel es \<Longrightarrow> x \<in> N"
  shows "\<exists>v d'. while_option (\<lambda>(q, v, d). q \<noteq> []) (kahn_step (targets es)) (q, 0, d) = Some ([], v, d')
    \<and> kahn_inv N es ([], v, d')"
proof -
  let ?b = "\<lambda>(q, v :: nat, d :: bytes \<Rightarrow> int). q \<noteq> ([] :: bytes list)" and ?c = "kahn_step (targets es)"
  have step: "kahn_inv N es (?c s)" if "kahn_inv N es s" "?b s" for s
    using kahn_inv_step [OF _ _ fin into] that by (cases s) auto
  have "\<exists>t. while_option ?b ?c (q, 0, d) = Some t"
  proof (rule measure_while_option_Some [where P = "kahn_inv N es" and f = "\<lambda>s. card N - fst (snd s)"])
    fix s assume s: "kahn_inv N es s" "?b s"
    then show "kahn_inv N es (?c s) \<and> card N - fst (snd (?c s)) < card N - fst (snd s)"
      using step [OF s] kahn_measure [OF _ _ fin] by (cases s) auto
  qed (rule inv)
  then obtain q' v d' where w: "while_option ?b ?c (q, 0, d) = Some (q', v, d')" by auto
  have "kahn_inv N es (q', v, d')"
    using while_option_rule [where P = "kahn_inv N es", OF step w inv] by simp
  moreover have "q' = []" using while_option_stop [OF w] by simp
  ultimately show ?thesis using w by blast
qed

lemma kahn_acyclic:
  assumes inv: "kahn_inv N es ([], v, d)" and fin: "finite N" and into: "edge_rel es \<subseteq> N \<times> N"
  shows "v = card N \<longleftrightarrow> acyclic (edge_rel es)"
proof -
  from inv obtain D rank where D: "finite D" "D \<subseteq> N" "v = card D" "d = indegree es D" "\<And>x. x \<in> N \<Longrightarrow> x \<in> D \<longleftrightarrow> d x = 0"
    and rank: "\<And>u x. (u, x) \<in> edge_rel es \<Longrightarrow> x \<in> D \<Longrightarrow> u \<in> D \<and> rank u < (rank x :: nat)"
    by (rule kahn_invE) (rule that, simp_all)
  show ?thesis
  proof
    assume "v = card N"
    then have "D = N" using D fin by (simp add: card_subset_eq)
    then have "edge_rel es \<subseteq> measure rank" using rank into by (auto simp: subset_iff)
    then show "acyclic (edge_rel es)" by (rule acyclic_subset [OF wf_acyclic [OF wf_measure]])
  next
    assume ac: "acyclic (edge_rel es)"
    have "finite (edge_rel es)" by (simp add: edge_rel_def)
    then have wf: "wf (edge_rel es)" using ac by (rule finite_acyclic_wf)
    have "N \<subseteq> D"
    proof
      fix x assume "x \<in> N"
      then show "x \<in> D"
      proof (induction x rule: wf_induct_rule [OF wf])
        case (1 x)
        then have "u \<in> D" if "(u, x) \<in> edge_rel es" for u using that into by auto
        then have "indegree es D x = 0" by (simp add: indegree_0)
        then show ?case using D(4,5) 1(2) by simp
      qed
    qed
    then show "v = card N" using D(2,3) by auto
  qed
qed

section \<open>What a valid graph is\<close>

definition dag_valid :: "TaskDAG \<Rightarrow> bool" where
  "dag_valid dag \<longleftrightarrow> 2 \<le> length (d_Nodes dag) \<and> distinct (map n_NodeID (d_Nodes dag))
     \<and> [] \<notin> set (map n_NodeID (d_Nodes dag))
     \<and> edge_rel (d_Edges dag) \<subseteq> set (map n_NodeID (d_Nodes dag)) \<times> set (map n_NodeID (d_Nodes dag))
     \<and> acyclic (edge_rel (d_Edges dag)) \<and> d_GlobalTimeoutSec dag \<noteq> 0"

lemma node_loop_None:
  "node_loop seen ns = None \<longleftrightarrow> [] \<notin> set (map n_NodeID ns) \<and> distinct (map n_NodeID ns)
     \<and> set seen \<inter> set (map n_NodeID ns) = {}"
  by (induction seen ns rule: node_loop.induct) auto

lemma edge_rel_Cons: "edge_rel (e # es) = insert (e_FromNode e, e_ToNode e) (edge_rel es)"
  by (simp add: edge_rel_def)

lemma edge_loop_Inr:
  "edge_loop ids es d a = Inr (d', a') \<longleftrightarrow>
     edge_rel es \<subseteq> set ids \<times> set ids \<and> (\<forall>x. (x, x) \<notin> edge_rel es)
     \<and> d' = (\<lambda>x. d x + indegree es {} x) \<and> a' = (\<lambda>u. a u @ targets es u)"
proof (induction es arbitrary: d a)
  case Nil
  then show ?case by (auto simp: edge_rel_def indegree_def targets_def)
next
  case (Cons e es)
  have 1: "(\<lambda>x. (d(e_ToNode e := d (e_ToNode e) + 1)) x + indegree es {} x) = (\<lambda>x. d x + indegree (e # es) {} x)"
    by (auto simp: indegree_def)
  have 2: "(\<lambda>u. (a(e_FromNode e := a (e_FromNode e) @ [e_ToNode e])) u @ targets es u) = (\<lambda>u. a u @ targets (e # es) u)"
    by (auto simp: targets_def)
  show ?case
    by (simp only: edge_loop.simps Cons.IH 1 2 edge_rel_Cons split: if_split) auto
qed

lemma edge_loop_Inl: "edge_loop ids es d a = Inl e \<Longrightarrow>
    \<not> (edge_rel es \<subseteq> set ids \<times> set ids \<and> (\<forall>x. (x, x) \<notin> edge_rel es))"
  using edge_loop_Inr [of ids es d a] by force

lemma kahn_start:
  assumes "distinct ids"
  shows "kahn_inv (set ids) es (sort (filter (\<lambda>i. indegree es {} i = 0) ids), 0, indegree es {})"
  by (rule kahn_invI [where D = "{}" and rank = "\<lambda>_. 0"]) (use assms in auto)

lemma kahn_decides:
  assumes "distinct ids" and edges: "edge_rel es \<subseteq> set ids \<times> set ids"
  shows "\<exists>v. kahn (targets es) (sort (filter (\<lambda>i. indegree es {} i = 0) ids)) (indegree es {}) = Some v
    \<and> (v = length ids \<longleftrightarrow> acyclic (edge_rel es))"
proof -
  let ?q = "sort (filter (\<lambda>i. indegree es {} i = 0) ids)"
  obtain v d where w: "while_option (\<lambda>(q, v, d). q \<noteq> []) (kahn_step (targets es)) (?q, 0, indegree es {}) = Some ([], v, d)"
    and inv: "kahn_inv (set ids) es ([], v, d)"
    using kahn_runs [OF kahn_start [OF assms(1)], of es] edges by blast
  have "v = card (set ids) \<longleftrightarrow> acyclic (edge_rel es)" by (rule kahn_acyclic [OF inv _ edges]) simp
  then show ?thesis using w assms(1) by (simp add: kahn_def distinct_card)
qed

lemma acyclic_no_loop: "acyclic r \<Longrightarrow> (x, x) \<notin> r"
  by (auto simp: acyclic_def)

lemma ValidateDAG_valid: "ValidateDAG dag = Ret None \<longleftrightarrow> dag_valid dag" "ValidateDAG dag \<noteq> Panic"
proof -
  let ?ids = "map n_NodeID (d_Nodes dag)" and ?es = "d_Edges dag"
  let ?ok = "edge_rel ?es \<subseteq> set ?ids \<times> set ?ids \<and> (\<forall>x. (x, x) \<notin> edge_rel ?es)"
  have "(ValidateDAG dag = Ret None \<longleftrightarrow> dag_valid dag) \<and> ValidateDAG dag \<noteq> Panic"
  proof (cases "2 \<le> length ?ids \<and> node_loop [] (d_Nodes dag) = None \<and> ?ok")
    case True
    then have pre: "distinct ?ids" "[] \<notin> set ?ids" "edge_rel ?es \<subseteq> set ?ids \<times> set ?ids"
      and e: "edge_loop ?ids ?es (\<lambda>_. 0) (\<lambda>_. []) = Inr (indegree ?es {}, targets ?es)"
      by (auto simp: node_loop_None edge_loop_Inr)
    obtain v where "kahn (targets ?es) (sort (filter (\<lambda>i. indegree ?es {} i = 0) ?ids)) (indegree ?es {}) = Some v"
      "v = length ?ids \<longleftrightarrow> acyclic (edge_rel ?es)"
      using kahn_decides [OF pre(1,3)] by auto
    with True pre e show ?thesis by (auto simp: ValidateDAG_def dag_valid_def)
  next
    case False
    then have "\<not> dag_valid dag" by (auto simp: dag_valid_def node_loop_None dest: acyclic_no_loop)
    moreover have "\<exists>x. ValidateDAG dag = Ret (Some x)"
      using False edge_loop_Inr [of ?ids ?es "\<lambda>_. 0" "\<lambda>_. []"]
      by (auto simp: ValidateDAG_def Let_def split: option.split sum.split)
    ultimately show ?thesis by auto
  qed
  then show "ValidateDAG dag = Ret None \<longleftrightarrow> dag_valid dag" "ValidateDAG dag \<noteq> Panic" by auto
qed

text \<open>C12: the validation always ends and accepts a graph exactly when it has at least two nodes with
  distinct, non-empty identifiers, edges between its nodes only, no cycle, and a global timeout.\<close>

theorem ValidateDAG_iff:
  "(ValidateDAG dag = Ret None \<longleftrightarrow>
      2 \<le> length (d_Nodes dag) \<and> distinct (map n_NodeID (d_Nodes dag)) \<and> [] \<notin> set (map n_NodeID (d_Nodes dag))
      \<and> edge_rel (d_Edges dag) \<subseteq> set (map n_NodeID (d_Nodes dag)) \<times> set (map n_NodeID (d_Nodes dag))
      \<and> acyclic (edge_rel (d_Edges dag)) \<and> d_GlobalTimeoutSec dag \<noteq> 0)
   \<and> ValidateDAG dag \<noteq> Panic"
  using ValidateDAG_valid [of dag] by (simp add: dag_valid_def)

section \<open>Contract and invariant\<close>

interpretation dags: table loadDAG saveDAG d_DAGID DAGKey PrefixWeaveDAG
  by (rule tableI, rule loadDAG_def, rule saveDAG_def) (simp_all add: DAGKey_def inj_def)

definition weave_prefixes :: "bytes list" where
  "weave_prefixes = [PrefixWeaveDAG]"

lemma saveDAG_confined: "confined weave_prefixes c (upd_store c (saveDAG (ctxStore c) dag))"
  by (rule dags.save_confined) (simp add: weave_prefixes_def)

lemmas weave_handler_defs = createDAG_def startDAG_def updateNodeStatus_def cancelDAG_def submitNodeOutput_def

lemma weave_handlers_confined: "handlers_confined weave_prefixes weave_handlers"
  unfolding weave_handlers_def handlers_confined_simps
  by (intro conjI allI; simp add: weave_handler_defs Let_def saveDAG_confined
      split: option.split sum.split outcome.split)

lemma weave_EndBlock_store:
  "ctxStore (fst (weave_EndBlock c)) = fst (sweep saveDAG (advance_dag (now c))
     (decoded un_dag (IteratePrefix (ctxStore c) PrefixWeaveDAG)) (ctxStore c))"
  by (simp add: weave_EndBlock_def split: prod.split)

lemma weave_EndBlock_confined: "confined weave_prefixes c (fst (weave_EndBlock c))"
  using dags.sweep_confined [of weave_prefixes c]
  by (auto simp: weave_EndBlock_def weave_prefixes_def split: prod.split) (metis fst_conv)

interpretation weave_mod: module_contract weave_New weave_prefixes
  unfolding weave_New_def by (rule mkModule_contract [OF weave_handlers_confined weave_EndBlock_confined])

definition weave_ok :: "Store \<Rightarrow> bool" where
  "weave_ok st \<longleftrightarrow> store_inv st \<and> own_ids loadDAG d_DAGID st \<and> (\<forall>i dag. loadDAG st i = Inr dag \<longrightarrow> dag_valid dag)"

lemma weave_ok_save: "weave_ok st \<Longrightarrow> dag_valid dag \<Longrightarrow> weave_ok (saveDAG st dag)"
  by (auto simp: weave_ok_def dags.save_inv dags.own_ids_save dags.load_save)

lemma change_node_ids: "(\<And>n. n_NodeID (f n) = n_NodeID n) \<Longrightarrow> map n_NodeID (change_node i f ns) = map n_NodeID ns"
  by (induction i f ns rule: change_node.induct) auto

lemma dag_valid_cong:
  "dag_valid dag \<Longrightarrow> map n_NodeID (d_Nodes dag') = map n_NodeID (d_Nodes dag) \<Longrightarrow> d_Edges dag' = d_Edges dag \<Longrightarrow>
   d_GlobalTimeoutSec dag' = d_GlobalTimeoutSec dag \<Longrightarrow> dag_valid dag'"
  unfolding dag_valid_def by (metis length_map)

lemma weave_ok_exec:
  assumes "weave_ok (ctxStore c)"
  shows "weave_ok (ctxStore (fst (mExecuteTx weave_New c env)))"
proof -
  have upd: "weave_ok (saveDAG (ctxStore c) dag')"
    if "loadDAG (ctxStore c) i = Inr dag" "map n_NodeID (d_Nodes dag') = map n_NodeID (d_Nodes dag)"
      "d_Edges dag' = d_Edges dag" "d_GlobalTimeoutSec dag' = d_GlobalTimeoutSec dag" for i dag dag'
  proof -
    have v: "dag_valid dag" using that(1) assms by (simp add: weave_ok_def)
    show ?thesis by (rule weave_ok_save [OF assms dag_valid_cong [OF v that(2-4)]])
  qed
  have create: "weave_ok (ctxStore (fst (createDAG c env)))"
    using assms ValidateDAG_valid(1)
    by (auto simp: createDAG_def Let_def intro!: weave_ok_save split: option.split outcome.split)
  show ?thesis
    using assms create upd change_node_ids
    by (auto simp: weave_exec startDAG_def updateNodeStatus_def cancelDAG_def submitNodeOutput_def o_def
        split: option.split sum.split)
qed

lemma progressDag_same [simp]:
  "map n_NodeID (d_Nodes (progressDag dag t)) = map n_NodeID (d_Nodes dag)" "d_Edges (progressDag dag t) = d_Edges dag"
  "d_GlobalTimeoutSec (progressDag dag t) = d_GlobalTimeoutSec dag" "d_DAGID (progressDag dag t) = d_DAGID dag"
  by (simp_all add: progressDag_def progress_node_def Let_def)

lemma advance_dag_same:
  assumes "advance_dag t dag = Some (dag', ev)"
  shows "d_DAGID dag' = d_DAGID dag" "dag_valid dag \<Longrightarrow> dag_valid dag'"
proof -
  have *: "map n_NodeID (d_Nodes dag') = map n_NodeID (d_Nodes dag)" "d_Edges dag' = d_Edges dag"
    "d_GlobalTimeoutSec dag' = d_GlobalTimeoutSec dag" "d_DAGID dag' = d_DAGID dag"
    using assms by (auto simp: advance_dag_def Let_def split: if_splits)
  then show "d_DAGID dag' = d_DAGID dag" "dag_valid dag \<Longrightarrow> dag_valid dag'" by (simp_all add: dag_valid_cong)
qed

lemmas dag_mem = decoded_mem [OF _ loadDAG_def DAGKey_def]

lemma weave_EndBlock_load:
  assumes "store_inv (ctxStore c)" "own_ids loadDAG d_DAGID (ctxStore c)"
  shows "loadDAG (ctxStore (fst (mEndBlock weave_New c))) i = (case loadDAG (ctxStore c) i of Inl e \<Rightarrow> Inl e
    | Inr dag \<Rightarrow> Inr (case advance_dag (now c) dag of None \<Rightarrow> dag | Some (dag', ev) \<Rightarrow> dag'))"
  unfolding weave_New_def mkModule_sel weave_EndBlock_store
  by (rule dags.sweep_all [OF assms(2) dag_mem [OF assms(1)]]) (rule advance_dag_same(1))

lemma weave_ok_end:
  assumes "weave_ok (ctxStore c)"
  shows "weave_ok (ctxStore (fst (mEndBlock weave_New c)))"
proof -
  have own: "own_ids loadDAG d_DAGID (ctxStore (fst (mEndBlock weave_New c)))"
    using assms by (simp add: weave_New_def weave_EndBlock_store dags.sweep_own weave_ok_def)
  moreover have "store_inv (ctxStore (fst (mEndBlock weave_New c)))"
    using weave_mod.end_confined [of c] assms by (simp add: confined_def weave_ok_def)
  moreover have "dag_valid dag" if "loadDAG (ctxStore (fst (mEndBlock weave_New c))) i = Inr dag" for i dag
    using that assms weave_EndBlock_load [of c i] advance_dag_same(2)
    by (auto simp: weave_ok_def split: sum.splits option.splits)
  ultimately show ?thesis by (simp add: weave_ok_def)
qed

lemma weave_ok_local:
  assumes "weave_ok st" "store_inv st \<Longrightarrow> store_inv st'"
    and "\<And>p k. p \<in> set weave_prefixes \<Longrightarrow> prefix p k \<Longrightarrow> Get st' k = Get st k"
  shows "weave_ok st'"
proof -
  have "loadDAG st' i = loadDAG st i" for i
    by (rule dags.load_frame) (use assms(3) dags.key_pre in \<open>auto simp: weave_prefixes_def\<close>)
  with assms(1,2) show ?thesis by (simp add: weave_ok_def own_ids_def)
qed

lemma weave_ok_fresh: "weave_ok (ctxStore (fresh_ctx t))"
  by (simp add: weave_ok_def own_ids_fresh loadDAG_def load_rec_def)

interpretation weave_inv: module_invariant weave_New weave_prefixes weave_ok
proof (unfold_locales, goal_cases)
  case (4 st st')
  then show ?case by (rule weave_ok_local)
qed (simp_all add: weave_ok_exec weave_ok_end weave_ok_fresh)

section \<open>Progress\<close>

definition node_live :: "DAGNode \<Rightarrow> bool" where
  "node_live n \<longleftrightarrow> n_Status n \<in> {''NODE_PENDING'', ''NODE_READY'', ''NODE_RUNNING'', ''NODE_COMPLETED'', ''NODE_SKIPPED''}"

lemma progress_twice:
  "node_live n \<Longrightarrow> n_Status (progress_node t' (progress_node t n)) = ''NODE_COMPLETED''
     \<or> n_Status (progress_node t' (progress_node t n)) = ''NODE_SKIPPED''"
  by (auto simp: node_live_def progress_node_def Let_def)

lemma progressDag_cases:
  "progressDag dag t = (if list_all (\<lambda>n. n_Status n = ''NODE_COMPLETED'' \<or> n_Status n = ''NODE_SKIPPED'')
       (map (progress_node t) (d_Nodes dag))
     then dag\<lparr>d_Nodes := map (progress_node t) (d_Nodes dag), d_Status := ''DAG_COMPLETED'', d_FinishedAt := t\<rparr>
     else dag\<lparr>d_Nodes := map (progress_node t) (d_Nodes dag)\<rparr>)"
  by (simp add: progressDag_def Let_def)

definition in_time :: "int64 \<Rightarrow> TaskDAG \<Rightarrow> bool" where
  "in_time t dag \<longleftrightarrow> wrap64 (t - d_StartedAt dag) \<le> sint (d_GlobalTimeoutSec dag)"

lemma advance_in_time:
  "d_Status dag = ''DAG_RUNNING'' \<Longrightarrow> in_time t dag \<Longrightarrow> \<exists>ev. advance_dag t dag = Some (progressDag dag t, ev)"
  by (simp add: advance_dag_def in_time_def Let_def)

lemma progress_done:
  assumes "d_Status dag = ''DAG_RUNNING''" "list_all node_live (d_Nodes dag)" "in_time t' dag"
  shows "d_Status (case advance_dag t' (progressDag dag t) of None \<Rightarrow> progressDag dag t | Some (d, ev) \<Rightarrow> d) = ''DAG_COMPLETED''"
proof (cases "d_Status (progressDag dag t) = ''DAG_COMPLETED''")
  case True
  then show ?thesis by (simp add: advance_dag_def)
next
  case False
  then have p: "progressDag dag t = dag\<lparr>d_Nodes := map (progress_node t) (d_Nodes dag)\<rparr>"
    by (auto simp: progressDag_cases split: if_splits)
  have "list_all (\<lambda>n. n_Status n = ''NODE_COMPLETED'' \<or> n_Status n = ''NODE_SKIPPED'')
      (map (progress_node t') (map (progress_node t) (d_Nodes dag)))"
    using assms(2) progress_twice by (simp add: list_all_iff)
  then have "d_Status (progressDag (progressDag dag t) t') = ''DAG_COMPLETED''"
    by (simp add: p progressDag_cases [of "dag\<lparr>d_Nodes := _\<rparr>"])
  then show ?thesis
    using advance_in_time [of "progressDag dag t" t'] assms(1,3) by (auto simp: p in_time_def)
qed


text \<open>C22: in every reachable state every stored graph is one that the validation accepts: its
  identifiers are distinct and its edges form no cycle, whatever transactions changed it.\<close>

theorem stored_dags_acyclic:
  assumes "reach weave_New c" "loadDAG (ctxStore c) i = Inr dag"
  shows "d_DAGID dag = i \<and> ValidateDAG dag = Ret None \<and> acyclic (edge_rel (d_Edges dag))"
  using weave_inv.reach_inv [OF assms(1)] assms(2) ValidateDAG_valid(1) [of dag]
  by (auto simp: weave_ok_def own_ids_def dag_valid_def)

section \<open>Concrete graphs\<close>

definition dag_tx :: "bytes \<Rightarrow> bytes \<Rightarrow> TxEnvelope" where
  "dag_tx action payload = mk_tx ''o'' ''weave'' action payload"

definition dag_steps :: "step list" where
  "dag_steps = [Tx (dag_tx ''create_dag'' ''{\"dag_id\":\"d\",\"nodes\":[{\"node_id\":\"a\"},{\"node_id\":\"b\"}],\"edges\":[{\"from_node\":\"a\",\"to_node\":\"b\"}],\"global_timeout_sec\":60}''),
     Tx (dag_tx ''start_dag'' ''{\"dag_id\":\"d\"}'')]"

definition dag_ctx :: Context where
  "dag_ctx = run weave_New (fresh_ctx 100) dag_steps"

lemma dag_ctx_reach: "reach weave_New dag_ctx"
  unfolding dag_ctx_def by (rule reach_run) (rule reach.init)

text \<open>The validation reads no status and no time, so the stored graph can be given explicitly.\<close>

definition dag0 :: TaskDAG where
  "dag0 = \<lparr>d_DAGID = ''d'', d_RootTask = [], d_Orchestrator = ''o'',
     d_Nodes = [zeroDAGNode\<lparr>n_NodeID := ''a'', n_Status := ''NODE_PENDING''\<rparr>, zeroDAGNode\<lparr>n_NodeID := ''b'', n_Status := ''NODE_PENDING''\<rparr>],
     d_Edges = [\<lparr>e_FromNode = ''a'', e_ToNode = ''b'', e_Condition = []\<rparr>], d_Status = ''DAG_RUNNING'',
     d_CreatedAt = 100, d_StartedAt = 100, d_FinishedAt = 0, d_GlobalTimeoutSec = 60\<rparr>"

lemma dag_ctx_load: "loadDAG (ctxStore dag_ctx) ''d'' = Inr dag0"
  by code_simp


theorem stored_dags_acyclic_witness:
  "reach weave_New dag_ctx \<and> loadDAG (ctxStore dag_ctx) ''d'' = Inr dag0 \<and> acyclic (edge_rel (d_Edges dag0))"
  using stored_dags_acyclic [OF dag_ctx_reach dag_ctx_load] dag_ctx_reach dag_ctx_load by simp

section \<open>The end of a block\<close>

interpretation weave_end: end_local weave_New weave_prefixes
  by (rule sweep_end_local [OF weave_mod.module_contract_axioms, where p = PrefixWeaveDAG, OF _ saveDAG_def])
    (simp_all add: weave_prefixes_def weave_New_def weave_EndBlock_def)

end
