(* ===== verification/Caputxo.thy ===== *)
theory Caputxo
  imports Table
begin

text \<open>
  \<open>internal/modules/caputxo/module.go\<close>: capabilities as unspent outputs that are minted, used a
  bounded number of times, delegated with less authority, revoked and expired. Revocation and
  expiry cascade to the capabilities delegated from the one that ends.
\<close>

section \<open>Payloads\<close>

record MintPayload =
  mp_Holder :: bytes
  mp_CapType :: bytes
  mp_CapVersion :: bytes
  mp_Scopes :: "bytes list"
  mp_ExpiresAt :: int64
  mp_MaxUses :: uint32
  mp_Delegatable :: bool
  mp_MaxDepth :: uint32

definition MintPayload_fields :: "(bytes \<times> MintPayload field) list" where
  "MintPayload_fields =
     [(''holder'', fld dec_bytes mp_Holder mp_Holder_update),
      (''cap_type'', fld dec_string mp_CapType mp_CapType_update),
      (''cap_version'', fld dec_string mp_CapVersion mp_CapVersion_update),
      (''scopes'', fld (dec_list dec_string []) mp_Scopes mp_Scopes_update),
      (''expires_at'', fld dec_int64 mp_ExpiresAt mp_ExpiresAt_update),
      (''max_uses'', fld dec_uint32 mp_MaxUses mp_MaxUses_update),
      (''delegatable'', fld dec_bool mp_Delegatable mp_Delegatable_update),
      (''max_depth'', fld dec_uint32 mp_MaxDepth mp_MaxDepth_update)]"

definition zeroMint :: MintPayload where
  "zeroMint = \<lparr>mp_Holder = [], mp_CapType = [], mp_CapVersion = [], mp_Scopes = [], mp_ExpiresAt = 0,
     mp_MaxUses = 0, mp_Delegatable = False, mp_MaxDepth = 0\<rparr>"

record SpendPayload =
  sp_UTXOID :: bytes
  sp_TaskID :: bytes
  sp_ProofOfUse :: bytes

definition SpendPayload_fields :: "(bytes \<times> SpendPayload field) list" where
  "SpendPayload_fields =
     [(''utxo_id'', fld dec_string sp_UTXOID sp_UTXOID_update),
      (''task_id'', fld dec_string sp_TaskID sp_TaskID_update),
      (''proof_of_use'', fld dec_string sp_ProofOfUse sp_ProofOfUse_update)]"

definition zeroSpend :: SpendPayload where
  "zeroSpend = \<lparr>sp_UTXOID = [], sp_TaskID = [], sp_ProofOfUse = []\<rparr>"

record DelegatePayload =
  dl_ParentUTXOID :: bytes
  dl_NewHolder :: bytes
  dl_Scopes :: "bytes list"
  dl_ExpiresAt :: int64
  dl_MaxUses :: uint32

definition DelegatePayload_fields :: "(bytes \<times> DelegatePayload field) list" where
  "DelegatePayload_fields =
     [(''parent_utxo_id'', fld dec_string dl_ParentUTXOID dl_ParentUTXOID_update),
      (''new_holder'', fld dec_bytes dl_NewHolder dl_NewHolder_update),
      (''scopes'', fld (dec_list dec_string []) dl_Scopes dl_Scopes_update),
      (''expires_at'', fld dec_int64 dl_ExpiresAt dl_ExpiresAt_update),
      (''max_uses'', fld dec_uint32 dl_MaxUses dl_MaxUses_update)]"

definition zeroDelegate :: DelegatePayload where
  "zeroDelegate = \<lparr>dl_ParentUTXOID = [], dl_NewHolder = [], dl_Scopes = [], dl_ExpiresAt = 0, dl_MaxUses = 0\<rparr>"

text \<open>\<open>RevokePayload\<close> has the one field \<open>UTXOID\<close>.\<close>

definition RevokePayload_fields :: "(bytes \<times> bytes field) list" where
  "RevokePayload_fields = [(''utxo_id'', fld dec_string id id)]"

abbreviation UTXO_UNSPENT :: bytes where "UTXO_UNSPENT \<equiv> ''UTXO_UNSPENT''"
abbreviation UTXO_SPENT :: bytes where "UTXO_SPENT \<equiv> ''UTXO_SPENT''"
abbreviation UTXO_EXPIRED :: bytes where "UTXO_EXPIRED \<equiv> ''UTXO_EXPIRED''"
abbreviation UTXO_REVOKED :: bytes where "UTXO_REVOKED \<equiv> ''UTXO_REVOKED''"

section \<open>Helpers\<close>

definition saveUTXO :: "Store \<Rightarrow> CapabilityUTXO \<Rightarrow> Store" where
  "saveUTXO st u = Set st (UTXOKey (u_UTXOID u)) (VUTXO u)"

definition loadUTXO :: "Store \<Rightarrow> bytes \<Rightarrow> goerr + CapabilityUTXO" where
  "loadUTXO st i = load_rec un_utxo (NewAppError CodeCapUTXOBase ''utxo not found'')
     (NewAppError CodeDecodeFail ''decode utxo: %v'') st (UTXOKey i)"

definition utxoID :: "bytes \<Rightarrow> bytes \<Rightarrow> uint64 \<Rightarrow> bytes" where
  "utxoID issuer capType nonce = hex_EncodeToString (take 8
     (Sum256 (hex_EncodeToString issuer @ ''|'' @ capType @ ''|'' @ utoa 10 (unat nonce))))"

definition delegatedUTXOID :: "bytes \<Rightarrow> bytes \<Rightarrow> uint64 \<Rightarrow> bytes" where
  "delegatedUTXOID parentUTXOID delegator nonce = hex_EncodeToString (take 8
     (Sum256 (parentUTXOID @ ''|'' @ hex_EncodeToString delegator @ ''|'' @ utoa 10 (unat nonce))))"

definition isSubset :: "bytes list \<Rightarrow> bytes list \<Rightarrow> bool" where
  "isSubset xs ys = (if xs = [] then False else list_all (\<lambda>s. s \<in> set ys) xs)"

text \<open>\<open>string(k[i])\<close> of a byte is the UTF-8 text of the code point with that number.\<close>

definition byte_string :: "char \<Rightarrow> bytes" where
  "byte_string c = (if of_char c < (128 :: nat) then [c]
     else [char_of (192 + of_char c div 64 :: nat), char_of (128 + of_char c mod 64 :: nat)])"

fun split_from :: "bytes \<Rightarrow> bytes \<Rightarrow> bytes list" where
  "split_from cur [] = (if cur \<noteq> [] then [cur] else [])"
| "split_from cur (c # k) = (if c = CHR ''/'' then cur # split_from [] k
     else split_from (cur @ byte_string c) k)"

definition splitPath :: "bytes \<Rightarrow> bytes list" where
  "splitPath k = split_from [] k"

section \<open>The cascade\<close>

text \<open>
  \<open>cascade\<close> calls itself for each child it ends, so every nested call follows a write that takes
  one capability out of the unspent ones. The nesting is bounded by the first argument; \<open>None\<close>
  means that the bound was too small. \<open>cascade\<close> gives as bound the number of unspent
  capabilities, which is always enough (\<open>cascade_total\<close>). The state is returned with an error
  too, since what was written before it stays.
\<close>

definition children :: "Store \<Rightarrow> bytes \<Rightarrow> bytes list" where
  "children st parentID = map fst (IteratePrefix st (PrefixCapDerive @ parentID @ ''/''))"

function cascade_loop :: "nat \<Rightarrow> bytes \<Rightarrow> bytes list \<Rightarrow> Store \<Rightarrow> (Store \<times> (goerr + bytes list)) option" where
  "cascade_loop fuel status [] st = Some (st, Inr [])"
| "cascade_loop fuel status (k # ks) st =
     (let parts = splitPath k in
      if parts = [] then cascade_loop fuel status ks st
      else let childID = last parts in
        case loadUTXO st childID of Inl e \<Rightarrow> Some (st, Inl e)
        | Inr u \<Rightarrow>
          if u_Status u = UTXO_UNSPENT then
            let st1 = saveUTXO st (u\<lparr>u_Status := status\<rparr>) in
            (case fuel of 0 \<Rightarrow> None
             | Suc f \<Rightarrow>
               (case cascade_loop f status (children st1 childID) st1 of
                  None \<Rightarrow> None
                | Some (st2, Inl e) \<Rightarrow> Some (st2, Inl e)
                | Some (st2, Inr nested) \<Rightarrow>
                    (case cascade_loop fuel status ks st2 of
                       None \<Rightarrow> None
                     | Some (st3, Inl e) \<Rightarrow> Some (st3, Inl e)
                     | Some (st3, Inr rest) \<Rightarrow> Some (st3, Inr (childID # nested @ rest)))))
          else cascade_loop fuel status ks st)"
  by pat_completeness auto
termination
  by (relation "measures [\<lambda>(fuel, status, ks, st). fuel, \<lambda>(fuel, status, ks, st). length ks]") auto

declare cascade_loop.simps(2) [simp del]

definition unspent :: "Store \<Rightarrow> bytes list" where
  "unspent st = map u_UTXOID (filter (\<lambda>u. u_Status u = UTXO_UNSPENT) (decoded un_utxo (IteratePrefix st PrefixCapUTXO)))"

definition cascade :: "Store \<Rightarrow> bytes \<Rightarrow> bytes \<Rightarrow> (Store \<times> (goerr + bytes list)) option" where
  "cascade st parentID status = cascade_loop (length (unspent st)) status (children st parentID) st"

section \<open>Handlers\<close>

definition cap_error :: "uint32 \<Rightarrow> bytes \<Rightarrow> goerr" where
  "cap_error n msg = NewAppError (CodeCapUTXOBase + n) msg"

definition mint :: handler where
  "mint ctx env = (case DecodeJSONPayload MintPayload_fields zeroMint env of
     None \<Rightarrow> (ctx, Err (cap_error 1 ''decode mint: %v''))
   | Some p \<Rightarrow>
     if mp_Holder p = [] \<or> mp_CapType p = [] \<or> mp_Scopes p = []
     then (ctx, Err (cap_error 1 ''missing required fields''))
     else let i = utxoID (Sender env) (mp_CapType p) (Nonce env);
              u = \<lparr>u_UTXOID = i, u_Issuer = Sender env, u_Holder = mp_Holder p, u_CapType = mp_CapType p,
                   u_CapVersion = mp_CapVersion p, u_Scopes = mp_Scopes p, u_IssuedAt = now ctx,
                   u_ExpiresAt = mp_ExpiresAt p, u_MaxUses = mp_MaxUses p, u_UsedCount = 0,
                   u_Delegatable = mp_Delegatable p, u_MaxDepth = mp_MaxDepth p, u_CurDepth = 0,
                   u_ParentUTXO = [], u_Status = UTXO_UNSPENT, u_HolderSig = []\<rparr>
          in if u_Delegatable u \<and> u_MaxDepth u = 0
             then (ctx, Err (cap_error 2 ''max_depth must be >=1 for delegatable utxo''))
             else let st = saveUTXO (ctxStore ctx) u;
                      st = Set st (PrefixCapHolder @ hex_EncodeToString (u_Holder u) @ ''/'' @ u_UTXOID u) (VBytes [CHR 0x01]);
                      st = Set st (PrefixCapType @ u_CapType u @ ''/'' @ u_UTXOID u) (VBytes [CHR 0x01])
                  in (upd_store ctx st, Ret (SuccessResult 3000 [])))"

definition spend :: handler where
  "spend ctx env = (case DecodeJSONPayload SpendPayload_fields zeroSpend env of
     None \<Rightarrow> (ctx, Err (cap_error 1 ''decode spend: %v''))
   | Some p \<Rightarrow>
     (case loadUTXO (ctxStore ctx) (sp_UTXOID p) of Inl e \<Rightarrow> (ctx, Err e)
      | Inr u \<Rightarrow>
        if \<not> equalBytes (u_Holder u) (Sender env) then (ctx, Err (cap_error 2 ''holder mismatch''))
        else if u_Status u \<noteq> UTXO_UNSPENT then (ctx, Err (cap_error 41 ''utxo is not unspent''))
        else if 0 < u_ExpiresAt u \<and> u_ExpiresAt u \<le> now ctx
        then (upd_store ctx (saveUTXO (ctxStore ctx) (u\<lparr>u_Status := UTXO_EXPIRED\<rparr>)),
              Err (cap_error 43 ''utxo expired''))
        else let u = u\<lparr>u_UsedCount := u_UsedCount u + 1\<rparr>;
                 u = (if 0 < u_MaxUses u \<and> u_MaxUses u \<le> u_UsedCount u then u\<lparr>u_Status := UTXO_SPENT\<rparr> else u)
             in (upd_store ctx (saveUTXO (ctxStore ctx) u), Ret (SuccessResult 2000 []))))"

definition delegate :: handler where
  "delegate ctx env = (case DecodeJSONPayload DelegatePayload_fields zeroDelegate env of
     None \<Rightarrow> (ctx, Err (cap_error 1 ''decode delegate: %v''))
   | Some p \<Rightarrow>
     (case loadUTXO (ctxStore ctx) (dl_ParentUTXOID p) of Inl e \<Rightarrow> (ctx, Err e)
      | Inr parent \<Rightarrow>
        if \<not> equalBytes (u_Holder parent) (Sender env) then (ctx, Err (cap_error 2 ''holder mismatch''))
        else if \<not> u_Delegatable parent then (ctx, Err (cap_error 42 ''utxo is not delegatable''))
        else let childDepth = u_CurDepth parent + 1 in
        if 0 < u_MaxDepth parent \<and> u_MaxDepth parent < childDepth
        then (ctx, Err (cap_error 42 ''exceeds max_depth''))
        else if \<not> isSubset (dl_Scopes p) (u_Scopes parent)
        then (ctx, Err (cap_error 42 ''delegated scopes must be subset''))
        else if 0 < u_ExpiresAt parent \<and> u_ExpiresAt parent < dl_ExpiresAt p
        then (ctx, Err (cap_error 42 ''delegated expiry exceeds parent''))
        else if 0 < u_MaxUses parent \<and> u_MaxUses parent < dl_MaxUses p
        then (ctx, Err (cap_error 42 ''delegated max_uses exceeds parent''))
        else let i = delegatedUTXOID (u_UTXOID parent) (Sender env) (Nonce env);
                 child = \<lparr>u_UTXOID = i, u_Issuer = u_Issuer parent, u_Holder = dl_NewHolder p,
                   u_CapType = u_CapType parent, u_CapVersion = u_CapVersion parent, u_Scopes = dl_Scopes p,
                   u_IssuedAt = now ctx,
                   u_ExpiresAt = (if dl_ExpiresAt p = 0 then u_ExpiresAt parent else dl_ExpiresAt p),
                   u_MaxUses = (if dl_MaxUses p = 0 then u_MaxUses parent else dl_MaxUses p), u_UsedCount = 0,
                   u_Delegatable = u_Delegatable parent, u_MaxDepth = u_MaxDepth parent,
                   u_CurDepth = childDepth, u_ParentUTXO = u_UTXOID parent, u_Status = UTXO_UNSPENT,
                   u_HolderSig = []\<rparr>;
                 st = saveUTXO (ctxStore ctx) child;
                 st = Set st (PrefixCapDerive @ u_UTXOID parent @ ''/'' @ u_UTXOID child) (VBytes [CHR 0x01])
             in (upd_store ctx st, Ret (SuccessResult 3000 []))))"

text \<open>A nesting that exceeds the bound would be a stack overflow, which ends the process.\<close>

definition revoke :: handler where
  "revoke ctx env = (case DecodeJSONPayload RevokePayload_fields [] env of
     None \<Rightarrow> (ctx, Err (cap_error 1 ''decode revoke: %v''))
   | Some i \<Rightarrow>
     (case loadUTXO (ctxStore ctx) i of Inl e \<Rightarrow> (ctx, Err e)
      | Inr u \<Rightarrow>
        if \<not> equalBytes (u_Issuer u) (Sender env) then (ctx, Err (cap_error 2 ''issuer mismatch''))
        else let st = saveUTXO (ctxStore ctx) (u\<lparr>u_Status := UTXO_REVOKED\<rparr>) in
          (case cascade st (u_UTXOID u) UTXO_REVOKED of
             None \<Rightarrow> (upd_store ctx st, Panic)
           | Some (st', Inl e) \<Rightarrow> (upd_store ctx st', Err e)
           | Some (st', Inr _) \<Rightarrow> (upd_store ctx st', Ret (SuccessResult 2000 [])))))"

fun expire_loop :: "int64 \<Rightarrow> (bytes \<times> val) list \<Rightarrow> Event list \<Rightarrow> Store \<Rightarrow> Store \<times> Event list outcome" where
  "expire_loop t [] evs st = (st, Ret evs)"
| "expire_loop t (kv # kvs) evs st = (case un_utxo (snd kv) of None \<Rightarrow> expire_loop t kvs evs st
     | Some u \<Rightarrow>
       if u_Status u \<noteq> UTXO_UNSPENT \<or> u_ExpiresAt u = 0 \<or> t < u_ExpiresAt u then expire_loop t kvs evs st
       else let st1 = saveUTXO st (u\<lparr>u_Status := UTXO_EXPIRED\<rparr>) in
         (case cascade st1 (u_UTXOID u) UTXO_EXPIRED of
            None \<Rightarrow> (st1, Panic)
          | Some (st2, Inl e) \<Rightarrow> (st2, Err e)
          | Some (st2, Inr _) \<Rightarrow>
              expire_loop t kvs (evs @ [mkEvent ''CapabilityExpired'' [(''utxo_id'', u_UTXOID u)]]) st2))"

definition expireAtTime :: "Context \<Rightarrow> int64 \<Rightarrow> Context \<times> Event list outcome" where
  "expireAtTime ctx t = (case expire_loop t (IteratePrefix (ctxStore ctx) PrefixCapUTXO) [] (ctxStore ctx) of
     (st, r) \<Rightarrow> (upd_store ctx st, r))"

definition batchExpire :: handler where
  "batchExpire ctx env = (case expireAtTime ctx (now ctx) of
       (ctx', Ret evs) \<Rightarrow> (ctx', Ret (SuccessResult (100 * of_nat (length evs)) evs))
     | (ctx', Err e) \<Rightarrow> (ctx', Err e)
     | (ctx', Panic) \<Rightarrow> (ctx', Panic))"

definition caputxo_EndBlock :: "Context \<Rightarrow> Context \<times> Event list outcome" where
  "caputxo_EndBlock ctx = expireAtTime ctx (now ctx)"

definition caputxo_handlers :: "(bytes \<times> handler) list" where
  "caputxo_handlers = [(''mint_capability'', mint), (''spend_capability'', spend),
     (''delegate_capability'', delegate), (''revoke_capability'', revoke), (''batch_expire'', batchExpire)]"

definition caputxo_New :: Module where
  "caputxo_New = mkModule ''caputxo'' caputxo_handlers caputxo_EndBlock"

lemmas caputxo_exec = caputxo_New_def mkModule_sel caputxo_handlers_def dispatch

section \<open>Identifiers and paths\<close>

interpretation utxos: table loadUTXO saveUTXO u_UTXOID UTXOKey PrefixCapUTXO
  by (rule tableI, rule loadUTXO_def, rule saveUTXO_def) (simp_all add: UTXOKey_def inj_def)

definition plain_id :: "bytes \<Rightarrow> bool" where
  "plain_id i \<longleftrightarrow> i \<noteq> [] \<and> list_all (\<lambda>c. c \<noteq> CHR ''/'' \<and> of_char c < (128 :: nat)) i"

lemma split_from_plain:
  "list_all (\<lambda>c. c \<noteq> CHR ''/'' \<and> of_char c < (128 :: nat)) i \<Longrightarrow>
   split_from cur i = (if cur @ i = [] then [] else [cur @ i])"
  by (induction i arbitrary: cur) (auto simp: byte_string_def)

lemma split_from_path:
  "\<exists>ps. split_from cur (a @ CHR ''/'' # r) = ps @ split_from [] r"
proof (induction a arbitrary: cur)
  case Nil
  have "split_from cur (CHR ''/'' # r) = [cur] @ split_from [] r" by simp
  then show ?case by (metis append_Nil)
next
  case (Cons c a)
  show ?case
  proof (cases "c = CHR ''/''")
    case True
    obtain ps where "split_from [] (a @ CHR ''/'' # r) = ps @ split_from [] r" using Cons by blast
    with True have "split_from cur ((c # a) @ CHR ''/'' # r) = (cur # ps) @ split_from [] r" by simp
    then show ?thesis by blast
  qed (use Cons in simp)
qed

lemma splitPath_last:
  assumes "plain_id c"
  shows "splitPath (a @ ''/'' @ c) \<noteq> [] \<and> last (splitPath (a @ ''/'' @ c)) = c"
proof -
  obtain ps where "splitPath (a @ ''/'' @ c) = ps @ split_from [] c"
    using split_from_path [of "[]" a c] by (auto simp: splitPath_def)
  with assms show ?thesis by (simp add: plain_id_def split_from_plain)
qed

lemma digit_char_ascii: "d < 16 \<Longrightarrow> of_char (digit_char d) < (128 :: nat)"
  by (simp add: of_char_digit_char)

lemma plain_id_hex:
  assumes "bs \<noteq> []"
  shows "plain_id (hex_EncodeToString bs)"
proof -
  have "of_char c < (128 :: nat)" if "c \<in> set (hex_EncodeToString bs)" for c
    using that by (auto simp: hex_EncodeToString_def hex_of_byte_def digit_char_ascii)
  moreover have "c \<noteq> CHR ''/''" if "c \<in> set (hex_EncodeToString bs)" for c
    using that hex_no_slash [of bs] by auto
  moreover have "hex_EncodeToString bs \<noteq> []"
    using assms by (cases bs) (simp_all add: hex_Cons hex_of_byte_def)
  ultimately show ?thesis by (auto simp: plain_id_def list_all_iff)
qed

lemma plain_ids [simp]: "plain_id (utxoID a b n)" "plain_id (delegatedUTXOID p d n)"
  unfolding utxoID_def delegatedUTXOID_def
  by (rule plain_id_hex; metis length_Sum256 length_0_conv take_eq_Nil zero_neq_numeral)+

section \<open>What a cascade does\<close>

text \<open>The runs of the loop that end, without the bound on the nesting.\<close>

inductive casc :: "bytes \<Rightarrow> Store \<Rightarrow> bytes list \<Rightarrow> Store \<Rightarrow> goerr + bytes list \<Rightarrow> bool"
  for status :: bytes where
  none: "casc status st [] st (Inr [])"
| empty: "splitPath k = [] \<Longrightarrow> casc status st ks st' r \<Longrightarrow> casc status st (k # ks) st' r"
| missing: "splitPath k \<noteq> [] \<Longrightarrow> loadUTXO st (last (splitPath k)) = Inl e \<Longrightarrow> casc status st (k # ks) st (Inl e)"
| ended: "splitPath k \<noteq> [] \<Longrightarrow> loadUTXO st (last (splitPath k)) = Inr u \<Longrightarrow> u_Status u \<noteq> UTXO_UNSPENT \<Longrightarrow>
    casc status st ks st' r \<Longrightarrow> casc status st (k # ks) st' r"
| nested_error: "splitPath k \<noteq> [] \<Longrightarrow> loadUTXO st (last (splitPath k)) = Inr u \<Longrightarrow> u_Status u = UTXO_UNSPENT \<Longrightarrow>
    st1 = saveUTXO st (u\<lparr>u_Status := status\<rparr>) \<Longrightarrow>
    casc status st1 (children st1 (last (splitPath k))) st2 (Inl e) \<Longrightarrow> casc status st (k # ks) st2 (Inl e)"
| rest_error: "splitPath k \<noteq> [] \<Longrightarrow> loadUTXO st (last (splitPath k)) = Inr u \<Longrightarrow> u_Status u = UTXO_UNSPENT \<Longrightarrow>
    st1 = saveUTXO st (u\<lparr>u_Status := status\<rparr>) \<Longrightarrow>
    casc status st1 (children st1 (last (splitPath k))) st2 (Inr ns) \<Longrightarrow>
    casc status st2 ks st3 (Inl e) \<Longrightarrow> casc status st (k # ks) st3 (Inl e)"
| live: "splitPath k \<noteq> [] \<Longrightarrow> loadUTXO st (last (splitPath k)) = Inr u \<Longrightarrow> u_Status u = UTXO_UNSPENT \<Longrightarrow>
    st1 = saveUTXO st (u\<lparr>u_Status := status\<rparr>) \<Longrightarrow>
    casc status st1 (children st1 (last (splitPath k))) st2 (Inr ns) \<Longrightarrow>
    casc status st2 ks st3 (Inr rs) \<Longrightarrow> casc status st (k # ks) st3 (Inr (last (splitPath k) # ns @ rs))"

lemma cascade_loop_casc:
  "cascade_loop fuel status ks st = Some (st', r) \<Longrightarrow> casc status st ks st' r"
proof (induction fuel status ks st arbitrary: st' r rule: cascade_loop.induct)
  case (1 fuel status st)
  then show ?case by (auto intro: casc.none)
next
  case (2 fuel status k ks st)
  show ?case
  proof (cases "splitPath k = []")
    case True
    with 2 show ?thesis by (auto simp: cascade_loop.simps(2) intro: casc.empty)
  next
    case parts: False
    show ?thesis
    proof (cases "loadUTXO st (last (splitPath k))")
      case (Inl e)
      with 2(5) parts show ?thesis by (auto simp: cascade_loop.simps(2) intro: casc.missing)
    next
      case u: (Inr u)
      show ?thesis
      proof (cases "u_Status u = UTXO_UNSPENT")
        case False
        with 2 parts u show ?thesis by (auto simp: cascade_loop.simps(2) intro: casc.ended)
      next
        case live: True
        with 2(5) parts u obtain f where f: "fuel = Suc f"
          by (auto simp: cascade_loop.simps(2) Let_def split: nat.splits)
        let ?st1 = "saveUTXO st (u\<lparr>u_Status := status\<rparr>)" and ?c = "last (splitPath k)"
        obtain st2 r2 where n: "cascade_loop f status (children ?st1 ?c) ?st1 = Some (st2, r2)"
          using 2(5) parts u live f
          by (cases "cascade_loop f status (children ?st1 ?c) ?st1") (auto simp: cascade_loop.simps(2) Let_def)
        note nested = 2(2) [OF refl parts refl u live refl f n]
        show ?thesis
        proof (cases r2)
          case (Inl e)
          with 2(5) parts u live f n have "st' = st2" "r = Inl e" by (auto simp: cascade_loop.simps(2) Let_def)
          with nested Inl parts u live show ?thesis by (auto intro: casc.nested_error)
        next
          case (Inr ns)
          obtain st3 r3 where m: "cascade_loop fuel status ks st2 = Some (st3, r3)"
            using 2(5) parts u live f n Inr
            by (cases "cascade_loop fuel status ks st2") (auto simp: cascade_loop.simps(2) Let_def)
          have rest: "casc status st2 ks st3 r3"
            by (rule 2(3) [OF refl parts refl u live refl f n refl Inr]) (rule m)
          show ?thesis
            using 2(5) parts u live f n Inr m nested rest
            by (cases r3) (auto simp: cascade_loop.simps(2) Let_def intro: casc.rest_error casc.live)
        qed
      qed
    qed
  qed
qed

text \<open>\<open>live st i\<close>: the capability \<open>i\<close> is unspent. \<open>ends\<close>: unspent capabilities may have got the
  new status, nothing else has changed.\<close>

definition live :: "Store \<Rightarrow> bytes \<Rightarrow> bool" where
  "live st i = (case loadUTXO st i of Inr u \<Rightarrow> u_Status u = UTXO_UNSPENT | Inl _ \<Rightarrow> False)"

definition cap_wf :: "Store \<Rightarrow> bool" where
  "cap_wf st \<longleftrightarrow> store_inv st \<and> own_ids loadUTXO u_UTXOID st"

definition ends :: "bytes \<Rightarrow> Store \<Rightarrow> Store \<Rightarrow> bool" where
  "ends status st st' \<longleftrightarrow>
     (\<forall>i u. loadUTXO st i = Inr u \<longrightarrow> loadUTXO st' i = Inr u \<or>
        live st i \<and> loadUTXO st' i = Inr (u\<lparr>u_Status := status\<rparr>))
     \<and> (\<forall>i e. loadUTXO st i = Inl e \<longrightarrow> loadUTXO st' i = Inl e)
     \<and> (\<forall>k. \<not> prefix PrefixCapUTXO k \<longrightarrow> Get st' k = Get st k)"

lemma ends_refl [simp]: "ends s st st"
  by (auto simp: ends_def)

lemma ends_cases:
  assumes "ends s a b"
  obtains e where "loadUTXO a i = Inl e" "loadUTXO b i = Inl e"
  | u where "loadUTXO a i = Inr u" "loadUTXO b i = Inr u"
  | u where "loadUTXO a i = Inr u" "live a i" "loadUTXO b i = Inr (u\<lparr>u_Status := s\<rparr>)"
  using assms unfolding ends_def by (cases "loadUTXO a i") blast+

lemma ends_live:
  assumes "ends s a b" "s \<noteq> UTXO_UNSPENT" "live b i"
  shows "live a i"
  using assms(3) by (rule_tac i = i in ends_cases [OF assms(1)]) (use assms(2) in \<open>auto simp: live_def\<close>)

lemma ends_trans:
  assumes ab: "ends s a b" and bc: "ends s b c"
  shows "ends s a c"
  unfolding ends_def
proof (intro conjI allI impI)
  fix i u assume u: "loadUTXO a i = Inr u"
  show "loadUTXO c i = Inr u \<or> live a i \<and> loadUTXO c i = Inr (u\<lparr>u_Status := s\<rparr>)"
    by (rule ends_cases [OF ab, of i]; rule ends_cases [OF bc, of i]) (use u in \<open>auto simp: live_def\<close>)
next
  fix i e assume e: "loadUTXO a i = Inl e"
  then show "loadUTXO c i = Inl e" using ab bc by (auto simp: ends_def)
next
  fix k assume "\<not> prefix PrefixCapUTXO k"
  then show "Get c k = Get a k" using ab bc by (auto simp: ends_def)
qed

lemma ends_save:
  assumes "own_ids loadUTXO u_UTXOID st" "loadUTXO st i = Inr u" "u_Status u = UTXO_UNSPENT"
  shows "ends s st (saveUTXO st (u\<lparr>u_Status := s\<rparr>))"
  using assms(2,3) utxos.load_update [OF assms(1,2), of "u\<lparr>u_Status := s\<rparr>"]
  by (auto simp: ends_def live_def utxos.load_save_elsewhere)

lemma cap_wf_save: "cap_wf st \<Longrightarrow> cap_wf (saveUTXO st u)"
  by (simp add: cap_wf_def utxos.save_inv utxos.own_ids_save)

lemma casc_ends: "casc s st ks st' r \<Longrightarrow> cap_wf st \<Longrightarrow> ends s st st' \<and> cap_wf st'"
proof (induction rule: casc.induct)
  case (nested_error k st u st1 st2 e ks)
  then show ?case by (metis cap_wf_def cap_wf_save ends_save ends_trans)
next
  case (rest_error k st u st1 st2 ns ks st3 e)
  then show ?case by (metis cap_wf_def cap_wf_save ends_save ends_trans)
next
  case (live k st u st1 st2 ns ks st3 rs)
  then show ?case by (metis cap_wf_def cap_wf_save ends_save ends_trans)
qed simp_all

lemma children_ends: "ends s st st' \<Longrightarrow> store_inv st \<Longrightarrow> store_inv st' \<Longrightarrow> children st' i = children st i"
  unfolding children_def
  by (rule arg_cong [of _ _ "map fst"], rule store.iter_determined) (auto simp: ends_def prefix_def)

text \<open>The delegation graph: \<open>j\<close> is entered as a child of \<open>i\<close>.\<close>

definition kid :: "Store \<Rightarrow> bytes \<Rightarrow> bytes \<Rightarrow> bool" where
  "kid st i j \<longleftrightarrow> (\<exists>k \<in> set (children st i). splitPath k \<noteq> [] \<and> last (splitPath k) = j)"

lemma kid_ends: "ends s a b \<Longrightarrow> cap_wf a \<Longrightarrow> cap_wf b \<Longrightarrow> kid b i j = kid a i j"
  by (simp add: kid_def cap_wf_def children_ends)

text \<open>One step of the loop: an unspent child gets the new status.\<close>

lemma end_one:
  assumes "cap_wf st" "loadUTXO st c = Inr u" "u_Status u = UTXO_UNSPENT" "s \<noteq> UTXO_UNSPENT"
    "st1 = saveUTXO st (u\<lparr>u_Status := s\<rparr>)"
  shows "cap_wf st1" "ends s st st1" "live st c" "\<not> live st1 c" "live st i \<Longrightarrow> \<not> live st1 i \<Longrightarrow> i = c"
    "kid st1 i j = kid st i j"
proof -
  have upd: "loadUTXO st1 j = (if j = c then Inr (u\<lparr>u_Status := s\<rparr>) else loadUTXO st j)" for j
    using utxos.load_update [of st c u "u\<lparr>u_Status := s\<rparr>" j] assms by (simp add: cap_wf_def)
  show wf: "cap_wf st1" using assms(1) unfolding assms(5) by (rule cap_wf_save)
  show e: "ends s st st1" using assms by (auto simp: cap_wf_def intro: ends_save)
  show "live st c" "\<not> live st1 c" using assms(2-4) by (simp_all add: live_def upd)
  show "live st i \<Longrightarrow> \<not> live st1 i \<Longrightarrow> i = c" by (auto simp: live_def upd split: if_splits)
  show "kid st1 i j = kid st i j" by (rule kid_ends [OF e assms(1) wf])
qed

text \<open>After a cascade that returns without error, no child in the list is unspent, and no child of
  a capability that the cascade ended is.\<close>

lemma casc_closed:
  assumes "casc s st ks st' r" "cap_wf st" "s \<noteq> UTXO_UNSPENT" "r = Inr aff"
  shows "(\<forall>k\<in>set ks. splitPath k \<noteq> [] \<longrightarrow> \<not> live st' (last (splitPath k)))
    \<and> (\<forall>i j. live st i \<longrightarrow> \<not> live st' i \<longrightarrow> kid st i j \<longrightarrow> \<not> live st' j)"
  using assms
proof (induction arbitrary: aff rule: casc.induct)
  case (ended k st u ks st' r)
  have "\<not> live st (last (splitPath k))" using ended.hyps(2,3) by (simp add: live_def)
  then have "\<not> live st' (last (splitPath k))"
    using ends_live [OF casc_ends [OF ended.hyps(4) ended.prems(1), THEN conjunct1] ended.prems(2)] by blast
  with ended show ?case by simp
next
  case (live k st u st1 st2 ns ks st3 rs)
  let ?c = "last (splitPath k)"
  note one = end_one [OF live.prems(1) live.hyps(2,3) live.prems(2) live.hyps(4)]
  have e2: "ends s st1 st2" and wf2: "cap_wf st2" using casc_ends [OF live.hyps(5) one(1)] by auto
  have e3: "ends s st2 st3" using casc_ends [OF live.hyps(6) wf2] by auto
  note IH1 = live.IH(1) [OF one(1) live.prems(2) refl] and IH2 = live.IH(2) [OF wf2 live.prems(2) refl]
  have down: "live st2 i" if "live st3 i" for i by (rule ends_live [OF e3 live.prems(2) that])
  have down1: "live st1 i" if "live st2 i" for i by (rule ends_live [OF e2 live.prems(2) that])
  have kids: "kid st1 i j = kid st i j" "kid st2 i j = kid st i j" for i j
    using kid_ends [OF e2 one(1) wf2] one(6) by simp_all
  show ?case
  proof (intro conjI ballI allI impI)
    fix k' assume k': "k' \<in> set (k # ks)" "splitPath k' \<noteq> []"
    then show "\<not> live st3 (last (splitPath k'))"
      using one(4) down down1 IH2 by (metis set_ConsD)
  next
    fix i j assume i: "live st i" "\<not> live st3 i" "kid st i j"
    consider "i = ?c" | "live st1 i" "\<not> live st2 i" | "live st2 i" using one(5) i by blast
    then show "\<not> live st3 j"
    proof cases
      case 1
      with i(3) have "kid st1 ?c j" using kids by simp
      then show ?thesis using IH1 down by (auto simp: kid_def)
    next
      case 2
      then show ?thesis using IH1 down i(3) kids by blast
    next
      case 3
      then show ?thesis using IH2 i kids by blast
    qed
  qed
qed auto

text \<open>Descent through unspent capabilities.\<close>

inductive heir :: "Store \<Rightarrow> bytes \<Rightarrow> bytes \<Rightarrow> bool" for st :: Store and base :: bytes where
  child: "kid st base j \<Longrightarrow> live st j \<Longrightarrow> heir st base j"
| grandchild: "heir st base i \<Longrightarrow> kid st i j \<Longrightarrow> live st j \<Longrightarrow> heir st base j"

lemma heir_step: "kid st r i \<Longrightarrow> live st i \<Longrightarrow> heir st i j \<Longrightarrow> heir st r j"
  by (erule heir.induct) (auto intro: heir.intros)

lemma heir_mono:
  assumes "heir b r j" "\<And>i j. kid b i j = kid a i j" "\<And>i. live b i \<Longrightarrow> live a i"
  shows "heir a r j"
  using assms(1) by induction (auto intro: heir.intros simp: assms)

text \<open>A cascade ends only capabilities named in the list and their heirs.\<close>

lemma casc_sound:
  assumes "casc s st ks st' r" "cap_wf st" "s \<noteq> UTXO_UNSPENT" "r = Inr aff" "live st i" "\<not> live st' i"
  shows "\<exists>k\<in>set ks. splitPath k \<noteq> [] \<and> live st (last (splitPath k))
    \<and> (i = last (splitPath k) \<or> heir st (last (splitPath k)) i)"
  using assms
proof (induction arbitrary: aff rule: casc.induct)
  case (live k st u st1 st2 ns ks st3 rs)
  let ?c = "last (splitPath k)"
  note one = end_one [OF live.prems(1) live.hyps(2,3) live.prems(2) live.hyps(4)]
  have e2: "ends s st1 st2" and wf2: "cap_wf st2" using casc_ends [OF live.hyps(5) one(1)] by auto
  note up = ends_live [OF one(2) live.prems(2)] ends_live [OF ends_trans [OF one(2) e2] live.prems(2)]
  have kids: "kid st1 i j = kid st i j" "kid st2 i j = kid st i j" for i j
    using kid_ends [OF e2 one(1) wf2] one(6) by simp_all
  consider "i = ?c" | "live st1 i" "\<not> live st2 i" | "live st2 i" using one(5) live.prems(4) by blast
  then show ?case
  proof cases
    case 1
    then show ?thesis using live.hyps(1) one(3) by auto
  next
    case 2
    from live.IH(1) [OF one(1) live.prems(2) refl this] obtain j where
      "kid st1 ?c j" "live st1 j" "i = j \<or> heir st1 j i" by (auto simp: kid_def)
    then have "heir st1 ?c i" by (auto intro: heir.child heir_step)
    then have "heir st ?c i" by (rule heir_mono) (use kids up(1) in auto)
    then show ?thesis using live.hyps(1) one(3) by auto
  next
    case 3
    from live.IH(2) [OF wf2 live.prems(2) refl 3 live.prems(5)] obtain k' where
      "k' \<in> set ks" "splitPath k' \<noteq> []" "live st2 (last (splitPath k'))"
      "i = last (splitPath k') \<or> heir st2 (last (splitPath k')) i" by auto
    moreover have "heir st a b" if "heir st2 a b" for a b by (rule heir_mono [OF that]) (use kids up(2) in auto)
    ultimately show ?thesis using up(2) by auto
  qed
qed auto

text \<open>A cascade that returns ends exactly the heirs of the capability it starts from.\<close>

lemma casc_exact:
  assumes run: "casc s st (children st base) st' (Inr aff)" and wf: "cap_wf st" and s: "s \<noteq> UTXO_UNSPENT"
  shows "live st i \<and> \<not> live st' i \<longleftrightarrow> heir st base i"
proof
  assume "live st i \<and> \<not> live st' i"
  then show "heir st base i"
    using casc_sound [OF run wf s refl, of i] by (metis heir.child heir_step kid_def)
next
  note closed = casc_closed [OF run wf s refl]
  assume "heir st base i"
  then show "live st i \<and> \<not> live st' i"
    by induction (use closed in \<open>auto simp: kid_def\<close>)
qed

section \<open>The cascade ends\<close>

lemmas utxo_mem = decoded_mem [OF _ loadUTXO_def UTXOKey_def]

lemma set_unspent:
  assumes "cap_wf st"
  shows "set (unspent st) = {i. live st i}"
proof -
  have "i \<in> set (unspent st) \<longleftrightarrow> (\<exists>u. (\<exists>j. loadUTXO st j = Inr u) \<and> u_Status u = UTXO_UNSPENT \<and> i = u_UTXOID u)" for i
    using assms by (auto simp: unspent_def utxo_mem cap_wf_def)
  also have "\<dots> i \<longleftrightarrow> live st i" for i
    using assms by (force simp: cap_wf_def own_ids_def live_def split: sum.splits)
  finally show ?thesis by blast
qed

lemma finite_live: "cap_wf st \<Longrightarrow> finite {i. live st i}"
  using set_unspent by (metis List.finite_set)

lemma cascade_loop_total:
  "cap_wf st \<Longrightarrow> s \<noteq> UTXO_UNSPENT \<Longrightarrow> card {i. live st i} \<le> fuel \<Longrightarrow>
   \<exists>st' r. cascade_loop fuel s ks st = Some (st', r)"
proof (induction fuel s ks st rule: cascade_loop.induct)
  case (2 fuel s k ks st)
  show ?case
  proof (cases "splitPath k = [] \<or> (\<forall>u. loadUTXO st (last (splitPath k)) = Inr u \<longrightarrow> u_Status u \<noteq> UTXO_UNSPENT)")
    case True
    with 2 show ?thesis by (cases "loadUTXO st (last (splitPath k))") (auto simp: cascade_loop.simps(2) Let_def)
  next
    case False
    then obtain u where parts: "splitPath k \<noteq> []" and u: "loadUTXO st (last (splitPath k)) = Inr u"
      and lv: "u_Status u = UTXO_UNSPENT" by auto
    let ?c = "last (splitPath k)" and ?st1 = "saveUTXO st (u\<lparr>u_Status := s\<rparr>)"
    note one = end_one [OF 2(5) u lv 2(6) refl]
    have sub: "{i. live ?st1 i} \<subseteq> {i. live st i} - {?c}"
      using one(4) ends_live [OF one(2) 2(6)] by auto
    have "card {i. live ?st1 i} \<le> card ({i. live st i} - {?c})"
      by (rule card_mono [OF _ sub]) (simp add: finite_live [OF 2(5)])
    also have "\<dots> < card {i. live st i}"
      using one(3) finite_live [OF 2(5)] by (intro card_Diff1_less) auto
    finally have less: "card {i. live ?st1 i} < fuel" using 2(7) by simp
    then obtain f where f: "fuel = Suc f" by (cases fuel) auto
    with less obtain st2 r2 where n: "cascade_loop f s (children ?st1 ?c) ?st1 = Some (st2, r2)"
      using 2(2) [OF refl parts refl u lv refl f one(1) 2(6)] by auto
    have e2: "ends s ?st1 st2" and wf2: "cap_wf st2" using casc_ends [OF cascade_loop_casc [OF n] one(1)] by auto
    have "card {i. live st2 i} \<le> card {i. live ?st1 i}"
      by (rule card_mono) (use finite_live [OF one(1)] ends_live [OF e2 2(6)] in auto)
    then have le: "card {i. live st2 i} \<le> fuel" using less by simp
    show ?thesis
    proof (cases r2)
      case (Inr ns)
      obtain st3 r3 where "cascade_loop fuel s ks st2 = Some (st3, r3)"
        using 2(3) [OF refl parts refl u lv refl f n refl Inr wf2 2(6) le] by auto
      with parts u lv f n Inr show ?thesis by (cases r3) (auto simp: cascade_loop.simps(2) Let_def)
    qed (use parts u lv f n in \<open>auto simp: cascade_loop.simps(2) Let_def\<close>)
  qed
qed simp

lemma unspent_card: "cap_wf st \<Longrightarrow> card {i. live st i} \<le> length (unspent st)"
  by (metis card_length set_unspent)

section \<open>The invariant of the module\<close>

text \<open>A capability with a use limit has not been used more often, and less often while it is
  unspent; one that can be delegated has not been delegated deeper than its limit.\<close>

definition utxo_ok :: "CapabilityUTXO \<Rightarrow> bool" where
  "utxo_ok u \<longleftrightarrow> (0 < u_MaxUses u \<longrightarrow> u_UsedCount u \<le> u_MaxUses u
       \<and> (u_Status u = UTXO_UNSPENT \<longrightarrow> u_UsedCount u < u_MaxUses u))
     \<and> (u_Delegatable u \<longrightarrow> 0 < u_MaxDepth u \<and> u_CurDepth u \<le> u_MaxDepth u)"

text \<open>Every entry of the delegation index names a stored capability.\<close>

definition derive_ok :: "Store \<Rightarrow> bool" where
  "derive_ok st \<longleftrightarrow> (\<forall>k. prefix PrefixCapDerive k \<longrightarrow> Get st k \<noteq> None \<longrightarrow>
     splitPath k \<noteq> [] \<and> (\<exists>u. loadUTXO st (last (splitPath k)) = Inr u))"

definition cap_ok :: "Store \<Rightarrow> bool" where
  "cap_ok st \<longleftrightarrow> cap_wf st \<and> derive_ok st \<and> (\<forall>i u. loadUTXO st i = Inr u \<longrightarrow> utxo_ok u)"

lemma ends_loaded: "ends s st st' \<Longrightarrow> (\<exists>u. loadUTXO st' i = Inr u) \<longleftrightarrow> (\<exists>u. loadUTXO st i = Inr u)"
  by (erule ends_cases [where i = i]) auto

lemma derive_not_utxo: "prefix PrefixCapDerive k \<Longrightarrow> \<not> prefix PrefixCapUTXO k"
  by (auto simp: prefix_def)

lemma derive_ok_ends:
  assumes e: "ends s st st'" and "derive_ok st"
  shows "derive_ok st'"
proof -
  have "Get st' k = Get st k" if "prefix PrefixCapDerive k" for k
    using e derive_not_utxo [OF that] by (simp add: ends_def)
  with assms(2) show ?thesis by (simp add: derive_ok_def ends_loaded [OF e])
qed

lemma cap_ok_ends:
  assumes "ends s st st'" "cap_ok st" "cap_wf st'" "s \<noteq> UTXO_UNSPENT"
  shows "cap_ok st'"
  unfolding cap_ok_def
proof (intro conjI allI impI assms(3))
  show "derive_ok st'" using assms(1,2) by (auto simp: cap_ok_def intro: derive_ok_ends)
  fix i u assume "loadUTXO st' i = Inr u"
  then show "utxo_ok u"
    by (rule_tac i = i in ends_cases [OF assms(1)]) (use assms(2,4) in \<open>auto simp: cap_ok_def utxo_ok_def\<close>)
qed

lemma children_loaded:
  assumes "store_inv st" "derive_ok st" "k \<in> set (children st i)"
  shows "splitPath k \<noteq> [] \<and> (\<exists>u. loadUTXO st (last (splitPath k)) = Inr u)"
proof -
  from assms(3) obtain v where "(k, v) \<in> set (IteratePrefix st (PrefixCapDerive @ i @ ''/''))"
    by (auto simp: children_def)
  then have "prefix (PrefixCapDerive @ i @ ''/'') k" "Get st k = Some v"
    using store.iter_mem [OF assms(1)] by auto
  then have "prefix PrefixCapDerive k" "Get st k \<noteq> None" by (auto simp: prefix_def)
  then show ?thesis using assms(2) by (auto simp: derive_ok_def)
qed

lemma casc_no_error:
  assumes "casc s st ks st' r" "cap_wf st" "derive_ok st" "s \<noteq> UTXO_UNSPENT"
    and "\<And>k. k \<in> set ks \<Longrightarrow> \<exists>u. loadUTXO st (last (splitPath k)) = Inr u"
  shows "\<exists>aff. r = Inr aff"
  using assms
proof (induction rule: casc.induct)
  case (missing k st e ks)
  then show ?case by (metis list.set_intros(1) sum.distinct(1))
next
  case (nested_error k st u st1 st2 e ks)
  note one = end_one [OF nested_error.prems(1) nested_error.hyps(2,3) nested_error.prems(3) nested_error.hyps(4)]
  show ?case
    using nested_error.IH one(1) derive_ok_ends [OF one(2) nested_error.prems(2)] nested_error.prems(3)
      children_loaded by (meson cap_wf_def)
next
  case (rest_error k st u st1 st2 ns ks st3 e)
  note one = end_one [OF rest_error.prems(1) rest_error.hyps(2,3) rest_error.prems(3) rest_error.hyps(4)]
  have e: "ends s st1 st2" "cap_wf st2" using casc_ends [OF rest_error.hyps(5) one(1)] by auto
  have "ends s st st2" using one(2) e(1) by (rule ends_trans)
  then show ?case
    using rest_error.IH(2) e(2) derive_ok_ends rest_error.prems ends_loaded by (metis list.set_intros(2))
qed auto

lemma cascade_spec:
  assumes "cap_ok st" "s \<noteq> UTXO_UNSPENT"
  shows "\<exists>st' aff. cascade st i s = Some (st', Inr aff) \<and> ends s st st' \<and> cap_ok st'
    \<and> (\<forall>j. live st j \<and> \<not> live st' j \<longleftrightarrow> heir st i j)"
proof -
  have wf: "cap_wf st" and d: "derive_ok st" using assms(1) by (auto simp: cap_ok_def)
  obtain st' r where run: "cascade st i s = Some (st', r)"
    unfolding cascade_def using cascade_loop_total [OF wf assms(2) unspent_card [OF wf]] by blast
  then have c: "casc s st (children st i) st' r" by (simp add: cascade_def cascade_loop_casc)
  have e: "ends s st st'" "cap_wf st'" using casc_ends [OF c wf] by auto
  obtain aff where r: "r = Inr aff"
    using casc_no_error [OF c wf d assms(2)] children_loaded [OF _ d] wf by (auto simp: cap_wf_def)
  show ?thesis
    using run r e cap_ok_ends [OF e(1) assms(1) e(2) assms(2)] casc_exact [OF c [unfolded r] wf assms(2)] by auto
qed

lemma cap_ok_save:
  assumes "cap_ok st" "utxo_ok u"
  shows "cap_ok (saveUTXO st u)"
proof -
  have "derive_ok (saveUTXO st u)"
    using assms(1) by (auto simp: cap_ok_def derive_ok_def utxos.load_save_elsewhere derive_not_utxo utxos.load_save)
  with assms show ?thesis by (auto simp: cap_ok_def cap_wf_save utxos.load_save)
qed

lemma loadUTXO_Set_other: "\<not> prefix PrefixCapUTXO k \<Longrightarrow> loadUTXO (Set st k v) i = loadUTXO st i"
  using utxos.key_pre [of i] by (intro utxos.load_frame) (auto simp: Get_Set)

lemma cap_ok_Set:
  assumes "cap_ok st" "\<not> prefix PrefixCapUTXO k"
    and "prefix PrefixCapDerive k \<Longrightarrow> splitPath k \<noteq> [] \<and> (\<exists>u. loadUTXO st (last (splitPath k)) = Inr u)"
  shows "cap_ok (Set st k v)"
  using assms by (auto simp: cap_ok_def cap_wf_def derive_ok_def own_ids_def loadUTXO_Set_other Get_Set)

lemma word_inc_le: "x < y \<Longrightarrow> x + 1 \<le> (y :: uint32)"
  by (rule inc_le)

lemma cap_ok_mint: "cap_ok (ctxStore ctx) \<Longrightarrow> cap_ok (ctxStore (fst (mint ctx env)))"
  by (auto simp: mint_def Let_def utxo_ok_def word_gt_0 split: option.split
      intro!: cap_ok_Set cap_ok_save)

lemma utxo_ok_status: "utxo_ok u \<Longrightarrow> s \<noteq> UTXO_UNSPENT \<Longrightarrow> utxo_ok (u\<lparr>u_Status := s\<rparr>)"
  by (simp add: utxo_ok_def)

lemma utxo_ok_used:
  assumes "utxo_ok u" "u_Status u = UTXO_UNSPENT"
  shows "u_MaxUses u \<le> u_UsedCount u + 1 \<Longrightarrow> 0 < u_MaxUses u \<Longrightarrow>
      utxo_ok (u\<lparr>u_UsedCount := u_UsedCount u + 1, u_Status := UTXO_SPENT\<rparr>)"
    and "(0 < u_MaxUses u \<Longrightarrow> \<not> u_MaxUses u \<le> u_UsedCount u + 1) \<Longrightarrow>
      utxo_ok (u\<lparr>u_UsedCount := u_UsedCount u + 1\<rparr>)"
  using assms word_inc_le [of "u_UsedCount u" "u_MaxUses u"] by (auto simp: utxo_ok_def)

lemma cap_ok_load: "cap_ok st \<Longrightarrow> loadUTXO st i = Inr u \<Longrightarrow> utxo_ok u \<and> u_UTXOID u = i"
  by (auto simp: cap_ok_def cap_wf_def own_ids_def)

lemma cap_ok_spend:
  assumes "cap_ok (ctxStore ctx)"
  shows "cap_ok (ctxStore (fst (spend ctx env)))"
  using assms cap_ok_load [OF assms]
  by (simp add: spend_def Let_def cap_ok_save utxo_ok_status utxo_ok_used split: option.split sum.split)

text \<open>A delegation either changes nothing or stores a child with no more authority than its parent.\<close>

definition attenuates :: "CapabilityUTXO \<Rightarrow> CapabilityUTXO \<Rightarrow> bool" where
  "attenuates parent c \<longleftrightarrow> set (u_Scopes c) \<subseteq> set (u_Scopes parent) \<and> u_Scopes c \<noteq> []
     \<and> u_CapType c = u_CapType parent \<and> u_Issuer c = u_Issuer parent
     \<and> (0 < u_ExpiresAt parent \<longrightarrow> u_ExpiresAt c \<le> u_ExpiresAt parent \<and> u_ExpiresAt c \<noteq> 0)
     \<and> (0 < u_MaxUses parent \<longrightarrow> 0 < u_MaxUses c \<and> u_MaxUses c \<le> u_MaxUses parent)
     \<and> u_MaxDepth c = u_MaxDepth parent \<and> u_CurDepth c = u_CurDepth parent + 1
     \<and> (0 < u_MaxDepth parent \<longrightarrow> u_CurDepth c \<le> u_MaxDepth c)"

definition delegated :: "Store \<Rightarrow> CapabilityUTXO \<Rightarrow> Store" where
  "delegated st c = Set (saveUTXO st c) (PrefixCapDerive @ u_ParentUTXO c @ ''/'' @ u_UTXOID c) (VBytes [CHR 0x01])"

lemma delegate_cases:
  obtains (error) e where "delegate ctx env = (ctx, Err e)"
  | (child) p parent c where "DecodeJSONPayload DelegatePayload_fields zeroDelegate env = Some p"
    "loadUTXO (ctxStore ctx) (dl_ParentUTXOID p) = Inr parent" "u_Holder parent = Sender env"
    "u_Delegatable parent" "attenuates parent c" "u_Delegatable c" "u_Status c = UTXO_UNSPENT"
    "u_UsedCount c = 0" "u_Holder c = dl_NewHolder p" "u_ParentUTXO c = u_UTXOID parent"
    "u_UTXOID c = delegatedUTXOID (u_UTXOID parent) (Sender env) (Nonce env)"
    "delegate ctx env = (upd_store ctx (delegated (ctxStore ctx) c), Ret (SuccessResult 3000 []))"
proof (cases "\<exists>e. delegate ctx env = (ctx, Err e)")
  case False
  then obtain p where p: "DecodeJSONPayload DelegatePayload_fields zeroDelegate env = Some p"
    by (auto simp: delegate_def split: option.splits)
  with False obtain parent where parent: "loadUTXO (ctxStore ctx) (dl_ParentUTXOID p) = Inr parent"
    by (auto simp: delegate_def split: sum.splits)
  have guards: "u_Holder parent = Sender env" "u_Delegatable parent"
    "\<not> (0 < u_MaxDepth parent \<and> u_MaxDepth parent < u_CurDepth parent + 1)"
    "isSubset (dl_Scopes p) (u_Scopes parent)"
    "\<not> (0 < u_ExpiresAt parent \<and> u_ExpiresAt parent < dl_ExpiresAt p)"
    "\<not> (0 < u_MaxUses parent \<and> u_MaxUses parent < dl_MaxUses p)"
    using False by (auto simp: delegate_def p parent Let_def split: if_splits)
  define c where "c = \<lparr>u_UTXOID = delegatedUTXOID (u_UTXOID parent) (Sender env) (Nonce env),
     u_Issuer = u_Issuer parent, u_Holder = dl_NewHolder p,
     u_CapType = u_CapType parent, u_CapVersion = u_CapVersion parent, u_Scopes = dl_Scopes p,
     u_IssuedAt = now ctx,
     u_ExpiresAt = (if dl_ExpiresAt p = 0 then u_ExpiresAt parent else dl_ExpiresAt p),
     u_MaxUses = (if dl_MaxUses p = 0 then u_MaxUses parent else dl_MaxUses p), u_UsedCount = 0,
     u_Delegatable = u_Delegatable parent, u_MaxDepth = u_MaxDepth parent,
     u_CurDepth = u_CurDepth parent + 1, u_ParentUTXO = u_UTXOID parent, u_Status = UTXO_UNSPENT,
     u_HolderSig = []\<rparr>"
  have "delegate ctx env = (upd_store ctx (delegated (ctxStore ctx) c), Ret (SuccessResult 3000 []))"
    using guards by (simp add: delegate_def p parent Let_def c_def delegated_def)
  moreover have "attenuates parent c"
    using guards by (auto simp: attenuates_def c_def isSubset_def list_all_iff word_gt_0 not_less split: if_splits)
  ultimately show thesis using guards child [OF p parent] by (simp add: c_def)
qed (use error in blast)

lemma cap_ok_delegate:
  assumes "cap_ok (ctxStore ctx)"
  shows "cap_ok (ctxStore (fst (delegate ctx env)))"
proof (cases rule: delegate_cases [of ctx env])
  case (child p parent c)
  have "utxo_ok parent" using cap_ok_load [OF assms child(2)] by simp
  then have c: "utxo_ok c" using child by (auto simp: utxo_ok_def attenuates_def word_gt_0)
  have "plain_id (u_UTXOID c)" by (simp add: child)
  then have "cap_ok (delegated (ctxStore ctx) c)"
    unfolding delegated_def
    using splitPath_last [of "u_UTXOID c" "PrefixCapDerive @ u_ParentUTXO c"] utxos.load_save_same
    by (intro cap_ok_Set [OF cap_ok_save [OF assms c]]) simp_all
  then show ?thesis by (simp add: child)
qed (use assms in simp)

lemma cap_ok_revoke:
  assumes "cap_ok (ctxStore ctx)"
  shows "cap_ok (ctxStore (fst (revoke ctx env)))"
proof -
  have "cap_ok (fst (the (cascade (saveUTXO (ctxStore ctx) (u\<lparr>u_Status := UTXO_REVOKED\<rparr>)) i UTXO_REVOKED)))"
    "\<exists>st' aff. cascade (saveUTXO (ctxStore ctx) (u\<lparr>u_Status := UTXO_REVOKED\<rparr>)) i UTXO_REVOKED = Some (st', Inr aff)"
    if "loadUTXO (ctxStore ctx) i = Inr u" for i u
    using cascade_spec [OF cap_ok_save [OF assms utxo_ok_status], of u UTXO_REVOKED UTXO_REVOKED i] cap_ok_load [OF assms that] by auto
  then show ?thesis
    using assms cap_ok_load [OF assms]
    by (fastforce simp: revoke_def Let_def split: option.split sum.split)
qed

section \<open>Expiry\<close>

definition due :: "int64 \<Rightarrow> CapabilityUTXO \<Rightarrow> bool" where
  "due t u \<longleftrightarrow> u_Status u = UTXO_UNSPENT \<and> u_ExpiresAt u \<noteq> 0 \<and> u_ExpiresAt u \<le> t"

lemma ends_save_later:
  assumes "ends s st0 st" "own_ids loadUTXO u_UTXOID st0" "loadUTXO st0 i = Inr u" "u_Status u = UTXO_UNSPENT"
  shows "ends s st0 (saveUTXO st (u\<lparr>u_Status := s\<rparr>))"
proof -
  have "u_UTXOID u = i" using assms(2,3) by (simp add: own_ids_def)
  then have ld: "loadUTXO (saveUTXO st (u\<lparr>u_Status := s\<rparr>)) j
      = (if j = i then Inr (u\<lparr>u_Status := s\<rparr>) else loadUTXO st j)" for j
    by (auto simp: utxos.load_save)
  have lv: "live st0 i" using assms by (simp add: live_def)
  show ?thesis
    unfolding ends_def ld
  proof (intro conjI allI impI)
    fix j x assume "loadUTXO st0 j = Inr x"
    then show "(if j = i then Inr (u\<lparr>u_Status := s\<rparr>) else loadUTXO st j) = Inr x \<or>
        live st0 j \<and> (if j = i then Inr (u\<lparr>u_Status := s\<rparr>) else loadUTXO st j) = Inr (x\<lparr>u_Status := s\<rparr>)"
      using assms lv by (auto simp: ends_def)
  next
    fix j e assume "loadUTXO st0 j = Inl e"
    then show "(if j = i then Inr (u\<lparr>u_Status := s\<rparr>) else loadUTXO st j) = Inl e"
      using assms by (auto simp: ends_def)
  qed (use assms in \<open>auto simp: ends_def utxos.load_save_elsewhere\<close>)
qed

text \<open>The snapshot \<open>st0\<close> was taken before the loop; what it lists as unspent may have been expired
  by the cascade of an earlier entry.\<close>

lemma expire_one:
  assumes wf0: "cap_wf st0" and e0: "ends UTXO_EXPIRED st0 st" and ok: "cap_ok st"
    and u0: "loadUTXO st0 (u_UTXOID u) = Inr u" and lv: "u_Status u = UTXO_UNSPENT"
  defines "st1 \<equiv> saveUTXO st (u\<lparr>u_Status := UTXO_EXPIRED\<rparr>)"
  shows "\<exists>st2 aff. cascade st1 (u_UTXOID u) UTXO_EXPIRED = Some (st2, Inr aff) \<and> ends UTXO_EXPIRED st0 st2
    \<and> cap_ok st2 \<and> \<not> live st2 (u_UTXOID u) \<and> (\<forall>j. live st2 j \<longrightarrow> live st j)
    \<and> (\<forall>j. live st j \<and> \<not> live st2 j \<longrightarrow> j = u_UTXOID u \<or> heir st0 (u_UTXOID u) j)"
proof -
  let ?i = "u_UTXOID u"
  have e1: "ends UTXO_EXPIRED st0 st1"
    using ends_save_later [OF e0 _ u0 lv] wf0 by (simp add: cap_wf_def st1_def)
  have live1: "live st1 j \<longleftrightarrow> j \<noteq> ?i \<and> live st j" for j by (simp add: live_def utxos.load_save st1_def)
  have "loadUTXO st ?i = Inr u \<or> loadUTXO st ?i = Inr (u\<lparr>u_Status := UTXO_EXPIRED\<rparr>)"
    using e0 u0 by (auto simp: ends_def)
  then have "utxo_ok (u\<lparr>u_Status := UTXO_EXPIRED\<rparr>)"
    using cap_ok_load [OF ok] utxo_ok_status by fastforce
  then have ok1: "cap_ok st1" unfolding st1_def by (rule cap_ok_save [OF ok])
  obtain st2 aff where c: "cascade st1 ?i UTXO_EXPIRED = Some (st2, Inr aff)" "ends UTXO_EXPIRED st1 st2"
    "cap_ok st2" and h: "\<And>j. live st1 j \<and> \<not> live st2 j \<longleftrightarrow> heir st1 ?i j"
    using cascade_spec [OF ok1, of UTXO_EXPIRED ?i] by auto
  have down: "live st1 j" if "live st2 j" for j by (rule ends_live [OF c(2) _ that]) simp
  have kids: "kid st1 x y = kid st0 x y" for x y
    by (rule kid_ends [OF e1 wf0]) (use ok1 in \<open>simp add: cap_ok_def\<close>)
  have "heir st0 ?i j" if "live st1 j" "\<not> live st2 j" for j
    by (rule heir_mono [of st1]) (use h that kids ends_live [OF e1] in auto)
  then show ?thesis using c ends_trans [OF e1 c(2)] down live1 by blast
qed

lemma expire_loop_skip:
  assumes "\<And>u. un_utxo (snd kv) = Some u \<Longrightarrow> \<not> due t u"
  shows "expire_loop t (kv # kvs) evs st = expire_loop t kvs evs st"
  using assms by (auto simp: due_def split: option.split)

lemma decoded_Cons: "set (decoded un (kv # kvs)) = set_option (un (snd kv)) \<union> set (decoded un kvs)"
  by (auto simp: decoded_def map_filter_def split: option.split)

lemma expire_loop_spec:
  assumes wf0: "cap_wf st0" and "ends UTXO_EXPIRED st0 st" "cap_ok st"
    and "\<And>u. u \<in> set (decoded un_utxo kvs) \<Longrightarrow> loadUTXO st0 (u_UTXOID u) = Inr u"
  shows "\<exists>st' evs'. expire_loop t kvs evs st = (st', Ret evs') \<and> ends UTXO_EXPIRED st0 st'
    \<and> cap_ok st' \<and> (\<forall>j. live st' j \<longrightarrow> live st j)
    \<and> (\<forall>u\<in>set (decoded un_utxo kvs). due t u \<longrightarrow> \<not> live st' (u_UTXOID u))
    \<and> (\<forall>i. live st i \<and> \<not> live st' i \<longrightarrow> (\<exists>u. loadUTXO st0 (u_UTXOID u) = Inr u \<and> due t u
        \<and> (i = u_UTXOID u \<or> heir st0 (u_UTXOID u) i)))"
  using assms(2-4)
proof (induction kvs arbitrary: evs st)
  case (Cons kv kvs)
  show ?case
  proof (cases "\<exists>u. un_utxo (snd kv) = Some u \<and> due t u")
    case False
    then have skip: "expire_loop t (kv # kvs) evs st = expire_loop t kvs evs st"
      by (metis expire_loop_skip)
    have "u \<notin> set_option (un_utxo (snd kv))" if "due t u" for u using False that by auto
    then have dec: "(\<forall>u\<in>set (decoded un_utxo (kv # kvs)). due t u \<longrightarrow> Q u)
        \<longleftrightarrow> (\<forall>u\<in>set (decoded un_utxo kvs). due t u \<longrightarrow> Q u)" for Q
      unfolding decoded_Cons by blast
    show ?thesis
      unfolding skip dec by (rule Cons.IH [OF Cons.prems(1,2)]) (rule Cons.prems(3), simp add: decoded_Cons)
  next
    case True
    then obtain u where kv: "un_utxo (snd kv) = Some u" and d: "due t u" by blast
    have u0: "loadUTXO st0 (u_UTXOID u) = Inr u" using Cons.prems(3) kv by (simp add: decoded_Cons)
    have lv: "u_Status u = UTXO_UNSPENT" using d by (simp add: due_def)
    obtain st2 aff where c: "cascade (saveUTXO st (u\<lparr>u_Status := UTXO_EXPIRED\<rparr>)) (u_UTXOID u) UTXO_EXPIRED = Some (st2, Inr aff)"
      and e2: "ends UTXO_EXPIRED st0 st2" "cap_ok st2" and gone: "\<not> live st2 (u_UTXOID u)" "\<And>j. live st2 j \<Longrightarrow> live st j"
      and why: "\<And>j. live st j \<Longrightarrow> \<not> live st2 j \<Longrightarrow> j = u_UTXOID u \<or> heir st0 (u_UTXOID u) j"
      using expire_one [OF wf0 Cons.prems(1,2) u0 lv] by blast
    let ?evs = "evs @ [mkEvent ''CapabilityExpired'' [(''utxo_id'', u_UTXOID u)]]"
    have step: "expire_loop t (kv # kvs) evs st = expire_loop t kvs ?evs st2"
      using d c by (simp add: kv due_def Let_def)
    have in_tail: "loadUTXO st0 (u_UTXOID x) = Inr x" if "x \<in> set (decoded un_utxo kvs)" for x
      using Cons.prems(3) that by (simp add: decoded_Cons)
    have o: "set_option (un_utxo (snd kv)) = {u}" by (simp add: kv)
    obtain st' evs' where r: "expire_loop t kvs ?evs st2 = (st', Ret evs')" "ends UTXO_EXPIRED st0 st'" "cap_ok st'"
      and sub: "\<And>j. live st' j \<Longrightarrow> live st2 j"
      and tail: "\<And>x. x \<in> set (decoded un_utxo kvs) \<Longrightarrow> due t x \<Longrightarrow> \<not> live st' (u_UTXOID x)"
      and later: "\<And>i. live st2 i \<Longrightarrow> \<not> live st' i \<Longrightarrow> \<exists>u. loadUTXO st0 (u_UTXOID u) = Inr u \<and> due t u
        \<and> (i = u_UTXOID u \<or> heir st0 (u_UTXOID u) i)"
      using Cons.IH [OF e2 in_tail, of ?evs] by auto
    have "\<exists>u. loadUTXO st0 (u_UTXOID u) = Inr u \<and> due t u \<and> (i = u_UTXOID u \<or> heir st0 (u_UTXOID u) i)"
      if "live st i" "\<not> live st' i" for i
      using later [OF _ that(2)] why [OF that(1)] u0 d by blast
    moreover have "\<not> live st' (u_UTXOID x)" if "x \<in> {u} \<union> set (decoded un_utxo kvs)" "due t x" for x
      using that tail sub gone(1) by blast
    ultimately show ?thesis unfolding step decoded_Cons o using r sub gone(2) by blast
  qed
qed (simp add: decoded_def map_filter_def)

lemma expireAtTime_spec:
  assumes ok: "cap_ok (ctxStore ctx)"
  shows "\<exists>st' evs. expireAtTime ctx t = (upd_store ctx st', Ret evs) \<and> ends UTXO_EXPIRED (ctxStore ctx) st'
    \<and> cap_ok st' \<and> (\<forall>i u. loadUTXO st' i = Inr u \<longrightarrow> \<not> due t u)
    \<and> (\<forall>i. live (ctxStore ctx) i \<and> \<not> live st' i \<longrightarrow> (\<exists>j u. loadUTXO (ctxStore ctx) j = Inr u \<and> due t u
        \<and> (i = j \<or> heir (ctxStore ctx) j i)))"
proof -
  let ?st = "ctxStore ctx"
  have wf: "cap_wf ?st" using ok by (simp add: cap_ok_def)
  have mem: "u \<in> set (decoded un_utxo (IteratePrefix ?st PrefixCapUTXO)) \<longleftrightarrow> loadUTXO ?st (u_UTXOID u) = Inr u" for u
    using wf utxo_mem [of ?st u] by (auto simp: cap_wf_def own_ids_def)
  obtain st' evs where r: "expire_loop t (IteratePrefix ?st PrefixCapUTXO) [] ?st = (st', Ret evs)"
    "ends UTXO_EXPIRED ?st st'" "cap_ok st'"
    and gone: "\<And>u. loadUTXO ?st (u_UTXOID u) = Inr u \<Longrightarrow> due t u \<Longrightarrow> \<not> live st' (u_UTXOID u)"
    and why: "\<And>i. live ?st i \<Longrightarrow> \<not> live st' i \<Longrightarrow> \<exists>u. loadUTXO ?st (u_UTXOID u) = Inr u \<and> due t u
        \<and> (i = u_UTXOID u \<or> heir ?st (u_UTXOID u) i)"
    using expire_loop_spec [OF wf ends_refl ok, of "IteratePrefix ?st PrefixCapUTXO" t "[]"] mem by blast
  have "\<not> due t u" if u: "loadUTXO st' i = Inr u" for i u
  proof
    assume d: "due t u"
    then have lv: "live st' i" using u by (simp add: live_def due_def)
    have "loadUTXO ?st i = Inr u"
      by (rule ends_cases [OF r(2), of i]) (use u d in \<open>auto simp: due_def\<close>)
    moreover have "u_UTXOID u = i" using cap_ok_load [OF r(3) u] by simp
    ultimately show False using gone d lv by metis
  qed
  moreover have "expireAtTime ctx t = (upd_store ctx st', Ret evs)" by (simp add: expireAtTime_def r(1))
  ultimately show ?thesis using r(2,3) why by blast
qed

section \<open>Contract and invariant\<close>

definition caputxo_prefixes :: "bytes list" where
  "caputxo_prefixes = [PrefixCapUTXO, PrefixCapHolder, PrefixCapType, PrefixCapDerive]"

lemma cap_save_confined: "confined caputxo_prefixes c (upd_store c (saveUTXO (ctxStore c) u))"
  by (rule utxos.save_confined) (simp add: caputxo_prefixes_def)

lemma cap_save_confined': "confined caputxo_prefixes (upd_store c st) (upd_store c (saveUTXO st u))"
  using cap_save_confined [of "upd_store c st" u] by simp

lemma cap_Set_confined:
  assumes "p \<in> {PrefixCapHolder, PrefixCapType, PrefixCapDerive}" "confined caputxo_prefixes c (upd_store c st)"
  shows "confined caputxo_prefixes c (upd_store c (Set st (p @ i) v))"
proof -
  have "confined caputxo_prefixes (upd_store c st) (upd_store (upd_store c st) (Set (ctxStore (upd_store c st)) (p @ i) v))"
    using assms(1) by (intro confined_Set [of p]) (auto simp: caputxo_prefixes_def)
  with assms(2) show ?thesis by (auto intro: confined_trans)
qed

lemma casc_confined: "casc s st ks st' r \<Longrightarrow> confined caputxo_prefixes (upd_store c st) (upd_store c st')"
  by (induction rule: casc.induct) (auto intro: confined_trans cap_save_confined')

lemma cascade_confined:
  "cascade st i s = Some (st', r) \<Longrightarrow> confined caputxo_prefixes (upd_store c st) (upd_store c st')"
  unfolding cascade_def by (rule casc_confined, erule cascade_loop_casc)

lemma expire_loop_confined:
  "expire_loop t kvs evs st = (st', r) \<Longrightarrow> confined caputxo_prefixes (upd_store c st) (upd_store c st')"
proof (induction kvs arbitrary: evs st)
  case (Cons kv kvs)
  have step: "confined caputxo_prefixes (upd_store c st) (upd_store c st2)"
    if "cascade (saveUTXO st u) i s = Some (st2, x)" for u st2 x i s
    using cap_save_confined' cascade_confined [OF that] by (rule confined_trans)
  have rest: "confined caputxo_prefixes (upd_store c st) (upd_store c st')"
    if "cascade (saveUTXO st u) i s = Some (st2, x)" "expire_loop t kvs es st2 = (st', r)" for u st2 x i s es
    using step [OF that(1)] Cons.IH [OF that(2)] by (rule confined_trans)
  show ?case
    using Cons.prems Cons.IH step rest
    by (auto simp: Let_def cap_save_confined' split: option.splits if_splits sum.splits)
qed auto

lemma expireAtTime_confined: "confined caputxo_prefixes c (fst (expireAtTime c t))"
  using expire_loop_confined [where c = c and st = "ctxStore c"]
  by (auto simp: expireAtTime_def split: prod.split)

lemma revoke_confined: "confined caputxo_prefixes c (fst (revoke c env))"
proof -
  have "confined caputxo_prefixes c (upd_store c st2)"
    if "cascade (saveUTXO (ctxStore c) u) i s = Some (st2, x)" for u st2 x i s
    using cap_save_confined cascade_confined [OF that] by (rule confined_trans)
  then show ?thesis
    by (auto simp: revoke_def Let_def cap_save_confined split: option.split sum.split)
qed

lemma caputxo_handlers_confined: "handlers_confined caputxo_prefixes caputxo_handlers"
proof -
  have "confined caputxo_prefixes c (fst (mint c env))" for c env
    by (simp add: mint_def Let_def cap_save_confined cap_Set_confined [of PrefixCapHolder, simplified]
        cap_Set_confined [of PrefixCapType, simplified] split: option.split)
  moreover have "confined caputxo_prefixes c (fst (spend c env))" for c env
    by (simp add: spend_def Let_def cap_save_confined split: option.split sum.split)
  moreover have "confined caputxo_prefixes c (fst (delegate c env))" for c env
    by (cases rule: delegate_cases [of c env])
      (simp_all add: delegated_def cap_save_confined cap_Set_confined [of PrefixCapDerive, simplified])
  moreover have "confined caputxo_prefixes c (fst (batchExpire c env))" for c env
    using expireAtTime_confined [of c "now c"] by (auto simp: batchExpire_def split: prod.split outcome.split)
  ultimately show ?thesis by (simp add: caputxo_handlers_def revoke_confined)
qed

lemma cap_ok_exec:
  assumes "cap_ok (ctxStore ctx)"
  shows "cap_ok (ctxStore (fst (mExecuteTx caputxo_New ctx env)))"
proof -
  have "cap_ok (ctxStore (fst (batchExpire ctx env)))"
    using expireAtTime_spec [OF assms, of "now ctx"] by (auto simp: batchExpire_def)
  then show ?thesis
    using assms by (simp add: caputxo_exec cap_ok_mint cap_ok_spend cap_ok_delegate cap_ok_revoke)
qed

lemma cap_ok_fresh: "cap_ok (ctxStore (fresh_ctx t))"
  by (simp add: cap_ok_def cap_wf_def own_ids_fresh derive_ok_def loadUTXO_def load_rec_def)

interpretation caputxo_mod: module_contract caputxo_New caputxo_prefixes
  unfolding caputxo_New_def
  by (rule mkModule_contract [OF caputxo_handlers_confined])
    (simp add: caputxo_EndBlock_def expireAtTime_confined)

lemma cap_ok_local:
  assumes "cap_ok st" "store_inv st \<Longrightarrow> store_inv st'"
    and "\<And>p k. p \<in> set caputxo_prefixes \<Longrightarrow> prefix p k \<Longrightarrow> Get st' k = Get st k"
  shows "cap_ok st'"
proof -
  have "loadUTXO st' i = loadUTXO st i" for i
    by (rule utxos.load_frame) (use assms(3) utxos.key_pre in \<open>auto simp: caputxo_prefixes_def\<close>)
  moreover have "Get st' k = Get st k" if "prefix PrefixCapDerive k" for k
    using assms(3) that by (auto simp: caputxo_prefixes_def)
  ultimately show ?thesis using assms(1,2) by (simp add: cap_ok_def cap_wf_def own_ids_def derive_ok_def)
qed

interpretation cap_inv: module_invariant caputxo_New caputxo_prefixes cap_ok
proof (unfold_locales, goal_cases)
  case (3 c)
  then show ?case using expireAtTime_spec [of c "now c"] by (auto simp: caputxo_New_def caputxo_EndBlock_def)
next
  case (4 st st')
  then show ?case by (rule cap_ok_local)
qed (simp_all add: cap_ok_fresh cap_ok_exec)

section \<open>Properties\<close>

lemma kid_save: "store_inv st \<Longrightarrow> kid (saveUTXO st u) i j = kid st i j"
  by (simp add: kid_def children_def saveUTXO_def UTXOKey_def store.iter_put_outside)

lemma ends_status:
  assumes "ends s a b" "s \<noteq> UTXO_UNSPENT" "loadUTXO a j = Inr v"
  shows "loadUTXO b j = Inr (if live a j \<and> \<not> live b j then v\<lparr>u_Status := s\<rparr> else v)"
  by (rule ends_cases [OF assms(1), of j]) (use assms(2,3) in \<open>auto simp: live_def\<close>)

lemma heir_of_ended:
  assumes "heir st i j" "\<And>x y. kid st0 x y = kid st x y" "\<And>x. x \<noteq> i \<Longrightarrow> live st0 x = live st x"
  shows "j = i \<or> heir st0 i j"
  using assms(1) by induction (use assms(2,3) in \<open>auto intro: heir.intros\<close>)

lemma revoke_reaches:
  assumes ok: "cap_ok (ctxStore ctx)"
    and dec: "DecodeJSONPayload RevokePayload_fields [] env = Some i"
    and u: "loadUTXO (ctxStore ctx) i = Inr u" and issuer: "u_Issuer u = Sender env"
  shows "\<exists>st'. revoke ctx env = (upd_store ctx st', Ret (SuccessResult 2000 []))
    \<and> (\<forall>j v. loadUTXO (ctxStore ctx) j = Inr v \<longrightarrow> loadUTXO st' j
        = Inr (if j = i \<or> heir (ctxStore ctx) i j then v\<lparr>u_Status := UTXO_REVOKED\<rparr> else v))
    \<and> (\<forall>j e. loadUTXO (ctxStore ctx) j = Inl e \<longrightarrow> loadUTXO st' j = Inl e)"
proof -
  let ?st = "ctxStore ctx"
  let ?rev = "saveUTXO ?st (u\<lparr>u_Status := UTXO_REVOKED\<rparr>)"
  have i: "u_UTXOID u = i" and uok: "utxo_ok (u\<lparr>u_Status := UTXO_REVOKED\<rparr>)"
    using cap_ok_load [OF ok u] utxo_ok_status by auto
  obtain st' aff where c: "cascade ?rev i UTXO_REVOKED = Some (st', Inr aff)" "ends UTXO_REVOKED ?rev st'"
    and h: "\<And>j. live ?rev j \<and> \<not> live st' j \<longleftrightarrow> heir ?rev i j"
    using cascade_spec [OF cap_ok_save [OF ok uok], of UTXO_REVOKED i] by auto
  have ld: "loadUTXO ?rev j = (if j = i then Inr (u\<lparr>u_Status := UTXO_REVOKED\<rparr>) else loadUTXO ?st j)" for j
    using i by (auto simp: utxos.load_save)
  have kids: "kid ?rev x y = kid ?st x y" for x y
    using ok by (intro kid_save) (simp add: cap_ok_def cap_wf_def)
  have lives: "live ?rev x \<longleftrightarrow> x \<noteq> i \<and> live ?st x" for x by (simp add: live_def ld)
  have heirs: "j = i \<or> heir ?rev i j \<longleftrightarrow> j = i \<or> heir ?st i j" for j
    using heir_of_ended [of ?st i j ?rev] heir_mono [of ?rev i j ?st] kids lives by auto
  have "loadUTXO st' j = Inr (if j = i \<or> heir ?st i j then v\<lparr>u_Status := UTXO_REVOKED\<rparr> else v)"
    if v: "loadUTXO ?st j = Inr v" for j v
    using ends_status [OF c(2) _, of j] ld [of j] h [of j] heirs [of j] v u by (cases "j = i") auto
  moreover have "loadUTXO st' j = Inl e" if "loadUTXO ?st j = Inl e" for j e
  proof -
    have "loadUTXO ?rev j = Inl e" using that u ld [of j] by auto
    then show ?thesis using c(2) by (simp add: ends_def)
  qed
  ultimately show ?thesis using c(1) by (auto simp: revoke_def dec u issuer i)
qed


text \<open>Three capabilities of one issuer: \<open>b\<close> is delegated from \<open>a\<close>, \<open>c\<close> stands alone.\<close>

definition cap0 :: CapabilityUTXO where
  "cap0 = \<lparr>u_UTXOID = ''a'', u_Issuer = ''I'', u_Holder = ''H'', u_CapType = ''gpu'', u_CapVersion = [],
     u_Scopes = [''run'', ''read''], u_IssuedAt = 0, u_ExpiresAt = 500, u_MaxUses = 2, u_UsedCount = 0,
     u_Delegatable = True, u_MaxDepth = 1, u_CurDepth = 0, u_ParentUTXO = [], u_Status = UTXO_UNSPENT,
     u_HolderSig = []\<rparr>"

definition cap_ctx :: Context where
  "cap_ctx = upd_store (fresh_ctx 100) (delegated (saveUTXO (saveUTXO (ctxStore (fresh_ctx 100)) cap0)
     (cap0\<lparr>u_UTXOID := ''c''\<rparr>)) (cap0\<lparr>u_UTXOID := ''b'', u_CurDepth := 1, u_ParentUTXO := ''a''\<rparr>))"

lemma cap_ctx_ok: "cap_ok (ctxStore cap_ctx)"
proof -
  have "utxo_ok cap0" "utxo_ok (cap0\<lparr>u_UTXOID := ''c''\<rparr>)"
    "utxo_ok (cap0\<lparr>u_UTXOID := ''b'', u_CurDepth := 1, u_ParentUTXO := ''a''\<rparr>)"
    unfolding utxo_ok_def cap0_def by simp_all
  then have ok: "cap_ok (saveUTXO (saveUTXO (saveUTXO (ctxStore (fresh_ctx 100)) cap0)
     (cap0\<lparr>u_UTXOID := ''c''\<rparr>)) (cap0\<lparr>u_UTXOID := ''b'', u_CurDepth := 1, u_ParentUTXO := ''a''\<rparr>))"
    by (intro cap_ok_save cap_ok_fresh)
  have "last (splitPath ''cap/d/a/b'') = ''b''" "splitPath ''cap/d/a/b'' \<noteq> []" by code_simp+
  then show ?thesis
    unfolding cap_ctx_def delegated_def
    using ok by (auto intro!: cap_ok_Set simp: utxos.load_save)
qed

lemma cap_ctx_load: "loadUTXO (ctxStore cap_ctx) ''a'' = Inr cap0"
  "loadUTXO (ctxStore cap_ctx) ''b'' = Inr (cap0\<lparr>u_UTXOID := ''b'', u_CurDepth := 1, u_ParentUTXO := ''a''\<rparr>)"
  "loadUTXO (ctxStore cap_ctx) ''c'' = Inr (cap0\<lparr>u_UTXOID := ''c''\<rparr>)"
  "children (ctxStore cap_ctx) ''a'' = [''cap/d/a/b'']" "children (ctxStore cap_ctx) ''b'' = []"
  by code_simp+




text \<open>C14: a delegation that succeeds was made by the holder of a stored capability that can be
  delegated, and stores exactly one new capability under a new identifier, entered in the index as
  its child. The child has scopes of the parent only and at least one, the parent's issuer and type,
  no later expiry and no higher use limit where the parent has them, and lies one level deeper
  within the depth limit.\<close>

theorem delegate_attenuates:
  assumes "delegate ctx env = (ctx', Ret r)"
  shows "\<exists>p parent c. DecodeJSONPayload DelegatePayload_fields zeroDelegate env = Some p
    \<and> loadUTXO (ctxStore ctx) (dl_ParentUTXOID p) = Inr parent \<and> u_Holder parent = Sender env
    \<and> u_Delegatable parent \<and> attenuates parent c \<and> u_Holder c = dl_NewHolder p
    \<and> ctx' = upd_store ctx (delegated (ctxStore ctx) c)
    \<and> loadUTXO (ctxStore ctx') (u_UTXOID c) = Inr c
    \<and> (\<forall>j. j \<noteq> u_UTXOID c \<longrightarrow> loadUTXO (ctxStore ctx') j = loadUTXO (ctxStore ctx) j)"
proof (cases rule: delegate_cases [of ctx env])
  case (child p parent c)
  have "loadUTXO (delegated (ctxStore ctx) c) j = (if j = u_UTXOID c then Inr c else loadUTXO (ctxStore ctx) j)" for j
    by (simp add: delegated_def loadUTXO_Set_other utxos.load_save)
  with child assms show ?thesis by (intro exI [of _ p] exI [of _ parent] exI [of _ c]) simp
qed (use assms in simp)

theorem delegate_attenuates_witness:
  "\<exists>ctx' r c. delegate cap_ctx (mk_tx ''H'' ''caputxo'' ''delegate_capability''
      ''{\"parent_utxo_id\":\"a\",\"new_holder\":\"Tg==\",\"scopes\":[\"run\"]}'') = (ctx', Ret r)
    \<and> attenuates cap0 c \<and> loadUTXO (ctxStore ctx') (u_UTXOID c) = Inr c"
proof -
  let ?tx = "mk_tx ''H'' ''caputxo'' ''delegate_capability''
      ''{\"parent_utxo_id\":\"a\",\"new_holder\":\"Tg==\",\"scopes\":[\"run\"]}''"
  let ?p = "zeroDelegate\<lparr>dl_ParentUTXOID := ''a'', dl_NewHolder := ''N'', dl_Scopes := [''run'']\<rparr>"
  have dec: "DecodeJSONPayload DelegatePayload_fields zeroDelegate ?tx = Some ?p" by code_simp
  have "\<exists>ctx' r. delegate cap_ctx ?tx = (ctx', Ret r)"
    by (simp add: delegate_def dec cap_ctx_load Let_def) (simp add: cap0_def mk_tx_def isSubset_def zeroDelegate_def)
  then obtain ctx' r where "delegate cap_ctx ?tx = (ctx', Ret r)" by blast
  from delegate_attenuates [OF this] this show ?thesis by (auto simp: dec cap_ctx_load)
qed

text \<open>C17: spending a capability needs its holder, an unspent capability and an expiry time, if set,
  in the future. A spend that succeeds counts exactly one use, which stays within the use limit,
  and marks the capability spent exactly when the limit is reached; one that fails for any other
  reason than expiry changes nothing.\<close>

theorem spend_counts_uses:
  assumes ok: "cap_ok (ctxStore ctx)"
    and dec: "DecodeJSONPayload SpendPayload_fields zeroSpend env = Some p"
    and u: "loadUTXO (ctxStore ctx) (sp_UTXOID p) = Inr u"
  shows "if u_Holder u = Sender env \<and> u_Status u = UTXO_UNSPENT
    then if 0 < u_ExpiresAt u \<and> u_ExpiresAt u \<le> now ctx
      then (\<exists>e. spend ctx env = (upd_store ctx (saveUTXO (ctxStore ctx) (u\<lparr>u_Status := UTXO_EXPIRED\<rparr>)), Err e))
      else \<exists>u'. spend ctx env = (upd_store ctx (saveUTXO (ctxStore ctx) u'), Ret (SuccessResult 2000 []))
        \<and> u_UsedCount u' = u_UsedCount u + 1 \<and> u'\<lparr>u_UsedCount := u_UsedCount u, u_Status := u_Status u\<rparr> = u
        \<and> (0 < u_MaxUses u \<longrightarrow> unat (u_UsedCount u') = unat (u_UsedCount u) + 1 \<and> u_UsedCount u' \<le> u_MaxUses u)
        \<and> u_Status u' = (if 0 < u_MaxUses u \<and> u_UsedCount u' = u_MaxUses u then UTXO_SPENT else UTXO_UNSPENT)
    else (\<exists>e. spend ctx env = (ctx, Err e))"
proof -
  have uok: "utxo_ok u" using cap_ok_load [OF ok u] by simp
  have cnt: "unat (u_UsedCount u + 1) = unat (u_UsedCount u) + 1 \<and> u_UsedCount u + 1 \<le> u_MaxUses u"
    if "0 < u_MaxUses u" "u_Status u = UTXO_UNSPENT"
  proof -
    have l: "u_UsedCount u < u_MaxUses u" using uok that by (simp add: utxo_ok_def)
    then have "unat (u_UsedCount u) < unat (u_MaxUses u)" by (simp add: word_less_nat_alt)
    moreover have "unat (u_MaxUses u) < 2 ^ 32" using unsigned_less [of "u_MaxUses u"] by simp
    ultimately have "unat (u_UsedCount u) + 1 < 2 ^ 32" by simp
    then show ?thesis using word_inc_le [OF l] by (simp add: unat_word_ariths)
  qed
  let ?u = "if 0 < u_MaxUses u \<and> u_MaxUses u \<le> u_UsedCount u + 1
    then u\<lparr>u_UsedCount := u_UsedCount u + 1, u_Status := UTXO_SPENT\<rparr>
    else u\<lparr>u_UsedCount := u_UsedCount u + 1\<rparr>"
  have run: "spend ctx env = (upd_store ctx (saveUTXO (ctxStore ctx) ?u), Ret (SuccessResult 2000 []))"
    if "u_Holder u = Sender env" "u_Status u = UTXO_UNSPENT" "\<not> (0 < u_ExpiresAt u \<and> u_ExpiresAt u \<le> now ctx)"
    using that by (simp add: spend_def dec u Let_def)
  show ?thesis
  proof (cases "u_Holder u = Sender env \<and> u_Status u = UTXO_UNSPENT \<and> \<not> (0 < u_ExpiresAt u \<and> u_ExpiresAt u \<le> now ctx)")
    case True
    then have "\<not> (0 < u_ExpiresAt u \<and> u_ExpiresAt u \<le> now ctx)" by blast
    moreover have "u_Status ?u = (if 0 < u_MaxUses u \<and> u_UsedCount ?u = u_MaxUses u then UTXO_SPENT else UTXO_UNSPENT)"
      using True cnt by (auto dest: antisym)
    ultimately show ?thesis using True run cnt by (auto intro!: exI [of _ ?u])
  next
    case False
    then show ?thesis by (auto simp: spend_def dec u)
  qed
qed

theorem spend_counts_uses_witness:
  "\<exists>u'. spend cap_ctx (mk_tx ''H'' ''caputxo'' ''spend_capability'' ''{\"utxo_id\":\"a\"}'')
      = (upd_store cap_ctx (saveUTXO (ctxStore cap_ctx) u'), Ret (SuccessResult 2000 []))
    \<and> u_UsedCount u' = 1 \<and> u_Status u' = UTXO_UNSPENT"
proof -
  let ?tx = "mk_tx ''H'' ''caputxo'' ''spend_capability'' ''{\"utxo_id\":\"a\"}''"
  let ?p = "zeroSpend\<lparr>sp_UTXOID := ''a''\<rparr>"
  have dec: "DecodeJSONPayload SpendPayload_fields zeroSpend ?tx = Some ?p" by code_simp
  have ld: "loadUTXO (ctxStore cap_ctx) (sp_UTXOID ?p) = Inr cap0" by (simp add: cap_ctx_load)
  have g: "u_Holder cap0 = Sender ?tx" "u_Status cap0 = UTXO_UNSPENT" "\<not> u_ExpiresAt cap0 \<le> now cap_ctx"
    "u_UsedCount cap0 = 0" "u_MaxUses cap0 = 2"
    by code_simp+
  from spend_counts_uses [OF cap_ctx_ok dec ld] g show ?thesis by auto
qed

text \<open>C21: in every state the module can reach, whatever the transactions and the clock, a capability
  is stored under its own identifier, was not used more often than its limit allows and less often
  while it is unspent, is not delegated beyond its depth limit, and every entry of the delegation
  index names a stored capability, so no cascade fails.\<close>

theorem capability_bounds:
  assumes "reach caputxo_New c" "loadUTXO (ctxStore c) i = Inr u"
  shows "u_UTXOID u = i
    \<and> (0 < u_MaxUses u \<longrightarrow> u_UsedCount u \<le> u_MaxUses u \<and> (u_Status u = UTXO_UNSPENT \<longrightarrow> u_UsedCount u < u_MaxUses u))
    \<and> (u_Delegatable u \<longrightarrow> 0 < u_MaxDepth u \<and> u_CurDepth u \<le> u_MaxDepth u)
    \<and> derive_ok (ctxStore c)"
  using cap_inv.reach_inv [OF assms(1)] cap_ok_load [of "ctxStore c" i u] assms(2)
  by (auto simp: utxo_ok_def cap_ok_def)

theorem capability_bounds_witness:
  "\<exists>c i u. reach caputxo_New c \<and> loadUTXO (ctxStore c) i = Inr u \<and> u_MaxUses u = 3
    \<and> u_UTXOID u = i \<and> u_UsedCount u < 3"
proof -
  let ?tx = "mk_tx ''I'' ''caputxo'' ''mint_capability''
    ''{\"holder\":\"SA==\",\"cap_type\":\"gpu\",\"scopes\":[\"run\"],\"max_uses\":3}''"
  let ?p = "zeroMint\<lparr>mp_Holder := ''H'', mp_CapType := ''gpu'', mp_Scopes := [''run''], mp_MaxUses := 3\<rparr>"
  let ?c = "fst (mExecuteTx caputxo_New (fresh_ctx 100) ?tx)" and ?i = "utxoID ''I'' ''gpu'' 0"
  have dec: "DecodeJSONPayload MintPayload_fields zeroMint ?tx = Some ?p" by code_simp
  have tx: "Action ?tx = ''mint_capability''" "Sender ?tx = ''I''" "Nonce ?tx = 0" by (simp_all add: mk_tx_def)
  have r: "reach caputxo_New ?c" by (rule reach.exec [OF reach.init])
  have "\<exists>u. loadUTXO (ctxStore ?c) ?i = Inr u \<and> u_MaxUses u = 3 \<and> u_Status u = UTXO_UNSPENT"
    by (simp add: caputxo_exec tx mint_def dec Let_def)
      (simp add: zeroMint_def loadUTXO_Set_other utxos.load_save)
  then obtain u where u: "loadUTXO (ctxStore ?c) ?i = Inr u" "u_MaxUses u = 3" "u_Status u = UTXO_UNSPENT" by blast
  from capability_bounds [OF r u(1)] u have "u_UTXOID u = ?i" "u_UsedCount u < 3" by simp_all
  with r u show ?thesis by blast
qed

text \<open>The status of the parent is not checked when it is delegated: a live capability can be derived from a revoked one, which no
  later revocation of an ancestor reaches.\<close>

lemma delegate_from_ended:
  assumes "DecodeJSONPayload DelegatePayload_fields zeroDelegate env = Some p" "loadUTXO (ctxStore ctx) (dl_ParentUTXOID p) = Inr u"
    "u_Holder u = Sender env" "u_Delegatable u" "u_MaxDepth u = 0" "isSubset (dl_Scopes p) (u_Scopes u)" "u_ExpiresAt u = 0" "u_MaxUses u = 0"
    "u_Status u = UTXO_REVOKED"
  shows "\<exists>st. delegate ctx env = (upd_store ctx st, Ret (SuccessResult 3000 []))"
  using assms by (auto simp: delegate_def Let_def)

section \<open>The end of a block\<close>

lemma cascade_loop_local:
  assumes "agree caputxo_prefixes st st'"
  shows "rel_option (rel_prod (agree caputxo_prefixes) (=)) (cascade_loop fuel status ks st) (cascade_loop fuel status ks st')"
  using assms
proof (induction fuel status ks st arbitrary: st' rule: cascade_loop.induct)
  case (2 fuel status k ks st)
  let ?i = "last (splitPath k)"
  show ?case
  proof (cases "splitPath k = []")
    case True
    then show ?thesis using 2 by (simp add: cascade_loop.simps(2))
  next
    case False
    have ld: "loadUTXO st' ?i = loadUTXO st ?i"
      unfolding loadUTXO_def by (rule agree_load [OF "2.prems", of PrefixCapUTXO]) (simp_all add: caputxo_prefixes_def UTXOKey_def)
    show ?thesis
    proof (cases "loadUTXO st ?i")
      case (Inl e)
      then show ?thesis using "2.prems" False ld by (simp add: cascade_loop.simps(2))
    next
      case (Inr u)
      show ?thesis
      proof (cases "u_Status u = UTXO_UNSPENT")
        case unsp: True
        let ?s = "\<lambda>st. saveUTXO st (u\<lparr>u_Status := status\<rparr>)"
        have sv: "agree caputxo_prefixes (?s st) (?s st')" using "2.prems" by (simp add: saveUTXO_def agree_Set)
        have ch: "children (?s st') ?i = children (?s st) ?i"
          unfolding children_def
          by (subst agree_iterate [OF sv, of PrefixCapDerive]) (simp_all add: caputxo_prefixes_def)
        show ?thesis
        proof (cases fuel)
          case 0
          then show ?thesis using False ld Inr unsp by (simp add: cascade_loop.simps(2) Let_def)
        next
          case (Suc f)
          have "rel_option (rel_prod (agree caputxo_prefixes) (=)) (cascade_loop f status (children (?s st) ?i) (?s st))
              (cascade_loop f status (children (?s st) ?i) (?s st'))"
            by (rule "2.IH"(2) [OF refl False refl Inr unsp refl Suc sv])
          then show ?thesis
          proof (cases rule: option.rel_cases)
            case None
            then show ?thesis using False ld Inr unsp Suc ch by (simp add: cascade_loop.simps(2) Let_def)
          next
            case (Some x y)
            obtain st2 r st2' where xy: "x = (st2, r)" "y = (st2', r)" "agree caputxo_prefixes st2 st2'"
              using Some(3) by (cases x; cases y) auto
            show ?thesis
            proof (cases r)
              case (Inl e)
              then show ?thesis using False ld Inr unsp Suc ch Some(1,2) xy by (simp add: cascade_loop.simps(2) Let_def)
            next
              case nested: (Inr nested)
              have "rel_option (rel_prod (agree caputxo_prefixes) (=)) (cascade_loop fuel status ks st2) (cascade_loop fuel status ks st2')"
                using "2.IH"(3) [OF refl False refl Inr unsp refl Suc] Some(1) xy nested by simp
              then show ?thesis
                by (cases rule: option.rel_cases)
                  (use False ld Inr unsp Suc ch Some(1,2) xy nested in \<open>auto simp: cascade_loop.simps(2) Let_def rel_prod_sel split: sum.splits prod.splits\<close>)
            qed
          qed
        qed
      next
        case False
        with \<open>splitPath k \<noteq> []\<close> show ?thesis using "2.IH" "2.prems" ld Inr by (simp add: cascade_loop.simps(2))
      qed
    qed
  qed
qed simp

lemma cascade_local:
  assumes ag: "agree caputxo_prefixes st st'"
  shows "rel_option (rel_prod (agree caputxo_prefixes) (=)) (cascade st i status) (cascade st' i status)"
proof -
  have "unspent st' = unspent st" unfolding unspent_def
    by (subst agree_iterate [OF ag, of PrefixCapUTXO]) (simp_all add: caputxo_prefixes_def)
  moreover have "children st' i = children st i" unfolding children_def
    by (subst agree_iterate [OF ag, of PrefixCapDerive]) (simp_all add: caputxo_prefixes_def)
  ultimately show ?thesis using cascade_loop_local [OF ag] by (simp add: cascade_def)
qed

lemma expire_loop_local:
  assumes "agree caputxo_prefixes st st'"
  shows "agree caputxo_prefixes (fst (expire_loop t kvs evs st)) (fst (expire_loop t kvs evs st'))
    \<and> snd (expire_loop t kvs evs st') = snd (expire_loop t kvs evs st)"
  using assms
proof (induction t kvs evs st arbitrary: st' rule: expire_loop.induct)
  case (2 t kv kvs evs st)
  show ?case
  proof (cases "un_utxo (snd kv)")
    case None
    then show ?thesis using 2 by simp
  next
    case (Some u)
    show ?thesis
    proof (cases "u_Status u \<noteq> UTXO_UNSPENT \<or> u_ExpiresAt u = 0 \<or> t < u_ExpiresAt u")
      case True
      then show ?thesis using "2.IH"(2) [OF Some True "2.prems"] Some by simp
    next
      case False
      let ?s = "\<lambda>st. saveUTXO st (u\<lparr>u_Status := UTXO_EXPIRED\<rparr>)"
      have sv: "agree caputxo_prefixes (?s st) (?s st')" using "2.prems" by (simp add: saveUTXO_def agree_Set)
      from cascade_local [OF sv, of "u_UTXOID u" UTXO_EXPIRED] show ?thesis
      proof (cases rule: option.rel_cases)
        case None
        then show ?thesis using sv False Some by (simp add: Let_def)
      next
        case casc: (Some x y)
        obtain st2 r st2' where xy: "x = (st2, r)" "y = (st2', r)" "agree caputxo_prefixes st2 st2'"
          using casc(3) by (cases x; cases y) auto
        show ?thesis
        proof (cases r)
          case (Inl e)
          then show ?thesis using sv False Some casc(1,2) xy by (simp add: Let_def)
        next
          case (Inr ids)
          show ?thesis
            using "2.IH"(3) [OF Some False refl _ _ Inr, of x st2 st2'] False Some casc(1,2) xy Inr by (simp add: Let_def)
        qed
      qed
    qed
  qed
qed simp

interpretation caputxo_end: end_local caputxo_New caputxo_prefixes
proof (unfold_locales, goal_cases)
  case (1 c c')
  have "IteratePrefix (ctxStore c') PrefixCapUTXO = IteratePrefix (ctxStore c) PrefixCapUTXO"
    by (rule agree_iterate [OF 1(1), of PrefixCapUTXO]) (simp_all add: caputxo_prefixes_def)
  with expire_loop_local [OF 1(1), of "now c" "IteratePrefix (ctxStore c) PrefixCapUTXO" "[]"] 1(3) show ?case
    by (simp add: caputxo_New_def caputxo_EndBlock_def expireAtTime_def case_prod_beta)
qed (simp add: caputxo_New_def caputxo_EndBlock_def expireAtTime_def case_prod_beta)

end
