(* ===== verification/Rep.thy ===== *)
theory Rep
  imports Table
begin

text \<open>
  \<open>internal/modules/rep/module.go\<close>: reputation scores from 0 to 1000 in five dimensions, their weighted
  total, the deltas of a finished task, decay over epochs and the manual override.
\<close>

section \<open>Payloads\<close>

record updatePayload =
  up_Entity :: bytes
  up_EntityType :: bytes
  up_Result :: bytes
  up_CompMS :: uint32
  up_SLAMS :: uint32
  up_Rating :: uint32
  up_VerifyOK :: bool
  up_HBMiss :: uint32
  up_Timestamp :: int64

definition updatePayload_fields :: "(bytes \<times> updatePayload field) list" where
  "updatePayload_fields =
     [(''entity'', fld dec_bytes up_Entity up_Entity_update), (''entity_type'', fld dec_string up_EntityType up_EntityType_update),
      (''result'', fld dec_string up_Result up_Result_update), (''comp_ms'', fld dec_uint32 up_CompMS up_CompMS_update),
      (''sla_ms'', fld dec_uint32 up_SLAMS up_SLAMS_update), (''rating'', fld dec_uint32 up_Rating up_Rating_update),
      (''verify_ok'', fld dec_bool up_VerifyOK up_VerifyOK_update), (''hb_miss'', fld dec_uint32 up_HBMiss up_HBMiss_update),
      (''timestamp'', fld dec_int64 up_Timestamp up_Timestamp_update)]"

definition zeroUpdate :: updatePayload where
  "zeroUpdate = \<lparr>up_Entity = [], up_EntityType = [], up_Result = [], up_CompMS = 0, up_SLAMS = 0, up_Rating = 0,
     up_VerifyOK = False, up_HBMiss = 0, up_Timestamp = 0\<rparr>"

text \<open>\<open>decayPayload\<close> has the one field \<open>CurrentEpoch\<close>.\<close>

definition decayPayload_fields :: "(bytes \<times> uint64 field) list" where
  "decayPayload_fields = [(''current_epoch'', fld dec_uint64 id id)]"

record overridePayload =
  ov_Entity :: bytes
  ov_Score :: uint32

definition overridePayload_fields :: "(bytes \<times> overridePayload field) list" where
  "overridePayload_fields = [(''entity'', fld dec_bytes ov_Entity ov_Entity_update), (''score'', fld dec_uint32 ov_Score ov_Score_update)]"

definition zeroOverride :: overridePayload where
  "zeroOverride = \<lparr>ov_Entity = [], ov_Score = 0\<rparr>"

section \<open>Arithmetic of scores\<close>

definition clampU32 :: "int64 \<Rightarrow> int64 \<Rightarrow> int64 \<Rightarrow> uint32" where
  "clampU32 v lo hi = (if v < lo then word_of_int lo else if hi < v then word_of_int hi else word_of_int v)"

text \<open>An intermediate score of \<open>decayScore\<close> is not negative, so the integer division of Go is \<open>div\<close>.\<close>

definition decayScore :: "uint32 \<Rightarrow> uint32" where
  "decayScore v = (let d = uint v - uint v div 50; d = (if d < 100 then 100 else d) in word_of_int d)"

definition computeTotal :: "ReputationScore \<Rightarrow> uint32" where
  "computeTotal s =
     (let total =
        fl64 (fl64 (fl64 (fl64 (fl64 (of_int (uint (rs_QualityScore s)) * fl64 (30 / 100))
          + fl64 (of_int (uint (rs_TimelinessScore s)) * fl64 (25 / 100)))
          + fl64 (of_int (uint (rs_ReliabilityScore s)) * fl64 (20 / 100)))
          + fl64 (of_int (uint (rs_DisputeScore s)) * fl64 (15 / 100)))
          + fl64 (of_int (uint (rs_NetworkScore s)) * fl64 (10 / 100)))
      in clampU32 (float_trunc (fl64 (total + 1 / 2))) 0 1000)"

definition ratio :: "uint32 \<Rightarrow> uint32 \<Rightarrow> float64" where
  "ratio a b = (if b = 0 then 2 else fl64 (of_int (uint a) / of_int (uint b)))"

definition reliabilityDelta :: "uint32 \<Rightarrow> int" where
  "reliabilityDelta missed = (if missed = 0 then 5 else if missed \<le> 2 then 2 else if missed \<le> 5 then -10 else -30)"

text \<open>The four deltas of quality, timeliness, reliability and dispute, all within the range of \<open>int32\<close>.\<close>

definition computeDeltas :: "updatePayload \<Rightarrow> int \<times> int \<times> int \<times> int" where
  "computeDeltas p =
     (if up_Result p = ''SUCCESS'' then
        let dq = (if up_VerifyOK p then
                    let rating = up_Rating p;
                        rating = (if rating < 1 then 1 else rating);
                        rating = (if 5 < rating then 5 else rating)
                    in float_trunc (fl32 (fl32 (10 * fl32 (of_int (uint rating))) / 5))
                  else 0);
            timeRatio = ratio (up_CompMS p) (up_SLAMS p);
            dt = (if timeRatio \<le> 1 / 2 then 8 else if timeRatio \<le> 1 then 4 else if timeRatio \<le> 3 / 2 then -10 else -25)
        in (dq, dt, reliabilityDelta (up_HBMiss p), 3)
      else if up_Result p = ''FAILED'' then (-30, -25, reliabilityDelta (up_HBMiss p) - 15, 0)
      else if up_Result p = ''DISPUTED_LOST'' then (-50, -25, reliabilityDelta (up_HBMiss p), -60)
      else if up_Result p = ''DISPUTED_WON'' then (5, -25, reliabilityDelta (up_HBMiss p), 0)
      else (0, 0, 0, 0))"

definition Level :: "uint32 \<Rightarrow> bytes" where
  "Level tot = (if 900 \<le> tot then ''DIAMOND'' else if 700 \<le> tot then ''PLATINUM'' else if 500 \<le> tot then ''GOLD''
     else if 300 \<le> tot then ''SILVER'' else if 100 \<le> tot then ''BRONZE'' else ''RESTRICTED'')"

section \<open>Storage\<close>

definition ScoreKey :: "bytes \<Rightarrow> bytes" where
  "ScoreKey entity = RepKey (hex_EncodeToString entity)"

text \<open>\<open>loadScore\<close> tells neither why it found nothing: \<open>None\<close> is \<open>(nil, false)\<close>. \<open>findScore\<close> is the lookup below it.\<close>

definition findScore :: "Store \<Rightarrow> bytes \<Rightarrow> goerr + ReputationScore" where
  "findScore st entity = load_rec un_score json_error json_error st (ScoreKey entity)"

definition loadScore :: "Store \<Rightarrow> bytes \<Rightarrow> ReputationScore option" where
  "loadScore st entity = (case findScore st entity of Inl _ \<Rightarrow> None | Inr s \<Rightarrow> Some s)"

definition saveScore :: "Store \<Rightarrow> ReputationScore \<Rightarrow> Store" where
  "saveScore st s = Set st (ScoreKey (rs_Entity s)) (VScore s)"

definition defaultScore :: "bytes \<Rightarrow> bytes \<Rightarrow> ReputationScore" where
  "defaultScore entity entityType = \<lparr>rs_Entity = entity, rs_EntityType = entityType, rs_QualityScore = 500,
     rs_TimelinessScore = 500, rs_ReliabilityScore = 500, rs_DisputeScore = 500, rs_NetworkScore = 500, rs_TotalScore = 500,
     rs_TotalTasks = 0, rs_SuccessTasks = 0, rs_FailedTasks = 0, rs_DisputedTasks = 0, rs_LastUpdated = 0, rs_UpdateEpoch = 0\<rparr>"

section \<open>Handlers\<close>

definition rep_error :: "uint32 \<Rightarrow> bytes \<Rightarrow> goerr" where
  "rep_error n msg = NewAppError (CodeREPBase + n) msg"

definition apply_update :: "int64 \<Rightarrow> updatePayload \<Rightarrow> ReputationScore \<Rightarrow> ReputationScore" where
  "apply_update t p s = (case computeDeltas p of (dq, dt, dr, dd) \<Rightarrow>
     let s = s\<lparr>rs_QualityScore := clampU32 (uint (rs_QualityScore s) + dq) 0 1000,
               rs_TimelinessScore := clampU32 (uint (rs_TimelinessScore s) + dt) 0 1000,
               rs_ReliabilityScore := clampU32 (uint (rs_ReliabilityScore s) + dr) 0 1000,
               rs_DisputeScore := clampU32 (uint (rs_DisputeScore s) + dd) 0 1000\<rparr>;
         s = s\<lparr>rs_TotalScore := computeTotal s, rs_TotalTasks := rs_TotalTasks s + 1\<rparr>;
         s = (if up_Result p = ''SUCCESS'' then s\<lparr>rs_SuccessTasks := rs_SuccessTasks s + 1\<rparr>
              else if up_Result p = ''FAILED'' then s\<lparr>rs_FailedTasks := rs_FailedTasks s + 1\<rparr>
              else if up_Result p = ''DISPUTED_LOST'' \<or> up_Result p = ''DISPUTED_WON''
              then s\<lparr>rs_DisputedTasks := rs_DisputedTasks s + 1\<rparr> else s)
     in s\<lparr>rs_LastUpdated := (if up_Timestamp p = 0 then t else up_Timestamp p)\<rparr>)"

definition updateReputation :: handler where
  "updateReputation ctx env = (case DecodeJSONPayload updatePayload_fields zeroUpdate env of
     None \<Rightarrow> (ctx, Err (rep_error 1 ''decode update_reputation: %v''))
   | Some p \<Rightarrow>
     let s = (case loadScore (ctxStore ctx) (up_Entity p) of None \<Rightarrow> defaultScore (up_Entity p) (up_EntityType p) | Some s \<Rightarrow> s)
     in (upd_store ctx (saveScore (ctxStore ctx) (apply_update (now ctx) p s)), Ret (SuccessResult 2000 [])))"

text \<open>The body of the decay loop. The difference of epochs wraps around at 64 bits.\<close>

definition decay_one :: "uint64 \<Rightarrow> ReputationScore \<Rightarrow> (ReputationScore \<times> Event list) option" where
  "decay_one epoch s = (if epoch - rs_UpdateEpoch s < 4 then None
     else let s = s\<lparr>rs_QualityScore := decayScore (rs_QualityScore s), rs_TimelinessScore := decayScore (rs_TimelinessScore s),
                    rs_ReliabilityScore := decayScore (rs_ReliabilityScore s), rs_DisputeScore := decayScore (rs_DisputeScore s),
                    rs_NetworkScore := decayScore (rs_NetworkScore s)\<rparr>
          in Some (s\<lparr>rs_TotalScore := computeTotal s, rs_UpdateEpoch := epoch\<rparr>, []))"

text \<open>Integer division of the height truncates towards zero.\<close>

definition applyDecay :: handler where
  "applyDecay ctx env = (case DecodeJSONPayload decayPayload_fields 0 env of
     None \<Rightarrow> (ctx, Err (rep_error 1 ''decode apply_decay: %v''))
   | Some e \<Rightarrow>
     let epoch = (if e = 0 then word_of_int (sgn (ctxHeight ctx) * (\<bar>ctxHeight ctx\<bar> div 1000)) else e);
         entries = IteratePrefix (ctxStore ctx) PrefixRepScore
     in (upd_store ctx (fst (sweep saveScore (decay_one epoch) (decoded un_score entries) (ctxStore ctx))),
         Ret (SuccessResult (500 * of_nat (length entries)) [])))"

definition overrideScore :: handler where
  "overrideScore ctx env = (case DecodeJSONPayload overridePayload_fields zeroOverride env of
     None \<Rightarrow> (ctx, Err (rep_error 1 ''decode override_score: %v''))
   | Some p \<Rightarrow>
     let s = (case loadScore (ctxStore ctx) (ov_Entity p) of None \<Rightarrow> defaultScore (ov_Entity p) ''provider'' | Some s \<Rightarrow> s);
         s = s\<lparr>rs_TotalScore := (if 1000 < ov_Score p then 1000 else ov_Score p)\<rparr>
     in (upd_store ctx (saveScore (ctxStore ctx) s), Ret (SuccessResult 5000 [])))"

definition rep_EndBlock :: "Context \<Rightarrow> Context \<times> Event list outcome" where
  "rep_EndBlock ctx = (ctx, Ret [])"

definition rep_handlers :: "(bytes \<times> handler) list" where
  "rep_handlers = [(''update_reputation'', updateReputation), (''apply_decay'', applyDecay), (''override_score'', overrideScore)]"

definition rep_New :: Module where
  "rep_New = mkModule ''rep'' rep_handlers rep_EndBlock"

lemmas rep_exec = rep_New_def mkModule_sel rep_handlers_def dispatch

section \<open>Contract\<close>

interpretation scores: table findScore saveScore rs_Entity ScoreKey PrefixRepScore
  by (rule tableI, rule findScore_def, rule saveScore_def) (simp_all add: ScoreKey_def RepKey_def inj_def)

definition rep_prefixes :: "bytes list" where
  "rep_prefixes = [PrefixRepScore]"

lemma saveScore_confined: "confined rep_prefixes c (upd_store c (saveScore (ctxStore c) s))"
  by (rule scores.save_confined) (simp add: rep_prefixes_def)

lemma decay_confined: "confined rep_prefixes c (upd_store c (fst (sweep saveScore f rs (ctxStore c))))"
  by (rule scores.sweep_confined) (simp add: rep_prefixes_def)

lemma rep_handlers_confined: "handlers_confined rep_prefixes rep_handlers"
  unfolding rep_handlers_def handlers_confined_simps
  by (intro conjI allI; simp add: updateReputation_def applyDecay_def overrideScore_def Let_def saveScore_confined decay_confined
      split: option.split)

lemma rep_EndBlock_confined: "confined rep_prefixes c (fst (rep_EndBlock c))"
  by (simp add: rep_EndBlock_def)

interpretation rep_mod: module_contract rep_New rep_prefixes
  unfolding rep_New_def by (rule mkModule_contract [OF rep_handlers_confined rep_EndBlock_confined])

section \<open>The total is the nearest integer\<close>

lemma uint_clamp: "0 \<le> lo \<Longrightarrow> lo \<le> hi \<Longrightarrow> hi < 2 ^ 32 \<Longrightarrow> uint (clampU32 v lo hi) = (if v < lo then lo else if hi < v then hi else v)"
  by (simp add: clampU32_def unsigned_of_int take_bit_int_eq_self)

lemma clamp_1000 [simp]: "clampU32 v 0 1000 \<le> 1000"
  using uint_clamp [of 0 1000 v] by (simp add: word_le_def)

text \<open>One product with a rounded weight.\<close>

lemma fl64_term:
  assumes "0 \<le> q" "q \<le> 1000" "0 \<le> c" "c \<le> 1"
  shows "fl64 (q * fl64 c) \<le> q * c + 1 / 500000000" "q * c - 1 / 500000000 \<le> fl64 (q * fl64 c)"
proof -
  let ?d = "1 / 1000000000000 :: rat"
  have c: "fl64 c \<le> c + ?d" "c - ?d \<le> fl64 c" using assms by (auto intro!: fl64_near)
  have qd: "q * ?d \<le> 1000 * ?d" using assms by (intro mult_right_mono) auto
  have "q * fl64 c \<le> q * (c + ?d)" "q * (c - ?d) \<le> q * fl64 c" using c assms by (simp_all add: mult_left_mono)
  then have p: "q * fl64 c \<le> q * c + q * ?d" "q * c - q * ?d \<le> q * fl64 c" by (simp_all only: distrib_left right_diff_distrib)
  have "0 \<le> q * c" "q * c \<le> 1000" using assms by (simp_all add: mult_le_one order_trans [OF mult_mono [of q 1000 c 1]])
  then have "- 2000 \<le> q * fl64 c" "q * fl64 c \<le> 2000" using p qd by linarith+
  from fl64_near [OF this] p qd show "fl64 (q * fl64 c) \<le> q * c + 1 / 500000000" "q * c - 1 / 500000000 \<le> fl64 (q * fl64 c)"
    by linarith+
qed

text \<open>The sum that \<open>computeTotal\<close> builds, with the half added, over exact scores.\<close>

lemma fl64_total:
  fixes q t r d n :: rat
  assumes "0 \<le> q" "q \<le> 1000" "0 \<le> t" "t \<le> 1000" "0 \<le> r" "r \<le> 1000" "0 \<le> d" "d \<le> 1000" "0 \<le> n" "n \<le> 1000"
  defines "x \<equiv> fl64 (fl64 (fl64 (fl64 (fl64 (fl64 (q * fl64 (30 / 100)) + fl64 (t * fl64 (25 / 100)))
          + fl64 (r * fl64 (20 / 100))) + fl64 (d * fl64 (15 / 100))) + fl64 (n * fl64 (10 / 100))) + 1 / 2)"
  shows "20 * x \<le> 6 * q + 5 * t + 4 * r + 3 * d + 2 * n + 10 + 1 / 5" "6 * q + 5 * t + 4 * r + 3 * d + 2 * n + 10 - 1 / 5 \<le> 20 * x"
proof -
  note T = fl64_term [of q "30 / 100"] fl64_term [of t "25 / 100"] fl64_term [of r "20 / 100"] fl64_term [of d "15 / 100"]
    fl64_term [of n "10 / 100"]
  define a1 a2 a3 a4 a5 where "a1 = fl64 (q * fl64 (30 / 100))" and "a2 = fl64 (t * fl64 (25 / 100))"
    and "a3 = fl64 (r * fl64 (20 / 100))" and "a4 = fl64 (d * fl64 (15 / 100))" and "a5 = fl64 (n * fl64 (10 / 100))"
  note defs = a1_def a2_def a3_def a4_def a5_def
  have a: "10 * a1 \<le> 3 * q + 1 / 50000000" "3 * q - 1 / 50000000 \<le> 10 * a1" "4 * a2 \<le> t + 1 / 50000000" "t - 1 / 50000000 \<le> 4 * a2"
    "5 * a3 \<le> r + 1 / 50000000" "r - 1 / 50000000 \<le> 5 * a3" "20 * a4 \<le> 3 * d + 1 / 20000000" "3 * d - 1 / 20000000 \<le> 20 * a4"
    "10 * a5 \<le> n + 1 / 50000000" "n - 1 / 50000000 \<le> 10 * a5"
    unfolding defs using T assms(1-10) by simp_all
  define s1 s2 s3 s4 where "s1 = fl64 (a1 + a2)" and "s2 = fl64 (s1 + a3)" and "s3 = fl64 (s2 + a4)" and "s4 = fl64 (s3 + a5)"
  have s1: "s1 \<le> a1 + a2 + 1 / 1000000000000" "a1 + a2 - 1 / 1000000000000 \<le> s1"
    unfolding s1_def using a assms(1-4) by (intro fl64_near; linarith)+
  have s2: "s2 \<le> s1 + a3 + 1 / 1000000000000" "s1 + a3 - 1 / 1000000000000 \<le> s2"
    unfolding s2_def using a s1 assms(1-6) by (intro fl64_near; linarith)+
  have s3: "s3 \<le> s2 + a4 + 1 / 1000000000000" "s2 + a4 - 1 / 1000000000000 \<le> s3"
    unfolding s3_def using a s1 s2 assms(1-8) by (intro fl64_near; linarith)+
  have s4: "s4 \<le> s3 + a5 + 1 / 1000000000000" "s3 + a5 - 1 / 1000000000000 \<le> s4"
    unfolding s4_def using a s1 s2 s3 assms(1-10) by (intro fl64_near; linarith)+
  have x: "x \<le> s4 + 1 / 2 + 1 / 1000000000000" "s4 + 1 / 2 - 1 / 1000000000000 \<le> x"
    unfolding x_def defs [symmetric] s1_def [symmetric] s2_def [symmetric] s3_def [symmetric] s4_def [symmetric]
    using a s1 s2 s3 s4 assms(1-10) by (intro fl64_near; linarith)+
  show "20 * x \<le> 6 * q + 5 * t + 4 * r + 3 * d + 2 * n + 10 + 1 / 5" using a s1 s2 s3 s4 x by linarith
  show "6 * q + 5 * t + 4 * r + 3 * d + 2 * n + 10 - 1 / 5 \<le> 20 * x" using a s1 s2 s3 s4 x by linarith
qed

definition scores_in_range :: "ReputationScore \<Rightarrow> bool" where
  "scores_in_range s \<longleftrightarrow> rs_QualityScore s \<le> 1000 \<and> rs_TimelinessScore s \<le> 1000 \<and> rs_ReliabilityScore s \<le> 1000
     \<and> rs_DisputeScore s \<le> 1000 \<and> rs_NetworkScore s \<le> 1000"

definition weighted :: "ReputationScore \<Rightarrow> int" where
  "weighted s = 6 * uint (rs_QualityScore s) + 5 * uint (rs_TimelinessScore s) + 4 * uint (rs_ReliabilityScore s)
     + 3 * uint (rs_DisputeScore s) + 2 * uint (rs_NetworkScore s)"

lemma word_1000: "w \<le> (1000 :: uint32) \<Longrightarrow> 0 \<le> (of_int (uint w) :: rat) \<and> of_int (uint w) \<le> (1000 :: rat)"
proof -
  assume "w \<le> 1000"
  then have "0 \<le> uint w" "uint w \<le> 1000" by (simp_all add: word_le_def)
  then have "of_int 0 \<le> (of_int (uint w) :: rat)" "of_int (uint w) \<le> (of_int 1000 :: rat)" by (simp_all only: of_int_le_iff)
  then show ?thesis by (simp only: of_int_0 of_int_numeral simp_thms)
qed

lemma weighted_range: "scores_in_range s \<Longrightarrow> 0 \<le> weighted s \<and> weighted s \<le> 20000"
  by (simp add: scores_in_range_def weighted_def word_le_def)

lemma computeTotal_near:
  assumes "scores_in_range s"
  shows "\<bar>20 * uint (computeTotal s) - weighted s\<bar> \<le> 10"
proof -
  let ?u = "\<lambda>w :: uint32. of_int (uint w) :: rat"
  define x where "x = fl64 (fl64 (fl64 (fl64 (fl64 (fl64 (?u (rs_QualityScore s) * fl64 (30 / 100)) + fl64 (?u (rs_TimelinessScore s) * fl64 (25 / 100)))
          + fl64 (?u (rs_ReliabilityScore s) * fl64 (20 / 100))) + fl64 (?u (rs_DisputeScore s) * fl64 (15 / 100)))
          + fl64 (?u (rs_NetworkScore s) * fl64 (10 / 100))) + 1 / 2)"
  have w: "of_int (weighted s) = 6 * ?u (rs_QualityScore s) + 5 * ?u (rs_TimelinessScore s) + 4 * ?u (rs_ReliabilityScore s)
      + 3 * ?u (rs_DisputeScore s) + 2 * ?u (rs_NetworkScore s)" by (simp add: weighted_def)
  have x: "20 * x \<le> of_int (weighted s) + 10 + 1 / 5" "of_int (weighted s) + 10 - 1 / 5 \<le> 20 * x"
    unfolding w x_def using assms word_1000 unfolding scores_in_range_def by (blast intro: fl64_total)+
  define N where "N = \<lfloor>x\<rfloor>"
  have N: "of_int N \<le> x" "x < of_int N + 1" unfolding N_def by linarith+
  have "(of_int (20 * N) :: rat) < of_int (weighted s + 11)" using N x by simp
  then have u: "20 * N < weighted s + 11" by (simp only: of_int_less_iff)
  have "(of_int (weighted s) :: rat) < of_int (20 * N + 11)" using N x by simp
  then have l: "weighted s < 20 * N + 11" by (simp only: of_int_less_iff)
  have r: "0 \<le> N" "N \<le> 1000" using u l weighted_range [OF assms] by linarith+
  then have "0 \<le> x" using N by (metis of_int_0_le_iff order_trans)
  then have "computeTotal s = clampU32 N 0 1000"
    by (simp add: computeTotal_def Let_def float_trunc_def N_def x_def)
  then have "uint (computeTotal s) = N" using r by (simp add: uint_clamp)
  then show ?thesis using u l by linarith
qed

text \<open>C38: although it is computed in binary floating point, the total score is an integer nearest to the exact weighted
  mean of the five scores (weights 0.30, 0.25, 0.20, 0.15 and 0.10): twenty times the total differs
  from the exact sum of twentieths by at most ten.\<close>

theorem total_is_nearest:
  assumes "rs_QualityScore s \<le> 1000" "rs_TimelinessScore s \<le> 1000" "rs_ReliabilityScore s \<le> 1000"
    "rs_DisputeScore s \<le> 1000" "rs_NetworkScore s \<le> 1000"
  shows "\<bar>20 * uint (computeTotal s) - (6 * uint (rs_QualityScore s) + 5 * uint (rs_TimelinessScore s) + 4 * uint (rs_ReliabilityScore s)
     + 3 * uint (rs_DisputeScore s) + 2 * uint (rs_NetworkScore s))\<bar> \<le> 10"
  using computeTotal_near [of s] assms unfolding scores_in_range_def weighted_def by blast

section \<open>Invariant\<close>

definition score_ok :: "ReputationScore \<Rightarrow> bool" where
  "score_ok s \<longleftrightarrow> scores_in_range s \<and> rs_TotalScore s \<le> 1000"

text \<open>Every score is stored under the key of its own entity, also those that only an iteration sees.\<close>

definition rep_ok :: "Store \<Rightarrow> bool" where
  "rep_ok st \<longleftrightarrow> store_inv st \<and> (\<forall>k s. prefix PrefixRepScore k \<longrightarrow> Get st k = Some (VScore s) \<longrightarrow> k = ScoreKey (rs_Entity s) \<and> score_ok s)"

lemma rep_ok_inv: "rep_ok st \<Longrightarrow> store_inv st"
  by (simp add: rep_ok_def)

lemma rep_ok_save: "rep_ok st \<Longrightarrow> score_ok s \<Longrightarrow> rep_ok (saveScore st s)"
  by (auto simp: rep_ok_def scores.save_inv) (simp_all add: saveScore_def Get_Set split: if_splits)

lemma ScoreKey_eq [simp]: "ScoreKey e = ScoreKey e' \<longleftrightarrow> e = e'"
  by (simp add: ScoreKey_def RepKey_def)

lemma findScore_iff: "findScore st e = Inr s \<longleftrightarrow> Get st (ScoreKey e) = Some (VScore s)"
  by (auto simp: findScore_def load_rec_def dest: un_SomeD(6) split: option.splits)

lemma rep_ok_load: "rep_ok st \<Longrightarrow> findScore st e = Inr s \<Longrightarrow> rs_Entity s = e \<and> score_ok s"
  using scores.key_pre [of e] unfolding rep_ok_def findScore_iff by (metis ScoreKey_eq)

lemma rep_ok_own: "rep_ok st \<Longrightarrow> own_ids findScore rs_Entity st"
  by (simp add: own_ids_def rep_ok_load)

lemma rep_ok_mem:
  assumes "rep_ok st"
  shows "s \<in> set (decoded un_score (IteratePrefix st PrefixRepScore)) \<longleftrightarrow> (\<exists>e. findScore st e = Inr s)"
  unfolding decoded_iff [OF rep_ok_inv [OF assms]] findScore_iff
  using assms scores.key_pre unfolding rep_ok_def by (metis un_SomeD(6) un_simps(6))

lemma uint_decay: "v \<le> 1000 \<Longrightarrow> uint (decayScore v) = max 100 (uint v - uint v div 50)"
  by (simp add: decayScore_def Let_def word_le_def unsigned_of_int take_bit_int_eq_self max_def)

lemma decayScore_range: "v \<le> 1000 \<Longrightarrow> decayScore v \<le> 1000"
  by (simp add: word_le_def uint_decay)

lemma computeTotal_range [simp]: "computeTotal s \<le> 1000"
  by (simp add: computeTotal_def Let_def)

lemma apply_update_ok: "score_ok s \<Longrightarrow> score_ok (apply_update t p s)"
  by (simp add: score_ok_def scores_in_range_def apply_update_def Let_def split: prod.split)

lemma decay_one_ok: "decay_one e s = Some (s', ev) \<Longrightarrow> rs_Entity s' = rs_Entity s \<and> (score_ok s \<longrightarrow> score_ok s')"
  by (auto simp: decay_one_def Let_def score_ok_def scores_in_range_def decayScore_range split: if_splits)

lemma defaultScore_ok: "score_ok (defaultScore e t)"
  by (simp add: score_ok_def scores_in_range_def defaultScore_def)

lemma rep_ok_exec:
  assumes "rep_ok (ctxStore c)"
  shows "rep_ok (ctxStore (fst (mExecuteTx rep_New c env)))"
proof -
  have ld: "score_ok s" if "loadScore (ctxStore c) e = Some s" for e s
    using that rep_ok_load [OF assms] by (auto simp: loadScore_def split: sum.splits)
  note save = rep_ok_save [OF assms]
  have "rep_ok (ctxStore (fst (updateReputation c env)))"
    using assms ld by (auto simp: updateReputation_def Let_def intro!: save apply_update_ok defaultScore_ok split: option.split)
  moreover have "rep_ok (ctxStore (fst (overrideScore c env)))"
  proof -
    have "score_ok (s\<lparr>rs_TotalScore := (if 1000 < x then 1000 else x)\<rparr>)" if "score_ok s" for s x
      using that by (simp add: score_ok_def scores_in_range_def not_less)
    then show ?thesis using assms ld defaultScore_ok by (simp add: overrideScore_def Let_def save split: option.split)
  qed
  moreover have "rep_ok (fst (sweep saveScore (decay_one e) (decoded un_score (IteratePrefix (ctxStore c) PrefixRepScore)) (ctxStore c)))" for e
    by (rule sweep_keeps [where P = score_ok and I = rep_ok])
      (use assms decay_one_ok rep_ok_load rep_ok_mem [OF assms] in \<open>auto intro: rep_ok_save\<close>)
  ultimately show ?thesis using assms by (simp add: rep_exec applyDecay_def Let_def split: option.split)
qed

lemma rep_ok_local:
  assumes "rep_ok st" "store_inv st \<Longrightarrow> store_inv st'"
    and "\<And>p k. p \<in> set rep_prefixes \<Longrightarrow> prefix p k \<Longrightarrow> Get st' k = Get st k"
  shows "rep_ok st'"
  using assms unfolding rep_ok_def rep_prefixes_def by simp

lemma rep_ok_fresh: "rep_ok (ctxStore (fresh_ctx t))"
  by (simp add: rep_ok_def)

interpretation rep_inv: module_invariant rep_New rep_prefixes rep_ok
proof (unfold_locales, goal_cases)
  case (4 st st')
  then show ?case by (rule rep_ok_local)
qed (simp_all add: rep_ok_exec rep_ok_fresh, simp add: rep_New_def rep_EndBlock_def)

text \<open>C39: in every reachable state all scores of an entity and their total lie between 0 and 1000, and a score is stored
  under its own entity.\<close>

theorem scores_bounded:
  assumes "reach rep_New c" "loadScore (ctxStore c) e = Some s"
  shows "rs_Entity s = e \<and> rs_QualityScore s \<le> 1000 \<and> rs_TimelinessScore s \<le> 1000 \<and> rs_ReliabilityScore s \<le> 1000
    \<and> rs_DisputeScore s \<le> 1000 \<and> rs_NetworkScore s \<le> 1000 \<and> rs_TotalScore s \<le> 1000"
  using rep_ok_load [OF rep_inv.reach_inv [OF assms(1)], of e s] assms(2)
  by (auto simp: loadScore_def score_ok_def scores_in_range_def split: sum.splits)

section \<open>Decay\<close>

lemma decayScore_steps: "v \<le> 1000 \<Longrightarrow> (decayScore ^^ n) v \<le> 1000 \<and> uint ((decayScore ^^ n) v) \<le> max (uint v) 100
    \<and> (0 < n \<longrightarrow> 100 \<le> uint ((decayScore ^^ n) v)) \<and> uint ((decayScore ^^ n) v) \<le> max 100 (1000 - 2 * int n)"
proof (induction n)
  case 0
  then show ?case by (simp add: word_le_def)
next
  case (Suc n)
  let ?x = "uint ((decayScore ^^ n) v)"
  have IH: "(decayScore ^^ n) v \<le> 1000" "?x \<le> max (uint v) 100" "?x \<le> max 100 (1000 - 2 * int n)" using Suc by auto
  have x: "0 \<le> ?x" by simp
  have step: "uint ((decayScore ^^ Suc n) v) = max 100 (?x - ?x div 50)" using uint_decay [OF IH(1)] by simp
  have "?x - ?x div 50 \<le> max 100 (1000 - 2 * int (Suc n))"
  proof (cases "?x \<le> 101")
    case False
    then have "2 \<le> ?x div 50" by linarith
    then show ?thesis using IH(3) False by (auto simp: max_def split: if_splits)
  next
    case True
    then show ?thesis using x by (cases "?x \<le> 100") (auto simp: max_def)
  qed
  moreover have "?x - ?x div 50 \<le> max (uint v) 100" using IH(2) x by (smt (verit) pos_imp_zdiv_nonneg_iff)
  moreover have "(decayScore ^^ Suc n) v \<le> 1000" using decayScore_range [OF IH(1)] by simp
  ultimately show ?case unfolding step by simp
qed

text \<open>C40: decay ends at the floor: after at most 450 decays a score is 100 and stays there. One decay never lowers a score below
  100 and takes at most a fiftieth of it; a score below 100 is raised to 100.\<close>

theorem decay_converges:
  assumes "v \<le> 1000" "450 \<le> n"
  shows "(decayScore ^^ n) v = 100 \<and> uint (decayScore v) = max 100 (uint v - uint v div 50)"
proof -
  have "uint ((decayScore ^^ n) v) \<le> 100" "100 \<le> uint ((decayScore ^^ n) v)" using decayScore_steps [OF assms(1), of n] assms(2) by auto
  then have "uint ((decayScore ^^ n) v) = uint (100 :: uint32)" by simp
  then show ?thesis using uint_decay [OF assms(1)] by (simp only: word_uint_eqI simp_thms)
qed

text \<open>A decay transaction decays exactly the scores whose last decay lies at least four epochs back (the distance
  of epochs counted modulo \<open>2 ^ 64\<close>), recomputes their totals and leaves the other scores alone.\<close>

theorem decay_exact:
  assumes "rep_ok (ctxStore ctx)" "DecodeJSONPayload decayPayload_fields 0 env = Some e" "e \<noteq> 0"
  shows "snd (applyDecay ctx env) = Ret (SuccessResult (500 * of_nat (length (IteratePrefix (ctxStore ctx) PrefixRepScore))) [])
    \<and> loadScore (ctxStore (fst (applyDecay ctx env))) i = map_option (\<lambda>s.
        if e - rs_UpdateEpoch s < 4 then s
        else let s' = s\<lparr>rs_QualityScore := decayScore (rs_QualityScore s), rs_TimelinessScore := decayScore (rs_TimelinessScore s),
                  rs_ReliabilityScore := decayScore (rs_ReliabilityScore s), rs_DisputeScore := decayScore (rs_DisputeScore s),
                  rs_NetworkScore := decayScore (rs_NetworkScore s)\<rparr>
             in s'\<lparr>rs_TotalScore := computeTotal s', rs_UpdateEpoch := e\<rparr>) (loadScore (ctxStore ctx) i)"
proof -
  let ?f = "decay_one e"
  have keep: "?f r = Some (r', ev) \<Longrightarrow> rs_Entity r' = rs_Entity r" for r r' ev using decay_one_ok by blast
  have "findScore (fst (sweep saveScore ?f (decoded un_score (IteratePrefix (ctxStore ctx) PrefixRepScore)) (ctxStore ctx))) i =
      (case findScore (ctxStore ctx) i of Inl x \<Rightarrow> Inl x | Inr r \<Rightarrow> Inr (case ?f r of None \<Rightarrow> r | Some (r', ev) \<Rightarrow> r'))"
    by (rule scores.sweep_all [OF rep_ok_own [OF assms(1)] rep_ok_mem [OF assms(1)] keep])
  then show ?thesis
    using assms(2,3) by (auto simp: applyDecay_def Let_def loadScore_def decay_one_def split: sum.split)
qed

section \<open>What an outcome does to the scores\<close>

lemma rating_delta: "float_trunc (fl32 (fl32 (10 * fl32 x) / 5)) = 2 * k" if "(x, k) \<in> {(1, 1), (2, 2), (3, 3), (4, 4), (5, 5)}"
proof -
  have "float_trunc (fl32 (fl32 (10 * fl32 1) / 5)) = 2" "float_trunc (fl32 (fl32 (10 * fl32 2) / 5)) = 4"
    "float_trunc (fl32 (fl32 (10 * fl32 3) / 5)) = 6" "float_trunc (fl32 (fl32 (10 * fl32 4) / 5)) = 8"
    "float_trunc (fl32 (fl32 (10 * fl32 5) / 5)) = 10" by code_simp+
  with that show ?thesis by auto
qed

definition clamp_rating :: "uint32 \<Rightarrow> int" where
  "clamp_rating r = max 1 (min 5 (uint r))"

lemma quality_delta:
  "float_trunc (fl32 (fl32 (10 * fl32 (of_int (uint (let r = (if r < 1 then 1 else r) in if 5 < r then 5 else r)))) / 5)) = 2 * clamp_rating r"
proof -
  let ?r = "let r = (if r < 1 then 1 else r) in if 5 < r then 5 else r"
  have u: "uint ?r = clamp_rating r" by (auto simp: clamp_rating_def Let_def word_less_def)
  have "clamp_rating r \<in> {1, 2, 3, 4, 5}" by (auto simp: clamp_rating_def)
  then have "(of_int (clamp_rating r) :: rat, clamp_rating r) \<in> {(1, 1), (2, 2), (3, 3), (4, 4), (5, 5)}" by auto
  from rating_delta [OF this] show ?thesis by (simp only: u)
qed

text \<open>An update moves the scores in the direction of the outcome. A success never lowers quality and dispute scores,
  and a verified success adds twice its rating (taken between 1 and 5) up to 1000; a failure lowers
  quality, timeliness and reliability unless they are 0; a lost dispute lowers quality and dispute
  scores by 50 and 60 down to 0. Each outcome counts one more task.\<close>

theorem update_direction:
  assumes "scores_in_range s"
  shows "(up_Result p = ''SUCCESS'' \<longrightarrow> rs_DisputeScore s \<le> rs_DisputeScore (apply_update t p s)
        \<and> uint (rs_QualityScore (apply_update t p s)) = min 1000 (uint (rs_QualityScore s) + (if up_VerifyOK p then 2 * clamp_rating (up_Rating p) else 0)))
    \<and> (up_Result p = ''FAILED'' \<longrightarrow> uint (rs_QualityScore (apply_update t p s)) = max 0 (uint (rs_QualityScore s) - 30)
        \<and> uint (rs_TimelinessScore (apply_update t p s)) = max 0 (uint (rs_TimelinessScore s) - 25)
        \<and> uint (rs_ReliabilityScore (apply_update t p s)) \<le> max 0 (uint (rs_ReliabilityScore s) - 10))
    \<and> (up_Result p = ''DISPUTED_LOST'' \<longrightarrow> uint (rs_QualityScore (apply_update t p s)) = max 0 (uint (rs_QualityScore s) - 50)
        \<and> uint (rs_DisputeScore (apply_update t p s)) = max 0 (uint (rs_DisputeScore s) - 60))
    \<and> rs_TotalTasks (apply_update t p s) = rs_TotalTasks s + 1"
proof -
  have r: "uint (rs_QualityScore s) \<le> 1000" "uint (rs_TimelinessScore s) \<le> 1000" "uint (rs_ReliabilityScore s) \<le> 1000"
    "uint (rs_DisputeScore s) \<le> 1000" using assms by (simp_all add: scores_in_range_def word_le_def)
  have c: "1 \<le> clamp_rating (up_Rating p)" by (simp add: clamp_rating_def)
  have rel: "reliabilityDelta m \<le> 5" for m by (simp add: reliabilityDelta_def)
  have d: "computeDeltas p = (if up_VerifyOK p then 2 * clamp_rating (up_Rating p) else 0, fst (snd (computeDeltas p)), reliabilityDelta (up_HBMiss p), 3)"
    if "up_Result p = ''SUCCESS''"
    using that quality_delta [of "up_Rating p"] by (simp add: computeDeltas_def Let_def)
  have success: "up_Result p = ''SUCCESS'' \<longrightarrow> rs_DisputeScore s \<le> rs_DisputeScore (apply_update t p s)
      \<and> uint (rs_QualityScore (apply_update t p s)) = min 1000 (uint (rs_QualityScore s) + (if up_VerifyOK p then 2 * clamp_rating (up_Rating p) else 0))"
  proof
    assume s: "up_Result p = ''SUCCESS''"
    have ge: "\<not> uint w + k < 0" if "0 \<le> k" for w :: uint32 and k using that by (simp add: not_less)
    show "rs_DisputeScore s \<le> rs_DisputeScore (apply_update t p s)
      \<and> uint (rs_QualityScore (apply_update t p s)) = min 1000 (uint (rs_QualityScore s) + (if up_VerifyOK p then 2 * clamp_rating (up_Rating p) else 0))"
      unfolding apply_update_def using r c
      by (subst (1 2) d [OF s]) (simp add: Let_def uint_clamp word_le_def s ge min_def)
  qed
  have failed: "up_Result p = ''FAILED'' \<longrightarrow> uint (rs_QualityScore (apply_update t p s)) = max 0 (uint (rs_QualityScore s) - 30)
        \<and> uint (rs_TimelinessScore (apply_update t p s)) = max 0 (uint (rs_TimelinessScore s) - 25)
        \<and> uint (rs_ReliabilityScore (apply_update t p s)) \<le> max 0 (uint (rs_ReliabilityScore s) - 10)"
    using r rel [of "up_HBMiss p"] by (simp add: apply_update_def computeDeltas_def Let_def uint_clamp)
  have lost: "up_Result p = ''DISPUTED_LOST'' \<longrightarrow> uint (rs_QualityScore (apply_update t p s)) = max 0 (uint (rs_QualityScore s) - 50)
        \<and> uint (rs_DisputeScore (apply_update t p s)) = max 0 (uint (rs_DisputeScore s) - 60)"
    using r by (simp add: apply_update_def computeDeltas_def Let_def uint_clamp)
  have "rs_TotalTasks (apply_update t p s) = rs_TotalTasks s + 1" by (simp add: apply_update_def Let_def split: prod.split)
  with success failed lost show ?thesis by blast
qed

section \<open>Concrete scores\<close>

definition score0 :: ReputationScore where
  "score0 = (defaultScore ''e'' ''provider'')\<lparr>rs_QualityScore := 701\<rparr>"

theorem total_is_nearest_witness: "\<bar>20 * uint (computeTotal score0) - 11206\<bar> \<le> 10"
  using total_is_nearest [of score0] by (simp add: score0_def defaultScore_def)

theorem decay_converges_witness: "(decayScore ^^ 450) 1000 = 100"
  using decay_converges [of 1000 450] by simp

theorem update_direction_witness:
  "uint (rs_QualityScore (apply_update 5 (zeroUpdate\<lparr>up_Result := ''FAILED''\<rparr>) score0)) = 671"
  using update_direction [of score0 "zeroUpdate\<lparr>up_Result := ''FAILED''\<rparr>" 5]
  by (simp add: scores_in_range_def score0_def defaultScore_def zeroUpdate_def)

definition rep_tx :: TxEnvelope where
  "rep_tx = mk_tx ''s'' ''rep'' ''override_score'' ''{\"entity\":\"AAAA\",\"score\":5000}''"

definition rep_ctx :: Context where
  "rep_ctx = run rep_New (fresh_ctx 5) [Tx rep_tx]"

lemma rep_ctx_reach: "reach rep_New rep_ctx"
  unfolding rep_ctx_def by (rule reach_run) (rule reach.init)

definition rep_entity :: bytes where
  "rep_entity = [CHR 0x00, CHR 0x00, CHR 0x00]"

lemma rep_ctx_load: "map_option rs_TotalScore (loadScore (ctxStore rep_ctx) rep_entity) = Some 1000"
  by code_simp

theorem scores_bounded_witness:
  "\<exists>s. loadScore (ctxStore rep_ctx) rep_entity = Some s \<and> rs_Entity s = rep_entity \<and> rs_NetworkScore s \<le> 1000"
proof -
  obtain s where s: "loadScore (ctxStore rep_ctx) rep_entity = Some s" using rep_ctx_load by auto
  with scores_bounded [OF rep_ctx_reach s] show ?thesis by blast
qed

definition decay_tx :: TxEnvelope where
  "decay_tx = mk_tx ''s'' ''rep'' ''apply_decay'' ''{\"current_epoch\":9}''"

theorem decay_exact_witness:
  "\<exists>s. loadScore (ctxStore rep_ctx) rep_entity = Some s \<and>
     loadScore (ctxStore (fst (applyDecay rep_ctx decay_tx))) rep_entity \<noteq> None"
proof -
  have ok: "rep_ok (ctxStore rep_ctx)" by (rule rep_inv.reach_inv [OF rep_ctx_reach])
  have d: "DecodeJSONPayload decayPayload_fields 0 decay_tx = Some 9" by code_simp
  obtain s where "loadScore (ctxStore rep_ctx) rep_entity = Some s" using rep_ctx_load by auto
  with decay_exact [OF ok d, of rep_entity] show ?thesis by simp
qed

section \<open>The end of a block\<close>

interpretation rep_end: end_local rep_New rep_prefixes
  by (rule idle_end_local [OF rep_mod.module_contract_axioms]) (simp add: rep_New_def rep_EndBlock_def)

end
