(* ===== verification/Arb.thy ===== *)
theory Arb
  imports Table
begin

text \<open>
  \<open>internal/modules/arb/module.go\<close>: disputes over orders. A dispute is decided by fixed rules on its
  reason code, by the votes of a committee, or by the votes of all validators; parties may appeal,
  and a resolved dispute is executed.
\<close>

section \<open>Payloads\<close>

record filePayload =
  fp_OrderID :: bytes
  fp_TaskID :: bytes
  fp_Defendant :: bytes
  fp_ReasonCode :: bytes
  fp_Description :: bytes

definition filePayload_fields :: "(bytes \<times> filePayload field) list" where
  "filePayload_fields =
     [(''order_id'', fld dec_string fp_OrderID fp_OrderID_update),
      (''task_id'', fld dec_string fp_TaskID fp_TaskID_update),
      (''defendant'', fld dec_bytes fp_Defendant fp_Defendant_update),
      (''reason_code'', fld dec_string fp_ReasonCode fp_ReasonCode_update),
      (''description'', fld dec_string fp_Description fp_Description_update)]"

definition zeroFile :: filePayload where
  "zeroFile = \<lparr>fp_OrderID = [], fp_TaskID = [], fp_Defendant = [], fp_ReasonCode = [], fp_Description = []\<rparr>"

definition Evidence_fields :: "(bytes \<times> Evidence field) list" where
  "Evidence_fields =
     [(''submitter'', fld dec_bytes ev_Submitter ev_Submitter_update),
      (''evidence_type'', fld dec_string ev_EvidenceType ev_EvidenceType_update),
      (''ipfs_cid'', fld dec_string ev_IPFSCID ev_IPFSCID_update),
      (''inline_data'', fld dec_bytes ev_InlineData ev_InlineData_update),
      (''content_hash'', fld dec_string ev_ContentHash ev_ContentHash_update),
      (''submitted_at'', fld dec_int64 ev_SubmittedAt ev_SubmittedAt_update),
      (''signature'', fld dec_bytes ev_Signature ev_Signature_update)]"

definition zeroEvidence :: Evidence where
  "zeroEvidence = \<lparr>ev_Submitter = [], ev_EvidenceType = [], ev_IPFSCID = [], ev_InlineData = [], ev_ContentHash = [],
     ev_SubmittedAt = 0, ev_Signature = []\<rparr>"

record evidencePayload =
  ep_DisputeID :: bytes
  ep_Evidence :: Evidence

definition evidencePayload_fields :: "(bytes \<times> evidencePayload field) list" where
  "evidencePayload_fields =
     [(''dispute_id'', fld dec_string ep_DisputeID ep_DisputeID_update),
      (''evidence'', fld (dec_struct False Evidence_fields) ep_Evidence ep_Evidence_update)]"

definition zeroEvidencePayload :: evidencePayload where
  "zeroEvidencePayload = \<lparr>ep_DisputeID = [], ep_Evidence = zeroEvidence\<rparr>"

text \<open>\<open>resolvePayload\<close> has the one field \<open>DisputeID\<close>.\<close>

definition resolvePayload_fields :: "(bytes \<times> bytes field) list" where
  "resolvePayload_fields = [(''dispute_id'', fld dec_string id id)]"

record votePayload =
  vt_DisputeID :: bytes
  vt_Vote :: bytes
  vt_Reasoning :: bytes

definition votePayload_fields :: "(bytes \<times> votePayload field) list" where
  "votePayload_fields =
     [(''dispute_id'', fld dec_string vt_DisputeID vt_DisputeID_update),
      (''vote'', fld dec_string vt_Vote vt_Vote_update),
      (''reasoning'', fld dec_string vt_Reasoning vt_Reasoning_update)]"

definition zeroVotePayload :: votePayload where
  "zeroVotePayload = \<lparr>vt_DisputeID = [], vt_Vote = [], vt_Reasoning = []\<rparr>"

section \<open>Helpers\<close>

definition DisputeKey :: "bytes \<Rightarrow> bytes" where
  "DisputeKey i = PrefixArbDispute @ i"

definition saveDispute :: "Store \<Rightarrow> Dispute \<Rightarrow> Store" where
  "saveDispute st d = Set st (DisputeKey (dp_DisputeID d)) (VDispute d)"

definition loadDispute :: "Store \<Rightarrow> bytes \<Rightarrow> goerr + Dispute" where
  "loadDispute st i = load_rec un_dispute (NewAppError CodeARBBase ''dispute not found'') json_error st (DisputeKey i)"

definition disputeID :: "bytes \<Rightarrow> bytes \<Rightarrow> uint64 \<Rightarrow> bytes" where
  "disputeID orderID taskID nonce = hex_EncodeToString (take 8 (Sum256 (orderID @ ''|'' @ taskID @ ''|'' @ utoa 10 (unat nonce))))"

definition zeroVerdict :: Verdict where
  "zeroVerdict = \<lparr>v_Winner = [], v_SplitRatio = [], v_RefundAmount = zeroMoney, v_SlashAmount = zeroMoney,
     v_PlaintiffRepDelta = 0, v_DefendantRepDelta = 0, v_BanDefendant = False, v_Reasoning = []\<rparr>"

definition simpleVerdict :: "bytes \<Rightarrow> Verdict" where
  "simpleVerdict winner = zeroVerdict\<lparr>v_Winner := winner, v_Reasoning := ''majority vote''\<rparr>"

definition deterministicCommittee :: "bytes \<Rightarrow> bytes list" where
  "deterministicCommittee i = (let h = Sum256 i in
     map (\<lambda>i. map (\<lambda>j. h ! ((i + j) mod length h)) [0..<32]) [0..<5])"

definition containsValidator :: "bytes list \<Rightarrow> bytes \<Rightarrow> bool" where
  "containsValidator validators sender = list_ex (\<lambda>v. equalBytes v sender) validators"

text \<open>
  The Go map \<open>counts\<close> as the list of its entries, in the order of the first votes. Go ranges over a
  map in no fixed order; the theorem \<open>majority_any_order\<close> below shows that the result of the loop is
  the same for every order of the entries.
\<close>

fun count_vote :: "bytes \<Rightarrow> (bytes \<times> nat) list \<Rightarrow> (bytes \<times> nat) list" where
  "count_vote v [] = [(v, 1)]"
| "count_vote v ((w, n) # cs) = (if w = v then (w, n + 1) # cs else (w, n) # count_vote v cs)"

definition vote_counts :: "VoteRecord list \<Rightarrow> (bytes \<times> nat) list" where
  "vote_counts votes = foldl (\<lambda>cs v. count_vote (vr_Vote v) cs) [] votes"

fun majority_loop :: "(bytes \<times> nat) list \<Rightarrow> bytes \<Rightarrow> nat \<Rightarrow> bool \<Rightarrow> bytes" where
  "majority_loop [] winner best tie = (if tie then ''tie'' else winner)"
| "majority_loop ((cand, n) # cs) winner best tie =
     (if best < n then majority_loop cs cand n False
      else if n = best then majority_loop cs winner best True
      else majority_loop cs winner best tie)"

definition majorityVote :: "VoteRecord list \<Rightarrow> bytes" where
  "majorityVote votes = majority_loop (vote_counts votes) [] 0 False"

section \<open>Rules\<close>

record AutoRule =
  ar_Name :: bytes
  ar_Priority :: int
  ar_Eval :: "Dispute \<Rightarrow> (bool \<times> Verdict) option"

text \<open>A \<open>RuleResult\<close> is the pair of its fields, and \<open>None\<close> is the nil pointer.\<close>

definition ruleSLATimeout :: "Dispute \<Rightarrow> (bool \<times> Verdict) option" where
  "ruleSLATimeout d = (if EqualFold_ascii (dp_ReasonCode d) ''timeout''
     then Some (True, zeroVerdict\<lparr>v_Winner := ''consumer'', v_RefundAmount := \<lparr>Currency = ''CNY'', Amount = ''1''\<rparr>,
       v_SlashAmount := \<lparr>Currency = ''CNY'', Amount = ''0.1''\<rparr>, v_DefendantRepDelta := -30, v_Reasoning := ''SLA timeout''\<rparr>)
     else None)"

definition ruleHeartbeatLoss :: "Dispute \<Rightarrow> (bool \<times> Verdict) option" where
  "ruleHeartbeatLoss d = (if EqualFold_ascii (dp_ReasonCode d) ''heartbeat''
     then Some (True, zeroVerdict\<lparr>v_Winner := ''consumer'', v_RefundAmount := \<lparr>Currency = ''CNY'', Amount = ''1''\<rparr>,
       v_SlashAmount := \<lparr>Currency = ''CNY'', Amount = ''0.05''\<rparr>, v_DefendantRepDelta := -20, v_Reasoning := ''Heartbeat loss''\<rparr>)
     else None)"

definition ruleVerificationFail :: "Dispute \<Rightarrow> (bool \<times> Verdict) option" where
  "ruleVerificationFail d = (if EqualFold_ascii (dp_ReasonCode d) ''quality''
     then Some (True, zeroVerdict\<lparr>v_Winner := ''consumer'', v_RefundAmount := \<lparr>Currency = ''CNY'', Amount = ''0.8''\<rparr>,
       v_DefendantRepDelta := -40, v_Reasoning := ''Verification failed''\<rparr>)
     else None)"

definition ruleConsumerBadFaith :: "Dispute \<Rightarrow> (bool \<times> Verdict) option" where
  "ruleConsumerBadFaith d = (if EqualFold_ascii (dp_ReasonCode d) ''payment''
     then Some (True, zeroVerdict\<lparr>v_Winner := ''provider'', v_PlaintiffRepDelta := -20, v_Reasoning := ''Consumer bad faith''\<rparr>)
     else None)"

definition ruleEscalate :: "Dispute \<Rightarrow> (bool \<times> Verdict) option" where
  "ruleEscalate d = Some (False, zeroVerdict)"

definition NewAutoRuleEngine :: "AutoRule list" where
  "NewAutoRuleEngine =
     [\<lparr>ar_Name = ''sla_timeout'', ar_Priority = 1, ar_Eval = ruleSLATimeout\<rparr>,
      \<lparr>ar_Name = ''heartbeat_loss'', ar_Priority = 2, ar_Eval = ruleHeartbeatLoss\<rparr>,
      \<lparr>ar_Name = ''verification_fail'', ar_Priority = 3, ar_Eval = ruleVerificationFail\<rparr>,
      \<lparr>ar_Name = ''consumer_bad_faith'', ar_Priority = 4, ar_Eval = ruleConsumerBadFaith\<rparr>,
      \<lparr>ar_Name = ''insufficient_evidence'', ar_Priority = 99, ar_Eval = ruleEscalate\<rparr>]"

fun first_resolved :: "AutoRule list \<Rightarrow> Dispute \<Rightarrow> bool \<times> Verdict" where
  "first_resolved [] d = (False, zeroVerdict)"
| "first_resolved (r # rs) d = (case ar_Eval r d of
       Some (True, v) \<Rightarrow> (True, v) | _ \<Rightarrow> first_resolved rs d)"

definition Evaluate :: "AutoRule list \<Rightarrow> Dispute \<Rightarrow> bool \<times> Verdict" where
  "Evaluate rules d = first_resolved (sort_slice (\<lambda>a b. ar_Priority a < ar_Priority b) rules) d"

definition applyRules :: "Dispute \<Rightarrow> bool \<times> Verdict" where
  "applyRules d = Evaluate NewAutoRuleEngine d"

section \<open>Handlers\<close>

definition arb_error :: "uint32 \<Rightarrow> bytes \<Rightarrow> goerr" where
  "arb_error n msg = NewAppError (CodeARBBase + n) msg"

definition fileDispute :: handler where
  "fileDispute ctx env = (case DecodeJSONPayload filePayload_fields zeroFile env of
     None \<Rightarrow> (ctx, Err (arb_error 1 ''decode file_dispute: %v''))
   | Some p \<Rightarrow>
     let d = \<lparr>dp_DisputeID = disputeID (fp_OrderID p) (fp_TaskID p) (Nonce env), dp_OrderID = fp_OrderID p,
              dp_TaskID = fp_TaskID p, dp_Plaintiff = Sender env, dp_Defendant = fp_Defendant p,
              dp_ReasonCode = fp_ReasonCode p, dp_Description = fp_Description p, dp_PlaintiffEvidence = [],
              dp_DefendantEvidence = [], dp_Phase = ''PHASE_AUTO'', dp_Status = ''DISPUTE_FILED'', dp_Verdict = zeroVerdict,
              dp_CommitteeMembers = [], dp_CommitteeVotes = [], dp_FullVotes = [], dp_FiledAt = now ctx, dp_ResolvedAt = 0\<rparr>
     in (upd_store ctx (saveDispute (ctxStore ctx) d), Ret (SuccessResult 3000 [])))"

definition submitEvidence :: handler where
  "submitEvidence ctx env = (case DecodeJSONPayload evidencePayload_fields zeroEvidencePayload env of
     None \<Rightarrow> (ctx, Err (arb_error 1 ''decode submit_evidence: %v''))
   | Some p \<Rightarrow>
     (case loadDispute (ctxStore ctx) (ep_DisputeID p) of Inl e \<Rightarrow> (ctx, Err e)
      | Inr d \<Rightarrow>
        if equalBytes (dp_Plaintiff d) (Sender env)
        then (upd_store ctx (saveDispute (ctxStore ctx) (d\<lparr>dp_PlaintiffEvidence := dp_PlaintiffEvidence d @ [ep_Evidence p]\<rparr>)),
              Ret (SuccessResult 2000 []))
        else if equalBytes (dp_Defendant d) (Sender env)
        then (upd_store ctx (saveDispute (ctxStore ctx) (d\<lparr>dp_DefendantEvidence := dp_DefendantEvidence d @ [ep_Evidence p]\<rparr>)),
              Ret (SuccessResult 2000 []))
        else (ctx, Err (arb_error 61 ''only plaintiff/defendant can submit evidence''))))"

definition autoResolve :: handler where
  "autoResolve ctx env = (case DecodeJSONPayload resolvePayload_fields [] env of
     None \<Rightarrow> (ctx, Err (arb_error 1 ''decode auto_resolve: %v''))
   | Some i \<Rightarrow>
     (case loadDispute (ctxStore ctx) i of Inl e \<Rightarrow> (ctx, Err e)
      | Inr d \<Rightarrow>
        if dp_Status d = ''DISPUTE_FINAL_RESOLVED'' then (ctx, Ret (SuccessResult 5000 []))
        else (case applyRules d of (resolved, v) \<Rightarrow>
          let d = (if resolved then d\<lparr>dp_Verdict := v, dp_Status := ''DISPUTE_AUTO_RESOLVED''\<rparr>
                   else d\<lparr>dp_Phase := ''PHASE_COMMITTEE'', dp_Status := ''DISPUTE_COMM_REVIEW'',
                          dp_CommitteeMembers := deterministicCommittee (dp_DisputeID d)\<rparr>)
          in (upd_store ctx (saveDispute (ctxStore ctx) d), Ret (SuccessResult 5000 [])))))"

definition new_vote :: "Context \<Rightarrow> TxEnvelope \<Rightarrow> votePayload \<Rightarrow> VoteRecord" where
  "new_vote ctx env p = \<lparr>vr_Validator = Sender env, vr_Vote = vt_Vote p, vr_Reasoning = vt_Reasoning p,
     vr_VotedAt = now ctx, vr_Signature = []\<rparr>"

definition committee_count :: "Dispute \<Rightarrow> Dispute" where
  "committee_count d = (if 3 \<le> length (dp_CommitteeVotes d) then
       let winner = majorityVote (dp_CommitteeVotes d) in
       if winner = ''tie'' then d\<lparr>dp_Phase := ''PHASE_FULL'', dp_Status := ''DISPUTE_FULL_REVIEW''\<rparr>
       else d\<lparr>dp_Status := ''DISPUTE_COMM_RESOLVED'', dp_Verdict := simpleVerdict winner\<rparr>
     else d)"

definition committeeVote :: handler where
  "committeeVote ctx env = (case DecodeJSONPayload votePayload_fields zeroVotePayload env of
     None \<Rightarrow> (ctx, Err (arb_error 1 ''decode committee_vote: %v''))
   | Some p \<Rightarrow>
     (case loadDispute (ctxStore ctx) (vt_DisputeID p) of Inl e \<Rightarrow> (ctx, Err e)
      | Inr d \<Rightarrow>
        if dp_Phase d \<noteq> ''PHASE_COMMITTEE'' then (ctx, Err (arb_error 62 ''dispute phase %s cannot committee vote''))
        else if \<not> containsValidator (dp_CommitteeMembers d) (Sender env)
        then (ctx, Err (arb_error 61 ''sender is not committee member''))
        else let d = committee_count (d\<lparr>dp_CommitteeVotes := dp_CommitteeVotes d @ [new_vote ctx env p]\<rparr>)
             in (upd_store ctx (saveDispute (ctxStore ctx) d), Ret (SuccessResult 1500 []))))"

definition full_count :: "int64 \<Rightarrow> Dispute \<Rightarrow> Dispute" where
  "full_count t d = (if 5 \<le> length (dp_FullVotes d) then
       let winner = majorityVote (dp_FullVotes d);
           winner = (if winner = ''tie'' then ''consumer'' else winner)
       in d\<lparr>dp_Verdict := simpleVerdict winner, dp_Status := ''DISPUTE_FINAL_RESOLVED'', dp_ResolvedAt := t\<rparr>
     else d)"

definition fullVote :: handler where
  "fullVote ctx env = (case DecodeJSONPayload votePayload_fields zeroVotePayload env of
     None \<Rightarrow> (ctx, Err (arb_error 1 ''decode full_vote: %v''))
   | Some p \<Rightarrow>
     (case loadDispute (ctxStore ctx) (vt_DisputeID p) of Inl e \<Rightarrow> (ctx, Err e)
      | Inr d \<Rightarrow>
        if dp_Phase d \<noteq> ''PHASE_FULL'' then (ctx, Err (arb_error 62 ''dispute phase %s cannot full vote''))
        else let d = full_count (now ctx) (d\<lparr>dp_FullVotes := dp_FullVotes d @ [new_vote ctx env p]\<rparr>)
             in (upd_store ctx (saveDispute (ctxStore ctx) d), Ret (SuccessResult 1500 []))))"

definition appeal :: handler where
  "appeal ctx env = (case DecodeJSONPayload resolvePayload_fields [] env of
     None \<Rightarrow> (ctx, Err (arb_error 1 ''decode appeal: %v''))
   | Some i \<Rightarrow>
     (case loadDispute (ctxStore ctx) i of Inl e \<Rightarrow> (ctx, Err e)
      | Inr d \<Rightarrow>
        if dp_Status d = ''DISPUTE_AUTO_RESOLVED''
        then (upd_store ctx (saveDispute (ctxStore ctx) (d\<lparr>dp_Phase := ''PHASE_COMMITTEE'', dp_Status := ''DISPUTE_COMM_REVIEW'',
                dp_CommitteeMembers := deterministicCommittee (dp_DisputeID d)\<rparr>)), Ret (SuccessResult 3000 []))
        else if dp_Status d = ''DISPUTE_COMM_RESOLVED''
        then (upd_store ctx (saveDispute (ctxStore ctx) (d\<lparr>dp_Phase := ''PHASE_FULL'', dp_Status := ''DISPUTE_FULL_REVIEW''\<rparr>)),
              Ret (SuccessResult 3000 []))
        else (ctx, Err (arb_error 62 ''status %s cannot appeal''))))"

definition executeVerdict :: handler where
  "executeVerdict ctx env = (case DecodeJSONPayload resolvePayload_fields [] env of
     None \<Rightarrow> (ctx, Err (arb_error 1 ''decode execute_verdict: %v''))
   | Some i \<Rightarrow>
     (case loadDispute (ctxStore ctx) i of Inl e \<Rightarrow> (ctx, Err e)
      | Inr d \<Rightarrow>
        if dp_Status d \<noteq> ''DISPUTE_AUTO_RESOLVED'' \<and> dp_Status d \<noteq> ''DISPUTE_COMM_RESOLVED'' \<and> dp_Status d \<noteq> ''DISPUTE_FINAL_RESOLVED''
        then (ctx, Err (arb_error 62 ''dispute status %s not resolved''))
        else (upd_store ctx (saveDispute (ctxStore ctx) (d\<lparr>dp_Status := ''DISPUTE_FINAL_RESOLVED'', dp_ResolvedAt := now ctx\<rparr>)),
              Ret (SuccessResult 5000 [mkEvent ''DisputeResolved'' [(''dispute_id'', dp_DisputeID d), (''winner'', v_Winner (dp_Verdict d))]]))))"

definition arb_EndBlock :: "Context \<Rightarrow> Context \<times> Event list outcome" where
  "arb_EndBlock ctx = (ctx, Ret [])"

definition arb_handlers :: "(bytes \<times> handler) list" where
  "arb_handlers = [(''file_dispute'', fileDispute), (''submit_evidence'', submitEvidence), (''auto_resolve'', autoResolve),
     (''committee_vote'', committeeVote), (''appeal'', appeal), (''full_vote'', fullVote), (''execute_verdict'', executeVerdict)]"

definition arb_New :: Module where
  "arb_New = mkModule ''arb'' arb_handlers arb_EndBlock"

lemmas arb_exec = arb_New_def mkModule_sel arb_handlers_def dispatch

lemmas arb_handler_defs = fileDispute_def submitEvidence_def autoResolve_def committeeVote_def fullVote_def appeal_def executeVerdict_def

section \<open>Contract\<close>

interpretation disputes: table loadDispute saveDispute dp_DisputeID DisputeKey PrefixArbDispute
  by (rule tableI, rule loadDispute_def, rule saveDispute_def) (simp_all add: DisputeKey_def inj_def)

definition arb_prefixes :: "bytes list" where
  "arb_prefixes = [PrefixArbDispute]"

lemma saveDispute_confined: "confined arb_prefixes c (upd_store c (saveDispute (ctxStore c) d))"
  by (rule disputes.save_confined) (simp add: arb_prefixes_def)

lemma arb_handlers_confined: "handlers_confined arb_prefixes arb_handlers"
  unfolding arb_handlers_def handlers_confined_simps
  by (intro conjI allI; simp add: arb_handler_defs Let_def saveDispute_confined split: option.split sum.split prod.split)

lemma arb_EndBlock_confined: "confined arb_prefixes c (fst (arb_EndBlock c))"
  by (simp add: arb_EndBlock_def)

interpretation arb_mod: module_contract arb_New arb_prefixes
  unfolding arb_New_def by (rule mkModule_contract [OF arb_handlers_confined arb_EndBlock_confined])

section \<open>Majorities\<close>

text \<open>What the loop knows of the entries \<open>P\<close> it has seen: \<open>w\<close> is one of those with the highest count \<open>b\<close>, and \<open>t\<close>
  says whether there is another.\<close>

definition leads :: "(bytes \<times> nat) set \<Rightarrow> bytes \<Rightarrow> nat \<Rightarrow> bool \<Rightarrow> bool" where
  "leads P w b t \<longleftrightarrow> (if P = {} then w = [] \<and> b = 0 \<and> \<not> t
     else (w, b) \<in> P \<and> (\<forall>v n. (v, n) \<in> P \<longrightarrow> n \<le> b) \<and> (t \<longleftrightarrow> (\<exists>v. v \<noteq> w \<and> (v, b) \<in> P)))"

lemma leads_step:
  assumes "leads P w b t" "c \<notin> fst ` P" "0 < n"
  shows "b < n \<Longrightarrow> leads (insert (c, n) P) c n False" "n = b \<Longrightarrow> leads (insert (c, n) P) w b True"
    "n < b \<Longrightarrow> leads (insert (c, n) P) w b t"
proof -
  have fresh: "(c, k) \<notin> P" for k using assms(2) by force
  have le: "(v, k) \<in> P \<Longrightarrow> k \<le> b" for v k using assms(1) by (auto simp: leads_def split: if_splits)
  show "leads (insert (c, n) P) c n False" if "b < n"
  proof -
    have "k < n" if "(v, k) \<in> P" for v k using le [OF that] \<open>b < n\<close> by simp
    then show ?thesis by (auto simp: leads_def dest: less_imp_le)
  qed
  have ne: "P \<noteq> {}" "(w, b) \<in> P" "w \<noteq> c" if "n \<le> b" using assms(1,3) that fresh by (auto simp: leads_def split: if_splits)
  show "leads (insert (c, n) P) w b True" if "n = b"
    using that ne le exI [of "\<lambda>v. v \<noteq> w \<and> (v = c \<or> (v, b) \<in> P)" c] by (auto simp: leads_def)
  show "leads (insert (c, n) P) w b t" if "n < b" using that ne assms(1) by (auto simp: leads_def)
qed

lemma majority_loop_leads:
  assumes "leads P w b t" "distinct (map fst es)" "fst ` P \<inter> fst ` set es = {}" "\<forall>e\<in>set es. 0 < snd e"
  shows "\<exists>w' b' t'. leads (P \<union> set es) w' b' t' \<and> majority_loop es w b t = (if t' then ''tie'' else w')"
  using assms
proof (induction es w b t arbitrary: P rule: majority_loop.induct)
  case (2 c n cs w b t)
  have c: "c \<notin> fst ` P" "0 < n" using "2.prems" by auto
  have rest: "distinct (map fst cs)" "fst ` insert (c, n) P \<inter> fst ` set cs = {}" "\<forall>e\<in>set cs. 0 < snd e" using "2.prems" by force+
  note step = leads_step [OF "2.prems"(1) c]
  consider "b < n" | "n = b" | "n < b" by linarith
  then show ?case
  proof cases
    case 1
    with "2.IH"(1) [OF 1 step(1) [OF 1] rest] show ?thesis by simp
  next
    case 2
    then have "\<not> b < n" by simp
    with 2 "2.IH"(2) [OF this 2 step(2) [OF 2] rest] show ?thesis by simp
  next
    case 3
    then have "\<not> b < n" "n \<noteq> b" by simp_all
    with "2.IH"(3) [OF this step(3) [OF 3] rest] show ?thesis by simp
  qed
next
  case (1 w b t)
  then show ?case by (intro exI [of _ w] exI [of _ b] exI [of _ t]) simp
qed

lemma leads_unique:
  assumes "leads P w b t" "leads P w' b' t'"
  shows "(if t then ''tie'' else w) = (if t' then ''tie'' else w')"
proof (cases "P = {}")
  case False
  then have b: "(w, b) \<in> P" "(w', b') \<in> P" "b = b'" using assms by (auto simp: leads_def intro: antisym)
  then have "w = w' \<or> t \<and> t'" using assms False by (auto simp: leads_def)
  moreover have "w = w' \<Longrightarrow> t = t'" using assms False b by (auto simp: leads_def)
  ultimately show ?thesis by auto
qed (use assms in \<open>simp add: leads_def\<close>)

lemma count_vote_keys: "fst ` set (count_vote v cs) = insert v (fst ` set cs)"
  by (induction v cs rule: count_vote.induct) auto

lemma count_vote_distinct: "distinct (map fst cs) \<Longrightarrow> distinct (map fst (count_vote v cs))"
  by (induction v cs rule: count_vote.induct) (use count_vote_keys in force)+

lemma count_vote_set:
  assumes "distinct (map fst cs)"
  shows "(w, n) \<in> set (count_vote v cs) \<longleftrightarrow>
    (if w = v then (v \<notin> fst ` set cs \<and> n = 1 \<or> (\<exists>k. (v, k) \<in> set cs \<and> n = k + 1)) else (w, n) \<in> set cs)"
  using assms by (induction v cs rule: count_vote.induct) (force split: if_splits)+

lemma vote_counts_spec:
  "distinct (map fst (vote_counts votes)) \<and> ((w, n) \<in> set (vote_counts votes) \<longleftrightarrow>
     w \<in> set (map vr_Vote votes) \<and> n = count_list (map vr_Vote votes) w)"
proof (induction votes arbitrary: w n rule: rev_induct)
  case (snoc v votes)
  have keys: "fst ` set (vote_counts votes) = set (map vr_Vote votes)" using snoc by force
  have snoc': "vote_counts (votes @ [v]) = count_vote (vr_Vote v) (vote_counts votes)" by (simp add: vote_counts_def)
  have "count_list (map vr_Vote votes) u = 0 \<longleftrightarrow> u \<notin> set (map vr_Vote votes)" for u by (simp add: count_list_0_iff)
  then show ?case using snoc count_vote_set [of "vote_counts votes"] count_vote_distinct [of "vote_counts votes"] keys
    unfolding snoc' by auto
qed (simp add: vote_counts_def)

lemma vote_counts_pos: "\<forall>e\<in>set (vote_counts votes). 0 < snd e"
proof
  fix e assume "e \<in> set (vote_counts votes)"
  then have "fst e \<in> set (map vr_Vote votes)" "snd e = count_list (map vr_Vote votes) (fst e)"
    using vote_counts_spec [of votes "fst e" "snd e"] by simp_all
  then have "snd e \<noteq> 0" by (metis count_list_0_iff)
  then show "0 < snd e" by simp
qed

lemma vote_counts_leads: "\<exists>w b t. leads (set (vote_counts votes)) w b t \<and> majorityVote votes = (if t then ''tie'' else w)"
  using majority_loop_leads [of "{}" "[]" 0 False "vote_counts votes"] vote_counts_spec [of votes] vote_counts_pos [of votes]
  by (simp add: majorityVote_def leads_def)

lemma majority_order:
  assumes "mset es = mset (vote_counts votes)"
  shows "majority_loop es [] 0 False = majorityVote votes"
proof -
  have set: "set es = set (vote_counts votes)" using assms by (metis set_mset_mset)
  have "mset (map fst es) = mset (map fst (vote_counts votes))" by (simp only: mset_map assms)
  then have "distinct (map fst es)" using vote_counts_spec [of votes] mset_eq_imp_distinct_iff by blast
  then obtain w b t where "leads (set es) w b t" "majority_loop es [] 0 False = (if t then ''tie'' else w)"
    using majority_loop_leads [of "{}" "[]" 0 False es] vote_counts_pos [of votes] by (auto simp: set leads_def [of "{}"])
  moreover obtain w' b' t' where "leads (set es) w' b' t'" "majorityVote votes = (if t' then ''tie'' else w')"
    using vote_counts_leads [of votes] set by auto
  ultimately show ?thesis using leads_unique by metis
qed

text \<open>C19: the outcome of a vote is the same for every order in which the program ranges over its map of counts:
  it is the option with more votes than every other option, or \<open>tie\<close> when two options share the
  highest count.\<close>

theorem majority_any_order:
  assumes "mset es = mset (vote_counts votes)" "votes \<noteq> []"
  shows "majority_loop es [] 0 False = majorityVote votes \<and> (\<exists>w \<in> set (map vr_Vote votes).
    (\<forall>v \<in> set (map vr_Vote votes). count_list (map vr_Vote votes) v \<le> count_list (map vr_Vote votes) w)
    \<and> majorityVote votes = (if \<exists>v \<in> set (map vr_Vote votes). v \<noteq> w \<and> count_list (map vr_Vote votes) v = count_list (map vr_Vote votes) w
        then ''tie'' else w))"
proof -
  let ?n = "count_list (map vr_Vote votes)" and ?V = "set (map vr_Vote votes)"
  have mem: "(v, n) \<in> set (vote_counts votes) \<longleftrightarrow> v \<in> ?V \<and> n = ?n v" for v n using vote_counts_spec [of votes v n] by blast
  obtain w b t where l: "leads (set (vote_counts votes)) w b t" and r: "majorityVote votes = (if t then ''tie'' else w)"
    using vote_counts_leads [of votes] by blast
  have "(vr_Vote (hd votes), ?n (vr_Vote (hd votes))) \<in> set (vote_counts votes)" unfolding mem using assms(2) by simp
  then have "set (vote_counts votes) \<noteq> {}" by auto
  then have w: "w \<in> ?V" "b = ?n w" "\<And>v. v \<in> ?V \<Longrightarrow> ?n v \<le> b" "t \<longleftrightarrow> (\<exists>v. v \<noteq> w \<and> v \<in> ?V \<and> b = ?n v)"
    using l by (auto simp: leads_def mem)
  have t: "t \<longleftrightarrow> (\<exists>v\<in>?V. v \<noteq> w \<and> ?n v = ?n w)" using w(2,4) by (auto simp del: set_map)
  show ?thesis
    using w(1,3) by (intro conjI majority_order [OF assms(1)] bexI [of _ w]) (simp_all only: r t w(2) ball_simps, simp)
qed

section \<open>Invariant\<close>

text \<open>A dispute as the module keeps it: the members of its committee are the ones its identifier gives, only they
  have voted on it, a verdict that counts as given by the rules or by the committee is theirs, and
  it is under full review only in the last phase.\<close>

definition dispute_ok :: "Dispute \<Rightarrow> bool" where
  "dispute_ok d \<longleftrightarrow>
     dp_Phase d \<in> {''PHASE_AUTO'', ''PHASE_COMMITTEE'', ''PHASE_FULL''}
   \<and> dp_Status d \<in> {''DISPUTE_FILED'', ''DISPUTE_AUTO_RESOLVED'', ''DISPUTE_COMM_REVIEW'', ''DISPUTE_COMM_RESOLVED'',
       ''DISPUTE_FULL_REVIEW'', ''DISPUTE_FINAL_RESOLVED''}
   \<and> set (dp_CommitteeMembers d) \<subseteq> set (deterministicCommittee (dp_DisputeID d))
   \<and> vr_Validator ` set (dp_CommitteeVotes d) \<subseteq> set (deterministicCommittee (dp_DisputeID d))
   \<and> (dp_Status d = ''DISPUTE_AUTO_RESOLVED'' \<longrightarrow> applyRules d = (True, dp_Verdict d))
   \<and> (dp_Status d = ''DISPUTE_COMM_RESOLVED'' \<longrightarrow> 3 \<le> length (dp_CommitteeVotes d) \<and> majorityVote (dp_CommitteeVotes d) \<noteq> ''tie''
        \<and> dp_Verdict d = simpleVerdict (majorityVote (dp_CommitteeVotes d)))
   \<and> (dp_Status d = ''DISPUTE_FULL_REVIEW'' \<longrightarrow> dp_Phase d = ''PHASE_FULL'')"

lemma applyRules_cong: "dp_ReasonCode d = dp_ReasonCode d' \<Longrightarrow> applyRules d = applyRules d'"
  by (simp add: applyRules_def Evaluate_def NewAutoRuleEngine_def sort_slice_def ruleSLATimeout_def ruleHeartbeatLoss_def
      ruleVerificationFail_def ruleConsumerBadFaith_def ruleEscalate_def)

lemma applyRules_upd [simp]:
  "applyRules (d\<lparr>dp_Verdict := v, dp_Status := s\<rparr>) = applyRules d" "applyRules (d\<lparr>dp_PlaintiffEvidence := es\<rparr>) = applyRules d"
  "applyRules (d\<lparr>dp_DefendantEvidence := es\<rparr>) = applyRules d" "applyRules (d\<lparr>dp_CommitteeVotes := vs\<rparr>) = applyRules d"
  "applyRules (d\<lparr>dp_FullVotes := vs\<rparr>) = applyRules d"
  by (rule applyRules_cong; simp)+

lemma containsValidator_iff [simp]: "containsValidator vs s \<longleftrightarrow> s \<in> set vs"
  by (auto simp: containsValidator_def list_ex_iff)

lemma dispute_ok_steps:
  assumes "dispute_ok d"
  shows "dispute_ok (d\<lparr>dp_PlaintiffEvidence := pe\<rparr>)" "dispute_ok (d\<lparr>dp_DefendantEvidence := de\<rparr>)"
    "applyRules d = (True, v) \<Longrightarrow> dispute_ok (d\<lparr>dp_Verdict := v, dp_Status := ''DISPUTE_AUTO_RESOLVED''\<rparr>)"
    "dispute_ok (d\<lparr>dp_Phase := ''PHASE_COMMITTEE'', dp_Status := ''DISPUTE_COMM_REVIEW'', dp_CommitteeMembers := deterministicCommittee (dp_DisputeID d)\<rparr>)"
    "dispute_ok (d\<lparr>dp_Phase := ''PHASE_FULL'', dp_Status := ''DISPUTE_FULL_REVIEW''\<rparr>)"
    "dispute_ok (d\<lparr>dp_Status := ''DISPUTE_FINAL_RESOLVED'', dp_ResolvedAt := t\<rparr>)"
  using assms by (simp_all add: dispute_ok_def)

lemma dispute_ok_vote:
  assumes "dispute_ok d" "vr_Validator v \<in> set (dp_CommitteeMembers d)"
  shows "dispute_ok (committee_count (d\<lparr>dp_CommitteeVotes := dp_CommitteeVotes d @ [v]\<rparr>))"
proof -
  have "vr_Validator v \<in> set (deterministicCommittee (dp_DisputeID d))" using assms by (auto simp: dispute_ok_def)
  then show ?thesis using assms(1) by (auto simp: dispute_ok_def committee_count_def Let_def)
qed

lemma dispute_ok_full: "dispute_ok d \<Longrightarrow> dispute_ok (full_count t (d\<lparr>dp_FullVotes := vs\<rparr>))"
  by (simp add: dispute_ok_def full_count_def Let_def)

definition arb_ok :: "Store \<Rightarrow> bool" where
  "arb_ok st \<longleftrightarrow> store_inv st \<and> own_ids loadDispute dp_DisputeID st \<and> (\<forall>i d. loadDispute st i = Inr d \<longrightarrow> dispute_ok d)"

lemma arb_ok_save: "arb_ok st \<Longrightarrow> dispute_ok d \<Longrightarrow> arb_ok (saveDispute st d)"
  by (auto simp: arb_ok_def disputes.save_inv disputes.own_ids_save disputes.load_save)

lemma arb_ok_exec:
  assumes "arb_ok (ctxStore c)"
  shows "arb_ok (ctxStore (fst (mExecuteTx arb_New c env)))"
proof -
  have d: "dispute_ok d" if "loadDispute (ctxStore c) i = Inr d" for i d using assms that by (simp add: arb_ok_def)
  note save = arb_ok_save [OF assms]
  have "arb_ok (ctxStore (fst (fileDispute c env)))"
    using assms by (auto simp: fileDispute_def Let_def dispute_ok_def intro!: save split: option.split)
  moreover have "arb_ok (ctxStore (fst (submitEvidence c env)))"
    using assms d by (auto simp: submitEvidence_def intro!: save dispute_ok_steps split: option.split sum.split)
  moreover have "arb_ok (ctxStore (fst (autoResolve c env)))"
    using assms d by (auto simp: autoResolve_def Let_def intro!: save dispute_ok_steps split: option.split sum.split prod.split)
  moreover have "arb_ok (ctxStore (fst (committeeVote c env)))"
    using assms d by (auto simp: committeeVote_def Let_def new_vote_def intro!: save dispute_ok_vote split: option.split sum.split)
  moreover have "arb_ok (ctxStore (fst (fullVote c env)))"
    using assms d by (auto simp: fullVote_def Let_def intro!: save dispute_ok_full split: option.split sum.split)
  moreover have "arb_ok (ctxStore (fst (appeal c env)))"
    using assms d by (auto simp: appeal_def intro!: save dispute_ok_steps split: option.split sum.split)
  moreover have "arb_ok (ctxStore (fst (executeVerdict c env)))"
    using assms d by (auto simp: executeVerdict_def intro!: save dispute_ok_steps split: option.split sum.split)
  ultimately show ?thesis using assms by (simp add: arb_exec)
qed

lemma arb_ok_local:
  assumes "arb_ok st" "store_inv st \<Longrightarrow> store_inv st'"
    and "\<And>p k. p \<in> set arb_prefixes \<Longrightarrow> prefix p k \<Longrightarrow> Get st' k = Get st k"
  shows "arb_ok st'"
proof -
  have "loadDispute st' i = loadDispute st i" for i
    by (rule disputes.load_frame) (use assms(3) disputes.key_pre in \<open>auto simp: arb_prefixes_def\<close>)
  with assms(1,2) show ?thesis by (simp add: arb_ok_def own_ids_def)
qed

lemma arb_ok_fresh: "arb_ok (ctxStore (fresh_ctx t))"
  by (simp add: arb_ok_def own_ids_fresh loadDispute_def load_rec_def)

interpretation arb_inv: module_invariant arb_New arb_prefixes arb_ok
proof (unfold_locales, goal_cases)
  case (4 st st')
  then show ?case by (rule arb_ok_local)
qed (simp_all add: arb_ok_exec arb_ok_fresh, simp add: arb_New_def arb_EndBlock_def)

text \<open>C28: in every state the module can reach, a dispute resolved by the rules has the verdict the rules give, a dispute
  resolved by its committee has at least three votes, all by members of the committee that its
  identifier determines, without a tie, and the verdict of their majority.\<close>

theorem verdicts_are_justified:
  assumes "reach arb_New c" "loadDispute (ctxStore c) i = Inr d"
  shows "dp_DisputeID d = i
    \<and> vr_Validator ` set (dp_CommitteeVotes d) \<subseteq> set (deterministicCommittee i)
    \<and> (dp_Status d = ''DISPUTE_AUTO_RESOLVED'' \<longrightarrow> applyRules d = (True, dp_Verdict d))
    \<and> (dp_Status d = ''DISPUTE_COMM_RESOLVED'' \<longrightarrow> 3 \<le> length (dp_CommitteeVotes d)
        \<and> majorityVote (dp_CommitteeVotes d) \<noteq> ''tie'' \<and> dp_Verdict d = simpleVerdict (majorityVote (dp_CommitteeVotes d)))"
proof -
  have ok: "arb_ok (ctxStore c)" by (rule arb_inv.reach_inv [OF assms(1)])
  have "dp_DisputeID d = i" using ok assms(2) by (simp add: arb_ok_def own_ids_def)
  moreover have "dispute_ok d" using ok assms(2) by (simp add: arb_ok_def)
  ultimately show ?thesis by (simp add: dispute_ok_def)
qed

section \<open>What is on record stays on record\<close>

definition history_rel :: "bytes \<Rightarrow> Dispute \<Rightarrow> Dispute \<Rightarrow> bool" where
  "history_rel sender d d' \<longleftrightarrow> dp_DisputeID d' = dp_DisputeID d \<and> dp_OrderID d' = dp_OrderID d
     \<and> dp_TaskID d' = dp_TaskID d \<and> dp_Plaintiff d' = dp_Plaintiff d \<and> dp_Defendant d' = dp_Defendant d
     \<and> dp_ReasonCode d' = dp_ReasonCode d \<and> dp_FiledAt d' = dp_FiledAt d
     \<and> prefix (dp_PlaintiffEvidence d) (dp_PlaintiffEvidence d') \<and> prefix (dp_DefendantEvidence d) (dp_DefendantEvidence d')
     \<and> prefix (dp_CommitteeVotes d) (dp_CommitteeVotes d') \<and> prefix (dp_FullVotes d) (dp_FullVotes d')
     \<and> (dp_PlaintiffEvidence d' \<noteq> dp_PlaintiffEvidence d \<longrightarrow> sender = dp_Plaintiff d)
     \<and> (dp_DefendantEvidence d' \<noteq> dp_DefendantEvidence d \<longrightarrow> sender = dp_Defendant d)
     \<and> (\<forall>v \<in> set (dp_CommitteeVotes d') \<union> set (dp_FullVotes d') - set (dp_CommitteeVotes d) - set (dp_FullVotes d). vr_Validator v = sender)"

definition history_kept :: "bytes \<Rightarrow> Dispute \<Rightarrow> goerr + Dispute \<Rightarrow> bool" where
  "history_kept sender d x \<longleftrightarrow> (\<exists>d'. x = Inr d' \<and> history_rel sender d d')"

lemma history_refl: "history_rel sender d d"
  by (auto simp: history_rel_def)

lemma history_same [simp]: "history_kept sender d (Inr d)"
  by (simp add: history_kept_def history_refl)

lemma history_save:
  assumes "own_ids loadDispute dp_DisputeID st" "loadDispute st i = Inr d" "history_rel sender d2 d'" "loadDispute st j = Inr d2"
  shows "history_kept sender d (loadDispute (saveDispute st d') i)"
proof -
  have "dp_DisputeID d' = dp_DisputeID d2" using assms(3) by (simp add: history_rel_def)
  from disputes.load_update [OF assms(1,4) this, of i] show ?thesis using assms(2-4) by (auto simp: history_kept_def history_refl)
qed

lemma history_counts:
  "dp_DisputeID (committee_count d) = dp_DisputeID d" "dp_OrderID (committee_count d) = dp_OrderID d"
  "dp_TaskID (committee_count d) = dp_TaskID d" "dp_Plaintiff (committee_count d) = dp_Plaintiff d"
  "dp_Defendant (committee_count d) = dp_Defendant d" "dp_ReasonCode (committee_count d) = dp_ReasonCode d"
  "dp_FiledAt (committee_count d) = dp_FiledAt d" "dp_PlaintiffEvidence (committee_count d) = dp_PlaintiffEvidence d"
  "dp_DefendantEvidence (committee_count d) = dp_DefendantEvidence d"
  "dp_CommitteeVotes (committee_count d) = dp_CommitteeVotes d" "dp_FullVotes (committee_count d) = dp_FullVotes d"
  "dp_DisputeID (full_count t d) = dp_DisputeID d" "dp_OrderID (full_count t d) = dp_OrderID d"
  "dp_TaskID (full_count t d) = dp_TaskID d" "dp_Plaintiff (full_count t d) = dp_Plaintiff d"
  "dp_Defendant (full_count t d) = dp_Defendant d" "dp_ReasonCode (full_count t d) = dp_ReasonCode d"
  "dp_FiledAt (full_count t d) = dp_FiledAt d" "dp_PlaintiffEvidence (full_count t d) = dp_PlaintiffEvidence d"
  "dp_DefendantEvidence (full_count t d) = dp_DefendantEvidence d" "dp_Phase (full_count t d) = dp_Phase d"
  "dp_CommitteeVotes (full_count t d) = dp_CommitteeVotes d" "dp_FullVotes (full_count t d) = dp_FullVotes d"
  by (simp_all add: committee_count_def full_count_def Let_def)

lemma history_rels:
  "sender = dp_Plaintiff d \<Longrightarrow> history_rel sender d (d\<lparr>dp_PlaintiffEvidence := dp_PlaintiffEvidence d @ es\<rparr>)"
  "sender = dp_Defendant d \<Longrightarrow> history_rel sender d (d\<lparr>dp_DefendantEvidence := dp_DefendantEvidence d @ es\<rparr>)"
  "history_rel sender d (d\<lparr>dp_Verdict := v, dp_Status := s\<rparr>)"
  "history_rel sender d (d\<lparr>dp_Phase := ph, dp_Status := s, dp_CommitteeMembers := ms\<rparr>)"
  "history_rel sender d (d\<lparr>dp_Phase := ph, dp_Status := s\<rparr>)"
  "history_rel sender d (d\<lparr>dp_Status := s, dp_ResolvedAt := t\<rparr>)"
  "vr_Validator vote = sender \<Longrightarrow> history_rel sender d (committee_count (d\<lparr>dp_CommitteeVotes := dp_CommitteeVotes d @ [vote]\<rparr>))"
  "vr_Validator vote = sender \<Longrightarrow> history_rel sender d (full_count t (d\<lparr>dp_FullVotes := dp_FullVotes d @ [vote]\<rparr>))"
  by (auto simp: history_rel_def history_counts)

lemma new_vote_validator [simp]: "vr_Validator (new_vote ctx env p) = Sender env"
  by (simp add: new_vote_def)

lemma history_handlers:
  assumes own: "own_ids loadDispute dp_DisputeID (ctxStore ctx)" and ld: "loadDispute (ctxStore ctx) i = Inr d"
    and "h \<in> {submitEvidence, autoResolve, committeeVote, fullVote, appeal, executeVerdict}"
  shows "history_kept (Sender env) d (loadDispute (ctxStore (fst (h ctx env))) i)"
  using assms(3) ld
  by (elim insertE; simp add: arb_handler_defs Let_def split: option.split sum.split prod.split)
    (auto intro!: history_save [OF own ld] history_rels)

text \<open>A transaction other than a new filing keeps a dispute on record: its parties, order, task and reason do not
  change, evidence and votes are only appended, evidence of a side only by that side, and a new
  vote carries the name of the sender.\<close>

theorem dispute_record:
  assumes "own_ids loadDispute dp_DisputeID (ctxStore ctx)" "loadDispute (ctxStore ctx) i = Inr d" "Action env \<noteq> ''file_dispute''"
  shows "\<exists>d'. loadDispute (ctxStore (fst (mExecuteTx arb_New ctx env))) i = Inr d' \<and> dp_DisputeID d' = dp_DisputeID d
     \<and> dp_OrderID d' = dp_OrderID d \<and> dp_TaskID d' = dp_TaskID d \<and> dp_Plaintiff d' = dp_Plaintiff d \<and> dp_Defendant d' = dp_Defendant d
     \<and> dp_ReasonCode d' = dp_ReasonCode d \<and> dp_FiledAt d' = dp_FiledAt d
     \<and> prefix (dp_PlaintiffEvidence d) (dp_PlaintiffEvidence d') \<and> prefix (dp_DefendantEvidence d) (dp_DefendantEvidence d')
     \<and> prefix (dp_CommitteeVotes d) (dp_CommitteeVotes d') \<and> prefix (dp_FullVotes d) (dp_FullVotes d')
     \<and> (dp_PlaintiffEvidence d' \<noteq> dp_PlaintiffEvidence d \<longrightarrow> Sender env = dp_Plaintiff d)
     \<and> (dp_DefendantEvidence d' \<noteq> dp_DefendantEvidence d \<longrightarrow> Sender env = dp_Defendant d)
     \<and> (\<forall>v \<in> set (dp_CommitteeVotes d') \<union> set (dp_FullVotes d') - set (dp_CommitteeVotes d) - set (dp_FullVotes d).
          vr_Validator v = Sender env)"
proof -
  have "history_kept (Sender env) d (loadDispute (ctxStore (fst (mExecuteTx arb_New ctx env))) i)"
    using assms(2,3) history_handlers [OF assms(1,2), of _ env] by (simp add: arb_exec)
  then show ?thesis by (simp add: history_kept_def history_rel_def)
qed

section \<open>Full votes end a dispute\<close>

definition votes_on :: "bytes \<Rightarrow> TxEnvelope \<Rightarrow> bool" where
  "votes_on i env \<longleftrightarrow> Action env = ''full_vote'' \<and>
     (case DecodeJSONPayload votePayload_fields zeroVotePayload env of None \<Rightarrow> False | Some p \<Rightarrow> vt_DisputeID p = i)"

lemma fullVote_step:
  assumes "own_ids loadDispute dp_DisputeID (ctxStore c)" "loadDispute (ctxStore c) i = Inr d" "dp_Phase d = ''PHASE_FULL''" "votes_on i env"
  shows "\<exists>d'. loadDispute (ctxStore (fst (mExecuteTx arb_New c env))) i = Inr d' \<and> dp_Phase d' = ''PHASE_FULL''
    \<and> length (dp_FullVotes d') = Suc (length (dp_FullVotes d))
    \<and> (5 \<le> length (dp_FullVotes d') \<longrightarrow> dp_Status d' = ''DISPUTE_FINAL_RESOLVED''
        \<and> v_Winner (dp_Verdict d') = (if majorityVote (dp_FullVotes d') = ''tie'' then ''consumer'' else majorityVote (dp_FullVotes d')))
    \<and> own_ids loadDispute dp_DisputeID (ctxStore (fst (mExecuteTx arb_New c env)))"
proof -
  obtain p where p: "DecodeJSONPayload votePayload_fields zeroVotePayload env = Some p" "vt_DisputeID p = i" "Action env = ''full_vote''"
    using assms(4) by (auto simp: votes_on_def split: option.splits)
  let ?d = "full_count (now c) (d\<lparr>dp_FullVotes := dp_FullVotes d @ [new_vote c env p]\<rparr>)"
  have x: "mExecuteTx arb_New c env = (upd_store c (saveDispute (ctxStore c) ?d), Ret (SuccessResult 1500 []))"
    using p assms(2,3) by (simp add: arb_exec fullVote_def Let_def)
  have "loadDispute (saveDispute (ctxStore c) ?d) i = Inr ?d"
    using disputes.load_update [OF assms(1,2), of ?d i] by (simp add: history_counts)
  then show ?thesis
    using x assms(1,3) disputes.own_ids_save by (simp add: history_counts) (simp add: full_count_def simpleVerdict_def Let_def)
qed

lemma fullVotes_run:
  assumes "own_ids loadDispute dp_DisputeID (ctxStore c)" "loadDispute (ctxStore c) i = Inr d" "dp_Phase d = ''PHASE_FULL''"
    and "\<forall>env\<in>set envs. votes_on i env" "envs \<noteq> []" "5 \<le> length (dp_FullVotes d) + length envs"
  shows "\<exists>d'. loadDispute (ctxStore (run arb_New c (map Tx envs))) i = Inr d' \<and> dp_Status d' = ''DISPUTE_FINAL_RESOLVED''
    \<and> length (dp_FullVotes d') = length (dp_FullVotes d) + length envs
    \<and> v_Winner (dp_Verdict d') = (if majorityVote (dp_FullVotes d') = ''tie'' then ''consumer'' else majorityVote (dp_FullVotes d'))"
  using assms
proof (induction envs arbitrary: c d)
  case (Cons env envs)
  obtain d' where d': "loadDispute (ctxStore (fst (mExecuteTx arb_New c env))) i = Inr d'" "dp_Phase d' = ''PHASE_FULL''"
    "length (dp_FullVotes d') = Suc (length (dp_FullVotes d))"
    "5 \<le> length (dp_FullVotes d') \<Longrightarrow> dp_Status d' = ''DISPUTE_FINAL_RESOLVED''
        \<and> v_Winner (dp_Verdict d') = (if majorityVote (dp_FullVotes d') = ''tie'' then ''consumer'' else majorityVote (dp_FullVotes d'))"
    "own_ids loadDispute dp_DisputeID (ctxStore (fst (mExecuteTx arb_New c env)))"
    using fullVote_step [OF Cons.prems(1-3), of env] Cons.prems(4) by auto
  show ?case
  proof (cases "envs = []")
    case True
    then show ?thesis using d' Cons.prems(6) by auto
  next
    case False
    then show ?thesis using Cons.IH [OF d'(5,1,2) _ False] Cons.prems(4,6) d'(3) by simp
  qed
qed simp

text \<open>A dispute under full review is always decided: once five full votes on it have been executed it is finally
  resolved, for the option with the most votes, and for the consumer when there is a tie.\<close>

theorem full_votes_resolve:
  assumes "own_ids loadDispute dp_DisputeID (ctxStore c)" "loadDispute (ctxStore c) i = Inr d" "dp_Phase d = ''PHASE_FULL''"
    and "\<forall>env\<in>set envs. votes_on i env" "5 \<le> length envs"
  shows "\<exists>d'. loadDispute (ctxStore (run arb_New c (map Tx envs))) i = Inr d' \<and> dp_Status d' = ''DISPUTE_FINAL_RESOLVED''
    \<and> length (dp_FullVotes d') = length (dp_FullVotes d) + length envs
    \<and> v_Winner (dp_Verdict d') = (if majorityVote (dp_FullVotes d') = ''tie'' then ''consumer'' else majorityVote (dp_FullVotes d'))"
  using assms by (intro fullVotes_run) auto

section \<open>Concrete disputes\<close>

definition dispute0 :: Dispute where
  "dispute0 = \<lparr>dp_DisputeID = ''d'', dp_OrderID = ''o'', dp_TaskID = ''t'', dp_Plaintiff = ''c'', dp_Defendant = ''p'',
     dp_ReasonCode = ''other'', dp_Description = [], dp_PlaintiffEvidence = [], dp_DefendantEvidence = [], dp_Phase = ''PHASE_FULL'',
     dp_Status = ''DISPUTE_FULL_REVIEW'', dp_Verdict = zeroVerdict, dp_CommitteeMembers = [], dp_CommitteeVotes = [],
     dp_FullVotes = [], dp_FiledAt = 1, dp_ResolvedAt = 0\<rparr>"

definition dispute_ctx :: Context where
  "dispute_ctx = (fresh_ctx 100)\<lparr>ctxStore := saveDispute (ctxStore (fresh_ctx 100)) dispute0\<rparr>"

definition vote_consumer :: TxEnvelope where
  "vote_consumer = mk_tx ''v'' ''arb'' ''full_vote'' ''{\"dispute_id\":\"d\",\"vote\":\"consumer\"}''"

definition vote_provider :: TxEnvelope where
  "vote_provider = mk_tx ''v'' ''arb'' ''full_vote'' ''{\"dispute_id\":\"d\",\"vote\":\"provider\"}''"

lemma dispute_ctx_ok: "own_ids loadDispute dp_DisputeID (ctxStore dispute_ctx)" "loadDispute (ctxStore dispute_ctx) ''d'' = Inr dispute0"
  by (simp_all add: dispute_ctx_def disputes.own_ids_save own_ids_fresh loadDispute_def load_rec_def)
    (simp add: dispute0_def saveDispute_def DisputeKey_def Get_Set)

lemma votes_on_d: "votes_on ''d'' vote_consumer" "votes_on ''d'' vote_provider"
  by code_simp+

theorem full_votes_resolve_witness:
  "\<exists>d'. loadDispute (ctxStore (run arb_New dispute_ctx (map Tx [vote_consumer, vote_consumer, vote_consumer, vote_provider, vote_provider]))) ''d'' = Inr d'
    \<and> dp_Status d' = ''DISPUTE_FINAL_RESOLVED'' \<and> length (dp_FullVotes d') = 5"
proof -
  have ph: "dp_Phase dispute0 = ''PHASE_FULL''" "dp_FullVotes dispute0 = []" by (simp_all add: dispute0_def)
  let ?envs = "[vote_consumer, vote_consumer, vote_consumer, vote_provider, vote_provider]"
  have "\<forall>env\<in>set ?envs. votes_on ''d'' env" "5 \<le> length ?envs" by (simp_all add: votes_on_d)
  from full_votes_resolve [OF dispute_ctx_ok ph(1) this] show ?thesis by (auto simp: ph(2))
qed

theorem majority_any_order_witness:
  "majority_loop [(''b'', 2), (''a'', 1)] [] 0 False = majorityVote (map (\<lambda>v. \<lparr>vr_Validator = [], vr_Vote = v, vr_Reasoning = [],
     vr_VotedAt = 0, vr_Signature = []\<rparr>) [''a'', ''b'', ''b''])"
  by (rule majority_any_order [THEN conjunct1]) (simp_all add: vote_counts_def add_mset_commute)

theorem dispute_record_witness:
  "\<exists>d'. loadDispute (ctxStore (fst (mExecuteTx arb_New dispute_ctx vote_consumer))) ''d'' = Inr d' \<and> dp_Plaintiff d' = ''c''"
proof -
  have "Action vote_consumer \<noteq> ''file_dispute''" by (simp add: vote_consumer_def mk_tx_def)
  from dispute_record [OF dispute_ctx_ok this] show ?thesis by (auto simp: dispute0_def)
qed

definition filed_tx :: TxEnvelope where
  "filed_tx = mk_tx ''c'' ''arb'' ''file_dispute'' ''{\"order_id\":\"o\",\"task_id\":\"t\",\"reason_code\":\"timeout\"}''"

lemma filed_decoded: "DecodeJSONPayload filePayload_fields zeroFile filed_tx =
    Some (zeroFile\<lparr>fp_OrderID := ''o'', fp_TaskID := ''t'', fp_ReasonCode := ''timeout''\<rparr>)"
  by code_simp

definition filed_ctx :: Context where
  "filed_ctx = fst (mExecuteTx arb_New (fresh_ctx 5) filed_tx)"

lemma filed_load: "\<exists>i d. loadDispute (ctxStore filed_ctx) i = Inr d \<and> dp_OrderID d = ''o''"
proof -
  have act: "Action filed_tx = ''file_dispute''" by (simp add: filed_tx_def mk_tx_def)
  show ?thesis
    by (intro exI [of _ "disputeID ''o'' ''t'' (Nonce filed_tx)"])
      (simp add: filed_ctx_def arb_exec act fileDispute_def filed_decoded Let_def disputes.load_save)
qed

theorem verdicts_are_justified_witness:
  "reach arb_New filed_ctx \<and> (\<exists>i d. loadDispute (ctxStore filed_ctx) i = Inr d \<and> dp_DisputeID d = i \<and> dp_OrderID d = ''o'')"
proof -
  have r: "reach arb_New filed_ctx" unfolding filed_ctx_def by (rule reach.exec [OF reach.init])
  obtain i d where "loadDispute (ctxStore filed_ctx) i = Inr d" "dp_OrderID d = ''o''" using filed_load by blast
  with verdicts_are_justified [OF r this(1)] r show ?thesis by blast
qed

text \<open>A final verdict does not stay: the phase of a finally resolved dispute is still the full review, so that later votes,
  even by one and the same sender, are counted and turn the verdict over.\<close>

lemma final_verdict_overturned:
  "map_sum id (\<lambda>d. (dp_Status d, v_Winner (dp_Verdict d))) (loadDispute (ctxStore (run arb_New dispute_ctx
     (map Tx [vote_consumer, vote_consumer, vote_consumer, vote_provider, vote_provider]))) ''d'') =
     Inr (''DISPUTE_FINAL_RESOLVED'', ''consumer'')"
  "map_sum id (\<lambda>d. (dp_Status d, v_Winner (dp_Verdict d))) (loadDispute (ctxStore (run arb_New dispute_ctx
     (map Tx [vote_consumer, vote_consumer, vote_consumer, vote_provider, vote_provider, vote_provider, vote_provider]))) ''d'') =
     Inr (''DISPUTE_FINAL_RESOLVED'', ''provider'')"
  by code_simp+

section \<open>The end of a block\<close>

interpretation arb_end: end_local arb_New arb_prefixes
  by (rule idle_end_local [OF arb_mod.module_contract_axioms]) (simp add: arb_New_def arb_EndBlock_def)

end
