(* ===== verification/Afd.thy ===== *)
theory Afd
  imports Table
begin

text \<open>
  \<open>internal/modules/afd/module.go\<close>: fraud alerts that are reported by transactions, the check for self trade
  and the statistical check of a price against recent ones. Nothing in the program calls the two checks.
\<close>

text \<open>The confidence of an alert is a \<open>float32\<close>; a JSON number gives a finite one, the price check below may give others.\<close>

definition dec_xfloat32 :: "json \<Rightarrow> xfloat \<Rightarrow> xfloat option" where
  "dec_xfloat32 j old = (if j = JNull then Some old else map_option Fin (dec_float32 j 0))"

definition FraudAlert_fields :: "(bytes \<times> FraudAlert field) list" where
  "FraudAlert_fields =
     [(''alert_id'', fld dec_string fa_AlertID fa_AlertID_update), (''alert_type'', fld dec_string fa_AlertType fa_AlertType_update),
      (''severity'', fld dec_string fa_Severity fa_Severity_update), (''action'', fld dec_string fa_Action fa_Action_update),
      (''involved_entities'', fld (dec_list dec_bytes []) fa_InvolvedEntities fa_InvolvedEntities_update),
      (''description'', fld dec_string fa_Description fa_Description_update),
      (''confidence'', fld dec_xfloat32 fa_Confidence fa_Confidence_update),
      (''detected_at'', fld dec_int64 fa_DetectedAt fa_DetectedAt_update), (''tx_hash'', fld dec_string fa_TxHash fa_TxHash_update)]"

definition zeroAlert :: FraudAlert where
  "zeroAlert = \<lparr>fa_AlertID = [], fa_AlertType = [], fa_Severity = [], fa_Action = [], fa_InvolvedEntities = [], fa_Description = [],
     fa_Confidence = Fin 0, fa_DetectedAt = 0, fa_TxHash = []\<rparr>"

text \<open>\<open>ReportPayload\<close> has the one field \<open>Alert\<close>.\<close>

definition ReportPayload_fields :: "(bytes \<times> FraudAlert field) list" where
  "ReportPayload_fields = [(''alert'', \<lambda>raw j a. dec_struct False FraudAlert_fields j a)]"

abbreviation PrefixAlert :: bytes where "PrefixAlert \<equiv> ''afd/alert/''"

definition AlertKey :: "bytes \<Rightarrow> bytes" where
  "AlertKey i = PrefixAlert @ i"

definition reportAlert :: handler where
  "reportAlert ctx env = (case DecodeJSONPayload ReportPayload_fields zeroAlert env of
     None \<Rightarrow> (ctx, Err (NewAppError (CodeAFDBase + 1) ''decode report_alert: %v''))
   | Some a \<Rightarrow>
     let a = (if fa_AlertID a = [] then a\<lparr>fa_AlertID := ''alert-'' @ itoa 10 (UnixNano (ctxBlockTime ctx))\<rparr> else a);
         a = (if fa_DetectedAt a = 0 then a\<lparr>fa_DetectedAt := now ctx\<rparr> else a);
         eventType = (if fa_Action a = ''BLOCK'' then ''FraudBlocked'' else if fa_Action a = ''BAN'' then ''FraudBanned'' else ''FraudFlagged'')
     in (upd_store ctx (Set (ctxStore ctx) (AlertKey (fa_AlertID a)) (VAlert a)),
         Ret (SuccessResult 1000 [mkEvent eventType [(''alert_id'', fa_AlertID a), (''type'', fa_AlertType a)]])))"

text \<open>The time of the detection is the argument \<open>t\<close>.\<close>

definition DetectSelfTrade :: "int64 \<Rightarrow> bytes \<Rightarrow> bytes \<Rightarrow> FraudAlert option" where
  "DetectSelfTrade t consumer provider = (if equalBytes consumer provider
     then Some (zeroAlert\<lparr>fa_AlertType := ''self_trade'', fa_Severity := ''HIGH'', fa_Action := ''BLOCK'', fa_Confidence := Fin 1,
       fa_DetectedAt := t, fa_Description := ''consumer equals provider''\<rparr>)
     else None)"

definition afd_EndBlock :: "Context \<Rightarrow> Context \<times> Event list outcome" where
  "afd_EndBlock ctx = (ctx, Ret [])"

definition afd_handlers :: "(bytes \<times> handler) list" where
  "afd_handlers = [(''report_alert'', reportAlert)]"

definition afd_New :: Module where
  "afd_New = mkModule ''afd'' afd_handlers afd_EndBlock"

lemmas afd_exec = afd_New_def mkModule_sel afd_handlers_def dispatch

definition afd_prefixes :: "bytes list" where
  "afd_prefixes = [PrefixAlert]"

lemma alert_val_ok: "val_ok (AlertKey i) v"
  by (simp add: val_ok_def key_kinds_def AlertKey_def)

lemma afd_handlers_confined: "handlers_confined afd_prefixes afd_handlers"
proof -
  have "confined afd_prefixes c (upd_store c (Set (ctxStore c) (AlertKey i) v))" for c i v
    by (rule confined_Set [of PrefixAlert]) (simp_all add: afd_prefixes_def alert_val_ok, simp add: AlertKey_def)
  then show ?thesis unfolding afd_handlers_def handlers_confined_simps
    by (intro conjI allI; simp add: reportAlert_def Let_def split: option.split)
qed

lemma afd_EndBlock_confined: "confined afd_prefixes c (fst (afd_EndBlock c))"
  by (simp add: afd_EndBlock_def)

interpretation afd_mod: module_contract afd_New afd_prefixes
  unfolding afd_New_def by (rule mkModule_contract [OF afd_handlers_confined afd_EndBlock_confined])

text \<open>A report that decodes is always recorded under its identifier, with the block time where it gives none, and is
  announced by one event whose type is that of its action; nothing else in the store changes.\<close>

theorem report_is_recorded:
  assumes "DecodeJSONPayload ReportPayload_fields zeroAlert env = Some a"
  shows "\<exists>a' ev. snd (reportAlert ctx env) = Ret (SuccessResult 1000 [ev])
    \<and> Get (ctxStore (fst (reportAlert ctx env))) (AlertKey (fa_AlertID a')) = Some (VAlert a')
    \<and> (\<forall>k. k \<noteq> AlertKey (fa_AlertID a') \<longrightarrow> Get (ctxStore (fst (reportAlert ctx env))) k = Get (ctxStore ctx) k)
    \<and> fa_AlertID a' \<noteq> [] \<and> (fa_AlertID a \<noteq> [] \<longrightarrow> fa_AlertID a' = fa_AlertID a)
    \<and> fa_DetectedAt a' = (if fa_DetectedAt a = 0 then now ctx else fa_DetectedAt a)
    \<and> fa_AlertType a' = fa_AlertType a \<and> fa_Action a' = fa_Action a
    \<and> (ev_Type ev = ''FraudBlocked'' \<longleftrightarrow> fa_Action a = ''BLOCK'') \<and> (ev_Type ev = ''FraudBanned'' \<longleftrightarrow> fa_Action a = ''BAN'')"
  by (rule exI [of _ "let a = (if fa_AlertID a = [] then a\<lparr>fa_AlertID := ''alert-'' @ itoa 10 (UnixNano (ctxBlockTime ctx))\<rparr> else a)
        in (if fa_DetectedAt a = 0 then a\<lparr>fa_DetectedAt := now ctx\<rparr> else a)"])
    (auto simp: reportAlert_def assms Let_def Get_Set mkEvent_def)

definition alert_tx :: TxEnvelope where
  "alert_tx = mk_tx ''s'' ''afd'' ''report_alert'' ''{\"alert\":{\"alert_id\":\"x\",\"action\":\"BAN\"}}''"

theorem report_is_recorded_witness:
  "\<exists>a'. Get (ctxStore (fst (reportAlert (fresh_ctx 5) alert_tx))) (AlertKey ''x'') = Some (VAlert a') \<and> fa_DetectedAt a' = now (fresh_ctx 5)"
proof -
  have "DecodeJSONPayload ReportPayload_fields zeroAlert alert_tx = Some (zeroAlert\<lparr>fa_AlertID := ''x'', fa_Action := ''BAN''\<rparr>)" by code_simp
  from report_is_recorded [OF this, of "fresh_ctx 5"] show ?thesis by (auto simp: zeroAlert_def)
qed

section \<open>The price check\<close>

record PriceAnomalyDetector =
  pd_WindowSize :: int
  pd_SigmaThreshold :: xfloat

definition NewPriceAnomalyDetector :: PriceAnomalyDetector where
  "NewPriceAnomalyDetector = \<lparr>pd_WindowSize = 100, pd_SigmaThreshold = Fin 3\<rparr>"

definition meanStdDev :: "xfloat list \<Rightarrow> xfloat \<times> xfloat" where
  "meanStdDev xs =
     (let n = pack64 (of_nat (length xs));
          mean = x_div (foldl x_add (Fin 0) xs) n;
          variance = foldl (\<lambda>acc v. let d = x_sub v mean in x_add acc (x_mul d d)) (Fin 0) xs
      in (mean, x_sqrt (x_div variance n)))"

text \<open>The time of the check is the argument \<open>t\<close>; \<open>963\<close> is the code point of the letter sigma.\<close>

definition Check :: "int64 \<Rightarrow> PriceAnomalyDetector \<Rightarrow> xfloat \<Rightarrow> xfloat list \<Rightarrow> FraudAlert option" where
  "Check t d price prices =
     (if length prices < 10 then None
      else let (mean, stddev) = meanStdDev prices in
      if x_eq stddev (Fin 0) then None
      else let z = x_div (x_abs (x_sub price mean)) stddev in
      if x_le z (pd_SigmaThreshold d) then None
      else let (severity, action) = (if x_less (Fin 5) z then (''HIGH'', ''BLOCK'') else (''MEDIUM'', ''FLAG''))
      in Some (zeroAlert\<lparr>fa_AlertType := ''price_anomaly'', fa_Severity := severity, fa_Action := action,
           fa_Confidence := to_float32 (x_min (x_div z (Fin 10)) (Fin 1)),
           fa_Description := ''price '' @ fmt_f 2 price @ '' deviates '' @ fmt_f 1 z @ utf8_encode 963 @ '' from mean '' @ fmt_f 2 mean,
           fa_DetectedAt := t\<rparr>))"

lemma sum_ints:
  "\<bar>s\<bar> + int n * \<bar>v\<bar> < 2 ^ 53 \<Longrightarrow> foldl x_add (Fin (of_int s)) (replicate n (Fin (of_int v))) = Fin (of_int (s + int n * v))"
proof (induction n arbitrary: s)
  case (Suc n)
  have b: "\<bar>s + v\<bar> + int n * \<bar>v\<bar> < 2 ^ 53" using Suc.prems by (simp add: algebra_simps)
  moreover have "0 \<le> int n * \<bar>v\<bar>" by simp
  ultimately have "\<bar>s + v\<bar> < 2 ^ 53" by linarith
  then have "x_add (Fin (of_int s)) (Fin (of_int v)) = Fin (of_int (s + v))" using pack64_int [of "s + v"] by simp
  then show ?case using Suc.IH [OF b] by (simp add: algebra_simps)
qed simp

text \<open>Equal prices that are small integers have no deviation, and whatever is compared with them passes, as the guard for a
  deviation of zero means it to.\<close>

theorem equal_prices_pass:
  assumes "int n * \<bar>v\<bar> < 2 ^ 53" "int n < 2 ^ 53"
  shows "Check t d price (replicate n (Fin (of_int v))) = None"
proof (cases "n = 0")
  case False
  have n: "pack64 (of_nat n) = Fin (of_nat n)" using pack64_int [of "int n"] assms(2) by simp
  have "\<bar>v\<bar> \<le> int n * \<bar>v\<bar>" using mult_right_mono [of 1 "int n" "\<bar>v\<bar>"] False by simp
  then have v: "\<bar>v\<bar> < 2 ^ 53" using assms(1) by linarith
  have mean: "x_div (foldl x_add (Fin 0) (replicate n (Fin (of_int v)))) (Fin (of_nat n)) = Fin (of_int v)"
    using sum_ints [of 0 n v] assms(1) False pack64_int [OF v] by simp
  have z: "pack64 0 = Fin 0" using pack64_int [of 0] by simp
  then have "x_add (Fin 0) (x_mul (x_sub (Fin (of_int v)) (Fin (of_int v))) (x_sub (Fin (of_int v)) (Fin (of_int v)))) = Fin 0" by (simp add: x_sub_def)
  then have "foldl (\<lambda>acc w. x_add acc (x_mul (x_sub w (Fin (of_int v))) (x_sub w (Fin (of_int v))))) (Fin 0) (replicate m (Fin (of_int v))) = Fin 0" for m
    by (induction m) simp_all
  then have "meanStdDev (replicate n (Fin (of_int v))) = (Fin (of_int v), Fin 0)"
    using False by (simp add: meanStdDev_def Let_def n mean z)
  then show ?thesis by (simp add: Check_def x_eq_def)
qed (simp add: Check_def)

text \<open>For other equal prices the rounding of the sum leaves a deviation of a last digit, and a price next to them is blocked.\<close>

lemma equal_prices_blocked:
  "\<exists>a. Check t NewPriceAnomalyDetector (Fin 4503599627370503) (replicate 10 (Fin 4503599627370498)) = Some a
    \<and> fa_Severity a = ''HIGH'' \<and> fa_Action a = ''BLOCK''"
proof -
  have sums: "x_add (Fin 0) (Fin 4503599627370498) = Fin 4503599627370498" "x_add (Fin 4503599627370498) (Fin 4503599627370498) = Fin 9007199254740996"
    "x_add (Fin 9007199254740996) (Fin 4503599627370498) = Fin 13510798882111494" "x_add (Fin 13510798882111494) (Fin 4503599627370498) = Fin 18014398509481992"
    "x_add (Fin 18014398509481992) (Fin 4503599627370498) = Fin 22517998136852488" "x_add (Fin 22517998136852488) (Fin 4503599627370498) = Fin 27021597764222984"
    "x_add (Fin 27021597764222984) (Fin 4503599627370498) = Fin 31525197391593480" "x_add (Fin 31525197391593480) (Fin 4503599627370498) = Fin 36028797018963976"
    "x_add (Fin 36028797018963976) (Fin 4503599627370498) = Fin 40532396646334472" "x_add (Fin 40532396646334472) (Fin 4503599627370498) = Fin 45035996273704968"
    "x_div (Fin 45035996273704968) (Fin 10) = Fin 4503599627370497" by code_simp+
  have dev: "pack64 10 = Fin 10" "x_sub (Fin 4503599627370498) (Fin 4503599627370497) = Fin 1" "x_mul (Fin 1) (Fin 1) = Fin 1"
    "x_sub (Fin 4503599627370503) (Fin 4503599627370497) = Fin 6" "x_div (Fin 10) (Fin 10) = Fin 1" "x_div (Fin 6) (Fin 1) = Fin 6" "x_sqrt (Fin 1) = Fin 1" by code_simp+
  have "foldl x_add (Fin 0) (replicate 10 (Fin 1)) = Fin 10" using sum_ints [of 0 10 1] by simp
  then have "meanStdDev (replicate 10 (Fin 4503599627370498)) = (Fin 4503599627370497, Fin 1)"
    by (simp add: meanStdDev_def Let_def sums dev numeral_eq_Suc del: x_add.simps x_mul.simps x_div.simps x_sqrt.simps)
  then show ?thesis
    by (simp add: Check_def NewPriceAnomalyDetector_def x_eq_def x_less_def dev del: x_div.simps)
qed

text \<open>Prices whose sum overflows give a deviation that is not a number, no comparison with which holds: any price is flagged.\<close>

lemma overflow_flags:
  "\<exists>a. Check t NewPriceAnomalyDetector (Fin p) (replicate 10 (Fin (2 ^ 1023))) = Some a \<and> fa_Action a = ''FLAG'' \<and> fa_Confidence a = NaN"
proof -
  have "pack64 (2 ^ 1023) = Fin (2 ^ 1023)" "pack64 (2 ^ 1023 + 2 ^ 1023) = Infty False"
    using fl64_power(2) [of 1023] fl64_power(2) [of 1024] fl64_power(1) [of 1023] fl64_power(1) [of 1024] by (simp_all add: pack64_def pack_def)
  then have sums: "x_add (Fin 0) (Fin (2 ^ 1023)) = Fin (2 ^ 1023)" "x_add (Fin (2 ^ 1023)) (Fin (2 ^ 1023)) = Infty False" by simp_all
  have "pack64 10 = Fin 10" by code_simp
  then have "meanStdDev (replicate 10 (Fin (2 ^ 1023))) = (Infty False, Infty False)"
    using sums by (simp add: meanStdDev_def x_sub_def Let_def numeral_eq_Suc del: x_add.simps(1) power_Suc)
  then show ?thesis by (simp add: Check_def NewPriceAnomalyDetector_def x_eq_def x_less_def x_min_def x_sub_def)
qed

section \<open>The end of a block\<close>

interpretation afd_end: end_local afd_New afd_prefixes
  by (rule idle_end_local [OF afd_mod.module_contract_axioms]) (simp add: afd_New_def afd_EndBlock_def)

end
