(* ===== verification/Fiat.thy ===== *)
theory Fiat
  imports Table Floats
begin

text \<open>
  \<open>internal/modules/fiat/module.go\<close>: escrows of orders, deposit accounts of providers and the
  insurance pool. The helpers that add, subtract and compare decimal texts ignore parse
  errors and then use a nil \<open>big.Rat\<close>; they return \<open>None\<close> where Go panics.
\<close>

section \<open>Payloads\<close>

record CreateEscrowPayload =
  ce_EscrowID :: bytes
  ce_OrderID :: bytes
  ce_Consumer :: bytes
  ce_Provider :: bytes
  ce_ServiceFee :: Money
  ce_CommissionBPS :: uint32

definition CreateEscrowPayload_fields :: "(bytes \<times> CreateEscrowPayload field) list" where
  "CreateEscrowPayload_fields =
     [(''escrow_id'', fld dec_string ce_EscrowID ce_EscrowID_update),
      (''order_id'', fld dec_string ce_OrderID ce_OrderID_update),
      (''consumer'', fld dec_bytes ce_Consumer ce_Consumer_update),
      (''provider'', fld dec_bytes ce_Provider ce_Provider_update),
      (''service_fee'', fld dec_Money ce_ServiceFee ce_ServiceFee_update),
      (''commission_bps'', fld dec_uint32 ce_CommissionBPS ce_CommissionBPS_update)]"

definition zeroCreateEscrow :: CreateEscrowPayload where
  "zeroCreateEscrow = \<lparr>ce_EscrowID = [], ce_OrderID = [], ce_Consumer = [], ce_Provider = [],
     ce_ServiceFee = zeroMoney, ce_CommissionBPS = 0\<rparr>"

text \<open>\<open>EscrowRefPayload\<close> has the one field \<open>EscrowID\<close>.\<close>

definition EscrowRefPayload_fields :: "(bytes \<times> bytes field) list" where
  "EscrowRefPayload_fields = [(''escrow_id'', fld dec_string id id)]"

record SlashPayload =
  sl_Provider :: bytes
  sl_Amount :: Money
  sl_Dispute :: bytes

definition SlashPayload_fields :: "(bytes \<times> SlashPayload field) list" where
  "SlashPayload_fields =
     [(''provider'', fld dec_bytes sl_Provider sl_Provider_update),
      (''amount'', fld dec_Money sl_Amount sl_Amount_update),
      (''dispute_id'', fld dec_string sl_Dispute sl_Dispute_update)]"

definition zeroSlash :: SlashPayload where
  "zeroSlash = \<lparr>sl_Provider = [], sl_Amount = zeroMoney, sl_Dispute = []\<rparr>"

record DepositPayload =
  dq_Currency :: bytes
  dq_Amount :: bytes

definition DepositPayload_fields :: "(bytes \<times> DepositPayload field) list" where
  "DepositPayload_fields =
     [(''currency'', fld dec_string dq_Currency dq_Currency_update),
      (''amount'', fld dec_string dq_Amount dq_Amount_update)]"

definition zeroDeposit :: DepositPayload where
  "zeroDeposit = \<lparr>dq_Currency = [], dq_Amount = []\<rparr>"

abbreviation escrowPending :: bytes where "escrowPending \<equiv> ''ESCROW_PENDING''"
abbreviation escrowFunded :: bytes where "escrowFunded \<equiv> ''ESCROW_FUNDED''"
abbreviation escrowLocked :: bytes where "escrowLocked \<equiv> ''ESCROW_LOCKED''"
abbreviation escrowReleasing :: bytes where "escrowReleasing \<equiv> ''ESCROW_RELEASING''"
abbreviation escrowReleased :: bytes where "escrowReleased \<equiv> ''ESCROW_RELEASED''"
abbreviation escrowRefunded :: bytes where "escrowRefunded \<equiv> ''ESCROW_REFUNDED''"

section \<open>Decimal helpers\<close>

definition dec2 :: "(rat \<Rightarrow> rat \<Rightarrow> 'a) \<Rightarrow> bytes \<Rightarrow> bytes \<Rightarrow> 'a option" where
  "dec2 f a b = (case ParseDecimal a of Inl _ \<Rightarrow> None
     | Inr ra \<Rightarrow> (case ParseDecimal b of Inl _ \<Rightarrow> None | Inr rb \<Rightarrow> Some (f ra rb)))"

definition addDecimal :: "bytes \<Rightarrow> bytes \<Rightarrow> bytes option" where
  "addDecimal = dec2 (\<lambda>ra rb. FormatDecimal (Some (ra + rb)) 8)"

definition subDecimal :: "bytes \<Rightarrow> bytes \<Rightarrow> bytes option" where
  "subDecimal = dec2 (\<lambda>ra rb. FormatDecimal (Some (ra - rb)) 8)"

definition lessDecimal :: "bytes \<Rightarrow> bytes \<Rightarrow> bool option" where
  "lessDecimal = dec2 (\<lambda>ra rb. ra < rb)"

definition lessOrEqualDecimal :: "bytes \<Rightarrow> bytes \<Rightarrow> bool option" where
  "lessOrEqualDecimal = dec2 (\<lambda>ra rb. ra \<le> rb)"

definition mulRatio :: "rat \<Rightarrow> int64 \<Rightarrow> int64 \<Rightarrow> rat" where
  "mulRatio r num den = r * (of_int num / of_int den)"

definition computeSafetyThreshold :: "InsurancePool \<Rightarrow> bytes option" where
  "computeSafetyThreshold pool = (case ParseDecimal (ip_MaxSinglePayout pool) of Inl _ \<Rightarrow> None
     | Inr maxPayout \<Rightarrow> Some (FormatDecimal
         (Some (maxPayout * (of_int (uint (ip_SafetyRatioBPS pool)) / 10000))) 8))"

definition tierFor :: "bytes \<Rightarrow> bytes option" where
  "tierFor available = (case ParseDecimal available of Inl _ \<Rightarrow> None
     | Inr v \<Rightarrow> Some (if 100000 \<le> v then ''enterprise'' else if 10000 \<le> v then ''pro''
         else if 1000 \<le> v then ''starter'' else ''starter''))"

definition minDepositForTier :: "bytes \<Rightarrow> bytes" where
  "minDepositForTier tier = (if tier = ''enterprise'' then ''100000''
     else if tier = ''pro'' then ''10000'' else ''1000'')"

section \<open>Store access\<close>

definition DepositKey :: "bytes \<Rightarrow> bytes" where
  "DepositKey provider = PrefixFiatDeposit @ hex_EncodeToString provider"

definition getDeposit :: "Store \<Rightarrow> bytes \<Rightarrow> goerr + DepositAccount" where
  "getDeposit st provider = load_rec un_deposit
     (NewAppError (CodeFIATBase + 71) ''deposit account not found'') json_error st (DepositKey provider)"

definition setDeposit :: "Store \<Rightarrow> DepositAccount \<Rightarrow> Store" where
  "setDeposit st acc = Set st (DepositKey (da_Provider acc)) (VDeposit acc)"

definition newPool :: InsurancePool where
  "newPool = \<lparr>ip_BalanceCNY = ''0'', ip_BalanceUSD = ''0'', ip_TotalIncome = ''0'',
     ip_TotalPayout = ''0'', ip_MaxSinglePayout = ''0'', ip_SafetyRatioBPS = 20000\<rparr>"

text \<open>The callers drop the error and use the pointer: \<open>None\<close> is the nil pool.\<close>

definition getInsurancePool :: "Store \<Rightarrow> InsurancePool option" where
  "getInsurancePool st = (case Get st PrefixFiatPool of None \<Rightarrow> Some newPool | Some v \<Rightarrow> un_pool v)"

definition setInsurancePool :: "Store \<Rightarrow> InsurancePool \<Rightarrow> Store" where
  "setInsurancePool st pool = Set st PrefixFiatPool (VPool pool)"

definition EscrowKey :: "bytes \<Rightarrow> bytes" where
  "EscrowKey i = PrefixFiatEscrow @ i"

definition saveEscrow :: "Store \<Rightarrow> Escrow \<Rightarrow> Store" where
  "saveEscrow st e = Set st (EscrowKey (es_EscrowID e)) (VEscrow e)"

definition loadEscrow :: "Store \<Rightarrow> bytes \<Rightarrow> goerr + Escrow" where
  "loadEscrow st i = load_rec un_escrow (NewAppError CodeFIATBase ''escrow not found'') json_error st (EscrowKey i)"

text \<open>Adding an amount to the balance of the pool in a currency.\<close>

definition pool_credit :: "InsurancePool \<Rightarrow> bytes \<Rightarrow> bytes \<Rightarrow> InsurancePool option" where
  "pool_credit pool currency amount =
     (if currency = ''USD''
      then map_option (\<lambda>b. pool\<lparr>ip_BalanceUSD := b\<rparr>) (addDecimal (ip_BalanceUSD pool) amount)
      else map_option (\<lambda>b. pool\<lparr>ip_BalanceCNY := b\<rparr>) (addDecimal (ip_BalanceCNY pool) amount))"

definition distributeCommission :: "Store \<Rightarrow> Escrow \<Rightarrow> Store outcome" where
  "distributeCommission st e = (case ParseDecimal (Amount (es_Commission e)) of Inl err \<Rightarrow> Err err
     | Inr tot \<Rightarrow>
         if tot \<le> 0 then Err (NewAppError (CodeFIATBase + 1) ''commission must be positive'')
         else (let insuranceShare = mulRatio tot 20 100 in
           case getInsurancePool st of None \<Rightarrow> Panic
           | Some pool \<Rightarrow>
             (case pool_credit pool (Currency (es_Commission e)) (FormatDecimal (Some insuranceShare) 8) of
                None \<Rightarrow> Panic
              | Some pool \<Rightarrow>
                  (case addDecimal (ip_TotalIncome pool) (FormatDecimal (Some tot) 8) of None \<Rightarrow> Panic
                   | Some income \<Rightarrow> Ret (setInsurancePool st (pool\<lparr>ip_TotalIncome := income\<rparr>))))))"

section \<open>Handlers\<close>

definition fiat_error :: "bytes \<Rightarrow> goerr" where
  "fiat_error msg = NewAppError (CodeFIATBase + 1) msg"

definition createEscrow :: handler where
  "createEscrow ctx env = (case DecodeJSONPayload CreateEscrowPayload_fields zeroCreateEscrow env of
     None \<Rightarrow> (ctx, Err (fiat_error ''decode create_escrow: %v''))
   | Some p \<Rightarrow>
     let bps = (if ce_CommissionBPS p = 0 then 1200 else ce_CommissionBPS p) in
     case ApplyBPS (ce_ServiceFee p) bps 8 of Inl e \<Rightarrow> (ctx, Err e)
     | Inr commission \<Rightarrow>
       (case AddMoney (ce_ServiceFee p) commission 8 of Inl e \<Rightarrow> (ctx, Err e)
        | Inr tot \<Rightarrow>
          let escrowID = (if ce_EscrowID p = [] then ''esc-'' @ itoa 16 (UnixNano (ctxBlockTime ctx))
                          else ce_EscrowID p);
              e = \<lparr>es_EscrowID = escrowID, es_OrderID = ce_OrderID p, es_Consumer = ce_Consumer p,
                   es_Provider = ce_Provider p, es_TotalAmount = tot, es_ServiceFee = ce_ServiceFee p,
                   es_Commission = commission, es_CommissionBPS = bps, es_Status = escrowPending,
                   es_CreatedAt = now ctx, es_FundedAt = 0, es_ReleasedAt = 0, es_GatewayTxID = []\<rparr>
          in (upd_store ctx (saveEscrow (ctxStore ctx) e), Ret (SuccessResult 2000 []))))"

text \<open>The four handlers on an existing escrow begin alike: decode the reference, load the escrow.\<close>

definition with_escrow :: "bytes \<Rightarrow> (Escrow \<Rightarrow> Context \<times> ExecTxResult outcome) \<Rightarrow> handler" where
  "with_escrow msg f ctx env = (case DecodeJSONPayload EscrowRefPayload_fields [] env of
     None \<Rightarrow> (ctx, Err (fiat_error msg))
   | Some i \<Rightarrow> (case loadEscrow (ctxStore ctx) i of Inl e \<Rightarrow> (ctx, Err e) | Inr e \<Rightarrow> f e))"

definition fundEscrow :: handler where
  "fundEscrow ctx env = with_escrow ''decode fund_escrow: %v'' (\<lambda>e.
     if es_Status e \<noteq> escrowPending then (ctx, Err (fiat_error ''escrow status %s cannot fund''))
     else (upd_store ctx (saveEscrow (ctxStore ctx) (e\<lparr>es_Status := escrowFunded, es_FundedAt := now ctx\<rparr>)),
           Ret (SuccessResult 1500 []))) ctx env"

definition releaseEscrow :: handler where
  "releaseEscrow ctx env = with_escrow ''decode release_escrow: %v'' (\<lambda>e.
     if es_Status e \<noteq> escrowFunded \<and> es_Status e \<noteq> escrowLocked then (ctx, Err (fiat_error ''escrow status %s cannot release''))
     else (let e = (if es_Status e = escrowFunded then e\<lparr>es_Status := escrowReleasing\<rparr> else e) in
       case distributeCommission (ctxStore ctx) e of
         Err err \<Rightarrow> (ctx, Err err)
       | Panic \<Rightarrow> (ctx, Panic)
       | Ret st \<Rightarrow> (upd_store ctx (saveEscrow st (e\<lparr>es_Status := escrowReleased, es_ReleasedAt := now ctx\<rparr>)),
                   Ret (SuccessResult 3000 [])))) ctx env"

definition lockEscrow :: handler where
  "lockEscrow ctx env = with_escrow ''decode lock_escrow: %v'' (\<lambda>e.
     if es_Status e \<noteq> escrowFunded then (ctx, Err (fiat_error ''escrow status %s cannot lock''))
     else (upd_store ctx (saveEscrow (ctxStore ctx) (e\<lparr>es_Status := escrowLocked\<rparr>)),
           Ret (SuccessResult 1000 []))) ctx env"

definition refundEscrow :: handler where
  "refundEscrow ctx env = with_escrow ''decode refund_escrow: %v'' (\<lambda>e.
     if es_Status e \<noteq> escrowLocked \<and> es_Status e \<noteq> escrowFunded then (ctx, Err (fiat_error ''escrow status %s cannot refund''))
     else (upd_store ctx (saveEscrow (ctxStore ctx) (e\<lparr>es_Status := escrowRefunded\<rparr>)),
           Ret (SuccessResult 3000 []))) ctx env"

definition slashDeposit :: handler where
  "slashDeposit ctx env = (case DecodeJSONPayload SlashPayload_fields zeroSlash env of
     None \<Rightarrow> (ctx, Err (fiat_error ''decode slash_deposit: %v''))
   | Some p \<Rightarrow>
     (case getDeposit (ctxStore ctx) (sl_Provider p) of Inl e \<Rightarrow> (ctx, Err e)
      | Inr acc \<Rightarrow>
        (case lessDecimal (da_Available acc) (Amount (sl_Amount p)) of None \<Rightarrow> (ctx, Panic)
         | Some short \<Rightarrow>
           let slashAmount = (if short then da_Available acc else Amount (sl_Amount p)) in
           case subDecimal (da_Available acc) slashAmount of None \<Rightarrow> (ctx, Panic)
           | Some avail \<Rightarrow>
             (case addDecimal (da_Slashed acc) slashAmount of None \<Rightarrow> (ctx, Panic)
              | Some slashed \<Rightarrow>
                let acc = acc\<lparr>da_Available := avail, da_Slashed := slashed\<rparr>;
                    ctx = upd_store ctx (setDeposit (ctxStore ctx) acc) in
                case getInsurancePool (ctxStore ctx) of None \<Rightarrow> (ctx, Panic)
                | Some pool \<Rightarrow>
                  (case pool_credit pool (Currency (sl_Amount p)) slashAmount of None \<Rightarrow> (ctx, Panic)
                   | Some pool \<Rightarrow>
                     (upd_store ctx (setInsurancePool (ctxStore ctx) pool),
                      Ret (SuccessResult 3000 [mkEvent ''DepositSlashed''
                        [(''provider'', hex_EncodeToString (sl_Provider p)), (''amount'', slashAmount),
                         (''dispute_id'', sl_Dispute p)]])))))))"

definition depositFunds :: handler where
  "depositFunds ctx env = (case DecodeJSONPayload DepositPayload_fields zeroDeposit env of
     None \<Rightarrow> (ctx, Err (fiat_error ''decode deposit_funds: %v''))
   | Some p \<Rightarrow>
     let acc = (case getDeposit (ctxStore ctx) (Sender env) of Inr a \<Rightarrow> a
       | Inl _ \<Rightarrow> \<lparr>da_Provider = Sender env, da_Currency = dq_Currency p, da_TotalDeposited = ''0'',
            da_Available = ''0'', da_Frozen = ''0'', da_Slashed = ''0'', da_LastDepositAt = 0,
            da_LastWithdrawAt = 0, da_Tier = ''starter''\<rparr>) in
     case addDecimal (da_TotalDeposited acc) (dq_Amount p) of None \<Rightarrow> (ctx, Panic)
     | Some tot \<Rightarrow>
       (case addDecimal (da_Available acc) (dq_Amount p) of None \<Rightarrow> (ctx, Panic)
        | Some avail \<Rightarrow>
          (case tierFor avail of None \<Rightarrow> (ctx, Panic)
           | Some tier \<Rightarrow>
             (upd_store ctx (setDeposit (ctxStore ctx)
                (acc\<lparr>da_TotalDeposited := tot, da_Available := avail, da_LastDepositAt := now ctx,
                     da_Tier := tier\<rparr>)),
              Ret (SuccessResult 1500 [])))))"

definition withdrawDeposit :: handler where
  "withdrawDeposit ctx env = (case DecodeJSONPayload DepositPayload_fields zeroDeposit env of
     None \<Rightarrow> (ctx, Err (fiat_error ''decode withdraw_deposit: %v''))
   | Some p \<Rightarrow>
     (case getDeposit (ctxStore ctx) (Sender env) of Inl e \<Rightarrow> (ctx, Err e)
      | Inr acc \<Rightarrow>
        if wrap64 (now ctx - da_LastDepositAt acc) < 7 * 24 * 3600
        then (ctx, Err (NewAppError (CodeFIATBase + 72) ''unbonding period not reached''))
        else case lessOrEqualDecimal (dq_Amount p) (da_Available acc) of None \<Rightarrow> (ctx, Panic)
        | Some le \<Rightarrow>
          if \<not> le then (ctx, Err (NewAppError (CodeFIATBase + 70) ''insufficient available balance''))
          else case subDecimal (da_Available acc) (dq_Amount p) of None \<Rightarrow> (ctx, Panic)
          | Some newAvail \<Rightarrow>
            (case lessDecimal newAvail (minDepositForTier (da_Tier acc)) of None \<Rightarrow> (ctx, Panic)
             | Some below \<Rightarrow>
               if below then (ctx, Err (NewAppError (CodeFIATBase + 71) ''deposit floor violation''))
               else (upd_store ctx (setDeposit (ctxStore ctx)
                       (acc\<lparr>da_Available := newAvail, da_LastWithdrawAt := now ctx\<rparr>)),
                     Ret (SuccessResult 2000 [])))))"

definition fiat_EndBlock :: "Context \<Rightarrow> Context \<times> Event list outcome" where
  "fiat_EndBlock ctx = (case getInsurancePool (ctxStore ctx) of None \<Rightarrow> (ctx, Panic)
   | Some pool \<Rightarrow>
     (case computeSafetyThreshold pool of None \<Rightarrow> (ctx, Panic)
      | Some threshold \<Rightarrow>
        (case lessDecimal (ip_BalanceCNY pool) threshold of None \<Rightarrow> (ctx, Panic)
         | Some below \<Rightarrow> (ctx, Ret (if below then [mkEvent ''InsurancePoolBelowSafety''
             [(''balance'', ip_BalanceCNY pool), (''threshold'', threshold)]] else [])))))"

definition fiat_handlers :: "(bytes \<times> handler) list" where
  "fiat_handlers =
     [(''create_escrow'', createEscrow), (''fund_escrow'', fundEscrow), (''release_escrow'', releaseEscrow),
      (''lock_escrow'', lockEscrow), (''refund_escrow'', refundEscrow), (''slash_deposit'', slashDeposit),
      (''deposit_funds'', depositFunds), (''withdraw_deposit'', withdrawDeposit)]"

definition fiat_New :: Module where
  "fiat_New = mkModule ''fiat'' fiat_handlers fiat_EndBlock"

section \<open>Commission rates\<close>

text \<open>The volume is a finite float64, every operation is rounded.\<close>

definition CalculateCommissionRate :: "float64 \<Rightarrow> int \<Rightarrow> uint32 \<Rightarrow> float64" where
  "CalculateCommissionRate monthlyVolume riskTier reputation =
     (let volumeSteps = min (of_int \<lfloor>fl64 (monthlyVolume / 10000)\<rfloor>) 4;
          volumeAdj = fl64 (fl64 (- 1 / 100) * volumeSteps);
          riskAdj = fl64 (fl64 (2 / 100) * fl64 (of_int riskTier));
          repSteps = min (of_int \<lfloor>fl64 (of_int (uint reputation) / 250)\<rfloor>) 2;
          repAdj = fl64 (fl64 (- 1 / 100) * repSteps);
          rate = fl64 (fl64 (fl64 (fl64 (12 / 100) + volumeAdj) + riskAdj) + repAdj)
      in if rate < fl64 (8 / 100) then fl64 (8 / 100)
         else if fl64 (15 / 100) < rate then fl64 (15 / 100) else rate)"

definition math_Round :: "rat \<Rightarrow> int" where
  "math_Round x = (if x < 0 then - \<lfloor>- x + 1 / 2\<rfloor> else \<lfloor>x + 1 / 2\<rfloor>)"

definition CommissionBPS :: "float64 \<Rightarrow> uint32" where
  "CommissionBPS rate = word_of_int (math_Round (fl64 (rate * 10000)))"


section \<open>Tables and contract\<close>

interpretation escrows: table loadEscrow saveEscrow es_EscrowID EscrowKey PrefixFiatEscrow
  by (rule tableI, rule loadEscrow_def, rule saveEscrow_def) (simp_all add: EscrowKey_def inj_def)

interpretation deposits: table getDeposit setDeposit da_Provider DepositKey PrefixFiatDeposit
  by (rule tableI, rule getDeposit_def, rule setDeposit_def) (simp_all add: DepositKey_def inj_def)

definition fiat_prefixes :: "bytes list" where
  "fiat_prefixes = [PrefixFiatEscrow, PrefixFiatDeposit, PrefixFiatPool]"

lemma setInsurancePool_confined:
  "confined fiat_prefixes c (upd_store c (setInsurancePool (ctxStore c) pool))"
  unfolding setInsurancePool_def
  by (rule confined_Set [of PrefixFiatPool]) (simp_all add: fiat_prefixes_def)

lemma saveEscrow_confined: "confined fiat_prefixes c (upd_store c (saveEscrow (ctxStore c) e))"
  by (rule escrows.save_confined) (simp add: fiat_prefixes_def)

lemma setDeposit_confined: "confined fiat_prefixes c (upd_store c (setDeposit (ctxStore c) a))"
  by (rule deposits.save_confined) (simp add: fiat_prefixes_def)

lemma distributeCommission_RetD:
  assumes "distributeCommission st e = Ret st'"
  obtains t pool pool1 income where "ParseDecimal (Amount (es_Commission e)) = Inr t" "0 < t"
    "getInsurancePool st = Some pool"
    "pool_credit pool (Currency (es_Commission e)) (FormatDecimal (Some (mulRatio t 20 100)) 8) = Some pool1"
    "addDecimal (ip_TotalIncome pool1) (FormatDecimal (Some t) 8) = Some income"
    "st' = setInsurancePool st (pool1\<lparr>ip_TotalIncome := income\<rparr>)"
  using assms by (auto simp: distributeCommission_def Let_def split: sum.splits if_splits option.splits)

lemma distributeCommission_store:
  "distributeCommission st e = Ret st' \<Longrightarrow> \<exists>pool. st' = setInsurancePool st pool"
  by (erule distributeCommission_RetD) blast

lemma release_confined:
  assumes "distributeCommission (ctxStore c) e = Ret st"
  shows "confined fiat_prefixes c (upd_store c (saveEscrow st e'))"
proof -
  obtain pool where st: "st = setInsurancePool (ctxStore c) pool"
    using assms by (rule distributeCommission_RetD)
  show ?thesis
    using confined_trans [OF setInsurancePool_confined [of c pool]
        saveEscrow_confined [of "upd_store c (setInsurancePool (ctxStore c) pool)" e']]
    by (simp add: st)
qed

lemma slash_confined:
  "confined fiat_prefixes c (upd_store c (setInsurancePool (setDeposit (ctxStore c) a) pool))"
  using confined_trans [OF setDeposit_confined [of c a]
      setInsurancePool_confined [of "upd_store c (setDeposit (ctxStore c) a)" pool]] by simp

lemmas fiat_confined = setInsurancePool_confined saveEscrow_confined setDeposit_confined
  release_confined slash_confined

lemmas fiat_handler_defs = createEscrow_def fundEscrow_def releaseEscrow_def lockEscrow_def
  refundEscrow_def slashDeposit_def depositFunds_def withdrawDeposit_def with_escrow_def

lemma fiat_handlers_confined: "handlers_confined fiat_prefixes fiat_handlers"
  unfolding fiat_handlers_def handlers_confined_simps
  by (intro conjI allI; simp add: fiat_handler_defs Let_def fiat_confined
      split: option.split sum.split outcome.split)

interpretation fiat_mod: module_contract fiat_New fiat_prefixes
  unfolding fiat_New_def
  by (rule mkModule_contract [OF fiat_handlers_confined])
    (simp add: fiat_EndBlock_def split: option.split)

lemmas fiat_exec = fiat_New_def mkModule_sel fiat_handlers_def dispatch

section \<open>The life of an escrow\<close>

inductive escrow_step :: "bytes \<Rightarrow> bytes \<Rightarrow> bool" where
  fund: "escrow_step escrowPending escrowFunded"
| lock: "escrow_step escrowFunded escrowLocked"
| release_funded: "escrow_step escrowFunded escrowReleased"
| release_locked: "escrow_step escrowLocked escrowReleased"
| refund_funded: "escrow_step escrowFunded escrowRefunded"
| refund_locked: "escrow_step escrowLocked escrowRefunded"

inductive_cases escrow_step_from_released: "escrow_step escrowReleased s"
inductive_cases escrow_step_from_refunded: "escrow_step escrowRefunded s"

text \<open>What an escrow says of its order and of the money does not change with its status.\<close>

definition same_terms :: "Escrow \<Rightarrow> Escrow \<Rightarrow> bool" where
  "same_terms e e' \<longleftrightarrow> e' = e\<lparr>es_Status := es_Status e', es_FundedAt := es_FundedAt e',
     es_ReleasedAt := es_ReleasedAt e'\<rparr>"

lemma same_terms_refl [simp]: "same_terms e e"
  by (simp add: same_terms_def)

lemma same_terms_trans: "same_terms a b \<Longrightarrow> same_terms b c \<Longrightarrow> same_terms a c"
  unfolding same_terms_def by (cases a; cases b; cases c) simp

definition escrow_moves :: "Store \<Rightarrow> Store \<Rightarrow> bool" where
  "escrow_moves st st' \<longleftrightarrow> own_ids loadEscrow es_EscrowID st \<longrightarrow>
     own_ids loadEscrow es_EscrowID st' \<and>
     (\<forall>i e. loadEscrow st i = Inr e \<longrightarrow> (\<exists>e'. loadEscrow st' i = Inr e' \<and> same_terms e e'
        \<and> escrow_step\<^sup>*\<^sup>* (es_Status e) (es_Status e')))"

lemma escrow_moves_refl [simp]: "escrow_moves st st"
  by (auto simp: escrow_moves_def)

lemma escrow_moves_trans: "escrow_moves a b \<Longrightarrow> escrow_moves b c \<Longrightarrow> escrow_moves a c"
  unfolding escrow_moves_def by (meson rtranclp_trans same_terms_trans)

lemma escrow_moves_frame:
  assumes "\<And>k. prefix PrefixFiatEscrow k \<Longrightarrow> Get st' k = Get st k"
  shows "escrow_moves st st'"
proof -
  have "loadEscrow st' i = loadEscrow st i" for i
    by (rule escrows.load_frame) (simp add: assms escrows.key_pre)
  then show ?thesis by (auto simp: escrow_moves_def own_ids_def)
qed

lemma escrow_moves_save:
  assumes "loadEscrow st i = Inr e" "same_terms e e'" "escrow_step (es_Status e) (es_Status e')"
  shows "escrow_moves st (saveEscrow st e')"
  unfolding escrow_moves_def
proof (intro impI conjI allI)
  assume own: "own_ids loadEscrow es_EscrowID st"
  then show "own_ids loadEscrow es_EscrowID (saveEscrow st e')" by (rule escrows.own_ids_save)
  fix j x assume j: "loadEscrow st j = Inr x"
  have ident: "es_EscrowID e' = es_EscrowID e" using assms(2) by (metis Escrow.select_convs(1)
    Escrow.surjective Escrow.update_convs(11) Escrow.update_convs(12) Escrow.update_convs(9) same_terms_def)
  show "\<exists>e''. loadEscrow (saveEscrow st e') j = Inr e'' \<and> same_terms x e''
      \<and> escrow_step\<^sup>*\<^sup>* (es_Status x) (es_Status e'')"
    using escrows.load_update [OF own assms(1) ident, of j] j assms by (cases "j = i") auto
qed

lemma Get_setDeposit_escrow: "prefix PrefixFiatEscrow k \<Longrightarrow> Get (setDeposit st a) k = Get st k"
  by (rule deposits.load_save_elsewhere) (auto simp: prefix_def)

lemma Get_setInsurancePool: "k \<noteq> PrefixFiatPool \<Longrightarrow> Get (setInsurancePool st p) k = Get st k"
  by (simp add: setInsurancePool_def)

lemma prefix_escrow_not_pool: "prefix PrefixFiatEscrow k \<Longrightarrow> k \<noteq> PrefixFiatPool"
  by auto

lemma loadEscrow_setInsurancePool [simp]: "loadEscrow (setInsurancePool st p) i = loadEscrow st i"
  by (rule escrows.load_frame) (simp add: EscrowKey_def setInsurancePool_def)

lemma escrow_moves_with_escrow:
  assumes "\<And>i e. loadEscrow (ctxStore ctx) i = Inr e \<Longrightarrow> escrow_moves (ctxStore ctx) (ctxStore (fst (f e)))"
  shows "escrow_moves (ctxStore ctx) (ctxStore (fst (with_escrow msg f ctx env)))"
  using assms by (auto simp: with_escrow_def split: option.split sum.split)

lemma escrow_moves_release: "escrow_moves (ctxStore ctx) (ctxStore (fst (releaseEscrow ctx env)))"
  unfolding releaseEscrow_def
proof (rule escrow_moves_with_escrow, goal_cases)
  case (1 i e)
  have pool: "escrow_moves (ctxStore ctx) (setInsurancePool (ctxStore ctx) p)" for p
    by (rule escrow_moves_frame) (simp add: Get_setInsurancePool prefix_escrow_not_pool)
  have saved: "escrow_moves (ctxStore ctx) (saveEscrow st (x\<lparr>es_Status := escrowReleased, es_ReleasedAt := t\<rparr>))"
    if dist: "distributeCommission (ctxStore ctx) x = Ret st" and same: "same_terms e x"
      and live: "es_Status e = escrowFunded \<or> es_Status e = escrowLocked" for st x t
  proof -
    obtain p where st: "st = setInsurancePool (ctxStore ctx) p"
      using distributeCommission_store [OF dist] by auto
    have terms: "same_terms e (x\<lparr>es_Status := escrowReleased, es_ReleasedAt := t\<rparr>)"
      using same by (rule same_terms_trans) (simp add: same_terms_def)
    have "escrow_moves st (saveEscrow st (x\<lparr>es_Status := escrowReleased, es_ReleasedAt := t\<rparr>))"
      by (rule escrow_moves_save [OF _ terms])
        (use 1 live in \<open>auto simp: st intro: escrow_step.intros\<close>)
    with pool [of p] show ?thesis unfolding st by (rule escrow_moves_trans)
  qed
  have "same_terms e (e\<lparr>es_Status := escrowReleasing\<rparr>)" by (simp add: same_terms_def)
  then show ?case
    using saved [of e] saved [of "e\<lparr>es_Status := escrowReleasing\<rparr>"]
    by (auto simp: Let_def split: outcome.split)
qed

lemma escrow_moves_handlers:
  "escrow_moves (ctxStore ctx) (ctxStore (fst (fundEscrow ctx env)))"
  "escrow_moves (ctxStore ctx) (ctxStore (fst (lockEscrow ctx env)))"
  "escrow_moves (ctxStore ctx) (ctxStore (fst (refundEscrow ctx env)))"
  unfolding fundEscrow_def lockEscrow_def refundEscrow_def
  by (rule escrow_moves_with_escrow; auto intro!: escrow_moves_save intro: escrow_step.intros simp: same_terms_def)+

lemma escrow_moves_deposits:
  "escrow_moves (ctxStore ctx) (ctxStore (fst (slashDeposit ctx env)))"
  "escrow_moves (ctxStore ctx) (ctxStore (fst (depositFunds ctx env)))"
  "escrow_moves (ctxStore ctx) (ctxStore (fst (withdrawDeposit ctx env)))"
  unfolding slashDeposit_def depositFunds_def withdrawDeposit_def
  by (rule escrow_moves_frame; simp add: Let_def Get_setInsurancePool prefix_escrow_not_pool
      Get_setDeposit_escrow split: option.split sum.split)+

lemma escrow_moves_exec:
  assumes "Action env \<noteq> ''create_escrow''"
  shows "escrow_moves (ctxStore ctx) (ctxStore (fst (mExecuteTx fiat_New ctx env)))"
  using assms by (simp add: fiat_exec escrow_moves_release escrow_moves_handlers escrow_moves_deposits)

text \<open>A sequence of transactions of the module, each on the context the one before it left.\<close>

definition fiat_run :: "Context \<Rightarrow> TxEnvelope list \<Rightarrow> Context" where
  "fiat_run = foldl (\<lambda>c env. fst (mExecuteTx fiat_New c env))"

lemma escrow_moves_run:
  "(\<And>env. env \<in> set envs \<Longrightarrow> Action env \<noteq> ''create_escrow'') \<Longrightarrow>
   escrow_moves (ctxStore ctx) (ctxStore (fiat_run ctx envs))"
proof (induction envs arbitrary: ctx)
  case (Cons env envs)
  have "escrow_moves (ctxStore ctx) (ctxStore (fst (mExecuteTx fiat_New ctx env)))"
    using Cons.prems by (intro escrow_moves_exec) simp
  moreover have "escrow_moves (ctxStore (fst (mExecuteTx fiat_New ctx env)))
      (ctxStore (fiat_run (fst (mExecuteTx fiat_New ctx env)) envs))"
    using Cons.prems by (intro Cons.IH) simp
  ultimately show ?case by (auto simp: fiat_run_def intro: escrow_moves_trans)
qed (simp add: fiat_run_def)

text \<open>The two ends of the life of an escrow are final.\<close>

lemma escrow_steps_final:
  assumes "escrow_step\<^sup>*\<^sup>* s t" "s = escrowReleased \<or> s = escrowRefunded"
  shows "t = s"
  using assms by (induction rule: converse_rtranclp_induct)
    (auto elim: escrow_step_from_released escrow_step_from_refunded)


text \<open>A concrete life: created, funded, locked, released.\<close>

definition escrow_tx :: "bytes \<Rightarrow> TxEnvelope" where
  "escrow_tx action = mk_tx ''s'' ''fiat'' action ''{\"escrow_id\":\"e1\"}''"

definition escrow_ctx :: Context where
  "escrow_ctx = fst (createEscrow (fresh_ctx 100) (mk_tx ''s'' ''fiat'' ''create_escrow''
     ''{\"escrow_id\":\"e1\",\"service_fee\":{\"currency\":\"CNY\",\"amount\":\"100\"}}''))"

lemma escrow_ctx_own: "own_ids loadEscrow es_EscrowID (ctxStore escrow_ctx)"
proof -
  have "ctxStore escrow_ctx = saveEscrow (ctxStore (fresh_ctx 100)) \<lparr>es_EscrowID = ''e1'', es_OrderID = [],
      es_Consumer = [], es_Provider = [], es_TotalAmount = \<lparr>Currency = ''CNY'', Amount = ''112.00000000''\<rparr>,
      es_ServiceFee = \<lparr>Currency = ''CNY'', Amount = ''100''\<rparr>,
      es_Commission = \<lparr>Currency = ''CNY'', Amount = ''12.00000000''\<rparr>, es_CommissionBPS = 1200,
      es_Status = escrowPending, es_CreatedAt = 100, es_FundedAt = 0, es_ReleasedAt = 0, es_GatewayTxID = []\<rparr>"
    by code_simp
  then show ?thesis
    by (simp add: escrows.own_ids_save own_ids_fresh loadEscrow_def load_rec_def)
qed


section \<open>Amounts\<close>

text \<open>Every amount the module writes has at most eight decimals, so its sums are exact.\<close>

definition scaled :: "bytes \<Rightarrow> bool" where
  "scaled s \<longleftrightarrow> (\<exists>x. amount_is s x \<and> has_scale x 8)"

lemma scaledE: "scaled s \<Longrightarrow> (\<And>x. amount_is s x \<Longrightarrow> has_scale x 8 \<Longrightarrow> P) \<Longrightarrow> P"
  by (auto simp: scaled_def)

lemma amount_is_scale: "scaled s \<Longrightarrow> amount_is s x \<Longrightarrow> has_scale x 8"
  by (auto simp: scaled_def dest: amount_is_unique)

lemma amount_is_8: "amount_is (FloatString x 8) (round_scaled x 8)"
  by (rule amount_is_FloatString) simp

lemma scaled_8 [simp]: "scaled (FloatString x 8)"
  unfolding scaled_def using amount_is_8 [of x] has_scale_round_scaled by blast

lemma scaled_0 [simp]: "scaled ''0''"
proof -
  have "amount_is ''0'' 0" unfolding amount_is_def by code_simp
  then show ?thesis using has_scale_of_int [of 0 8] by (auto simp: scaled_def)
qed

lemma dec2_eq: "amount_is a x \<Longrightarrow> amount_is b y \<Longrightarrow> dec2 f a b = Some (f x y)"
  by (simp add: dec2_def amount_is_def)

lemma dec2_None: "dec2 f a b = None \<longleftrightarrow> (\<nexists>x. amount_is a x) \<or> (\<nexists>y. amount_is b y)"
  by (auto simp: dec2_def amount_is_def split: sum.splits)

lemma dec2_Some: "dec2 f a b = Some z \<longleftrightarrow> (\<exists>x y. amount_is a x \<and> amount_is b y \<and> z = f x y)"
  by (auto simp: dec2_def amount_is_def split: sum.splits)

lemmas decimal_defs = addDecimal_def subDecimal_def lessDecimal_def lessOrEqualDecimal_def

lemma addDecimal_scaled: "addDecimal a b = Some z \<Longrightarrow> scaled z"
  by (auto simp: addDecimal_def dec2_Some)

lemma subDecimal_scaled: "subDecimal a b = Some z \<Longrightarrow> scaled z"
  by (auto simp: subDecimal_def dec2_Some)

lemma addDecimal_exact:
  assumes "amount_is a x" "amount_is b y" "has_scale x 8" "has_scale y 8"
  shows "\<exists>z. addDecimal a b = Some z \<and> amount_is z (x + y)"
  using assms amount_is_8 [of "x + y"]
  by (simp add: addDecimal_def dec2_eq round_scaled_exact has_scale_add)

lemma subDecimal_exact:
  assumes "amount_is a x" "amount_is b y" "has_scale x 8" "has_scale y 8"
  shows "\<exists>z. subDecimal a b = Some z \<and> amount_is z (x - y)"
  using assms amount_is_8 [of "x - y"]
  by (simp add: subDecimal_def dec2_eq round_scaled_exact has_scale_diff)

text \<open>Creating an escrow for a readable fee succeeds and stores a pending escrow whose
  commission is the fee times the rate in basis points (12 percent when the payload gives
  none), rounded to eight decimals, and whose total is fee plus commission, exactly so when
  the fee has at most eight decimals.\<close>

theorem createEscrow_terms:
  assumes "DecodeJSONPayload CreateEscrowPayload_fields zeroCreateEscrow env = Some p"
    and "amount_is (Amount (ce_ServiceFee p)) fee"
  defines "bps \<equiv> (if ce_CommissionBPS p = 0 then 1200 else ce_CommissionBPS p)"
    and "commission \<equiv> round_scaled (fee * (of_int (uint (if ce_CommissionBPS p = 0 then 1200 else ce_CommissionBPS p)) / 10000)) 8"
  shows "\<exists>e. createEscrow ctx env
        = (upd_store ctx (saveEscrow (ctxStore ctx) e), Ret (SuccessResult 2000 []))
    \<and> (ce_EscrowID p \<noteq> [] \<longrightarrow> es_EscrowID e = ce_EscrowID p)
    \<and> es_Status e = escrowPending \<and> es_ServiceFee e = ce_ServiceFee p \<and> es_CommissionBPS e = bps
    \<and> Currency (es_Commission e) = Currency (ce_ServiceFee p)
    \<and> Currency (es_TotalAmount e) = Currency (ce_ServiceFee p)
    \<and> amount_is (Amount (es_Commission e)) commission
    \<and> amount_is (Amount (es_TotalAmount e)) (round_scaled (fee + commission) 8)
    \<and> (has_scale fee 8 \<longrightarrow> amount_is (Amount (es_TotalAmount e)) (fee + commission))"
proof -
  have parse: "ParseDecimal (Amount (ce_ServiceFee p)) = Inr fee"
    using assms(2) by (simp add: amount_is_def)
  have exact: "round_scaled (fee + commission) 8 = fee + commission" if "has_scale fee 8"
    using that by (simp add: round_scaled_exact has_scale_add commission_def)
  then show ?thesis
    by (auto simp: createEscrow_def assms(1) ApplyBPS_def AddMoney_def parse Let_def bps_def
        commission_def amount_is_def)
qed

theorem createEscrow_terms_witness:
  "\<exists>e. loadEscrow (ctxStore escrow_ctx) ''e1'' = Inr e
    \<and> amount_is (Amount (es_Commission e)) 12 \<and> amount_is (Amount (es_TotalAmount e)) 112"
proof -
  let ?env = "mk_tx ''s'' ''fiat'' ''create_escrow''
     ''{\"escrow_id\":\"e1\",\"service_fee\":{\"currency\":\"CNY\",\"amount\":\"100\"}}''"
  let ?p = "zeroCreateEscrow\<lparr>ce_EscrowID := ''e1'', ce_ServiceFee := \<lparr>Currency = ''CNY'', Amount = ''100''\<rparr>\<rparr>"
  have dec: "DecodeJSONPayload CreateEscrowPayload_fields zeroCreateEscrow ?env = Some ?p" by code_simp
  have fee: "amount_is (Amount (ce_ServiceFee ?p)) 100" unfolding amount_is_def by code_simp
  have "has_scale 100 8" using has_scale_of_int [of 100 8] by simp
  moreover have "round_scaled (100 * (of_int (uint (1200 :: uint32)) / 10000)) 8 = 12" by code_simp
  ultimately show ?thesis
    using createEscrow_terms [OF dec fee, of "fresh_ctx 100"]
    by (auto simp: escrow_ctx_def zeroCreateEscrow_def intro: escrows.load_save_same
        simp: escrows.load_save)
qed

section \<open>The invariant of the module\<close>

definition acct_ok :: "DepositAccount \<Rightarrow> bool" where
  "acct_ok a \<longleftrightarrow> scaled (da_TotalDeposited a) \<and> scaled (da_Available a) \<and> scaled (da_Slashed a)"

definition pool_ok :: "InsurancePool \<Rightarrow> bool" where
  "pool_ok p \<longleftrightarrow> scaled (ip_BalanceCNY p) \<and> scaled (ip_BalanceUSD p) \<and> scaled (ip_TotalIncome p)
     \<and> scaled (ip_MaxSinglePayout p)"

definition fiat_ok :: "Store \<Rightarrow> bool" where
  "fiat_ok st \<longleftrightarrow> own_ids loadEscrow es_EscrowID st \<and> own_ids getDeposit da_Provider st
     \<and> (\<forall>i e. loadEscrow st i = Inr e \<longrightarrow> scaled (Amount (es_Commission e)))
     \<and> (\<forall>i a. getDeposit st i = Inr a \<longrightarrow> acct_ok a)
     \<and> (\<exists>p. getInsurancePool st = Some p \<and> pool_ok p)"

lemma fiat_tables_independent [simp]:
  "getDeposit (saveEscrow st e) j = getDeposit st j"
  "getInsurancePool (saveEscrow st e) = getInsurancePool st"
  "loadEscrow (setDeposit st a) i = loadEscrow st i"
  "getInsurancePool (setDeposit st a) = getInsurancePool st"
  "getDeposit (setInsurancePool st p) j = getDeposit st j"
  "getInsurancePool (setInsurancePool st p) = Some p"
  by (simp_all add: getDeposit_def saveEscrow_def getInsurancePool_def loadEscrow_def setDeposit_def
      setInsurancePool_def load_rec_def Get_Set DepositKey_def EscrowKey_def)

lemma fiat_ok_saveEscrow:
  "fiat_ok st \<Longrightarrow> scaled (Amount (es_Commission e)) \<Longrightarrow> fiat_ok (saveEscrow st e)"
  by (simp add: fiat_ok_def own_ids_def escrows.load_save)

lemma fiat_ok_setDeposit: "fiat_ok st \<Longrightarrow> acct_ok a \<Longrightarrow> fiat_ok (setDeposit st a)"
  by (simp add: fiat_ok_def own_ids_def deposits.load_save)

lemma fiat_ok_setInsurancePool: "fiat_ok st \<Longrightarrow> pool_ok p \<Longrightarrow> fiat_ok (setInsurancePool st p)"
  by (simp add: fiat_ok_def own_ids_def)

lemma fiat_ok_pool: "fiat_ok st \<Longrightarrow> getInsurancePool st = Some p \<Longrightarrow> pool_ok p"
  by (auto simp: fiat_ok_def)

lemma fiat_ok_acct: "fiat_ok st \<Longrightarrow> getDeposit st i = Inr a \<Longrightarrow> acct_ok a \<and> da_Provider a = i"
  by (auto simp: fiat_ok_def own_ids_def)

lemma fiat_ok_escrow: "fiat_ok st \<Longrightarrow> loadEscrow st i = Inr e \<Longrightarrow>
    scaled (Amount (es_Commission e)) \<and> es_EscrowID e = i"
  by (auto simp: fiat_ok_def own_ids_def)

lemma pool_credit_ok: "pool_ok p \<Longrightarrow> pool_credit p cur amt = Some p' \<Longrightarrow> pool_ok p'"
  by (auto simp: pool_credit_def pool_ok_def dest: addDecimal_scaled split: if_splits)

lemma pool_ok_new: "pool_ok newPool"
  by (simp add: pool_ok_def newPool_def)

lemma fiat_ok_fresh: "fiat_ok (ctxStore (fresh_ctx t))"
  by (simp add: fiat_ok_def own_ids_fresh loadEscrow_def getDeposit_def load_rec_def
      getInsurancePool_def pool_ok_new)

lemma distributeCommission_ok:
  assumes "fiat_ok st" "distributeCommission st e = Ret st'"
  shows "fiat_ok st'"
  using assms(2)
proof (rule distributeCommission_RetD)
  fix t pool pool1 income
  assume "getInsurancePool st = Some pool" "st' = setInsurancePool st (pool1\<lparr>ip_TotalIncome := income\<rparr>)"
    "pool_credit pool (Currency (es_Commission e)) (FormatDecimal (Some (mulRatio t 20 100)) 8) = Some pool1"
    "addDecimal (ip_TotalIncome pool1) (FormatDecimal (Some t) 8) = Some income"
  moreover from this have "pool_ok pool1" "scaled income"
    using assms(1) by (auto dest: fiat_ok_pool pool_credit_ok addDecimal_scaled)
  ultimately show "fiat_ok st'"
    using assms(1) by (simp add: fiat_ok_setInsurancePool pool_ok_def)
qed

lemma fiat_ok_escrow_handlers:
  assumes "fiat_ok (ctxStore ctx)"
  shows "fiat_ok (ctxStore (fst (createEscrow ctx env)))" "fiat_ok (ctxStore (fst (fundEscrow ctx env)))"
    "fiat_ok (ctxStore (fst (releaseEscrow ctx env)))" "fiat_ok (ctxStore (fst (lockEscrow ctx env)))"
    "fiat_ok (ctxStore (fst (refundEscrow ctx env)))"
  using assms fiat_ok_escrow [OF assms]
  by (auto simp: fiat_handler_defs Let_def ApplyBPS_Inr split: option.splits sum.splits outcome.splits
      intro!: fiat_ok_saveEscrow dest: distributeCommission_ok)

lemma acct_ok_updates:
  "acct_ok a \<Longrightarrow> subDecimal x y = Some av \<Longrightarrow> addDecimal u v = Some sl \<Longrightarrow>
     acct_ok (a\<lparr>da_Available := av, da_Slashed := sl\<rparr>)"
  "acct_ok a \<Longrightarrow> addDecimal x y = Some td \<Longrightarrow> addDecimal u v = Some av \<Longrightarrow>
     acct_ok (a\<lparr>da_TotalDeposited := td, da_Available := av, da_LastDepositAt := t, da_Tier := tier\<rparr>)"
  "acct_ok a \<Longrightarrow> subDecimal x y = Some av \<Longrightarrow> acct_ok (a\<lparr>da_Available := av, da_LastWithdrawAt := t\<rparr>)"
  by (simp_all add: acct_ok_def addDecimal_scaled subDecimal_scaled)

lemma fiat_ok_deposit_handlers:
  assumes "fiat_ok (ctxStore ctx)"
  shows "fiat_ok (ctxStore (fst (slashDeposit ctx env)))" "fiat_ok (ctxStore (fst (depositFunds ctx env)))"
    "fiat_ok (ctxStore (fst (withdrawDeposit ctx env)))"
proof -
  note acct = fiat_ok_acct [OF assms, THEN conjunct1]
  note pool = pool_credit_ok [OF fiat_ok_pool [OF assms]]
  show "fiat_ok (ctxStore (fst (slashDeposit ctx env)))"
    by (simp add: slashDeposit_def Let_def assms acct acct_ok_updates pool fiat_ok_setDeposit
        fiat_ok_setInsurancePool split: option.split sum.split)
  show "fiat_ok (ctxStore (fst (withdrawDeposit ctx env)))"
    by (simp add: withdrawDeposit_def assms acct acct_ok_updates fiat_ok_setDeposit
        split: option.split sum.split)
  have new: "acct_ok \<lparr>da_Provider = i, da_Currency = c, da_TotalDeposited = ''0'', da_Available = ''0'',
      da_Frozen = ''0'', da_Slashed = ''0'', da_LastDepositAt = 0, da_LastWithdrawAt = 0, da_Tier = t\<rparr>" for i c t
    by (simp add: acct_ok_def)
  then have "acct_ok (case getDeposit (ctxStore ctx) j of Inr a \<Rightarrow> a
      | Inl _ \<Rightarrow> \<lparr>da_Provider = i, da_Currency = c, da_TotalDeposited = ''0'', da_Available = ''0'',
          da_Frozen = ''0'', da_Slashed = ''0'', da_LastDepositAt = 0, da_LastWithdrawAt = 0, da_Tier = t\<rparr>)"
    for i j c t by (simp add: acct split: sum.split)
  then show "fiat_ok (ctxStore (fst (depositFunds ctx env)))"
    by (simp add: depositFunds_def Let_def assms acct_ok_updates fiat_ok_setDeposit split: option.split)
qed

lemma fiat_ok_exec: "fiat_ok (ctxStore ctx) \<Longrightarrow> fiat_ok (ctxStore (fst (mExecuteTx fiat_New ctx env)))"
  by (simp add: fiat_exec fiat_ok_escrow_handlers fiat_ok_deposit_handlers)

lemma fiat_ok_run: "fiat_ok (ctxStore ctx) \<Longrightarrow> fiat_ok (ctxStore (fiat_run ctx envs))"
  by (induction envs arbitrary: ctx) (simp_all add: fiat_run_def fiat_ok_exec)

lemma fiat_EndBlock_total:
  assumes "fiat_ok (ctxStore ctx)"
  shows "\<exists>evs. fiat_EndBlock ctx = (ctx, Ret evs)"
proof -
  obtain p where p: "getInsurancePool (ctxStore ctx) = Some p" "pool_ok p"
    using assms by (auto simp: fiat_ok_def)
  obtain m b where "amount_is (ip_MaxSinglePayout p) m" "amount_is (ip_BalanceCNY p) b"
    using p(2) by (auto simp: pool_ok_def scaled_def)
  then show ?thesis
    by (simp add: fiat_EndBlock_def p computeSafetyThreshold_def amount_is_def lessDecimal_def dec2_def)
qed

lemma fiat_ok_local:
  assumes "fiat_ok st" "\<And>p k. p \<in> set fiat_prefixes \<Longrightarrow> prefix p k \<Longrightarrow> Get st' k = Get st k"
  shows "fiat_ok st'"
proof -
  have "loadEscrow st' i = loadEscrow st i" "getDeposit st' i = getDeposit st i" for i
    by (rule escrows.load_frame deposits.load_frame;
        use assms(2) escrows.key_pre deposits.key_pre in \<open>auto simp: fiat_prefixes_def\<close>)+
  moreover have "Get st' PrefixFiatPool = Get st PrefixFiatPool" by (rule assms(2) [of PrefixFiatPool]) (simp_all add: fiat_prefixes_def)
  then have "getInsurancePool st' = getInsurancePool st" by (simp add: getInsurancePool_def)
  ultimately show ?thesis using assms(1) by (simp add: fiat_ok_def own_ids_def)
qed

lemma fiat_ok_end: "fiat_ok (ctxStore c) \<Longrightarrow> fiat_ok (ctxStore (fst (mEndBlock fiat_New c)))"
  using fiat_EndBlock_total [of c] by (auto simp: fiat_New_def)

interpretation fiat_inv: module_invariant fiat_New fiat_prefixes fiat_ok
proof (unfold_locales, goal_cases)
  case (4 st st')
  from 4(1,3) show ?case by (rule fiat_ok_local)
qed (simp_all add: fiat_ok_exec fiat_ok_fresh fiat_ok_end)


section \<open>Deposits, slashing and the pool\<close>

definition pool_balance :: "bytes \<Rightarrow> InsurancePool \<Rightarrow> bytes" where
  "pool_balance currency p = (if currency = ''USD'' then ip_BalanceUSD p else ip_BalanceCNY p)"

lemma pool_credit_exact:
  assumes "pool_ok p" "amount_is (pool_balance cur p) b" "amount_is amt x" "has_scale x 8"
  shows "\<exists>p'. pool_credit p cur amt = Some p' \<and> amount_is (pool_balance cur p') (b + x)
    \<and> (\<forall>c. (c = ''USD'') \<noteq> (cur = ''USD'') \<longrightarrow> pool_balance c p' = pool_balance c p)
    \<and> ip_TotalIncome p' = ip_TotalIncome p \<and> pool_ok p'"
proof -
  have "has_scale b 8" using assms(1,2) by (auto simp: pool_ok_def pool_balance_def intro: amount_is_scale split: if_splits)
  then obtain z where z: "addDecimal (pool_balance cur p) amt = Some z" "amount_is z (b + x)"
    using addDecimal_exact [OF assms(2,3) _ assms(4)] by auto
  have "pool_credit p cur amt = Some (if cur = ''USD'' then p\<lparr>ip_BalanceUSD := z\<rparr> else p\<lparr>ip_BalanceCNY := z\<rparr>)"
    using z(1) by (simp add: pool_credit_def pool_balance_def split: if_splits)
  with z(2) pool_credit_ok [OF assms(1) this] show ?thesis by (auto simp: pool_balance_def)
qed


text \<open>The available balance of an account, zero when there is none.\<close>

definition balance :: "Store \<Rightarrow> bytes \<Rightarrow> bytes" where
  "balance st i = (case getDeposit st i of Inr a \<Rightarrow> da_Available a | Inl _ \<Rightarrow> ''0'')"


definition tier_floor :: "bytes \<Rightarrow> rat" where
  "tier_floor tier = (if tier = ''enterprise'' then 100000 else if tier = ''pro'' then 10000 else 1000)"

lemma minDepositForTier_floor: "amount_is (minDepositForTier tier) (tier_floor tier)"
proof -
  have "amount_is ''100000'' 100000" "amount_is ''10000'' 10000" "amount_is ''1000'' 1000"
    unfolding amount_is_def by code_simp+
  then show ?thesis by (simp add: minDepositForTier_def tier_floor_def)
qed

text \<open>C10: a withdrawal of an amount of at most eight decimals goes through exactly when seven days
  have passed since the last deposit, the amount does not exceed the available balance, and what
  is left is not below the floor of the account's tier; it then leaves exactly the difference, and
  otherwise it changes nothing and returns an error.\<close>

theorem withdrawDeposit_iff:
  assumes ok: "fiat_ok (ctxStore ctx)"
    and dec: "DecodeJSONPayload DepositPayload_fields zeroDeposit env = Some p"
    and acc: "getDeposit (ctxStore ctx) (Sender env) = Inr acc"
    and amt: "amount_is (dq_Amount p) a" "has_scale a 8"
    and avail: "amount_is (da_Available acc) v"
  shows "if 604800 \<le> wrap64 (now ctx - da_LastDepositAt acc) \<and> a \<le> v \<and> tier_floor (da_Tier acc) \<le> v - a
    then \<exists>acc'. withdrawDeposit ctx env = (upd_store ctx (setDeposit (ctxStore ctx) acc'), Ret (SuccessResult 2000 []))
      \<and> acc' = acc\<lparr>da_Available := da_Available acc', da_LastWithdrawAt := now ctx\<rparr>
      \<and> amount_is (da_Available acc') (v - a)
    else \<exists>err. withdrawDeposit ctx env = (ctx, Err err)"
proof -
  have "has_scale v 8" using fiat_ok_acct [OF ok acc] avail by (auto simp: acct_ok_def intro: amount_is_scale)
  then obtain z where z: "subDecimal (da_Available acc) (dq_Amount p) = Some z" "amount_is z (v - a)"
    using subDecimal_exact [OF avail amt(1) _ amt(2)] by auto
  have "lessDecimal z (minDepositForTier (da_Tier acc)) = Some (v - a < tier_floor (da_Tier acc))"
    using z(2) minDepositForTier_floor by (simp add: lessDecimal_def dec2_eq)
  moreover have "lessOrEqualDecimal (dq_Amount p) (da_Available acc) = Some (a \<le> v)"
    using amt(1) avail by (simp add: lessOrEqualDecimal_def dec2_eq)
  ultimately show ?thesis using z by (auto simp: withdrawDeposit_def dec acc)
qed

text \<open>C32: a release pays a fifth of the commission, rounded to eight decimals, into the insurance
  pool in the commission's currency and adds the whole commission to its total income; it marks
  the escrow released. It goes through exactly when the escrow is funded or locked and its
  commission is positive, and otherwise changes nothing.\<close>

theorem releaseEscrow_effect:
  assumes ok: "fiat_ok (ctxStore ctx)"
    and dec: "DecodeJSONPayload EscrowRefPayload_fields [] env = Some i"
    and esc: "loadEscrow (ctxStore ctx) i = Inr e" and com: "amount_is (Amount (es_Commission e)) c"
    and pool: "getInsurancePool (ctxStore ctx) = Some pool"
      "amount_is (pool_balance (Currency (es_Commission e)) pool) b" "amount_is (ip_TotalIncome pool) n"
  shows "if (es_Status e = escrowFunded \<or> es_Status e = escrowLocked) \<and> 0 < c
    then \<exists>st' pool'. releaseEscrow ctx env = (upd_store ctx st', Ret (SuccessResult 3000 []))
      \<and> loadEscrow st' i = Inr (e\<lparr>es_Status := escrowReleased, es_ReleasedAt := now ctx\<rparr>)
      \<and> getInsurancePool st' = Some pool'
      \<and> amount_is (pool_balance (Currency (es_Commission e)) pool') (b + round_scaled (c / 5) 8)
      \<and> amount_is (ip_TotalIncome pool') (n + c)
    else \<exists>err. releaseEscrow ctx env = (ctx, Err err)"
proof -
  have own: "es_EscrowID e = i" and c8: "has_scale c 8"
    using fiat_ok_escrow [OF ok esc] com by (auto intro: amount_is_scale)
  have pok: "pool_ok pool" by (rule fiat_ok_pool [OF ok pool(1)])
  have share: "mulRatio c 20 100 = c / 5" by (simp add: mulRatio_def)
  obtain p1 where p1: "pool_credit pool (Currency (es_Commission e)) (FloatString (c / 5) 8) = Some p1"
    "amount_is (pool_balance (Currency (es_Commission e)) p1) (b + round_scaled (c / 5) 8)"
    "ip_TotalIncome p1 = ip_TotalIncome pool" "pool_ok p1"
    using pool_credit_exact [OF pok pool(2) amount_is_8] by auto
  have "amount_is (FloatString c 8) c" using amount_is_8 [of c] c8 by (simp add: round_scaled_exact)
  then obtain z where z: "addDecimal (ip_TotalIncome p1) (FloatString c 8) = Some z" "amount_is z (n + c)"
    using addDecimal_exact [OF pool(3) _ _ c8] pok pool(3) p1(3) by (auto simp: pool_ok_def intro: amount_is_scale)
  have dist: "distributeCommission (ctxStore ctx) (e\<lparr>es_Status := s\<rparr>) =
      (if c \<le> 0 then Err (NewAppError (CodeFIATBase + 1) ''commission must be positive'')
       else Ret (setInsurancePool (ctxStore ctx) (p1\<lparr>ip_TotalIncome := z\<rparr>)))" for s
    using com p1(1) z(1) by (simp add: distributeCommission_def amount_is_def pool share)
  have dist': "distributeCommission (ctxStore ctx) e = distributeCommission (ctxStore ctx) (e\<lparr>es_Status := es_Status e\<rparr>)"
    by simp
  have bal: "pool_balance cur (p1\<lparr>ip_TotalIncome := z\<rparr>) = pool_balance cur p1" for cur
    by (simp add: pool_balance_def)
  show ?thesis
    using p1(2) z(2) own
    by (auto simp: releaseEscrow_def with_escrow_def dec esc dist dist' bal escrows.load_save Let_def
        simp del: Escrow.surjective)
qed

section \<open>Concrete accounts\<close>

definition deposit_tx :: "bytes \<Rightarrow> bytes \<Rightarrow> TxEnvelope" where
  "deposit_tx action amount = mk_tx ''p'' ''fiat'' action (''{\"currency\":\"CNY\",\"amount\":\"'' @ amount @ ''\"}'')"

text \<open>A provider with 12000.5 deposited at time 100, seen a week later.\<close>

definition acct_ctx :: Context where
  "acct_ctx = (fiat_run (fresh_ctx 100) [deposit_tx ''deposit_funds'' ''12000.5''])\<lparr>ctxBlockTime := 604900 * 1000000000\<rparr>"

definition acct0 :: DepositAccount where
  "acct0 = \<lparr>da_Provider = ''p'', da_Currency = ''CNY'', da_TotalDeposited = ''12000.50000000'',
     da_Available = ''12000.50000000'', da_Frozen = ''0'', da_Slashed = ''0'', da_LastDepositAt = 100,
     da_LastWithdrawAt = 0, da_Tier = ''pro''\<rparr>"

lemma acct_ctx_ok: "fiat_ok (ctxStore acct_ctx)"
  by (simp add: acct_ctx_def fiat_ok_run fiat_ok_fresh)

lemma acct_ctx_get: "getDeposit (ctxStore acct_ctx) ''p'' = Inr acct0"
  "getInsurancePool (ctxStore acct_ctx) = Some newPool"
  by code_simp+

lemma acct_amounts: "amount_is (da_Available acct0) (24001 / 2)" "amount_is (da_Slashed acct0) 0"
  "amount_is (pool_balance ''CNY'' newPool) 0" "amount_is ''2000'' 2000"
  unfolding amount_is_def by code_simp+

lemma scale_2000: "has_scale 2000 8"
  using has_scale_of_int [of 2000 8] by simp



theorem withdrawDeposit_iff_witness:
  "\<exists>acc'. withdrawDeposit acct_ctx (deposit_tx ''withdraw_deposit'' ''2000'')
      = (upd_store acct_ctx (setDeposit (ctxStore acct_ctx) acc'), Ret (SuccessResult 2000 []))
    \<and> amount_is (da_Available acc') (20001 / 2)"
proof -
  let ?p = "\<lparr>dq_Currency = ''CNY'', dq_Amount = ''2000''\<rparr>"
  have dec: "DecodeJSONPayload DepositPayload_fields zeroDeposit (deposit_tx ''withdraw_deposit'' ''2000'') = Some ?p"
    by code_simp
  have sender: "Sender (deposit_tx a b) = ''p''" for a b by (simp add: deposit_tx_def mk_tx_def)
  have acc: "getDeposit (ctxStore acct_ctx) (Sender (deposit_tx ''withdraw_deposit'' ''2000'')) = Inr acct0"
    by (simp add: sender acct_ctx_get)
  have t: "604800 \<le> wrap64 (now acct_ctx - da_LastDepositAt acct0)" "tier_floor (da_Tier acct0) = 10000"
    by code_simp+
  have amt: "amount_is (dq_Amount ?p) 2000" by (simp add: acct_amounts)
  from withdrawDeposit_iff [OF acct_ctx_ok dec acc amt scale_2000 acct_amounts(1)] t show ?thesis by auto
qed

text \<open>The escrow of 100 after it was funded.\<close>

definition funded_ctx :: Context where
  "funded_ctx = fiat_run (fresh_ctx 100) [mk_tx ''s'' ''fiat'' ''create_escrow''
     ''{\"escrow_id\":\"e1\",\"service_fee\":{\"currency\":\"CNY\",\"amount\":\"100\"}}'', escrow_tx ''fund_escrow'']"

theorem releaseEscrow_effect_witness:
  "\<exists>st' pool'. releaseEscrow funded_ctx (escrow_tx ''release_escrow'')
      = (upd_store funded_ctx st', Ret (SuccessResult 3000 []))
    \<and> getInsurancePool st' = Some pool'
    \<and> amount_is (ip_BalanceCNY pool') (12 / 5) \<and> amount_is (ip_TotalIncome pool') 12"
proof -
  have ok: "fiat_ok (ctxStore funded_ctx)" by (simp add: funded_ctx_def fiat_ok_run fiat_ok_fresh)
  have dec: "DecodeJSONPayload EscrowRefPayload_fields [] (escrow_tx ''release_escrow'') = Some ''e1''" by code_simp
  have "case loadEscrow (ctxStore funded_ctx) ''e1'' of Inl _ \<Rightarrow> False | Inr e \<Rightarrow> es_Status e = escrowFunded
      \<and> es_Commission e = \<lparr>Currency = ''CNY'', Amount = ''12.00000000''\<rparr>" by code_simp
  then obtain e where e: "loadEscrow (ctxStore funded_ctx) ''e1'' = Inr e" "es_Status e = escrowFunded"
    "es_Commission e = \<lparr>Currency = ''CNY'', Amount = ''12.00000000''\<rparr>" by (auto split: sum.splits)
  have "ParseDecimal ''12.00000000'' = Inr 12" by code_simp
  then have c: "amount_is (Amount (es_Commission e)) 12" by (simp add: e(3) amount_is_def)
  have p: "getInsurancePool (ctxStore funded_ctx) = Some newPool" by code_simp
  have z: "ParseDecimal ''0'' = Inr 0" and r: "round_scaled (12 / 5) 8 = 12 / 5" by code_simp+
  have b: "amount_is (pool_balance (Currency (es_Commission e)) newPool) 0" "amount_is (ip_TotalIncome newPool) 0"
    using z by (simp_all add: e(3) amount_is_def pool_balance_def newPool_def)
  from releaseEscrow_effect [OF ok dec e(1) c p b] show ?thesis
    by (auto simp: e r pool_balance_def)
qed

text \<open>An escrow is created whether or not its identifier is in use: after a second \<open>create_escrow\<close> a refunded escrow
  is pending again, with the terms of the new payload.\<close>

lemma escrow_created_again:
  "map_sum id es_Status (loadEscrow (ctxStore (fiat_run escrow_ctx [escrow_tx ''fund_escrow'', escrow_tx ''refund_escrow''])) ''e1'') = Inr escrowRefunded"
  "map_sum id es_Status (loadEscrow (ctxStore (fiat_run escrow_ctx [escrow_tx ''fund_escrow'', escrow_tx ''refund_escrow'',
     mk_tx ''s'' ''fiat'' ''create_escrow'' ''{\"escrow_id\":\"e1\",\"service_fee\":{\"currency\":\"CNY\",\"amount\":\"1\"}}''])) ''e1'') = Inr escrowPending"
  by code_simp+

section \<open>The end of a block\<close>

interpretation fiat_end: end_local fiat_New fiat_prefixes
proof (unfold_locales, goal_cases)
  case (1 c c')
  then have "getInsurancePool (ctxStore c') = getInsurancePool (ctxStore c)"
    using agree_get [of fiat_prefixes _ _ PrefixFiatPool PrefixFiatPool] by (simp add: getInsurancePool_def fiat_prefixes_def)
  with 1(1) show ?case by (auto simp: fiat_New_def fiat_EndBlock_def split: option.splits)
qed (auto simp: fiat_New_def fiat_EndBlock_def split: option.splits)

end
