(* ===== verification/Node.thy ===== *)
theory Node
  imports Table
begin

text \<open>
  \<open>internal/modules/node/module.go\<close>: registration of nodes with the hardware their tier needs, key
  rotation, the election of validators by a score of deposit, reputation and uptime, and bans.
\<close>

section \<open>Payloads\<close>

definition HardwareSpec_fields :: "(bytes \<times> HardwareSpec field) list" where
  "HardwareSpec_fields =
     [(''cpu_cores'', fld dec_uint32 hw_CPUCores hw_CPUCores_update), (''ram_mb'', fld dec_uint64 hw_RAMMB hw_RAMMB_update),
      (''storage_gb'', fld dec_uint64 hw_StorageGB hw_StorageGB_update),
      (''bandwidth_mbps'', fld dec_uint32 hw_BandwidthMbps hw_BandwidthMbps_update),
      (''arch'', fld dec_string hw_Arch hw_Arch_update), (''gpu'', fld dec_string hw_GPU hw_GPU_update)]"

definition zeroHardware :: HardwareSpec where
  "zeroHardware = \<lparr>hw_CPUCores = 0, hw_RAMMB = 0, hw_StorageGB = 0, hw_BandwidthMbps = 0, hw_Arch = [], hw_GPU = []\<rparr>"

record RegisterPayload =
  rg_Tier :: bytes
  rg_Moniker :: bytes
  rg_Endpoint :: bytes
  rg_Region :: bytes
  rg_Hardware :: HardwareSpec
  rg_DepositTxID :: bytes
  rg_Signature :: bytes
  rg_Deposit :: bytes

definition RegisterPayload_fields :: "(bytes \<times> RegisterPayload field) list" where
  "RegisterPayload_fields =
     [(''tier'', fld dec_string rg_Tier rg_Tier_update), (''moniker'', fld dec_string rg_Moniker rg_Moniker_update),
      (''endpoint'', fld dec_string rg_Endpoint rg_Endpoint_update), (''region'', fld dec_string rg_Region rg_Region_update),
      (''hardware'', fld (dec_struct False HardwareSpec_fields) rg_Hardware rg_Hardware_update),
      (''deposit_tx_id'', fld dec_string rg_DepositTxID rg_DepositTxID_update),
      (''signature'', fld dec_bytes rg_Signature rg_Signature_update), (''deposit'', fld dec_string rg_Deposit rg_Deposit_update)]"

definition zeroRegister :: RegisterPayload where
  "zeroRegister = \<lparr>rg_Tier = [], rg_Moniker = [], rg_Endpoint = [], rg_Region = [], rg_Hardware = zeroHardware,
     rg_DepositTxID = [], rg_Signature = [], rg_Deposit = []\<rparr>"

record RotatePayload =
  rt_OldPubKey :: bytes
  rt_NewPubKey :: bytes
  rt_Signature :: bytes

definition RotatePayload_fields :: "(bytes \<times> RotatePayload field) list" where
  "RotatePayload_fields =
     [(''old_pubkey'', fld dec_bytes rt_OldPubKey rt_OldPubKey_update), (''new_pubkey'', fld dec_bytes rt_NewPubKey rt_NewPubKey_update),
      (''signature'', fld dec_bytes rt_Signature rt_Signature_update)]"

definition zeroRotate :: RotatePayload where
  "zeroRotate = \<lparr>rt_OldPubKey = [], rt_NewPubKey = [], rt_Signature = []\<rparr>"

text \<open>\<open>EpochPayload\<close> has the one field \<open>MaxValidators\<close>, \<open>banPayload\<close> the one field \<open>PubKey\<close>.\<close>

definition EpochPayload_fields :: "(bytes \<times> uint32 field) list" where
  "EpochPayload_fields = [(''max_validators'', fld dec_uint32 id id)]"

definition banPayload_fields :: "(bytes \<times> bytes field) list" where
  "banPayload_fields = [(''pubkey'', fld dec_bytes id id)]"

section \<open>Helpers\<close>

definition NodeKey :: "bytes \<Rightarrow> bytes" where
  "NodeKey pub = PrefixNodeReg @ hex_EncodeToString pub"

definition saveNode :: "Store \<Rightarrow> NodeRegistration \<Rightarrow> Store" where
  "saveNode st n = Set st (NodeKey (nr_PubKey n)) (VNode n)"

definition loadNode :: "Store \<Rightarrow> bytes \<Rightarrow> goerr + NodeRegistration" where
  "loadNode st pub = load_rec un_node (NewAppError CodeNodeBase ''node not found'') json_error st (NodeKey pub)"

definition hardware :: "uint32 \<Rightarrow> uint64 \<Rightarrow> uint64 \<Rightarrow> uint32 \<Rightarrow> HardwareSpec" where
  "hardware cpu ram sto bw = zeroHardware\<lparr>hw_CPUCores := cpu, hw_RAMMB := ram, hw_StorageGB := sto, hw_BandwidthMbps := bw\<rparr>"

definition minimumHardware :: "bytes \<Rightarrow> HardwareSpec" where
  "minimumHardware tier =
     (if tier = ''T0_VALIDATOR'' then hardware 16 (64 * 1024) (2 * 1024) 1000
      else if tier = ''T1_FULL'' then hardware 8 (32 * 1024) 1024 500
      else if tier = ''T2_ARCHIVE'' then hardware 8 (64 * 1024) (10 * 1024) 200
      else if tier = ''T3_RELAY'' then hardware 4 (8 * 1024) 500 500
      else if tier = ''T4_EDGE'' then hardware 2 (4 * 1024) 100 100
      else hardware 1 1024 32 10)"

definition validateHardware :: "bytes \<Rightarrow> HardwareSpec \<Rightarrow> goerr option" where
  "validateHardware tier hw = (let req = minimumHardware tier in
     if hw_CPUCores hw < hw_CPUCores req \<or> hw_RAMMB hw < hw_RAMMB req \<or> hw_StorageGB hw < hw_StorageGB req
       \<or> hw_BandwidthMbps hw < hw_BandwidthMbps req
     then Some (PlainError ''hardware requirement not met for tier %s'') else None)"

text \<open>The leading decimal digits as an \<open>int64\<close>, which wraps around, then rounded to a float.\<close>

fun leading_int :: "bytes \<Rightarrow> int64 \<Rightarrow> int64" where
  "leading_int [] acc = acc"
| "leading_int (c # s) acc = (if (of_char c :: nat) < 48 \<or> 57 < (of_char c :: nat) then acc
     else leading_int s (wrap64 (wrap64 (acc * 10) + (of_char c - 48))))"

definition parseFloat :: "bytes \<Rightarrow> float64" where
  "parseFloat s = fl64 (of_int (leading_int s 0))"

definition DeriveNodeAddress :: "bytes \<Rightarrow> bytes" where
  "DeriveNodeAddress pub = hex_EncodeToString (take 20 (Sum256 pub))"

section \<open>Handlers\<close>

definition node_error :: "uint32 \<Rightarrow> bytes \<Rightarrow> goerr" where
  "node_error n msg = NewAppError (CodeNodeBase + n) msg"

definition registerNode :: handler where
  "registerNode ctx env = (case DecodeJSONPayload RegisterPayload_fields zeroRegister env of
     None \<Rightarrow> (ctx, Err (node_error 1 ''decode register_node: %v''))
   | Some p \<Rightarrow>
     (case validateHardware (rg_Tier p) (rg_Hardware p) of Some e \<Rightarrow> (ctx, Err (node_error 81 ''hardware requirement not met for tier %s''))
      | None \<Rightarrow>
        let n = \<lparr>nr_PubKey = Sender env, nr_Tier = rg_Tier p, nr_Moniker = rg_Moniker p, nr_Endpoint = rg_Endpoint p,
                 nr_Region = rg_Region p, nr_Hardware = rg_Hardware p, nr_DepositTxID = rg_DepositTxID p,
                 nr_RegisteredAt = now ctx, nr_Signature = rg_Signature p, nr_Status = ''REGISTERED'', nr_Uptime30d = 1,
                 nr_Reputation = 500, nr_Deposit = (if rg_Deposit p = [] then ''0'' else rg_Deposit p)\<rparr>
        in (upd_store ctx (saveNode (ctxStore ctx) n), Ret (SuccessResult 2000 []))))"

definition rotateKey :: handler where
  "rotateKey ctx env = (case DecodeJSONPayload RotatePayload_fields zeroRotate env of
     None \<Rightarrow> (ctx, Err (node_error 1 ''decode rotate_key: %v''))
   | Some p \<Rightarrow>
     (case loadNode (ctxStore ctx) (rt_OldPubKey p) of Inl e \<Rightarrow> (ctx, Err e)
      | Inr old \<Rightarrow>
        if \<not> equalBytes (nr_PubKey old) (Sender env) then (ctx, Err (node_error 1 ''sender is not old key''))
        else (upd_store ctx (saveNode (ctxStore ctx) (old\<lparr>nr_PubKey := rt_NewPubKey p\<rparr>)), Ret (SuccessResult 2000 []))))"

definition can_stand :: "NodeRegistration \<Rightarrow> bool" where
  "can_stand n = (if nr_Reputation n < 500 then False
     else if nr_Tier n \<noteq> ''T0_VALIDATOR'' \<and> nr_Tier n \<noteq> ''T1_FULL'' then False else True)"

definition max_deposit :: "NodeRegistration list \<Rightarrow> float64" where
  "max_deposit ns = (let m = foldl (\<lambda>m n. let dep = parseFloat (nr_Deposit n) in if m < dep then dep else m) 0 ns
     in if m = 0 then 1 else m)"

definition node_score :: "float64 \<Rightarrow> NodeRegistration \<Rightarrow> float64" where
  "node_score maxDep n =
     (let dep = parseFloat (nr_Deposit n)
      in fl64 (fl64 (fl64 (fl64 (dep / maxDep) * (1 / 2)) + fl64 (fl64 (of_int (uint (nr_Reputation n)) / 1000) * fl64 (3 / 10)))
           + fl64 (nr_Uptime30d n * fl64 (2 / 10))))"

text \<open>The comparison of \<open>sort.Slice\<close> on pairs of a node and its score.\<close>

definition ranks_before :: "NodeRegistration \<times> float64 \<Rightarrow> NodeRegistration \<times> float64 \<Rightarrow> bool" where
  "ranks_before a b = (if snd a = snd b
     then hex_EncodeToString (nr_PubKey (fst a)) < hex_EncodeToString (nr_PubKey (fst b)) else snd b < snd a)"

definition elected :: "uint32 \<Rightarrow> NodeRegistration list \<Rightarrow> (NodeRegistration \<times> float64) list" where
  "elected maxVals ns =
     (let cands = filter can_stand ns;
          scored = sort_slice ranks_before (map (\<lambda>n. (n, node_score (max_deposit cands) n)) cands)
      in if unat maxVals < length scored then take (unat maxVals) scored else scored)"

definition seat :: "Store \<Rightarrow> NodeRegistration \<times> float64 \<Rightarrow> Store" where
  "seat st c = saveNode (Set st (PrefixNodeVal @ hex_EncodeToString (nr_PubKey (fst c)))
     (VBytes (itoa 10 (float_trunc (fl64 (snd c * 100)))))) ((fst c)\<lparr>nr_Status := ''ACTIVE_VALIDATOR''\<rparr>)"

definition electValidators :: handler where
  "electValidators ctx env = (case DecodeJSONPayload EpochPayload_fields 0 env of
     None \<Rightarrow> (ctx, Err (node_error 1 ''decode elect_validators: %v''))
   | Some m \<Rightarrow>
     let maxVals = (if m = 0 then 21 else m);
         ns = decoded un_node (IteratePrefix (ctxStore ctx) PrefixNodeReg)
     in (upd_store ctx (foldl seat (ctxStore ctx) (elected maxVals ns)), Ret (SuccessResult 5000 [])))"

definition banNode :: handler where
  "banNode ctx env = (case DecodeJSONPayload banPayload_fields [] env of
     None \<Rightarrow> (ctx, Err json_error)
   | Some pub \<Rightarrow>
     (case loadNode (ctxStore ctx) pub of Inl e \<Rightarrow> (ctx, Err e)
      | Inr n \<Rightarrow> (upd_store ctx (saveNode (ctxStore ctx) (n\<lparr>nr_Status := ''BANNED''\<rparr>)), Ret (SuccessResult 2000 []))))"

definition node_EndBlock :: "Context \<Rightarrow> Context \<times> Event list outcome" where
  "node_EndBlock ctx = (ctx, Ret [])"

definition node_handlers :: "(bytes \<times> handler) list" where
  "node_handlers = [(''register_node'', registerNode), (''rotate_key'', rotateKey), (''elect_validators'', electValidators),
     (''ban_node'', banNode)]"

definition node_New :: Module where
  "node_New = mkModule ''node'' node_handlers node_EndBlock"

lemmas node_exec = node_New_def mkModule_sel node_handlers_def dispatch

section \<open>Contract\<close>

interpretation nodes: table loadNode saveNode nr_PubKey NodeKey PrefixNodeReg
  by (rule tableI, rule loadNode_def, rule saveNode_def) (simp_all add: NodeKey_def inj_def)

definition node_prefixes :: "bytes list" where
  "node_prefixes = [PrefixNodeReg, PrefixNodeVal]"

lemma saveNode_confined: "confined node_prefixes c (upd_store c (saveNode (ctxStore c) n))"
  by (rule nodes.save_confined) (simp add: node_prefixes_def)

lemma seat_confined: "confined node_prefixes (upd_store c st) (upd_store c (seat st x))"
proof -
  let ?k = "PrefixNodeVal @ hex_EncodeToString (nr_PubKey (fst x))" and ?v = "VBytes (itoa 10 (float_trunc (fl64 (snd x * 100))))"
  have "confined node_prefixes (upd_store c st) (upd_store c (Set st ?k ?v))"
    using confined_Set [of PrefixNodeVal node_prefixes ?k ?v "upd_store c st"] by (simp add: node_prefixes_def)
  also have "confined node_prefixes (upd_store c (Set st ?k ?v)) (upd_store c (seat st x))"
    using saveNode_confined [of "upd_store c (Set st ?k ?v)"] by (simp add: seat_def)
  finally show ?thesis .
qed

lemma seats_confined: "confined node_prefixes c (upd_store c (foldl seat (ctxStore c) xs))"
proof (induction xs rule: rev_induct)
  case (snoc x xs)
  then show ?case using confined_trans [OF snoc seat_confined] by simp
qed simp

lemma node_handlers_confined: "handlers_confined node_prefixes node_handlers"
  unfolding node_handlers_def handlers_confined_simps
  by (intro conjI allI; simp add: registerNode_def rotateKey_def electValidators_def banNode_def Let_def saveNode_confined
      seats_confined split: option.split sum.split)

lemma node_EndBlock_confined: "confined node_prefixes c (fst (node_EndBlock c))"
  by (simp add: node_EndBlock_def)

interpretation node_mod: module_contract node_New node_prefixes
  unfolding node_New_def by (rule mkModule_contract [OF node_handlers_confined node_EndBlock_confined])

section \<open>Invariant\<close>

definition registration_ok :: "NodeRegistration \<Rightarrow> bool" where
  "registration_ok n \<longleftrightarrow> validateHardware (nr_Tier n) (nr_Hardware n) = None \<and> nr_Reputation n = 500 \<and> nr_Uptime30d n = 1
     \<and> nr_Status n \<in> {''REGISTERED'', ''ACTIVE_VALIDATOR'', ''BANNED''}"

definition node_ok :: "Store \<Rightarrow> bool" where
  "node_ok st \<longleftrightarrow> store_inv st \<and> (\<forall>k n. prefix PrefixNodeReg k \<longrightarrow> Get st k = Some (VNode n) \<longrightarrow> k = NodeKey (nr_PubKey n) \<and> registration_ok n)"

lemma node_ok_inv: "node_ok st \<Longrightarrow> store_inv st"
  by (simp add: node_ok_def)

lemma NodeKey_eq [simp]: "NodeKey e = NodeKey e' \<longleftrightarrow> e = e'"
  by (simp add: NodeKey_def)

lemma loadNode_iff: "loadNode st e = Inr n \<longleftrightarrow> Get st (NodeKey e) = Some (VNode n)"
  by (auto simp: loadNode_def load_rec_def dest: un_SomeD(11) split: option.splits)

lemma node_ok_save: "node_ok st \<Longrightarrow> registration_ok n \<Longrightarrow> node_ok (saveNode st n)"
  by (auto simp: node_ok_def nodes.save_inv) (simp_all add: saveNode_def Get_Set split: if_splits)

lemma node_ok_Set: "node_ok st \<Longrightarrow> \<not> prefix PrefixNodeReg k \<Longrightarrow> node_ok (Set st k v)"
  by (auto simp: node_ok_def Get_Set split: if_splits)

lemma node_ok_load: "node_ok st \<Longrightarrow> loadNode st e = Inr n \<Longrightarrow> nr_PubKey n = e \<and> registration_ok n"
  using nodes.key_pre [of e] unfolding node_ok_def loadNode_iff by (metis NodeKey_eq)

lemma node_ok_mem:
  assumes "node_ok st"
  shows "n \<in> set (decoded un_node (IteratePrefix st PrefixNodeReg)) \<longleftrightarrow> loadNode st (nr_PubKey n) = Inr n"
  unfolding decoded_iff [OF node_ok_inv [OF assms]] loadNode_iff
  using assms nodes.key_pre unfolding node_ok_def by (metis un_SomeD(11) un_simps(11))

lemma set_elected: "set (elected m ns) \<subseteq> (\<lambda>n. (n, node_score (max_deposit (filter can_stand ns)) n)) ` {n \<in> set ns. can_stand n}"
  by (auto simp: elected_def Let_def dest!: in_set_takeD)

lemma foldl_keeps: "(\<And>st x. x \<in> set xs \<Longrightarrow> I st \<Longrightarrow> I (f st x)) \<Longrightarrow> I st \<Longrightarrow> I (foldl f st xs)"
  by (induction xs arbitrary: st) auto

lemma seat_ok: "node_ok st \<Longrightarrow> registration_ok (fst x) \<Longrightarrow> node_ok (seat st x)"
  by (simp add: seat_def) (rule node_ok_save [OF node_ok_Set], simp_all add: registration_ok_def)

lemma node_ok_exec:
  assumes "node_ok (ctxStore c)"
  shows "node_ok (ctxStore (fst (mExecuteTx node_New c env)))"
proof -
  have ld: "registration_ok n" if "loadNode (ctxStore c) e = Inr n" for e n using node_ok_load [OF assms that] by blast
  note save = node_ok_save [OF assms]
  have "node_ok (ctxStore (fst (registerNode c env)))"
    using assms by (auto simp: registerNode_def Let_def registration_ok_def intro!: save split: option.split)
  moreover have "registration_ok (n\<lparr>nr_PubKey := p\<rparr>) \<and> registration_ok (n\<lparr>nr_Status := ''BANNED''\<rparr>)" if "registration_ok n" for n p
    using that by (simp add: registration_ok_def)
  then have "node_ok (ctxStore (fst (rotateKey c env)))" "node_ok (ctxStore (fst (banNode c env)))"
    using assms ld by (auto simp: rotateKey_def banNode_def intro!: save split: option.split sum.split)
  moreover have "node_ok (foldl seat (ctxStore c) (elected m (decoded un_node (IteratePrefix (ctxStore c) PrefixNodeReg))))" for m
  proof (rule foldl_keeps [where I = node_ok, OF seat_ok assms])
    fix st x assume "x \<in> set (elected m (decoded un_node (IteratePrefix (ctxStore c) PrefixNodeReg)))"
    then have "fst x \<in> set (decoded un_node (IteratePrefix (ctxStore c) PrefixNodeReg))" using set_elected by fastforce
    then show "registration_ok (fst x)" using ld node_ok_mem [OF assms] by blast
  qed
  ultimately show ?thesis using assms by (simp add: node_exec electValidators_def Let_def split: option.split)
qed

lemma node_ok_local:
  assumes "node_ok st" "store_inv st \<Longrightarrow> store_inv st'"
    and "\<And>p k. p \<in> set node_prefixes \<Longrightarrow> prefix p k \<Longrightarrow> Get st' k = Get st k"
  shows "node_ok st'"
proof -
  have "Get st' k = Get st k" if "prefix PrefixNodeReg k" for k using assms(3) [OF _ that] by (simp add: node_prefixes_def)
  then show ?thesis using assms(1,2) by (simp add: node_ok_def)
qed

lemma node_ok_fresh: "node_ok (ctxStore (fresh_ctx t))"
  by (simp add: node_ok_def)

interpretation node_inv: module_invariant node_New node_prefixes node_ok
proof (unfold_locales, goal_cases)
  case (4 st st')
  then show ?case by (rule node_ok_local)
qed (simp_all add: node_ok_exec node_ok_fresh, simp add: node_New_def node_EndBlock_def)

section \<open>Elections\<close>

lemma ranks_asym: "ranks_before a b \<Longrightarrow> \<not> ranks_before b a"
  by (auto simp: ranks_before_def split: if_splits)

lemma ranks_negtrans: "\<not> ranks_before b a \<Longrightarrow> \<not> ranks_before c b \<Longrightarrow> \<not> ranks_before c a"
  by (auto simp: ranks_before_def split: if_splits)

text \<open>The elected are the first of the ranking, as many as there are seats and candidates.\<close>

lemma elected_spec:
  fixes ns m
  defines "sc \<equiv> \<lambda>n. (n, node_score (max_deposit (filter can_stand ns)) n)"
  shows "length (elected m ns) = min (unat m) (length (filter can_stand ns))"
    and "x \<in> set (elected m ns) \<Longrightarrow> n \<in> set ns \<Longrightarrow> can_stand n \<Longrightarrow> sc n \<notin> set (elected m ns) \<Longrightarrow> \<not> ranks_before (sc n) x"
    and "x \<in> set (elected m ns) \<Longrightarrow> x = sc (fst x) \<and> fst x \<in> set ns \<and> can_stand (fst x)"
    and "distinct (map nr_PubKey ns) \<Longrightarrow> distinct (map (nr_PubKey \<circ> fst) (elected m ns))"
proof -
  let ?s = "sort_slice ranks_before (map sc (filter can_stand ns))"
  have el: "elected m ns = take (unat m) ?s" by (simp add: elected_def Let_def sc_def)
  show "length (elected m ns) = min (unat m) (length (filter can_stand ns))" by (simp add: el min.commute)
  show "x \<in> set (elected m ns) \<Longrightarrow> x = sc (fst x) \<and> fst x \<in> set ns \<and> can_stand (fst x)"
    using set_elected [of m ns] by (auto simp: sc_def)
  show "\<not> ranks_before (sc n) x" if "x \<in> set (elected m ns)" "n \<in> set ns" "can_stand n" "sc n \<notin> set (elected m ns)"
  proof -
    have "sc n \<in> set ?s" using that(2,3) by simp
    then have d: "sc n \<in> set (drop (unat m) ?s)" using that(4) unfolding el by (metis Un_iff append_take_drop_id set_append)
    have "sorted_wrt (\<lambda>a b. \<not> ranks_before b a) (take (unat m) ?s @ drop (unat m) ?s)"
      using sorted_sort_slice [of ranks_before, OF ranks_asym ranks_negtrans] by simp
    then show ?thesis using that(1) d unfolding el sorted_wrt_append by blast
  qed
  assume "distinct (map nr_PubKey ns)"
  then have "distinct (map (nr_PubKey \<circ> fst) (map sc (filter can_stand ns)))" by (simp add: sc_def comp_def distinct_map_filter)
  moreover have "mset (map (nr_PubKey \<circ> fst) ?s) = mset (map (nr_PubKey \<circ> fst) (map sc (filter can_stand ns)))"
    by (simp only: mset_map mset_sort_slice)
  ultimately have "distinct (map (nr_PubKey \<circ> fst) ?s)" using mset_eq_imp_distinct_iff by blast
  then show "distinct (map (nr_PubKey \<circ> fst) (elected m ns))" unfolding el take_map [symmetric] by (rule distinct_take)
qed

lemma seat_load: "loadNode (seat st x) p = (if p = nr_PubKey (fst x) then Inr ((fst x)\<lparr>nr_Status := ''ACTIVE_VALIDATOR''\<rparr>) else loadNode st p)"
  by (simp add: seat_def nodes.load_save) (rule impI, rule nodes.load_frame, simp add: NodeKey_def Get_Set)

lemma seats_load:
  assumes "distinct (map (nr_PubKey \<circ> fst) xs)"
  shows "loadNode (foldl seat st xs) p = (case find (\<lambda>x. nr_PubKey (fst x) = p) xs of None \<Rightarrow> loadNode st p
    | Some x \<Rightarrow> Inr ((fst x)\<lparr>nr_Status := ''ACTIVE_VALIDATOR''\<rparr>))"
  using assms
proof (induction xs arbitrary: st)
  case (Cons x xs)
  have "find (\<lambda>y. nr_PubKey (fst y) = nr_PubKey (fst x)) xs = None"
    unfolding find_None_iff
  proof
    assume "\<exists>y. y \<in> set xs \<and> nr_PubKey (fst y) = nr_PubKey (fst x)"
    then have "nr_PubKey (fst x) \<in> (nr_PubKey \<circ> fst) ` set xs" by (metis comp_apply image_eqI)
    then show False using Cons.prems by simp
  qed
  with Cons show ?case by (auto simp: seat_load split: option.split)
qed simp

text \<open>Under the invariant no two nodes of an iteration have the same key.\<close>

lemma node_keys_distinct:
  assumes "node_ok st"
  shows "distinct (map nr_PubKey (decoded un_node (IteratePrefix st PrefixNodeReg)))"
proof -
  let ?kvs = "IteratePrefix st PrefixNodeReg"
  have d: "distinct (map fst ?kvs)" using node_ok_inv [OF assms] by (rule store.iter_distinct)
  have key: "fst kv = NodeKey (nr_PubKey n)" if "kv \<in> set ?kvs" "un_node (snd kv) = Some n" for kv n
    using that assms store.iter_mem [OF node_ok_inv [OF assms], of "fst kv" "snd kv" PrefixNodeReg] un_SomeD(11) [of "snd kv" n]
    by (auto simp: node_ok_def)
  have "distinct (map nr_PubKey (decoded un_node kvs))" if "set kvs \<subseteq> set ?kvs" "distinct (map fst kvs)" for kvs
    using that
  proof (induction kvs)
    case (Cons kv kvs)
    have "nr_PubKey n \<notin> nr_PubKey ` set (decoded un_node kvs)" if n: "un_node (snd kv) = Some n" for n
    proof
      assume "nr_PubKey n \<in> nr_PubKey ` set (decoded un_node kvs)"
      then obtain kv' n' where "kv' \<in> set kvs" "un_node (snd kv') = Some n'" "nr_PubKey n' = nr_PubKey n"
        by (auto simp: decoded_def map_filter_def)
      then have "fst kv = fst kv'" using key [of kv n] key [of kv' n'] n Cons.prems(1) by auto
      with \<open>kv' \<in> set kvs\<close> Cons.prems(2) show False by (metis distinct.simps(2) image_eqI list.set_map list.simps(9))
    qed
    with Cons show ?case by (cases "un_node (snd kv)") (auto simp: decoded_def map_filter_simps)
  qed (simp add: decoded_def map_filter_simps)
  then show ?thesis using d by blast
qed


text \<open>In every reachable state each registered node is stored under its own key and has at least the hardware that
  its tier requires.\<close>

theorem hardware_requirement:
  assumes "reach node_New c" "loadNode (ctxStore c) p = Inr n"
  shows "nr_PubKey n = p \<and> hw_CPUCores (minimumHardware (nr_Tier n)) \<le> hw_CPUCores (nr_Hardware n)
    \<and> hw_RAMMB (minimumHardware (nr_Tier n)) \<le> hw_RAMMB (nr_Hardware n)
    \<and> hw_StorageGB (minimumHardware (nr_Tier n)) \<le> hw_StorageGB (nr_Hardware n)
    \<and> hw_BandwidthMbps (minimumHardware (nr_Tier n)) \<le> hw_BandwidthMbps (nr_Hardware n)"
  using node_ok_load [OF node_inv.reach_inv [OF assms(1)] assms(2)]
  by (auto simp: registration_ok_def validateHardware_def Let_def not_less split: if_splits)

section \<open>Concrete nodes\<close>

definition node_register_tx :: "bytes \<Rightarrow> TxEnvelope" where
  "node_register_tx sender = mk_tx sender ''node'' ''register_node''
     ''{\"tier\":\"T1_FULL\",\"deposit\":\"100\",\"hardware\":{\"cpu_cores\":8,\"ram_mb\":32768,\"storage_gb\":1024,\"bandwidth_mbps\":500}}''"

definition node_elect_tx :: TxEnvelope where
  "node_elect_tx = mk_tx ''x'' ''node'' ''elect_validators'' ''{\"max_validators\":1}''"

definition node_ban_tx :: TxEnvelope where
  "node_ban_tx = mk_tx ''x'' ''node'' ''ban_node'' ''{\"pubkey\":[97]}''"

definition node_rotate_tx :: TxEnvelope where
  "node_rotate_tx = mk_tx ''a'' ''node'' ''rotate_key'' ''{\"old_pubkey\":[97],\"new_pubkey\":[98]}''"

definition node_ctx :: Context where
  "node_ctx = run node_New (fresh_ctx 5) [Tx (node_register_tx ''a''), Tx (node_register_tx ''b'')]"

lemma node_ctx_reach: "reach node_New node_ctx"
  unfolding node_ctx_def by (rule reach_run) (rule reach.init)

lemma node_ctx_status: "map_sum id nr_Status (loadNode (ctxStore node_ctx) ''a'') = Inr ''REGISTERED''"
  by code_simp

theorem hardware_requirement_witness:
  "\<exists>n. loadNode (ctxStore node_ctx) ''a'' = Inr n \<and> hw_CPUCores (minimumHardware (nr_Tier n)) \<le> hw_CPUCores (nr_Hardware n)"
proof -
  obtain n where "loadNode (ctxStore node_ctx) ''a'' = Inr n" using node_ctx_status by (cases "loadNode (ctxStore node_ctx) ''a''") auto
  with hardware_requirement [OF node_ctx_reach this] show ?thesis by blast
qed


text \<open>Two observations. An election does not look at bans: a banned node stands and ranks as before, and when it is
  elected its ban is gone. A rotated key leaves the registration of the old key in place, so that
  one registration becomes two.\<close>

lemma ban_is_ignored:
  "can_stand (n\<lparr>nr_Status := ''BANNED''\<rparr>) = can_stand n" "node_score d (n\<lparr>nr_Status := ''BANNED''\<rparr>) = node_score d n"
  "loadNode (seat st (n\<lparr>nr_Status := ''BANNED''\<rparr>, x)) (nr_PubKey n) = Inr (n\<lparr>nr_Status := ''ACTIVE_VALIDATOR''\<rparr>)"
  by (simp_all add: can_stand_def node_score_def seat_load)

lemma rotation_duplicates:
  "map_sum id nr_Status (loadNode (ctxStore (run node_New (fresh_ctx 5) [Tx (node_register_tx ''a''), Tx node_rotate_tx])) ''a'') = Inr ''REGISTERED''"
  "map_sum id nr_Status (loadNode (ctxStore (run node_New (fresh_ctx 5) [Tx (node_register_tx ''a''), Tx node_rotate_tx])) ''b'') = Inr ''REGISTERED''"
  by code_simp+

section \<open>The end of a block\<close>

interpretation node_end: end_local node_New node_prefixes
  by (rule idle_end_local [OF node_mod.module_contract_axioms]) (simp add: node_New_def node_EndBlock_def)

end
