(* ===== verification/Gov.thy ===== *)
theory Gov
  imports Table
begin

text \<open>
  \<open>internal/modules/gov/module.go\<close>: proposals to change parameters, votes on them and their execution.
\<close>

section \<open>Payloads\<close>

definition ParamChange_fields :: "(bytes \<times> ParamChange field) list" where
  "ParamChange_fields = [(''module'', fld dec_string pc_Module pc_Module_update), (''key'', fld dec_string pc_Key pc_Key_update),
     (''value'', fld (\<lambda>j old. dec_any j) pc_Value pc_Value_update)]"

definition zeroChange :: ParamChange where
  "zeroChange = \<lparr>pc_Module = [], pc_Key = [], pc_Value = AnyNil\<rparr>"

record CreateProposalPayload =
  cp_ProposalID :: bytes
  cp_Type :: bytes
  cp_Changes :: "ParamChange list"

definition CreateProposalPayload_fields :: "(bytes \<times> CreateProposalPayload field) list" where
  "CreateProposalPayload_fields =
     [(''proposal_id'', fld dec_string cp_ProposalID cp_ProposalID_update), (''type'', fld dec_string cp_Type cp_Type_update),
      (''changes'', fld (dec_list (dec_struct False ParamChange_fields) zeroChange) cp_Changes cp_Changes_update)]"

definition zeroCreateProposal :: CreateProposalPayload where
  "zeroCreateProposal = \<lparr>cp_ProposalID = [], cp_Type = [], cp_Changes = []\<rparr>"

record VotePayload =
  gv_ProposalID :: bytes
  gv_Vote :: bytes

definition VotePayload_fields :: "(bytes \<times> VotePayload field) list" where
  "VotePayload_fields = [(''proposal_id'', fld dec_string gv_ProposalID gv_ProposalID_update), (''vote'', fld dec_string gv_Vote gv_Vote_update)]"

definition zeroVote :: VotePayload where
  "zeroVote = \<lparr>gv_ProposalID = [], gv_Vote = []\<rparr>"

text \<open>\<open>ExecutePayload\<close> has the one field \<open>ProposalID\<close>.\<close>

definition ExecutePayload_fields :: "(bytes \<times> bytes field) list" where
  "ExecutePayload_fields = [(''proposal_id'', fld dec_string id id)]"

section \<open>Handlers\<close>

definition ProposalKey :: "bytes \<Rightarrow> bytes" where
  "ProposalKey i = PrefixGovProp @ i"

definition saveProposal :: "Store \<Rightarrow> Proposal \<Rightarrow> Store" where
  "saveProposal st p = Set st (ProposalKey (p_ProposalID p)) (VProposal p)"

definition loadProposal :: "Store \<Rightarrow> bytes \<Rightarrow> goerr + Proposal" where
  "loadProposal st i = load_rec un_proposal (NewAppError (CodeGovBase + 90) ''proposal not found'') json_error st (ProposalKey i)"

definition createProposal :: handler where
  "createProposal ctx env = (case DecodeJSONPayload CreateProposalPayload_fields zeroCreateProposal env of
     None \<Rightarrow> (ctx, Err json_error)
   | Some p \<Rightarrow>
     let i = (if cp_ProposalID p = [] then ''p-'' @ itoa 10 (UnixNano (ctxBlockTime ctx)) else cp_ProposalID p);
         prop = \<lparr>p_ProposalID = i, p_Type = cp_Type p, p_Status = ''OPEN'', p_Changes = cp_Changes p,
                 p_Votes = [(''yes'', 0), (''no'', 0), (''abstain'', 0)], p_CreatedAt = now ctx, p_ClosedAt = 0\<rparr>
     in (upd_store ctx (saveProposal (ctxStore ctx) prop), Ret (SuccessResult 2000 [])))"

text \<open>A lookup in the map of votes gives zero for a key that is missing; the count wraps around at 64 bits.\<close>

definition votes_for :: "Proposal \<Rightarrow> bytes \<Rightarrow> int64" where
  "votes_for p v = (case map_of (p_Votes p) v of None \<Rightarrow> 0 | Some n \<Rightarrow> n)"

definition voteProposal :: handler where
  "voteProposal ctx env = (case DecodeJSONPayload VotePayload_fields zeroVote env of
     None \<Rightarrow> (ctx, Err json_error)
   | Some p \<Rightarrow>
     (case loadProposal (ctxStore ctx) (gv_ProposalID p) of Inl e \<Rightarrow> (ctx, Err e)
      | Inr prop \<Rightarrow>
        if p_Status prop \<noteq> ''OPEN'' then (ctx, Err (NewAppError (CodeGovBase + 1) ''proposal is not open''))
        else (case map_of (p_Votes prop) (gv_Vote p) of None \<Rightarrow> (ctx, Err (NewAppError (CodeGovBase + 1) ''invalid vote''))
          | Some n \<Rightarrow>
            let prop = prop\<lparr>p_Votes := AList.update (gv_Vote p) (wrap64 (n + 1)) (p_Votes prop)\<rparr>;
                st = saveProposal (ctxStore ctx) prop;
                st = Set st (PrefixGovVote @ p_ProposalID prop @ ''/'' @ hex_EncodeToString (Sender env)) (VBytes (gv_Vote p))
            in (upd_store ctx st, Ret (SuccessResult 1500 [])))))"

definition set_params :: "ParamChange list \<Rightarrow> Store \<Rightarrow> Store" where
  "set_params cs st = foldl (\<lambda>st c. SetParam st (pc_Module c) (pc_Key c) (pc_Value c)) st cs"

definition executeProposal :: handler where
  "executeProposal ctx env = (case DecodeJSONPayload ExecutePayload_fields [] env of
     None \<Rightarrow> (ctx, Err json_error)
   | Some i \<Rightarrow>
     (case loadProposal (ctxStore ctx) i of Inl e \<Rightarrow> (ctx, Err e)
      | Inr prop \<Rightarrow>
        if p_Status prop \<noteq> ''OPEN'' then (ctx, Err (NewAppError (CodeGovBase + 1) ''proposal is not open''))
        else if votes_for prop ''yes'' \<le> votes_for prop ''no'' then (ctx, Err (NewAppError (CodeGovBase + 1) ''proposal not approved''))
        else let st = set_params (p_Changes prop) (ctxStore ctx);
                 prop = prop\<lparr>p_Status := ''EXECUTED'', p_ClosedAt := now ctx\<rparr>
             in (upd_store ctx (saveProposal st prop), Ret (SuccessResult 2500 []))))"

definition gov_EndBlock :: "Context \<Rightarrow> Context \<times> Event list outcome" where
  "gov_EndBlock ctx = (ctx, Ret [])"

definition gov_handlers :: "(bytes \<times> handler) list" where
  "gov_handlers = [(''create_proposal'', createProposal), (''vote_proposal'', voteProposal), (''execute_proposal'', executeProposal)]"

definition gov_New :: Module where
  "gov_New = mkModule ''gov'' gov_handlers gov_EndBlock"

lemmas gov_exec = gov_New_def mkModule_sel gov_handlers_def dispatch

section \<open>Contract\<close>

interpretation proposals: table loadProposal saveProposal p_ProposalID ProposalKey PrefixGovProp
  by (rule tableI, rule loadProposal_def, rule saveProposal_def) (simp_all add: ProposalKey_def inj_def)

definition gov_prefixes :: "bytes list" where
  "gov_prefixes = [PrefixGovProp, PrefixGovVote, PrefixParams]"

lemma saveProposal_confined: "confined gov_prefixes (upd_store c st) (upd_store c (saveProposal st p))"
  using proposals.save_confined [of gov_prefixes "upd_store c st"] by (simp add: gov_prefixes_def)

lemma vote_confined: "confined gov_prefixes (upd_store c st) (upd_store c (Set st (PrefixGovVote @ i) (VBytes v)))"
  using confined_Set [of PrefixGovVote gov_prefixes "PrefixGovVote @ i" "VBytes v" "upd_store c st"] by (simp add: gov_prefixes_def)

lemma SetParam_confined: "confined gov_prefixes (upd_store c st) (upd_store c (SetParam st m k v))"
  using confined_Set [of PrefixParams gov_prefixes "ParamKey m k" "VParam v" "upd_store c st"]
  by (simp add: gov_prefixes_def SetParam_def ParamKey_def)

lemma set_params_confined: "confined gov_prefixes (upd_store c st) (upd_store c (set_params cs st))"
proof (induction cs rule: rev_induct)
  case (snoc x cs)
  then show ?case using confined_trans [OF snoc SetParam_confined] by (simp add: set_params_def)
qed (simp add: set_params_def)

lemma gov_handlers_confined: "handlers_confined gov_prefixes gov_handlers"
proof -
  have [simp]: "upd_store c (ctxStore c) = c" for c by simp
  have 1: "confined gov_prefixes c (upd_store c (saveProposal (ctxStore c) p))" for c p
    using saveProposal_confined [of "ctxStore c" c] by simp
  have 2: "confined gov_prefixes c (upd_store c (Set (saveProposal (ctxStore c) p) (PrefixGovVote @ i) (VBytes v)))" for c p i v
    by (rule confined_trans [OF 1 vote_confined])
  have 3: "confined gov_prefixes c (upd_store c (saveProposal (set_params cs (ctxStore c)) p))" for c cs p
    using confined_trans [OF set_params_confined [of "ctxStore c" c] saveProposal_confined] by simp
  show ?thesis
    unfolding gov_handlers_def handlers_confined_simps
    by (intro conjI allI; simp add: createProposal_def voteProposal_def executeProposal_def Let_def 1 2 [simplified] 3
        split: option.split sum.split)
qed

lemma gov_EndBlock_confined: "confined gov_prefixes c (fst (gov_EndBlock c))"
  by (simp add: gov_EndBlock_def)

interpretation gov_mod: module_contract gov_New gov_prefixes
  unfolding gov_New_def by (rule mkModule_contract [OF gov_handlers_confined gov_EndBlock_confined])

section \<open>Invariant\<close>

definition proposal_ok :: "Proposal \<Rightarrow> bool" where
  "proposal_ok p \<longleftrightarrow> map fst (p_Votes p) = [''yes'', ''no'', ''abstain'']
     \<and> (p_Status p = ''OPEN'' \<or> p_Status p = ''EXECUTED'' \<and> votes_for p ''no'' < votes_for p ''yes'')"

definition gov_ok :: "Store \<Rightarrow> bool" where
  "gov_ok st \<longleftrightarrow> store_inv st \<and> own_ids loadProposal p_ProposalID st \<and> (\<forall>i p. loadProposal st i = Inr p \<longrightarrow> proposal_ok p)"

lemma gov_ok_save: "gov_ok st \<Longrightarrow> proposal_ok p \<Longrightarrow> gov_ok (saveProposal st p)"
  by (auto simp: gov_ok_def proposals.save_inv proposals.own_ids_save proposals.load_save)

lemma gov_ok_frame:
  assumes "gov_ok st" "store_inv st'" "\<And>k. prefix PrefixGovProp k \<Longrightarrow> Get st' k = Get st k"
  shows "gov_ok st'"
proof -
  have "loadProposal st' i = loadProposal st i" for i by (rule proposals.load_frame) (simp add: assms(3) proposals.key_pre)
  with assms(1,2) show ?thesis by (simp add: gov_ok_def own_ids_def)
qed

lemma gov_ok_Set: "gov_ok st \<Longrightarrow> \<not> prefix PrefixGovProp k \<Longrightarrow> gov_ok (Set st k v)"
  by (rule gov_ok_frame) (auto simp: Get_Set gov_ok_def)

lemma set_params_snoc: "set_params (cs @ [c]) st = SetParam (set_params cs st) (pc_Module c) (pc_Key c) (pc_Value c)"
  by (simp add: set_params_def)

lemma gov_ok_params: "gov_ok st \<Longrightarrow> gov_ok (set_params cs st)"
  by (induction cs rule: rev_induct) (simp_all add: set_params_snoc SetParam_def ParamKey_def gov_ok_Set, simp add: set_params_def)

lemma loadProposal_params: "loadProposal (set_params cs st) i = loadProposal st i"
proof (induction cs rule: rev_induct)
  case (snoc c cs)
  have "loadProposal (SetParam (set_params cs st) (pc_Module c) (pc_Key c) (pc_Value c)) i = loadProposal (set_params cs st) i"
    by (rule proposals.load_frame) (simp add: SetParam_def ParamKey_def ProposalKey_def Get_Set)
  with snoc show ?case by (simp add: set_params_snoc)
qed (simp add: set_params_def)

lemma gov_ok_exec:
  assumes "gov_ok (ctxStore c)"
  shows "gov_ok (ctxStore (fst (mExecuteTx gov_New c env)))"
proof -
  have ld: "proposal_ok p" if "loadProposal (ctxStore c) i = Inr p" for i p using assms that by (simp add: gov_ok_def)
  have keys: "map fst (AList.update k v al) = map fst al" if "map_of al k = Some n" for k v n and al :: "(bytes \<times> int64) list"
    using that by (induction al) auto
  have "gov_ok (ctxStore (fst (createProposal c env)))"
    using assms by (auto simp: createProposal_def Let_def proposal_ok_def intro!: gov_ok_save split: option.split)
  moreover have "gov_ok (ctxStore (fst (voteProposal c env)))"
  proof -
    have "gov_ok (saveProposal (ctxStore c) (p\<lparr>p_Votes := AList.update k v (p_Votes p)\<rparr>))"
      if "loadProposal (ctxStore c) i = Inr p" "p_Status p = ''OPEN''" "map_of (p_Votes p) k = Some n" for i p k v n
      using ld [OF that(1)] that(2) keys [OF that(3)] by (intro gov_ok_save [OF assms]) (simp add: proposal_ok_def)
    then show ?thesis using assms by (simp add: voteProposal_def Let_def gov_ok_Set split: option.split sum.split)
  qed
  moreover have "gov_ok (ctxStore (fst (executeProposal c env)))"
  proof -
    have "proposal_ok (p\<lparr>p_Status := ''EXECUTED'', p_ClosedAt := t\<rparr>)"
      if "proposal_ok p" "\<not> votes_for p ''yes'' \<le> votes_for p ''no''" for p t
      using that by (simp add: proposal_ok_def votes_for_def)
    then show ?thesis using assms ld
      by (auto simp: executeProposal_def Let_def intro!: gov_ok_save gov_ok_params split: option.split sum.split)
  qed
  ultimately show ?thesis using assms by (simp add: gov_exec)
qed

lemma gov_ok_local:
  assumes "gov_ok st" "store_inv st \<Longrightarrow> store_inv st'"
    and "\<And>p k. p \<in> set gov_prefixes \<Longrightarrow> prefix p k \<Longrightarrow> Get st' k = Get st k"
  shows "gov_ok st'"
  using assms(3) by (intro gov_ok_frame [OF assms(1) assms(2)]) (use assms(1) in \<open>auto simp: gov_ok_def gov_prefixes_def\<close>)

lemma gov_ok_fresh: "gov_ok (ctxStore (fresh_ctx t))"
  by (simp add: gov_ok_def own_ids_fresh loadProposal_def load_rec_def)

interpretation gov_inv: module_invariant gov_New gov_prefixes gov_ok
proof (unfold_locales, goal_cases)
  case (4 st st')
  then show ?case by (rule gov_ok_local)
qed (simp_all add: gov_ok_exec gov_ok_fresh, simp add: gov_New_def gov_EndBlock_def)

section \<open>Parameters\<close>

text \<open>The value the last of a list of changes gives to the key of a parameter.\<close>

definition last_change :: "ParamChange list \<Rightarrow> bytes \<Rightarrow> goany option" where
  "last_change cs k = map_option pc_Value (find (\<lambda>c. ParamKey (pc_Module c) (pc_Key c) = k) (rev cs))"

lemma set_params_get: "Get (set_params cs st) k = (case last_change cs k of None \<Rightarrow> Get st k | Some v \<Rightarrow> Some (VParam v))"
  by (induction cs rule: rev_induct) (auto simp: set_params_snoc SetParam_def Get_Set last_change_def split: option.split, simp add: set_params_def)

lemma last_change_mem: "last_change cs k = Some v \<Longrightarrow> \<exists>c\<in>set cs. ParamKey (pc_Module c) (pc_Key c) = k \<and> pc_Value c = v"
  by (auto simp: last_change_def find_Some_iff) (metis diff_less length_pos_if_in_set nth_mem rev_nth set_rev length_rev)

lemma executeProposal_run:
  assumes "DecodeJSONPayload ExecutePayload_fields [] env = Some i" "loadProposal (ctxStore ctx) i = Inr prop"
  shows "executeProposal ctx env = (if p_Status prop \<noteq> ''OPEN'' then (ctx, Err (NewAppError (CodeGovBase + 1) ''proposal is not open''))
    else if votes_for prop ''yes'' \<le> votes_for prop ''no'' then (ctx, Err (NewAppError (CodeGovBase + 1) ''proposal not approved''))
    else (upd_store ctx (saveProposal (set_params (p_Changes prop) (ctxStore ctx)) (prop\<lparr>p_Status := ''EXECUTED'', p_ClosedAt := now ctx\<rparr>)),
      Ret (SuccessResult 2500 [])))"
  using assms by (simp add: executeProposal_def Let_def)

lemma param_untouched: "\<not> prefix PrefixParams (PrefixGovProp @ i)" "\<not> prefix PrefixParams (PrefixGovVote @ i)"
  by simp_all

text \<open>C18: the execution of a proposal succeeds exactly when it is open and has more votes for than against. Then each
  parameter it names has the value of the last change for it, every other key under the parameters
  is as it was, and the proposal is executed.\<close>

theorem execute_applies:
  assumes "own_ids loadProposal p_ProposalID (ctxStore ctx)" "DecodeJSONPayload ExecutePayload_fields [] env = Some i"
    and "loadProposal (ctxStore ctx) i = Inr prop"
  shows "(case snd (executeProposal ctx env) of Ret r \<Rightarrow> True | _ \<Rightarrow> False) = (p_Status prop = ''OPEN'' \<and> votes_for prop ''no'' < votes_for prop ''yes'')
    \<and> (p_Status prop = ''OPEN'' \<and> votes_for prop ''no'' < votes_for prop ''yes'' \<longrightarrow>
        loadProposal (ctxStore (fst (executeProposal ctx env))) i = Inr (prop\<lparr>p_Status := ''EXECUTED'', p_ClosedAt := now ctx\<rparr>)
      \<and> (\<forall>m k. Get (ctxStore (fst (executeProposal ctx env))) (ParamKey m k) = (case last_change (p_Changes prop) (ParamKey m k) of
           None \<Rightarrow> Get (ctxStore ctx) (ParamKey m k) | Some v \<Rightarrow> Some (VParam v))))"
proof -
  have pid: "p_ProposalID prop = i" using assms(1,3) by (simp add: own_ids_def)
  have "Get (saveProposal st p) (ParamKey m k) = Get st (ParamKey m k)" for st p m k
    by (rule proposals.load_save_elsewhere) (simp add: ParamKey_def)
  then show ?thesis by (auto simp: executeProposal_run [OF assms(2,3)] proposals.load_save pid set_params_get)
qed

text \<open>C27: parameters change only by an approved proposal. When a governance transaction changes what is stored under the
  key of a parameter, it executes a proposal that was open, had more votes for than against and
  names that parameter with its new value.\<close>

theorem params_need_approval:
  assumes "Get (ctxStore (fst (mExecuteTx gov_New ctx env))) (ParamKey m k) \<noteq> Get (ctxStore ctx) (ParamKey m k)"
  shows "Action env = ''execute_proposal'' \<and> (\<exists>i prop. loadProposal (ctxStore ctx) i = Inr prop \<and> p_Status prop = ''OPEN''
    \<and> votes_for prop ''no'' < votes_for prop ''yes''
    \<and> (\<exists>c\<in>set (p_Changes prop). ParamKey (pc_Module c) (pc_Key c) = ParamKey m k
         \<and> Get (ctxStore (fst (mExecuteTx gov_New ctx env))) (ParamKey m k) = Some (VParam (pc_Value c))))"
proof -
  have sv: "Get (saveProposal st p) (ParamKey m k) = Get st (ParamKey m k)" for st p
    by (rule proposals.load_save_elsewhere) (simp add: ParamKey_def)
  have vt: "Get (Set st (PrefixGovVote @ i) v) (ParamKey m k) = Get st (ParamKey m k)" for st i v
    by (simp add: ParamKey_def Get_Set)
  have "Get (ctxStore (fst (createProposal ctx env))) (ParamKey m k) = Get (ctxStore ctx) (ParamKey m k)"
    "Get (ctxStore (fst (voteProposal ctx env))) (ParamKey m k) = Get (ctxStore ctx) (ParamKey m k)"
    by (simp_all add: createProposal_def voteProposal_def Let_def sv vt [simplified] split: option.split sum.split)
  then have act: "Action env = ''execute_proposal''" using assms by (auto simp: gov_exec split: if_splits)
  then have x: "mExecuteTx gov_New ctx env = executeProposal ctx env" by (simp add: gov_exec)
  obtain i pr where ip: "DecodeJSONPayload ExecutePayload_fields [] env = Some i" "loadProposal (ctxStore ctx) i = Inr pr"
    using assms unfolding x by (auto simp: executeProposal_def split: option.splits sum.splits)
  note run = executeProposal_run [OF ip]
  have ap: "p_Status pr = ''OPEN''" "\<not> votes_for pr ''yes'' \<le> votes_for pr ''no''"
    using assms unfolding x run by (auto split: if_splits)
  have "Get (ctxStore (fst (executeProposal ctx env))) (ParamKey m k) = (case last_change (p_Changes pr) (ParamKey m k) of
      None \<Rightarrow> Get (ctxStore ctx) (ParamKey m k) | Some v \<Rightarrow> Some (VParam v))" using ap by (simp add: run sv set_params_get)
  moreover from this obtain v where "last_change (p_Changes pr) (ParamKey m k) = Some v" using assms unfolding x by (auto split: option.splits)
  moreover from last_change_mem [OF this] obtain c where "c \<in> set (p_Changes pr)" "ParamKey (pc_Module c) (pc_Key c) = ParamKey m k" "pc_Value c = v" by blast
  ultimately show ?thesis using act ap ip(2) unfolding x by (intro conjI exI [of _ i] exI [of _ pr] bexI [of _ c]) auto
qed

text \<open>In every reachable state a proposal is open or executed, counts votes for the three options only, and an executed
  one has more votes for than against.\<close>

theorem executed_is_approved:
  assumes "reach gov_New c" "loadProposal (ctxStore c) i = Inr p"
  shows "p_ProposalID p = i \<and> map fst (p_Votes p) = [''yes'', ''no'', ''abstain'']
    \<and> (p_Status p = ''OPEN'' \<or> p_Status p = ''EXECUTED'' \<and> votes_for p ''no'' < votes_for p ''yes'')"
  using gov_inv.reach_inv [OF assms(1)] assms(2) by (simp add: gov_ok_def own_ids_def proposal_ok_def)

section \<open>Concrete proposals\<close>

definition gov_tx :: "bytes \<Rightarrow> bytes \<Rightarrow> bytes \<Rightarrow> TxEnvelope" where
  "gov_tx sender act payload = mk_tx sender ''gov'' act payload"

definition gov_steps :: "step list" where
  "gov_steps = [Tx (gov_tx ''a'' ''create_proposal'' ''{\"proposal_id\":\"p\",\"changes\":[{\"module\":\"amx\",\"key\":\"fee\",\"value\":true}]}''),
     Tx (gov_tx ''b'' ''vote_proposal'' ''{\"proposal_id\":\"p\",\"vote\":\"yes\"}'')]"

definition gov_ctx :: Context where
  "gov_ctx = run gov_New (fresh_ctx 5) gov_steps"

definition gov_exec_tx :: TxEnvelope where
  "gov_exec_tx = gov_tx ''c'' ''execute_proposal'' ''{\"proposal_id\":\"p\"}''"

definition proposal0 :: Proposal where
  "proposal0 = \<lparr>p_ProposalID = ''p'', p_Type = [], p_Status = ''OPEN'', p_Changes = [\<lparr>pc_Module = ''amx'', pc_Key = ''fee'', pc_Value = AnyBool True\<rparr>],
     p_Votes = [(''yes'', 1), (''no'', 0), (''abstain'', 0)], p_CreatedAt = 5, p_ClosedAt = 0\<rparr>"

lemma gov_ctx_reach: "reach gov_New gov_ctx"
  unfolding gov_ctx_def by (rule reach_run) (rule reach.init)

lemma gov_ctx_load: "loadProposal (ctxStore gov_ctx) ''p'' = Inr proposal0"
  by code_simp

lemma gov_exec_decoded: "DecodeJSONPayload ExecutePayload_fields [] gov_exec_tx = Some ''p''"
  by code_simp

theorem executed_is_approved_witness:
  "reach gov_New gov_ctx \<and> loadProposal (ctxStore gov_ctx) ''p'' = Inr proposal0 \<and> p_ProposalID proposal0 = ''p''"
  using executed_is_approved [OF gov_ctx_reach gov_ctx_load] gov_ctx_reach gov_ctx_load by blast

theorem execute_applies_witness:
  "Get (ctxStore (fst (executeProposal gov_ctx gov_exec_tx))) (ParamKey ''amx'' ''fee'') = Some (VParam (AnyBool True))"
proof -
  have own: "own_ids loadProposal p_ProposalID (ctxStore gov_ctx)" using gov_inv.reach_inv [OF gov_ctx_reach] by (simp add: gov_ok_def)
  have "p_Status proposal0 = ''OPEN''" "votes_for proposal0 ''no'' < votes_for proposal0 ''yes''"
    "last_change (p_Changes proposal0) (ParamKey ''amx'' ''fee'') = Some (AnyBool True)"
    by (simp_all add: proposal0_def votes_for_def last_change_def)
  with execute_applies [OF own gov_exec_decoded gov_ctx_load] show ?thesis by simp
qed

lemma gov_executed: "GetParam (ctxStore (fst (mExecuteTx gov_New gov_ctx gov_exec_tx))) ''amx'' ''fee'' = Some (AnyBool True)"
  "GetParam (ctxStore gov_ctx) ''amx'' ''fee'' = None"
  by code_simp+

theorem params_need_approval_witness:
  "\<exists>i prop. loadProposal (ctxStore gov_ctx) i = Inr prop \<and> p_Status prop = ''OPEN'' \<and> votes_for prop ''no'' < votes_for prop ''yes''"
proof -
  have "Get (ctxStore (fst (mExecuteTx gov_New gov_ctx gov_exec_tx))) (ParamKey ''amx'' ''fee'') \<noteq> Get (ctxStore gov_ctx) (ParamKey ''amx'' ''fee'')"
    using gov_executed by (auto simp: GetParam_def)
  from params_need_approval [OF this] show ?thesis by blast
qed

text \<open>The votes of one sender are all counted, and a proposal that is created again under the same identifier is
  open with no votes, executed or not.\<close>

lemma repeated_votes_count:
  "map_sum id (\<lambda>p. votes_for p ''yes'') (loadProposal (ctxStore (run gov_New gov_ctx
     [Tx (gov_tx ''b'' ''vote_proposal'' ''{\"proposal_id\":\"p\",\"vote\":\"yes\"}'')])) ''p'') = Inr 2"
  by code_simp

lemma recreated_proposal_reopens:
  "map_sum id p_Status (loadProposal (ctxStore (run gov_New gov_ctx [Tx gov_exec_tx])) ''p'') = Inr ''EXECUTED''"
  "map_sum id p_Status (loadProposal (ctxStore (run gov_New gov_ctx [Tx gov_exec_tx,
     Tx (gov_tx ''a'' ''create_proposal'' ''{\"proposal_id\":\"p\"}'')])) ''p'') = Inr ''OPEN''"
  by code_simp+

section \<open>The end of a block\<close>

interpretation gov_end: end_local gov_New gov_prefixes
  by (rule idle_end_local [OF gov_mod.module_contract_axioms]) (simp add: gov_New_def gov_EndBlock_def)

end
