(* ===== verification/Abci.thy ===== *)
theory Abci
  imports Marshal Amx Aap Weave Caputxo Rep Arb Afd Fiat Node Gov
begin

text \<open>
  \<open>internal/abci\<close> and the part of \<open>internal/crypto\<close> it calls: the application that consensus drives.
  A block is executed transaction by transaction (decoding, basic checks, time-out, signature, nonce,
  gas, dispatch), then every module ends the block and the store is committed.

  Three things are arguments, gathered in the record \<open>Env\<close>: the check of an Ed25519 signature, the JSON text of a
  stored struct (which also depends on whether an empty slice is \<open>nil\<close>, a difference that the model does not keep), and
  the order in which Go ranges over the map of modules.
\<close>

section \<open>gas.go\<close>

record GasContext =
  Limit :: uint64
  Used :: uint64

definition NewGasContext :: "uint64 \<Rightarrow> GasContext" where
  "NewGasContext limit = \<lparr>Limit = limit, Used = 0\<rparr>"

definition Consume :: "GasContext \<Rightarrow> uint64 \<Rightarrow> GasContext \<times> goerr option" where
  "Consume g amount = (let g = g\<lparr>Used := Used g + amount\<rparr> in
     (g, if Limit g < Used g then Some (NewAppError CodeOutOfGas ''out of gas during %s'') else None))"

section \<open>app.go\<close>

record App =
  appStore :: Store
  appRouter :: Router
  appEventBus :: Bus
  appLastHash :: bytes

definition app_modules :: "(bytes \<Rightarrow> bytes) \<Rightarrow> Module list" where
  "app_modules uni = [amx_New uni, aap_New, weave_New, caputxo_New, rep_New, arb_New, afd_New, fiat_New, node_New, gov_New]"

lemmas New_defs = amx_New_def aap_New_def weave_New_def caputxo_New_def rep_New_def arb_New_def afd_New_def fiat_New_def
  node_New_def gov_New_def

fun register_all :: "Router \<Rightarrow> Module list \<Rightarrow> Router outcome" where
  "register_all r [] = Ret r"
| "register_all r (m # ms) = (case Register r m of Inl e \<Rightarrow> Panic | Inr r' \<Rightarrow> register_all r' ms)"

text \<open>The arguments are the environment variable of the store backend and the Unicode table.\<close>

definition NewApp :: "bytes \<Rightarrow> (bytes \<Rightarrow> bytes) \<Rightarrow> App outcome" where
  "NewApp backend uni = (case NewStore backend of
     Ret st \<Rightarrow> (case register_all newRouter (app_modules uni) of
         Ret r \<Rightarrow> Ret \<lparr>appStore = st, appRouter = r, appEventBus = newBus, appLastHash = []\<rparr>
       | Err e \<Rightarrow> Err e | Panic \<Rightarrow> Panic)
   | Err e \<Rightarrow> Err e | Panic \<Rightarrow> Panic)"

section \<open>ed25519.go\<close>

record Env =
  ed25519_Verify :: "bytes \<Rightarrow> bytes \<Rightarrow> bytes \<Rightarrow> bool"
  marshal_val :: "val \<Rightarrow> bytes"
  map_order :: "Module list \<Rightarrow> Module list"

definition VerifySignature :: "Env \<Rightarrow> bytes \<Rightarrow> bytes \<Rightarrow> bytes \<Rightarrow> bool" where
  "VerifySignature E pub message signature = ed25519_Verify E pub (Sum256 message) signature"

definition PubKeyToAddress :: "bytes \<Rightarrow> bytes" where
  "PubKeyToAddress pub = take 20 (Sum256 pub)"

section \<open>lifecycle.go\<close>

text \<open>The zero \<open>time.Time\<close> is the year 1.\<close>

definition zeroTime :: time where
  "zeroTime = - 62135596800 * 1000000000"

definition InitChain :: "Env \<Rightarrow> App \<Rightarrow> (bytes \<Rightarrow> bytes) option \<Rightarrow> App \<times> bytes outcome" where
  "InitChain E a req =
     (let ctx = \<lparr>ctxStore = appStore a, ctxEventBus = appEventBus a, ctxHeight = 0, ctxBlockTime = zeroTime\<rparr>;
          (ctx, r) = (case req of None \<Rightarrow> (ctx, Ret ())
            | Some genesis \<Rightarrow> router_InitGenesis (map_order E (map snd (modules (appRouter a)))) ctx genesis);
          a = a\<lparr>appStore := ctxStore ctx, appEventBus := ctxEventBus ctx\<rparr>
      in case r of Err e \<Rightarrow> (a, Err e) | Panic \<Rightarrow> (a, Panic)
         | Ret _ \<Rightarrow> (case Commit (marshal_val E) (appStore a) of (h, v, st) \<Rightarrow>
             (a\<lparr>appStore := st, appLastHash := h\<rparr>, Ret h)))"

definition PrepareProposal :: "bytes list option \<Rightarrow> bytes list" where
  "PrepareProposal req = (case req of None \<Rightarrow> [] | Some txs \<Rightarrow> filter (\<lambda>tx. length tx \<le> 262144) txs)"

fun process_loop :: "bytes list \<Rightarrow> bool" where
  "process_loop [] = True"
| "process_loop (raw # txs) = (if 262144 < length raw then False else process_loop txs)"

definition ProcessProposal :: "bytes list option \<Rightarrow> bool" where
  "ProcessProposal req = (case req of None \<Rightarrow> True | Some txs \<Rightarrow> process_loop txs)"

text \<open>The text of an error.\<close>

definition err_text :: "goerr \<Rightarrow> bytes" where
  "err_text e = (case e of AppError c msg \<Rightarrow> msg | PlainError msg \<Rightarrow> msg)"

text \<open>The checks before a transaction is dispatched: the envelope with the gas used, or the failure that is recorded.\<close>

definition payload_gas :: "bytes \<Rightarrow> uint64" where
  "payload_gas payload = of_nat ((length payload + 1023) div 1024 * 10)"

definition admit :: "Env \<Rightarrow> Context \<Rightarrow> bytes \<Rightarrow> ExecTxResult + (TxEnvelope \<times> uint64)" where
  "admit E ctx raw = (case DecodeTx raw of
     None \<Rightarrow> Inl (FailResult CodeDecodeFail (err_text json_error))
   | Some env \<Rightarrow>
     (case ValidateBasic env of Some e \<Rightarrow> Inl (FailResult CodeDecodeFail (err_text e))
      | None \<Rightarrow>
        if 0 < TimeoutHeight env \<and> TimeoutHeight env < ctxHeight ctx then Inl (FailResult CodeDecodeFail ''tx timeout height exceeded'')
        else (case SignBytes env of None \<Rightarrow> Inl (FailResult CodeDecodeFail (err_text json_error))
          | Some signBytes \<Rightarrow>
            if \<not> VerifySignature E (Sender env) signBytes (Signature env) then Inl (FailResult CodeBadSignature ''invalid signature'')
            else let expectedNonce = GetNonce (ctxStore ctx) (Sender env) in
              if Nonce env \<noteq> expectedNonce then Inl (FailResult CodeBadNonce ''expected nonce %d got %d'')
              else (case Consume (NewGasContext (GasLimit env)) 1000 of
                  (g, Some e) \<Rightarrow> Inl (FailResult CodeOutOfGas (err_text e))
                | (g, None) \<Rightarrow>
                  (case Consume g (payload_gas (Payload env)) of
                     (g, Some e) \<Rightarrow> Inl (FailResult CodeOutOfGas (err_text e))
                   | (g, None) \<Rightarrow> Inr (env, Used g))))))"

text \<open>The body of the loop over the transactions of a block.\<close>

definition deliver :: "Env \<Rightarrow> Router \<Rightarrow> Context \<Rightarrow> bytes \<Rightarrow> Context \<times> ExecTxResult outcome" where
  "deliver E r ctx raw = (case admit E ctx raw of Inl res \<Rightarrow> (ctx, Ret res)
   | Inr (env, used) \<Rightarrow>
     (case Execute r ctx env of
        (ctx', Err e) \<Rightarrow> (ctx', Ret (FailResult (CodeFromError (Some e) CodeUnknownMod) (err_text e)))
      | (ctx', Panic) \<Rightarrow> (ctx', Panic)
      | (ctx', Ret res) \<Rightarrow>
        let res = res\<lparr>res_GasUsed := res_GasUsed res + used\<rparr>;
            ctx'' = (if res_Code res = CodeOK
                     then upd_store ctx' (SetNonce (ctxStore ctx') (Sender env) (GetNonce (ctxStore ctx) (Sender env) + 1)) else ctx')
        in (ctx'', Ret res)))"

fun deliver_all :: "Env \<Rightarrow> Router \<Rightarrow> Context \<Rightarrow> bytes list \<Rightarrow> Context \<times> ExecTxResult list outcome" where
  "deliver_all E r ctx [] = (ctx, Ret [])"
| "deliver_all E r ctx (raw # txs) = (case deliver E r ctx raw of
     (ctx', Ret res) \<Rightarrow> (case deliver_all E r ctx' txs of
         (ctx'', Ret rs) \<Rightarrow> (ctx'', Ret (res # rs)) | (ctx'', Err e) \<Rightarrow> (ctx'', Err e) | (ctx'', Panic) \<Rightarrow> (ctx'', Panic))
   | (ctx', Err e) \<Rightarrow> (ctx', Err e) | (ctx', Panic) \<Rightarrow> (ctx', Panic))"

record FinalizeBlockRequest =
  fb_Height :: int64
  fb_Time :: time
  fb_Txs :: "bytes list"

record FinalizeBlockResponse =
  fr_TxResults :: "ExecTxResult list"
  fr_AppHash :: bytes
  fr_Events :: "Event list"

definition FinalizeBlock :: "Env \<Rightarrow> App \<Rightarrow> FinalizeBlockRequest option \<Rightarrow> App \<times> FinalizeBlockResponse outcome" where
  "FinalizeBlock E a request = (case request of
     None \<Rightarrow> (a, Err (PlainError ''nil finalize request''))
   | Some req \<Rightarrow>
     let ctx = \<lparr>ctxStore = appStore a, ctxEventBus = appEventBus a, ctxHeight = fb_Height req, ctxBlockTime = fb_Time req\<rparr>;
         back = (\<lambda>ctx. a\<lparr>appStore := ctxStore ctx, appEventBus := ctxEventBus ctx\<rparr>)
     in (case deliver_all E (appRouter a) ctx (fb_Txs req) of
           (ctx, Err e) \<Rightarrow> (back ctx, Err e)
         | (ctx, Panic) \<Rightarrow> (back ctx, Panic)
         | (ctx, Ret results) \<Rightarrow>
           (case router_EndBlock (map_order E (map snd (modules (appRouter a)))) ctx of
              (ctx, Err e) \<Rightarrow> (back ctx, Err e)
            | (ctx, Panic) \<Rightarrow> (back ctx, Panic)
            | (ctx, Ret endEvents) \<Rightarrow>
              let bus = foldl Emit (ctxEventBus ctx) endEvents;
                  (h, v, st) = Commit (marshal_val E) (ctxStore ctx);
                  (evs, bus) = Flush bus
              in (a\<lparr>appStore := st, appEventBus := bus, appLastHash := h\<rparr>,
                  Ret \<lparr>fr_TxResults = results, fr_AppHash = h, fr_Events = evs\<rparr>))))"

text \<open>\<open>Commit\<close> of the application only answers; the store was committed with the block.\<close>

definition app_Commit :: "App \<Rightarrow> int64" where
  "app_Commit a = 0"

record QueryRequest =
  qr_Module :: bytes
  qr_Path :: bytes
  qr_Data :: bytes

definition app_Query :: "Env \<Rightarrow> App \<Rightarrow> QueryRequest option \<Rightarrow> bytes outcome" where
  "app_Query E a request = (case request of None \<Rightarrow> Ret []
   | Some req \<Rightarrow>
     let ctx = \<lparr>ctxStore = appStore a, ctxEventBus = appEventBus a, ctxHeight = 0, ctxBlockTime = zeroTime\<rparr>
     in if qr_Module req = ''state'' then
          (case Get (appStore a) (qr_Data req) of None \<Rightarrow> Ret [] | Some v \<Rightarrow> Ret (val_bytes (marshal_val E) v))
        else router_Query (appRouter a) ctx (qr_Module req) (qr_Path req) (qr_Data req))"

definition LastAppHashHex :: "App \<Rightarrow> bytes" where
  "LastAppHashHex a = hex_EncodeToString (appLastHash a)"

end
