(* ===== verification/Compose.thy ===== *)
theory Compose
  imports Abci
begin

text \<open>
  The application as a whole: what the modules promise each by itself holds of the blocks that run them
  together. The composition of modules with disjoint key spaces is the locale \<open>composition\<close>, which
  is interpreted on the ten modules of the application.
\<close>

section \<open>Modules side by side\<close>

text \<open>A part is a module with its prefixes and its invariant.\<close>

type_synonym part = "Module \<times> bytes list \<times> (Store \<Rightarrow> bool)"

definition parts_ok :: "part list \<Rightarrow> Store \<Rightarrow> bool" where
  "parts_ok ps st \<longleftrightarrow> (\<forall>(m, owned, I) \<in> set ps. I st)"

definition apart :: "bytes list \<Rightarrow> bytes list \<Rightarrow> bool" where
  "apart ps qs \<longleftrightarrow> list_all (\<lambda>p. list_all (\<lambda>q. \<not> prefix p q \<and> \<not> prefix q p) qs) ps"

lemma apartD: "apart ps qs \<Longrightarrow> p \<in> set ps \<Longrightarrow> q \<in> set qs \<Longrightarrow> \<not> prefix p q \<and> \<not> prefix q p"
  by (auto simp: apart_def list_all_iff)

lemma apart_sym: "apart ps qs \<Longrightarrow> apart qs ps"
  by (auto simp: apart_def list_all_iff)

text \<open>What it takes to run modules together: each keeps its invariant and ends a block without an error, as a function of its own
  keys; their key spaces and that of the nonces lie apart, and their names differ.\<close>

locale composition =
  fixes parts :: "part list"
  assumes part_inv: "(m, owned, I) \<in> set parts \<Longrightarrow> module_invariant m owned I"
    and part_end: "(m, owned, I) \<in> set parts \<Longrightarrow> end_local m owned"
    and part_returns: "(m, owned, I) \<in> set parts \<Longrightarrow> I (ctxStore c) \<Longrightarrow> \<exists>evs. snd (mEndBlock m c) = Ret evs"
    and part_genesis: "(m, owned, I) \<in> set parts \<Longrightarrow> ctxStore (fst (mInitGenesis m c raw)) = ctxStore c"
    and parts_apart: "sorted_wrt (\<lambda>a b. apart (fst (snd a)) (fst (snd b))) parts"
    and nonce_apart: "(m, owned, I) \<in> set parts \<Longrightarrow> apart owned [PrefixAccNonce]"
    and names: "distinct (map (\<lambda>p. mName (fst p)) parts)"
begin

lemma part_contract: "(m, owned, I) \<in> set parts \<Longrightarrow> module_contract m owned"
  by (rule module_invariant.axioms(1)) (rule part_inv)

lemma two_apart: "x \<in> set parts \<Longrightarrow> y \<in> set parts \<Longrightarrow> x = y \<or> apart (fst (snd x)) (fst (snd y))"
proof -
  assume "x \<in> set parts" "y \<in> set parts"
  then obtain i j where ij: "i < length parts" "j < length parts" "x = parts ! i" "y = parts ! j" by (metis in_set_conv_nth)
  have "apart (fst (snd (parts ! a))) (fst (snd (parts ! b)))" if "a < b" "b < length parts" for a b
    using parts_apart that by (simp add: sorted_wrt_iff_nth_less)
  then show ?thesis using ij apart_sym by (metis linorder_neqE_nat)
qed

text \<open>A step of one part that keeps its own invariant keeps the invariants of all.\<close>

lemma step_ok:
  assumes "parts_ok parts (ctxStore c)" "(m, owned, I) \<in> set parts" "confined owned c c'" "I (ctxStore c) \<Longrightarrow> I (ctxStore c')"
  shows "parts_ok parts (ctxStore c')"
  unfolding parts_ok_def
proof clarify
  fix m' owned' I'
  assume p: "(m', owned', I') \<in> set parts"
  then have I': "I' (ctxStore c)" using assms(1) by (auto simp: parts_ok_def)
  show "I' (ctxStore c')"
  proof (cases "(m', owned', I') = (m, owned, I)")
    case True
    then show ?thesis using I' assms(4) by simp
  next
    case False
    then have "apart owned' owned" using two_apart [OF p assms(2)] by auto
    then show ?thesis by (intro module_invariant.inv_confined [OF part_inv [OF p] I' assms(3)]) (rule apartD)
  qed
qed

lemma exec_ok:
  assumes p: "(m, owned, I) \<in> set parts" and ok: "parts_ok parts (ctxStore c)"
  shows "parts_ok parts (ctxStore (fst (mExecuteTx m c env)))"
proof (rule step_ok [OF ok p])
  show "confined owned c (fst (mExecuteTx m c env))" by (rule module_contract.exec_confined [OF part_contract [OF p]])
  show "I (ctxStore c) \<Longrightarrow> I (ctxStore (fst (mExecuteTx m c env)))" by (rule module_invariant.inv_exec [OF part_inv [OF p]])
qed

lemma end_ok:
  assumes p: "(m, owned, I) \<in> set parts" and ok: "parts_ok parts (ctxStore c)"
  shows "parts_ok parts (ctxStore (fst (mEndBlock m c)))"
proof (rule step_ok [OF ok p])
  show "confined owned c (fst (mEndBlock m c))" by (rule module_contract.end_confined [OF part_contract [OF p]])
  show "I (ctxStore c) \<Longrightarrow> I (ctxStore (fst (mEndBlock m c)))" by (rule module_invariant.inv_end [OF part_inv [OF p]])
qed

text \<open>A step that only touches the nonces keeps them too.\<close>

lemma nonce_ok:
  assumes "parts_ok parts (ctxStore c)" "confined [PrefixAccNonce] c c'"
  shows "parts_ok parts (ctxStore c')"
  unfolding parts_ok_def
proof clarify
  fix m owned I assume p: "(m, owned, I) \<in> set parts"
  then have "I (ctxStore c)" using assms(1) by (auto simp: parts_ok_def)
  then show "I (ctxStore c')"
    by (rule module_invariant.inv_confined [OF part_inv [OF p] _ assms(2)]) (rule apartD [OF nonce_apart [OF p]])
qed

text \<open>So does a change of the store that keeps its contents.\<close>

lemma same_contents_ok:
  assumes "parts_ok parts st" "\<And>k. Get st' k = Get st k" "store_inv st \<Longrightarrow> store_inv st'"
  shows "parts_ok parts st'"
  unfolding parts_ok_def
proof clarify
  fix m owned I assume p: "(m, owned, I) \<in> set parts"
  then have "I st" using assms(1) by (auto simp: parts_ok_def)
  then show "I st'" by (rule module_invariant.inv_local [OF part_inv [OF p]]) (simp_all add: assms(2,3))
qed

lemma end_returns: "(m, owned, I) \<in> set parts \<Longrightarrow> parts_ok parts (ctxStore c) \<Longrightarrow> \<exists>evs. snd (mEndBlock m c) = Ret evs"
  using part_returns [of m owned I c] by (auto simp: parts_ok_def)

lemma fresh_ok: "parts_ok parts (ctxStore (fresh_ctx t))"
  using module_invariant.inv_fresh [OF part_inv] by (auto simp: parts_ok_def)

text \<open>No module touches a nonce.\<close>

lemma owned_not_nonce:
  assumes "(m, owned, I) \<in> set parts" "p \<in> set owned"
  shows "\<not> prefix p (NonceKey k)"
proof
  assume "prefix p (NonceKey k)"
  moreover have "prefix PrefixAccNonce (NonceKey k)" unfolding NonceKey_def by (rule prefixI) (rule refl)
  ultimately have "prefix p PrefixAccNonce \<or> prefix PrefixAccNonce p" by (rule prefix_same_cases)
  moreover have "\<not> prefix p PrefixAccNonce \<and> \<not> prefix PrefixAccNonce p"
    by (rule apartD [OF nonce_apart [OF assms(1)] assms(2)]) simp
  ultimately show False by blast
qed

lemma exec_nonces:
  "(m, owned, I) \<in> set parts \<Longrightarrow> GetNonce (ctxStore (fst (mExecuteTx m c env))) pub = GetNonce (ctxStore c) pub"
  by (rule module_contract.exec_nonce [OF part_contract]) (auto dest: owned_not_nonce)

lemma end_nonces:
  "(m, owned, I) \<in> set parts \<Longrightarrow> GetNonce (ctxStore (fst (mEndBlock m c))) pub = GetNonce (ctxStore c) pub"
  by (rule module_contract.end_nonce [OF part_contract]) (auto dest: owned_not_nonce)

text \<open>The prefixes of all modules, and what a pass over modules at the end of a block keeps.\<close>

abbreviation owned_all :: "bytes list" where
  "owned_all \<equiv> concat (map (\<lambda>p. fst (snd p)) parts)"

lemma owned_all_upper: "(m, owned, I) \<in> set parts \<Longrightarrow> set owned \<subseteq> set owned_all"
  by force

lemma owned_all_not_nonce: "p \<in> set owned_all \<Longrightarrow> \<not> prefix p (NonceKey k)"
  by (auto dest: owned_not_nonce)

lemma exec_confined_all: "(m, owned, I) \<in> set parts \<Longrightarrow> confined owned_all c (fst (mExecuteTx m c env))"
  by (rule confined_mono [OF module_contract.exec_confined [OF part_contract] owned_all_upper])

lemma end_confined_all: "(m, owned, I) \<in> set parts \<Longrightarrow> confined owned_all c (fst (mEndBlock m c))"
  by (rule confined_mono [OF module_contract.end_confined [OF part_contract] owned_all_upper])

lemma confined_nonces: "confined owned_all c c' \<Longrightarrow> GetNonce (ctxStore c') s = GetNonce (ctxStore c) s"
  using confined_get [of owned_all c c'] owned_all_not_nonce by (simp add: GetNonce_def)

lemma router_end:
  assumes "set ms \<subseteq> fst ` set parts" "parts_ok parts (ctxStore c)"
  shows "\<exists>c' evs. router_EndBlock_from ms out c = (c', Ret evs) \<and> confined owned_all c c' \<and> parts_ok parts (ctxStore c')"
  using assms
proof (induction ms out c rule: router_EndBlock_from.induct)
  case (2 m ms out c)
  then obtain owned I where p: "(m, owned, I) \<in> set parts" by auto
  obtain evs where evs: "mEndBlock m c = (fst (mEndBlock m c), Ret evs)"
    using end_returns [OF p "2.prems"(2)] by (metis prod.collapse)
  have "\<exists>c' evs'. router_EndBlock_from ms (out @ evs) (fst (mEndBlock m c)) = (c', Ret evs')
      \<and> confined owned_all (fst (mEndBlock m c)) c' \<and> parts_ok parts (ctxStore c')"
    by (rule "2.IH" [OF evs [symmetric] refl]) (use "2.prems" end_ok [OF p] in auto)
  then show ?case
    using end_confined_all [OF p, of c] evs by (auto split: prod.splits intro: confined_trans)
qed simp

lemma router_genesis:
  assumes "set ms \<subseteq> fst ` set parts"
  shows "ctxStore (fst (router_InitGenesis ms c g)) = ctxStore c"
  using assms
proof (induction ms c g rule: router_InitGenesis.induct)
  case (2 m ms c g)
  then obtain owned I where "(m, owned, I) \<in> set parts" by auto
  then have "ctxStore (fst (mInitGenesis m c (g (mName m)))) = ctxStore c" by (rule part_genesis)
  with 2 show ?case by (auto split: prod.split outcome.split)
qed simp

end

section \<open>The order of the modules\<close>

text \<open>An arrangement of the modules is an arrangement of the parts.\<close>

lemma arrange_parts:
  assumes "mset ms = mset (map fst ps)"
  obtains qs where "map fst qs = ms" "mset qs = mset ps"
proof -
  have "list_all2 (\<lambda>m p. m = fst p) (map fst ps) ps" by (simp add: list.rel_map list_all2_refl)
  from list_all2_reorder_left_invariance [OF this assms]
  obtain qs where "list_all2 (\<lambda>m p. m = fst p) ms qs" "mset qs = mset ps" by blast
  moreover from this(1) have "map fst qs = ms" by (induction rule: list_all2_induct) auto
  ultimately show ?thesis using that by blast
qed

lemma mset_concat_map: "mset (concat (map f xs)) = (\<Sum>x \<in># mset xs. mset (f x))"
  by (induction xs) simp_all

definition end_events :: "Module \<Rightarrow> Context \<Rightarrow> Event list" where
  "end_events m c = (case snd (mEndBlock m c) of Ret evs \<Rightarrow> evs | _ \<Rightarrow> [])"

lemma agree_trans: "agree ps a b \<Longrightarrow> agree ps b c \<Longrightarrow> agree ps a c"
  by (simp add: agree_def)

lemma apart_key: "apart ps qs \<Longrightarrow> p \<in> set ps \<Longrightarrow> prefix p k \<Longrightarrow> q \<in> set qs \<Longrightarrow> \<not> prefix q k"
  by (meson apartD prefix_same_cases)

lemma agree_apart:
  assumes "confined qs c c'" "store_inv (ctxStore c)" "apart ps qs"
  shows "agree ps (ctxStore c) (ctxStore c')"
  using assms apart_key [OF assms(3)] by (auto simp: agree_def confined_def)

context composition
begin

lemma distinct_parts: "distinct parts"
  using names by (simp add: distinct_map)

text \<open>After a pass over some modules, each of them has done to its own keys what it would have done first, and no other key
  has changed.\<close>

definition pass :: "part list \<Rightarrow> Context \<Rightarrow> Context \<Rightarrow> bool" where
  "pass qs c c' \<longleftrightarrow> ctxEventBus c' = ctxEventBus c \<and> confined owned_all c c'
     \<and> (\<forall>(m, owned, I) \<in> set qs. agree owned (ctxStore (fst (mEndBlock m c))) (ctxStore c'))
     \<and> (\<forall>k. (\<forall>(m, owned, I) \<in> set qs. \<forall>p \<in> set owned. \<not> prefix p k) \<longrightarrow> Get (ctxStore c') k = Get (ctxStore c) k)"

lemma pass_Cons:
  assumes p: "(m, owned, I) \<in> set parts" "(m, owned, I) \<notin> set qs" and qs: "set qs \<subseteq> set parts"
    and inv: "store_inv (ctxStore c)" and c1: "c1 = fst (mEndBlock m c)" and rest: "pass qs c1 c'"
  shows "pass ((m, owned, I) # qs) c c'"
proof -
  have conf: "confined owned c c1" unfolding c1 by (rule module_contract.end_confined [OF part_contract [OF p(1)]])
  then have inv1: "store_inv (ctxStore c1)" and t: "ctxHeight c1 = ctxHeight c" "ctxBlockTime c1 = ctxBlockTime c"
    using inv by (auto simp: confined_def)
  have inv': "store_inv (ctxStore c')" using rest inv1 by (auto simp: pass_def confined_def)
  have ap: "apart (fst (snd q)) owned" if "q \<in> set qs" for q using two_apart [of q "(m, owned, I)"] that p qs by auto
  have "Get (ctxStore c') k = Get (ctxStore c1) k" if "p' \<in> set owned" "prefix p' k" for p' k
    using rest apart_key [OF apart_sym [OF ap] that] by (force simp: pass_def)
  then have "agree owned (ctxStore c1) (ctxStore c')" using inv1 inv' by (simp add: agree_def)
  moreover have "agree owned' (ctxStore (fst (mEndBlock m' c))) (ctxStore c')" if q: "(m', owned', I') \<in> set qs" for m' owned' I'
  proof -
    have q': "(m', owned', I') \<in> set parts" using q qs by blast
    have "agree owned' (ctxStore c) (ctxStore c1)" using agree_apart [OF conf inv] ap [OF q] by simp
    then have "agree owned' (ctxStore (fst (mEndBlock m' c))) (ctxStore (fst (mEndBlock m' c1)))"
      using end_local.end_local [OF part_end [OF q']] t by blast
    moreover have "agree owned' (ctxStore (fst (mEndBlock m' c1))) (ctxStore c')" using rest q by (auto simp: pass_def)
    ultimately show ?thesis by (rule agree_trans)
  qed
  moreover have "confined owned_all c c'"
    using end_confined_all [OF p(1), of c] rest by (auto simp: pass_def c1 intro: confined_trans)
  moreover have "ctxEventBus c' = ctxEventBus c"
    using rest end_local.end_bus [OF part_end [OF p(1)], of c] by (simp add: pass_def c1)
  ultimately show ?thesis using rest conf by (auto simp: pass_def c1 confined_def)
qed

lemma end_events_elsewhere:
  assumes p: "(m, owned, I) \<in> set parts" and q: "(m', owned', I') \<in> set parts" "(m', owned', I') \<noteq> (m, owned, I)"
    and inv: "store_inv (ctxStore c)"
  shows "end_events m' (fst (mEndBlock m c)) = end_events m' c"
proof -
  have conf: "confined owned c (fst (mEndBlock m c))" by (rule module_contract.end_confined [OF part_contract [OF p]])
  have "apart owned' owned" using two_apart [OF q(1) p] q(2) by auto
  with conf inv have "agree owned' (ctxStore c) (ctxStore (fst (mEndBlock m c)))" by (rule agree_apart)
  then show ?thesis using end_local.end_local [OF part_end [OF q(1)]] conf by (simp add: end_events_def confined_def)
qed

lemma router_pass:
  assumes "set qs \<subseteq> set parts" "distinct qs" "parts_ok parts (ctxStore c)" "store_inv (ctxStore c)"
  shows "\<exists>c'. router_EndBlock_from (map fst qs) out c = (c', Ret (out @ concat (map (\<lambda>q. end_events (fst q) c) qs))) \<and> pass qs c c'"
  using assms
proof (induction qs arbitrary: c out)
  case Nil
  then show ?case by (simp add: pass_def)
next
  case (Cons q qs)
  obtain m owned I where q: "q = (m, owned, I)" by (cases q)
  then have p: "(m, owned, I) \<in> set parts" "(m, owned, I) \<notin> set qs" using Cons.prems by auto
  obtain c1 evs where "mEndBlock m c = (c1, Ret evs)" using end_returns [OF p(1) Cons.prems(3)] by (metis prod.collapse)
  then have evs: "mEndBlock m c = (c1, Ret evs)" "end_events m c = evs" and c1: "c1 = fst (mEndBlock m c)" by (simp_all add: end_events_def)
  have "store_inv (ctxStore c1)"
    using module_contract.end_confined [OF part_contract [OF p(1)], of c] Cons.prems(4) by (simp add: c1 confined_def)
  moreover have "parts_ok parts (ctxStore c1)" using end_ok [OF p(1) Cons.prems(3)] by (simp add: c1)
  ultimately obtain c' where c': "router_EndBlock_from (map fst qs) (out @ evs) c1
      = (c', Ret ((out @ evs) @ concat (map (\<lambda>q. end_events (fst q) c1) qs)))" "pass qs c1 c'"
    using Cons.IH [of c1 "out @ evs"] Cons.prems(1,2) by auto
  have "end_events (fst r) c1 = end_events (fst r) c" if "r \<in> set qs" for r
    using end_events_elsewhere [OF p(1) _ _ Cons.prems(4), of "fst r" "fst (snd r)" "snd (snd r)"] that p(2) Cons.prems(1)
    by (auto simp: c1)
  then have "map (\<lambda>q. end_events (fst q) c1) qs = map (\<lambda>q. end_events (fst q) c) qs" by simp
  with c'(1) evs have "router_EndBlock_from (map fst (q # qs)) out c = (c', Ret (out @ concat (map (\<lambda>q. end_events (fst q) c) (q # qs))))"
    by (simp add: q)
  moreover have "pass (q # qs) c c'" unfolding q using pass_Cons [OF p _ Cons.prems(4) c1 c'(2)] Cons.prems(1) by simp
  ultimately show ?case by blast
qed

text \<open>Two passes over the same modules in different orders leave the same contents.\<close>

lemma pass_same:
  assumes "set qs = set qs'" "pass qs c c'" "pass qs' c c''"
  shows "Get (ctxStore c') k = Get (ctxStore c'') k"
proof (cases "\<exists>(m, owned, I) \<in> set qs. \<exists>p \<in> set owned. prefix p k")
  case True
  then obtain m owned I p where "(m, owned, I) \<in> set qs" "p \<in> set owned" "prefix p k" by blast
  then show ?thesis using assms by (fastforce simp: pass_def dest: agree_get)
next
  case False
  then have "\<forall>(m, owned, I) \<in> set qs. \<forall>p \<in> set owned. \<not> prefix p k" by blast
  then have "Get (ctxStore c') k = Get (ctxStore c) k" "Get (ctxStore c'') k = Get (ctxStore c) k"
    using assms unfolding pass_def by blast+
  then show ?thesis by simp
qed

lemma end_order:
  assumes "mset ms = mset (map fst parts)" "mset ms' = mset (map fst parts)" "parts_ok parts (ctxStore c)" "store_inv (ctxStore c)"
  shows "\<exists>c1 evs1 c2 evs2. router_EndBlock ms c = (c1, Ret evs1) \<and> router_EndBlock ms' c = (c2, Ret evs2)
    \<and> mset evs1 = mset evs2 \<and> (\<forall>k. Get (ctxStore c1) k = Get (ctxStore c2) k) \<and> store_inv (ctxStore c1) \<and> store_inv (ctxStore c2)
    \<and> Version (ctxStore c1) = Version (ctxStore c2) \<and> ctxEventBus c1 = ctxEventBus c2"
proof -
  obtain qs where qs: "map fst qs = ms" "mset qs = mset parts" using assms(1) by (rule arrange_parts)
  obtain qs' where qs': "map fst qs' = ms'" "mset qs' = mset parts" using assms(2) by (rule arrange_parts)
  note d = mset_eq_setD [OF qs(2)] mset_eq_imp_distinct_iff [OF qs(2)] mset_eq_setD [OF qs'(2)] mset_eq_imp_distinct_iff [OF qs'(2)]
  obtain c1 where c1: "router_EndBlock ms c = (c1, Ret (concat (map (\<lambda>q. end_events (fst q) c) qs)))" "pass qs c c1"
    using router_pass [of qs c "[]"] d assms(3,4) distinct_parts qs(1) by (auto simp: router_EndBlock_def)
  obtain c2 where c2: "router_EndBlock ms' c = (c2, Ret (concat (map (\<lambda>q. end_events (fst q) c) qs')))" "pass qs' c c2"
    using router_pass [of qs' c "[]"] d assms(3,4) distinct_parts qs'(1) by (auto simp: router_EndBlock_def)
  have "mset (concat (map (\<lambda>q. end_events (fst q) c) qs)) = mset (concat (map (\<lambda>q. end_events (fst q) c) qs'))"
    using qs(2) qs'(2) by (simp add: mset_concat_map)
  moreover have "Get (ctxStore c1) k = Get (ctxStore c2) k" for k using pass_same [OF _ c1(2) c2(2)] d by simp
  ultimately show ?thesis using c1 c2 assms(4) by (auto simp: pass_def confined_def)
qed

end

section \<open>The ten modules\<close>

lemma afd_invariant: "module_invariant afd_New afd_prefixes (\<lambda>st. True)"
  by unfold_locales simp_all

definition app_parts :: "(bytes \<Rightarrow> bytes) \<Rightarrow> part list" where
  "app_parts uni = [(amx_New uni, amx_prefixes, amx_ok), (aap_New, aap_prefixes, aap_ok), (weave_New, weave_prefixes, weave_ok),
     (caputxo_New, caputxo_prefixes, cap_ok), (rep_New, rep_prefixes, rep_ok), (arb_New, arb_prefixes, arb_ok),
     (afd_New, afd_prefixes, \<lambda>st. True), (fiat_New, fiat_prefixes, fiat_ok), (node_New, node_prefixes, node_ok),
     (gov_New, gov_prefixes, gov_ok)]"

lemma app_parts_modules: "map fst (app_parts uni) = app_modules uni"
  by (simp add: app_parts_def app_modules_def)

lemma app_prefixes:
  "map (fst \<circ> snd) (app_parts uni) = [amx_prefixes, aap_prefixes, weave_prefixes, caputxo_prefixes, rep_prefixes, arb_prefixes,
     afd_prefixes, fiat_prefixes, node_prefixes, gov_prefixes]"
  by (simp add: app_parts_def)

lemma app_prefixes_apart:
  "sorted_wrt apart [amx_prefixes, aap_prefixes, weave_prefixes, caputxo_prefixes, rep_prefixes, arb_prefixes,
     afd_prefixes, fiat_prefixes, node_prefixes, gov_prefixes, [PrefixAccNonce]]"
  by code_simp

lemma app_parts_cases:
  assumes "(m, owned, I) \<in> set (app_parts uni)"
  obtains "m = amx_New uni" "owned = amx_prefixes" "I = amx_ok" | "m = aap_New" "owned = aap_prefixes" "I = aap_ok"
  | "m = weave_New" "owned = weave_prefixes" "I = weave_ok" | "m = caputxo_New" "owned = caputxo_prefixes" "I = cap_ok"
  | "m = rep_New" "owned = rep_prefixes" "I = rep_ok" | "m = arb_New" "owned = arb_prefixes" "I = arb_ok"
  | "m = afd_New" "owned = afd_prefixes" "I = (\<lambda>st. True)" | "m = fiat_New" "owned = fiat_prefixes" "I = fiat_ok"
  | "m = node_New" "owned = node_prefixes" "I = node_ok" | "m = gov_New" "owned = gov_prefixes" "I = gov_ok"
  using assms by (auto simp: app_parts_def)

lemma app_part_returns:
  assumes "(m, owned, I) \<in> set (app_parts uni)" "I (ctxStore c)"
  shows "\<exists>evs. snd (mEndBlock m c) = Ret evs"
  using assms(1)
proof (cases rule: app_parts_cases)
  case 4
  then show ?thesis using expireAtTime_spec [of c "now c"] assms(2) by (auto simp: caputxo_New_def caputxo_EndBlock_def)
next
  case 8
  then show ?thesis using fiat_EndBlock_total [of c] assms(2) by (auto simp: fiat_New_def)
qed (simp_all add: New_defs common_EndBlock_def aap_EndBlock_def weave_EndBlock_def rep_EndBlock_def arb_EndBlock_def
      afd_EndBlock_def node_EndBlock_def gov_EndBlock_def case_prod_beta)

interpretation app: composition "app_parts uni" for uni
proof (rule composition.intro, goal_cases)
  case (1 m owned I)
  then show ?case
    by (cases rule: app_parts_cases)
      (simp_all add: amx_inv.module_invariant_axioms aap_inv.module_invariant_axioms weave_inv.module_invariant_axioms
        cap_inv.module_invariant_axioms rep_inv.module_invariant_axioms arb_inv.module_invariant_axioms afd_invariant
        fiat_inv.module_invariant_axioms node_inv.module_invariant_axioms gov_inv.module_invariant_axioms)
next
  case (2 m owned I)
  then show ?case
    by (cases rule: app_parts_cases)
      (simp_all add: amx_end.end_local_axioms aap_end.end_local_axioms weave_end.end_local_axioms
        caputxo_end.end_local_axioms rep_end.end_local_axioms arb_end.end_local_axioms afd_end.end_local_axioms
        fiat_end.end_local_axioms node_end.end_local_axioms gov_end.end_local_axioms)
next
  case 3
  then show ?case by (rule app_part_returns)
next
  case (4 m owned I c raw)
  then have "mInitGenesis m = common_InitGenesis (mName m)" by (cases rule: app_parts_cases) (simp_all add: New_defs)
  then show ?case by (simp add: common_InitGenesis_def)
next
  case 5
  have "sorted_wrt apart (map (fst \<circ> snd) (app_parts uni))" using app_prefixes_apart by (simp add: app_prefixes)
  then show ?case by (simp add: sorted_wrt_map)
next
  case (6 m owned I)
  then have "owned \<in> set (map (fst \<circ> snd) (app_parts uni))" by force
  then show ?case using app_prefixes_apart by (auto simp: app_prefixes)
next
  case 7
  then show ?case by (simp add: app_parts_def New_defs)
qed

end
