(* ===== verification/Chain.thy ===== *)
theory Chain
  imports Compose
begin

text \<open>
  Whole blocks: the states the application can be brought to by the calls of consensus, starting with
  \<open>NewApp\<close>, and what holds of all of them.
\<close>

section \<open>The application hash\<close>

text \<open>The hash of a commit is a function of the contents and of the version, whatever the order of the map.\<close>

lemma Commit_determined:
  assumes "store_inv st" "store_inv st'" "\<And>k. Get st k = Get st' k" "Version st = Version st'"
  shows "fst (Commit f st) = fst (Commit f st')"
proof -
  let ?d = "\<lambda>st. data (engine st)"
  have m: "map_of (?d st) = map_of (?d st')" using assms(3) by (auto simp: Get_def mem_Get_def)
  have "set (map fst (?d st)) = set (map fst (?d st'))" using arg_cong [OF m, of dom] by (simp add: dom_map_of_conv_image_fst)
  then have "sort (map fst (?d st)) = sort (map fst (?d st'))"
    using assms(1,2) by (intro sorted_distinct_set_unique) (simp_all add: store_inv_def mem_inv_def)
  then show ?thesis using m assms(4)
    by (simp add: Commit_def mem_Commit_def Let_def Version_def mem_Version_def case_prod_beta)
qed

section \<open>The router\<close>

definition router_of :: "Module list \<Rightarrow> Router" where
  "router_of ms = \<lparr>modules = map (\<lambda>m. (mName m, m)) ms\<rparr>"

lemma register_app: "register_all newRouter (app_modules uni) = Ret (router_of (app_modules uni))"
  by (simp add: app_modules_def New_defs Register_def newRouter_def router_of_def)

lemma NewApp_eq:
  "NewApp backend uni = (case NewStore backend of
     Ret st \<Rightarrow> Ret \<lparr>appStore = st, appRouter = router_of (app_modules uni), appEventBus = newBus, appLastHash = []\<rparr>
   | Err e \<Rightarrow> Err e | Panic \<Rightarrow> Panic)"
  by (simp add: NewApp_def register_app split: outcome.split)

lemma modules_of_router: "map snd (modules (router_of ms)) = ms"
  by (simp add: router_of_def comp_def)

lemma Execute_cases:
  obtains "Execute (router_of ms) c env = (c, Err (NewAppError CodeUnknownMod ''unknown module %q''))"
  | m where "m \<in> set ms" "mName m = Module env" "Execute (router_of ms) c env = mExecuteTx m c env"
proof (cases "map_of (modules (router_of ms)) (Module env)")
  case None
  then show ?thesis using that(1) by (simp add: Execute_def)
next
  case (Some m)
  then have "(Module env, m) \<in> set (modules (router_of ms))" by (rule map_of_SomeD)
  then have "m \<in> set ms" "mName m = Module env" by (auto simp: router_of_def)
  then show ?thesis using that(2) Some by (simp add: Execute_def)
qed

section \<open>Nonces\<close>

text \<open>The transactions that executed, in order: the ones admitted whose handler answered with code 0.\<close>

definition succeeded :: "Env \<Rightarrow> Router \<Rightarrow> Context \<Rightarrow> bytes \<Rightarrow> TxEnvelope list" where
  "succeeded E r ctx raw = (case admit E ctx raw of Inl res \<Rightarrow> []
     | Inr (env, used) \<Rightarrow> (case snd (Execute r ctx env) of Ret res \<Rightarrow> if res_Code res = CodeOK then [env] else [] | _ \<Rightarrow> []))"

lemma succeededD: "env \<in> set (succeeded E r ctx raw) \<Longrightarrow> \<exists>used. admit E ctx raw = Inr (env, used)"
  by (auto simp: succeeded_def dest: sym split: sum.splits prod.splits outcome.splits if_splits)

fun executed :: "Env \<Rightarrow> Router \<Rightarrow> Context \<Rightarrow> bytes list \<Rightarrow> TxEnvelope list" where
  "executed E r ctx [] = []"
| "executed E r ctx (raw # txs) = succeeded E r ctx raw @ (case deliver E r ctx raw of
     (ctx', Ret res) \<Rightarrow> executed E r ctx' txs | _ \<Rightarrow> [])"

text \<open>\<open>follows f past g\<close>: the transactions of \<open>past\<close> carry, sender by sender, the nonces from \<open>f\<close> on without a gap,
  and \<open>g\<close> is the next.\<close>

definition from_sender :: "bytes \<Rightarrow> TxEnvelope list \<Rightarrow> TxEnvelope list" where
  "from_sender s past = filter (\<lambda>e. Sender e = s) past"

definition follows :: "(bytes \<Rightarrow> uint64) \<Rightarrow> TxEnvelope list \<Rightarrow> (bytes \<Rightarrow> uint64) \<Rightarrow> bool" where
  "follows f past g \<longleftrightarrow> (\<forall>s. map Nonce (from_sender s past) = map (\<lambda>i. f s + of_nat i) [0..<length (from_sender s past)]
     \<and> g s = f s + of_nat (length (from_sender s past)))"

lemma follows_Nil: "follows f [] g \<longleftrightarrow> (\<forall>s. g s = f s)"
  by (simp add: follows_def from_sender_def)

lemma follows_one: "Nonce e = f (Sender e) \<Longrightarrow> follows f [e] (\<lambda>s. if s = Sender e then f s + 1 else f s)"
  by (simp add: follows_def from_sender_def)

lemma follows_append:
  assumes "follows f past g" "follows g past' h"
  shows "follows f (past @ past') h"
  unfolding follows_def
proof (intro allI)
  fix s
  let ?a = "from_sender s past" and ?b = "from_sender s past'"
  have "map (\<lambda>i. f s + of_nat i) [length ?a..<length ?a + length ?b] = map (\<lambda>i. (f s + of_nat (length ?a)) + of_nat i :: uint64) [0..<length ?b]"
    by (rule nth_equalityI) (simp_all add: algebra_simps)
  moreover have "from_sender s (past @ past') = ?a @ ?b" by (simp add: from_sender_def)
  moreover have "[0..<length ?a + length ?b] = [0..<length ?a] @ [length ?a..<length ?a + length ?b]"
    by (rule upt_add_eq_append) simp
  ultimately show "map Nonce (from_sender s (past @ past')) = map (\<lambda>i. f s + of_nat i) [0..<length (from_sender s (past @ past'))]
      \<and> h s = f s + of_nat (length (from_sender s (past @ past')))"
    using assms by (simp add: follows_def algebra_simps)
qed

text \<open>What is admitted: the whole condition.\<close>

lemma admit_Inr:
  "admit E ctx raw = Inr (env, used) \<longleftrightarrow> DecodeTx raw = Some env \<and> ValidateBasic env = None
     \<and> \<not> (0 < TimeoutHeight env \<and> TimeoutHeight env < ctxHeight ctx)
     \<and> (\<exists>b. SignBytes env = Some b \<and> VerifySignature E (Sender env) b (Signature env))
     \<and> Nonce env = GetNonce (ctxStore ctx) (Sender env) \<and> 1000 \<le> GasLimit env
     \<and> used = 1000 + payload_gas (Payload env) \<and> used \<le> GasLimit env"
  by (auto simp: admit_def Consume_def NewGasContext_def Let_def not_less split: option.splits if_splits)

section \<open>The invariant of the application\<close>

text \<open>The invariants of all modules hold, the store is well formed and holds under each prefix the type of value that belongs there.\<close>

definition app_ok :: "(bytes \<Rightarrow> bytes) \<Rightarrow> Store \<Rightarrow> bool" where
  "app_ok uni st \<longleftrightarrow> parts_ok (app_parts uni) st \<and> store_inv st \<and> well_typed st"

lemma app_ok_confined:
  "app_ok uni (ctxStore c) \<Longrightarrow> parts_ok (app_parts uni) (ctxStore c') \<Longrightarrow> confined ps c c' \<Longrightarrow> app_ok uni (ctxStore c')"
  by (simp add: app_ok_def confined_def)

lemma in_app_parts: "m \<in> set (app_modules uni) \<Longrightarrow> \<exists>owned I. (m, owned, I) \<in> set (app_parts uni)"
  unfolding app_parts_modules [symmetric] by (auto, blast)

lemma SetNonce_confined: "confined [PrefixAccNonce] c (upd_store c (SetNonce (ctxStore c) s n))"
  unfolding SetNonce_def NonceKey_def by (rule confined_Set [of PrefixAccNonce]) simp_all

lemma Execute_keeps:
  assumes ok: "app_ok uni (ctxStore c)"
  shows "app_ok uni (ctxStore (fst (Execute (router_of (app_modules uni)) c env)))
    \<and> GetNonce (ctxStore (fst (Execute (router_of (app_modules uni)) c env))) s = GetNonce (ctxStore c) s
    \<and> ctxHeight (fst (Execute (router_of (app_modules uni)) c env)) = ctxHeight c"
proof (cases rule: Execute_cases [of "app_modules uni" c env])
  case (2 m)
  then obtain owned I where p: "(m, owned, I) \<in> set (app_parts uni)" using in_app_parts by blast
  have "parts_ok (app_parts uni) (ctxStore (fst (mExecuteTx m c env)))" using ok by (intro app.exec_ok [OF p]) (simp add: app_ok_def)
  then show ?thesis
    using app_ok_confined [OF ok _ app.exec_confined_all [OF p]] app.exec_nonces [OF p] app.exec_confined_all [OF p, of c env] 2(3)
    by (simp add: confined_def)
qed (simp add: ok)

lemma deliver_keeps:
  assumes ok: "app_ok uni (ctxStore c)" and r: "r = router_of (app_modules uni)"
  shows "app_ok uni (ctxStore (fst (deliver E r c raw)))"
    "follows (GetNonce (ctxStore c)) (succeeded E r c raw) (GetNonce (ctxStore (fst (deliver E r c raw))))"
proof -
  have "app_ok uni (ctxStore (fst (deliver E r c raw)))
    \<and> follows (GetNonce (ctxStore c)) (succeeded E r c raw) (GetNonce (ctxStore (fst (deliver E r c raw))))"
  proof (cases "admit E c raw")
    case (Inl res)
    then show ?thesis using ok by (simp add: deliver_def succeeded_def follows_Nil)
  next
    case (Inr eu)
    obtain env used where eu: "eu = (env, used)" by (cases eu)
    obtain c1 x where x: "Execute r c env = (c1, x)" by (cases "Execute r c env")
    have c1: "app_ok uni (ctxStore c1)" "GetNonce (ctxStore c1) s = GetNonce (ctxStore c) s" for s
      using Execute_keeps [OF ok, of env] x r by simp_all
    show ?thesis
    proof (cases "\<exists>res. x = Ret res \<and> res_Code res = CodeOK")
      case True
      then obtain res where res: "x = Ret res" "res_Code res = CodeOK" by blast
      let ?c2 = "upd_store c1 (SetNonce (ctxStore c1) (Sender env) (GetNonce (ctxStore c) (Sender env) + 1))"
      have "app_ok uni (ctxStore ?c2)"
        using app_ok_confined [OF c1(1) app.nonce_ok [OF _ SetNonce_confined] SetNonce_confined] c1(1) by (simp add: app_ok_def)
      moreover have "Nonce env = GetNonce (ctxStore c) (Sender env)" using Inr eu by (simp add: admit_Inr)
      note follows_one [of env "GetNonce (ctxStore c)", OF this]
      moreover have "GetNonce (ctxStore ?c2) = (\<lambda>s. if s = Sender env then GetNonce (ctxStore c) s + 1 else GetNonce (ctxStore c) s)"
        by (rule ext) (simp add: GetNonce_SetNonce c1(2))
      ultimately show ?thesis using Inr eu x res by (simp add: deliver_def succeeded_def Let_def)
    next
      case False
      then have "fst (deliver E r c raw) = c1" "succeeded E r c raw = []"
        using Inr eu x by (auto simp: deliver_def succeeded_def Let_def split: outcome.splits if_splits)
      then show ?thesis using c1 by (simp add: follows_Nil)
    qed
  qed
  then show "app_ok uni (ctxStore (fst (deliver E r c raw)))"
    "follows (GetNonce (ctxStore c)) (succeeded E r c raw) (GetNonce (ctxStore (fst (deliver E r c raw))))" by simp_all
qed

lemma deliver_all_keeps:
  assumes "app_ok uni (ctxStore c)" "r = router_of (app_modules uni)"
  shows "app_ok uni (ctxStore (fst (deliver_all E r c txs)))
    \<and> follows (GetNonce (ctxStore c)) (executed E r c txs) (GetNonce (ctxStore (fst (deliver_all E r c txs))))"
  using assms(1)
proof (induction txs arbitrary: c)
  case Nil
  then show ?case by (simp add: follows_Nil)
next
  case (Cons raw txs)
  obtain c1 x where x: "deliver E r c raw = (c1, x)" by fastforce
  have c1: "app_ok uni (ctxStore c1)" "follows (GetNonce (ctxStore c)) (succeeded E r c raw) (GetNonce (ctxStore c1))"
    using deliver_keeps [OF Cons.prems assms(2), of E raw] x by simp_all
  show ?case
  proof (cases x)
    case (Ret res)
    then show ?thesis using x Cons.IH [OF c1(1)] follows_append [OF c1(2)]
      by (auto split: prod.split outcome.split)
  qed (use x c1 in simp_all)
qed

text \<open>The context of a block.\<close>

definition block_ctx :: "App \<Rightarrow> FinalizeBlockRequest \<Rightarrow> Context" where
  "block_ctx a req = \<lparr>ctxStore = appStore a, ctxEventBus = appEventBus a, ctxHeight = fb_Height req, ctxBlockTime = fb_Time req\<rparr>"

definition block_log :: "Env \<Rightarrow> App \<Rightarrow> FinalizeBlockRequest option \<Rightarrow> TxEnvelope list" where
  "block_log E a request = (case request of None \<Rightarrow> []
     | Some req \<Rightarrow> executed E (appRouter a) (block_ctx a req) (fb_Txs req))"

lemma app_ok_Commit:
  assumes "app_ok uni st"
  shows "app_ok uni (snd (snd (Commit f st)))"
proof -
  have "parts_ok (app_parts uni) (snd (snd (Commit f st)))"
    by (rule app.same_contents_ok [of uni st]) (use assms in \<open>simp_all add: app_ok_def\<close>)
  then show ?thesis using assms by (simp add: app_ok_def well_typed_def)
qed

text \<open>A router, a permuting order: the modules that are visited are those of the application.\<close>

definition permutes_modules :: "Env \<Rightarrow> bool" where
  "permutes_modules E \<longleftrightarrow> (\<forall>ms. mset (map_order E ms) = mset ms)"

lemma visited_modules:
  assumes "permutes_modules E"
  shows "mset (map_order E (map snd (modules (router_of (app_modules uni))))) = mset (map fst (app_parts uni))"
    "set (map_order E (map snd (modules (router_of (app_modules uni))))) \<subseteq> fst ` set (app_parts uni)"
proof -
  show m: "mset (map_order E (map snd (modules (router_of (app_modules uni))))) = mset (map fst (app_parts uni))"
    using assms by (simp add: permutes_modules_def modules_of_router app_parts_modules del: mset_map)
  show "set (map_order E (map snd (modules (router_of (app_modules uni))))) \<subseteq> fst ` set (app_parts uni)"
    using mset_eq_setD [OF m] by simp
qed

lemma EndBlock_keeps:
  assumes "permutes_modules E" "app_ok uni (ctxStore c)" "r = router_of (app_modules uni)"
  shows "\<exists>c' evs. router_EndBlock (map_order E (map snd (modules r))) c = (c', Ret evs) \<and> app_ok uni (ctxStore c')
    \<and> GetNonce (ctxStore c') = GetNonce (ctxStore c)"
proof -
  have "parts_ok (app_parts uni) (ctxStore c)" using assms(2) by (simp add: app_ok_def)
  from app.router_end [OF visited_modules(2) [OF assms(1)] this, of "[]"] obtain c' evs where
    c': "router_EndBlock (map_order E (map snd (modules r))) c = (c', Ret evs)"
      "confined (concat (map (\<lambda>p. fst (snd p)) (app_parts uni))) c c'" "parts_ok (app_parts uni) (ctxStore c')"
    by (auto simp: assms(3) router_EndBlock_def)
  then show ?thesis using app_ok_confined [OF assms(2) c'(3,2)] app.confined_nonces [OF c'(2)] by blast
qed

lemma FinalizeBlock_keeps:
  assumes E: "permutes_modules E" and ok: "app_ok uni (appStore a)" and r: "appRouter a = router_of (app_modules uni)"
  shows "app_ok uni (appStore (fst (FinalizeBlock E a req)))" "appRouter (fst (FinalizeBlock E a req)) = appRouter a"
    "follows (GetNonce (appStore a)) (block_log E a req) (GetNonce (appStore (fst (FinalizeBlock E a req))))"
proof -
  have "app_ok uni (appStore (fst (FinalizeBlock E a req))) \<and> appRouter (fst (FinalizeBlock E a req)) = appRouter a
    \<and> follows (GetNonce (appStore a)) (block_log E a req) (GetNonce (appStore (fst (FinalizeBlock E a req))))"
  proof (cases req)
    case None
    then show ?thesis using ok by (simp add: FinalizeBlock_def block_log_def follows_Nil)
  next
    case (Some q)
    obtain c1 x where x: "deliver_all E (appRouter a) (block_ctx a q) (fb_Txs q) = (c1, x)" by fastforce
    have c1: "app_ok uni (ctxStore c1)" "follows (GetNonce (appStore a)) (block_log E a req) (GetNonce (ctxStore c1))"
      using deliver_all_keeps [of uni "block_ctx a q", OF _ r, of E "fb_Txs q"] ok x Some by (simp_all add: block_ctx_def block_log_def)
    show ?thesis
    proof (cases "\<exists>rs. x = Ret rs")
      case True
      then obtain rs where rs: "x = Ret rs" ..
      obtain c2 evs where c2: "router_EndBlock (map_order E (map snd (modules (appRouter a)))) c1 = (c2, Ret evs)"
        "app_ok uni (ctxStore c2)" "GetNonce (ctxStore c2) = GetNonce (ctxStore c1)"
        using EndBlock_keeps [OF E c1(1) r] by blast
      have "GetNonce (snd (snd (Commit f (ctxStore c2)))) = GetNonce (ctxStore c2)" for f by (rule ext) (simp add: GetNonce_def)
      with c2 c1(2) x rs Some show ?thesis
        using app_ok_Commit [OF c2(2), of "marshal_val E"]
        by (simp add: FinalizeBlock_def block_ctx_def [symmetric] Let_def case_prod_beta)
    next
      case False
      then show ?thesis using x c1 Some by (cases x) (simp_all add: FinalizeBlock_def block_ctx_def [symmetric] Let_def)
    qed
  qed
  then show "app_ok uni (appStore (fst (FinalizeBlock E a req)))" "appRouter (fst (FinalizeBlock E a req)) = appRouter a"
    "follows (GetNonce (appStore a)) (block_log E a req) (GetNonce (appStore (fst (FinalizeBlock E a req))))" by simp_all
qed

lemma InitChain_keeps:
  assumes E: "permutes_modules E" and ok: "app_ok uni (appStore a)" and r: "appRouter a = router_of (app_modules uni)"
  shows "app_ok uni (appStore (fst (InitChain E a req)))" "appRouter (fst (InitChain E a req)) = appRouter a"
    "Get (appStore (fst (InitChain E a req))) k = Get (appStore a) k"
proof -
  let ?c = "\<lparr>ctxStore = appStore a, ctxEventBus = appEventBus a, ctxHeight = 0, ctxBlockTime = zeroTime\<rparr>"
  let ?r = "case req of None \<Rightarrow> (?c, Ret ()) | Some g \<Rightarrow> router_InitGenesis (map_order E (map snd (modules (appRouter a)))) ?c g"
  have "ctxStore (fst ?r) = appStore a"
    using app.router_genesis [OF visited_modules(2) [OF E]] r by (auto split: option.split)
  then show "app_ok uni (appStore (fst (InitChain E a req)))" "appRouter (fst (InitChain E a req)) = appRouter a"
    "Get (appStore (fst (InitChain E a req))) k = Get (appStore a) k"
    using app_ok_Commit [OF ok, of "marshal_val E"] ok
    by (simp_all add: InitChain_def Let_def case_prod_beta split: outcome.split)
qed

section \<open>Chains\<close>

text \<open>\<open>chain E uni a past\<close>: the application can be in state \<open>a\<close> after executing the transactions \<open>past\<close>. Every call may find the
  modules in another order.\<close>

inductive chain :: "Env \<Rightarrow> (bytes \<Rightarrow> bytes) \<Rightarrow> App \<Rightarrow> TxEnvelope list \<Rightarrow> bool" for E :: Env and uni :: "bytes \<Rightarrow> bytes" where
  start: "NewApp backend uni = Ret a \<Longrightarrow> chain E uni a []"
| genesis: "chain E uni a past \<Longrightarrow> permutes_modules (E\<lparr>map_order := f\<rparr>) \<Longrightarrow>
    chain E uni (fst (InitChain (E\<lparr>map_order := f\<rparr>) a req)) past"
| block: "chain E uni a past \<Longrightarrow> permutes_modules (E\<lparr>map_order := f\<rparr>) \<Longrightarrow>
    chain E uni (fst (FinalizeBlock (E\<lparr>map_order := f\<rparr>) a req)) (past @ block_log E a req)"

lemma map_order_irrelevant [simp]:
  "admit (E\<lparr>map_order := f\<rparr>) = admit E" "deliver (E\<lparr>map_order := f\<rparr>) = deliver E"
  "succeeded (E\<lparr>map_order := f\<rparr>) = succeeded E"
proof -
  have "VerifySignature (E\<lparr>map_order := f\<rparr>) = VerifySignature E"
    by (simp_all add: VerifySignature_def fun_eq_iff)
  then show a: "admit (E\<lparr>map_order := f\<rparr>) = admit E" by (intro ext) (simp only: admit_def)
  show d: "deliver (E\<lparr>map_order := f\<rparr>) = deliver E" by (rule ext)+ (simp add: deliver_def a)
  show "succeeded (E\<lparr>map_order := f\<rparr>) = succeeded E" by (rule ext)+ (simp add: succeeded_def a d)
qed

lemma map_order_blocks [simp]:
  "deliver_all (E\<lparr>map_order := f\<rparr>) r c txs = deliver_all E r c txs" "executed (E\<lparr>map_order := f\<rparr>) r c txs = executed E r c txs"
proof -
  show "deliver_all (E\<lparr>map_order := f\<rparr>) r c txs = deliver_all E r c txs" by (induction txs arbitrary: c) simp_all
  show "executed (E\<lparr>map_order := f\<rparr>) r c txs = executed E r c txs" by (induction txs arbitrary: c) simp_all
qed

lemma map_order_log [simp]: "block_log (E\<lparr>map_order := f\<rparr>) a req = block_log E a req"
  by (simp add: block_log_def split: option.split)

text \<open>A transaction that is in order: well formed and signed by its sender.\<close>

definition signed_tx :: "Env \<Rightarrow> TxEnvelope \<Rightarrow> bool" where
  "signed_tx E env \<longleftrightarrow> ValidateBasic env = None
     \<and> (case SignBytes env of None \<Rightarrow> False | Some b \<Rightarrow> VerifySignature E (Sender env) b (Signature env))"

lemma executed_signed: "env \<in> set (executed E r c txs) \<Longrightarrow> signed_tx E env"
proof (induction txs arbitrary: c)
  case (Cons raw txs)
  have "signed_tx E env" if "env \<in> set (succeeded E r c raw)"
    using succeededD [OF that] by (auto simp: admit_Inr signed_tx_def)
  with Cons show ?case by (auto split: prod.splits outcome.splits)
qed simp

lemma NewApp_state:
  assumes "NewApp backend uni = Ret a"
  shows "app_ok uni (appStore a)" "appRouter a = router_of (app_modules uni)" "GetNonce (appStore a) s = 0"
proof -
  obtain st where st: "NewStoreFromEnv backend = Inr st"
    "a = \<lparr>appStore = st, appRouter = router_of (app_modules uni), appEventBus = newBus, appLastHash = []\<rparr>"
    using assms by (auto simp: NewApp_eq NewStore_def split: sum.splits)
  have new: "store_inv st" "Get st k = None" for k using store_inv_new [OF st(1)] by auto
  have "parts_ok (app_parts uni) st" by (rule app.same_contents_ok [OF app.fresh_ok [of uni 0]]) (simp_all add: new)
  then show "app_ok uni (appStore a)" using new by (simp add: app_ok_def st(2) well_typed_def)
  show "appRouter a = router_of (app_modules uni)" "GetNonce (appStore a) s = 0" by (simp_all add: st(2) GetNonce_def new(2))
qed

lemma chain_state:
  "chain E uni a past \<Longrightarrow> app_ok uni (appStore a) \<and> appRouter a = router_of (app_modules uni)
     \<and> follows (\<lambda>s. 0) past (GetNonce (appStore a)) \<and> (\<forall>env \<in> set past. signed_tx E env)"
proof (induction rule: chain.induct)
  case (start backend a)
  then show ?case using NewApp_state [OF start] by (simp add: follows_Nil)
next
  case (genesis a past f req)
  then have ok: "app_ok uni (appStore a)" "appRouter a = router_of (app_modules uni)" by auto
  have "GetNonce (appStore (fst (InitChain (E\<lparr>map_order := f\<rparr>) a req))) = GetNonce (appStore a)"
    by (rule ext) (simp add: GetNonce_def InitChain_keeps(3) [OF genesis(2) ok])
  then show ?case using InitChain_keeps(1,2) [OF genesis(2) ok] genesis by simp
next
  case (block a past f req)
  then have ok: "app_ok uni (appStore a)" "appRouter a = router_of (app_modules uni)" by auto
  note keeps = FinalizeBlock_keeps [OF block(2) ok, of req]
  have "signed_tx E env" if "env \<in> set (block_log E a req)" for env
    using that executed_signed by (auto simp: block_log_def split: option.splits)
  then show ?case using keeps follows_append [OF _ keeps(3), of "\<lambda>s. 0" past] block(3) by auto
qed

lemma distinct_pairs: "distinct (map (\<lambda>x. (f x, g x)) xs) \<longleftrightarrow> (\<forall>a. distinct (map g (filter (\<lambda>x. f x = a) xs)))"
proof (induction xs)
  case (Cons x xs)
  have "(f x, g x) \<in> (\<lambda>x. (f x, g x)) ` set xs \<longleftrightarrow> g x \<in> g ` {y \<in> set xs. f y = f x}" 
    by (simp add: image_iff) metis
  with Cons show ?case by auto
qed simp

lemma distinct_words: "n \<le> 2 ^ 64 \<Longrightarrow> distinct (map (of_nat :: nat \<Rightarrow> uint64) [0..<n])"
  by (auto simp: distinct_map inj_on_def word_of_nat_eq_iff take_bit_nat_eq_self)

section \<open>Properties\<close>

text \<open>C1: no transaction executes twice. In every state of the chain, the transactions of an account that have executed carried the
  nonces 0, 1, 2 and so on without a gap, the next nonce the store expects of the account is their number, and each of them was
  well formed and signed by its sender. As long as fewer than 2^64 have executed, no pair of sender and
  nonce occurs twice.\<close>

theorem no_replay:
  assumes "chain E uni a past"
  shows "map Nonce (from_sender s past) = map of_nat [0..<length (from_sender s past)]
    \<and> GetNonce (appStore a) s = of_nat (length (from_sender s past)) \<and> (\<forall>env \<in> set past. signed_tx E env)
    \<and> (length past \<le> 2 ^ 64 \<longrightarrow> distinct (map (\<lambda>e. (Sender e, Nonce e)) past))"
proof -
  have f: "follows (\<lambda>s. 0) past (GetNonce (appStore a))" using chain_state [OF assms] by blast
  have n: "map Nonce (from_sender s past) = map of_nat [0..<length (from_sender s past)]" for s
    using f by (simp add: follows_def)
  have "distinct (map (\<lambda>e. (Sender e, Nonce e)) past)" if "length past \<le> 2 ^ 64"
  proof (subst distinct_pairs, intro allI)
    fix s
    have "length (from_sender s past) \<le> 2 ^ 64" unfolding from_sender_def by (rule order.trans [OF length_filter_le that])
    then have "distinct (map Nonce (from_sender s past))" unfolding n by (rule distinct_words)
    then show "distinct (map Nonce (filter (\<lambda>e. Sender e = s) past))" by (simp add: from_sender_def)
  qed
  then show ?thesis using f n chain_state [OF assms] by (simp add: follows_def)
qed

text \<open>C4: the invariants of all modules hold together. In every state of the chain, whatever transactions were executed, in whatever
  order the modules ended the blocks, each module finds its part of the store as it left it: the invariant that each module keeps by
  itself holds.\<close>

theorem app_invariant:
  assumes "chain E uni a past"
  shows "amx_ok (appStore a) \<and> aap_ok (appStore a) \<and> weave_ok (appStore a) \<and> cap_ok (appStore a) \<and> rep_ok (appStore a)
    \<and> arb_ok (appStore a) \<and> fiat_ok (appStore a) \<and> node_ok (appStore a) \<and> gov_ok (appStore a)"
  using chain_state [OF assms] by (simp add: app_ok_def parts_ok_def app_parts_def)

text \<open>C7: the store is typed. In every state of the chain, a key under the prefix of a table holds a value of the type of that
  table, a key of a nonce holds eight bytes, and no key occurs twice.\<close>

theorem chain_typed:
  assumes "chain E uni a past"
  shows "well_typed (appStore a) \<and> store_inv (appStore a)"
  using chain_state [OF assms] by (simp add: app_ok_def)

lemma deliver_all_length: "deliver_all E r c txs = (c', Ret rs) \<Longrightarrow> length rs = length txs"
  by (induction txs arbitrary: c rs) (auto split: prod.splits outcome.splits)

lemma deliver_no_error: "snd (deliver E r c raw) \<noteq> Err e"
  by (auto simp: deliver_def Let_def split: sum.splits prod.splits outcome.splits)

lemma deliver_all_no_error: "snd (deliver_all E r c txs) \<noteq> Err e"
proof (induction txs arbitrary: c)
  case (Cons raw txs)
  obtain c' x where x: "deliver E r c raw = (c', x)" by fastforce
  obtain c'' y where y: "deliver_all E r c' txs = (c'', y)" by fastforce
  have "y \<noteq> Err e" using Cons [of c'] y by simp
  then show ?case using deliver_no_error [of E r c raw e] x y by (auto split: outcome.splits)
qed simp

lemma FinalizeBlock_Some:
  assumes E: "permutes_modules E" and ok: "app_ok uni (appStore a)" and r: "appRouter a = router_of (app_modules uni)"
    and d: "deliver_all E (appRouter a) (block_ctx a req) (fb_Txs req) = (c1, Ret rs)"
  obtains c2 evs where "router_EndBlock (map_order E (map snd (modules (appRouter a)))) c1 = (c2, Ret evs)"
    "FinalizeBlock E a (Some req) = (a\<lparr>appStore := snd (snd (Commit (marshal_val E) (ctxStore c2))), appEventBus := newBus,
        appLastHash := fst (Commit (marshal_val E) (ctxStore c2))\<rparr>,
      Ret \<lparr>fr_TxResults = rs, fr_AppHash = fst (Commit (marshal_val E) (ctxStore c2)),
        fr_Events = events (ctxEventBus c2) @ evs\<rparr>)"
proof -
  have c1: "app_ok uni (ctxStore c1)"
    using deliver_all_keeps [of uni "block_ctx a req", OF _ r, of E "fb_Txs req"] ok d by (simp add: block_ctx_def)
  obtain c2 evs where c2: "router_EndBlock (map_order E (map snd (modules (appRouter a)))) c1 = (c2, Ret evs)"
    using EndBlock_keeps [OF E c1 r] by blast
  have "events (foldl Emit b evs) = events b @ evs" for b
    by (induction evs arbitrary: b) (simp_all add: Emit_def)
  then have "FinalizeBlock E a (Some req) = (a\<lparr>appStore := snd (snd (Commit (marshal_val E) (ctxStore c2))), appEventBus := newBus,
        appLastHash := fst (Commit (marshal_val E) (ctxStore c2))\<rparr>,
      Ret \<lparr>fr_TxResults = rs, fr_AppHash = fst (Commit (marshal_val E) (ctxStore c2)),
        fr_Events = events (ctxEventBus c2) @ evs\<rparr>)"
    using d c2 by (simp add: FinalizeBlock_def block_ctx_def [symmetric] Let_def case_prod_beta Flush_def newBus_def)
  with c2 that show ?thesis by blast
qed

lemma block_answers:
  assumes "chain E uni a past" "permutes_modules E"
  shows "(\<exists>rs resp. snd (deliver_all E (appRouter a) (block_ctx a req) (fb_Txs req)) = Ret rs \<and> snd (FinalizeBlock E a (Some req)) = Ret resp
      \<and> fr_TxResults resp = rs \<and> length rs = length (fb_Txs req))
    \<or> snd (deliver_all E (appRouter a) (block_ctx a req) (fb_Txs req)) = Panic \<and> snd (FinalizeBlock E a (Some req)) = Panic"
proof -
  obtain c1 x where x: "deliver_all E (appRouter a) (block_ctx a req) (fb_Txs req) = (c1, x)" by fastforce
  have st: "app_ok uni (appStore a)" "appRouter a = router_of (app_modules uni)" using chain_state [OF assms(1)] by auto
  show ?thesis
  proof (cases x)
    case (Ret rs)
    then show ?thesis using FinalizeBlock_Some [OF assms(2) st x [unfolded Ret]] x deliver_all_length
      by (metis FinalizeBlockResponse.select_convs(1) snd_conv)
  next
    case Panic
    then show ?thesis using x by (simp add: FinalizeBlock_def block_ctx_def [symmetric] Let_def)
  next
    case (Err e)
    then show ?thesis using deliver_all_no_error [of E "appRouter a" "block_ctx a req" "fb_Txs req" e] x by simp
  qed
qed

text \<open>C5: a block ends. In every state of the chain, \<open>FinalizeBlock\<close> answers with one result for each transaction of the
  block, in their order, unless the handler of one of them panics: none of the modules fails at the end of the block, and no
  transaction, however malformed, makes the block fail.\<close>

theorem block_returns:
  assumes "chain E uni a past" "permutes_modules E"
  shows "(\<exists>rs resp. snd (deliver_all E (appRouter a) (block_ctx a req) (fb_Txs req)) = Ret rs \<and> snd (FinalizeBlock E a (Some req)) = Ret resp
      \<and> fr_TxResults resp = rs \<and> length rs = length (fb_Txs req))
    \<or> snd (deliver_all E (appRouter a) (block_ctx a req) (fb_Txs req)) = Panic \<and> snd (FinalizeBlock E a (Some req)) = Panic"
  by (rule block_answers [OF assms])

text \<open>C3: the order of the modules does not matter. Go ranges over the map of modules in an order that can differ
  from node to node. Two nodes in the same state of the chain that execute the same block, each with its own order,
  come to the same contents of the store, the same results and the same application hash, and to the same events up to their order.\<close>

theorem order_irrelevant:
  assumes "chain E uni a past" "permutes_modules (E\<lparr>map_order := f\<rparr>)" "permutes_modules (E\<lparr>map_order := g\<rparr>)"
    "FinalizeBlock (E\<lparr>map_order := f\<rparr>) a (Some req) = (a1, Ret r1)"
  shows "\<exists>a2 r2. FinalizeBlock (E\<lparr>map_order := g\<rparr>) a (Some req) = (a2, Ret r2) \<and> fr_TxResults r2 = fr_TxResults r1
    \<and> fr_AppHash r2 = fr_AppHash r1 \<and> mset (fr_Events r2) = mset (fr_Events r1)
    \<and> (\<forall>k. Get (appStore a2) k = Get (appStore a1) k) \<and> LastAppHashHex a2 = LastAppHashHex a1"
proof -
  have st: "app_ok uni (appStore a)" "appRouter a = router_of (app_modules uni)" using chain_state [OF assms(1)] by auto
  obtain c x where x: "deliver_all E (appRouter a) (block_ctx a req) (fb_Txs req) = (c, x)" by fastforce
  obtain rs where rs: "x = Ret rs"
    using assms(4) x by (cases x) (auto simp: FinalizeBlock_def block_ctx_def [symmetric] Let_def)
  have c: "app_ok uni (ctxStore c)"
    using deliver_all_keeps [of uni "block_ctx a req", OF _ st(2), of E "fb_Txs req"] st(1) x by (simp add: block_ctx_def)
  note d = x [unfolded rs]
  obtain c1 e1 where 1: "router_EndBlock (map_order (E\<lparr>map_order := f\<rparr>) (map snd (modules (appRouter a)))) c = (c1, Ret e1)"
    and f1: "FinalizeBlock (E\<lparr>map_order := f\<rparr>) a (Some req) = (a\<lparr>appStore := snd (snd (Commit (marshal_val E) (ctxStore c1))), appEventBus := newBus,
        appLastHash := fst (Commit (marshal_val E) (ctxStore c1))\<rparr>, Ret \<lparr>fr_TxResults = rs,
        fr_AppHash = fst (Commit (marshal_val E) (ctxStore c1)), fr_Events = events (ctxEventBus c1) @ e1\<rparr>)"
    using FinalizeBlock_Some [OF assms(2) st, of req c rs] d by auto
  obtain c2 e2 where 2: "router_EndBlock (map_order (E\<lparr>map_order := g\<rparr>) (map snd (modules (appRouter a)))) c = (c2, Ret e2)"
    and f2: "FinalizeBlock (E\<lparr>map_order := g\<rparr>) a (Some req) = (a\<lparr>appStore := snd (snd (Commit (marshal_val E) (ctxStore c2))), appEventBus := newBus,
        appLastHash := fst (Commit (marshal_val E) (ctxStore c2))\<rparr>, Ret \<lparr>fr_TxResults = rs,
        fr_AppHash = fst (Commit (marshal_val E) (ctxStore c2)), fr_Events = events (ctxEventBus c2) @ e2\<rparr>)"
    using FinalizeBlock_Some [OF assms(3) st, of req c rs] d by auto
  have "parts_ok (app_parts uni) (ctxStore c)" "store_inv (ctxStore c)" using c by (simp_all add: app_ok_def)
  from app.end_order [OF visited_modules(1) [OF assms(2)] visited_modules(1) [OF assms(3)] this]
  have same: "mset e2 = mset e1" "\<And>k. Get (ctxStore c2) k = Get (ctxStore c1) k" "store_inv (ctxStore c1)" "store_inv (ctxStore c2)"
    "Version (ctxStore c2) = Version (ctxStore c1)" "ctxEventBus c2 = ctxEventBus c1"
    using 1 2 by (auto simp: st(2))
  have "fst (Commit (marshal_val E) (ctxStore c2)) = fst (Commit (marshal_val E) (ctxStore c1))"
    by (rule Commit_determined) (simp_all add: same)
  then show ?thesis using f1 f2 assms(4) same by (auto simp: LastAppHashHex_def)
qed

lemma payload_gas_exact:
  assumes "length p < 2 ^ 60"
  shows "used = 1000 + payload_gas p \<longleftrightarrow> unat used = 1000 + 10 * ((length p + 1023) div 1024)"
proof -
  define n where "n = 1000 + 10 * ((length p + 1023) div 1024)"
  have "n < 2 ^ 64" using assms by (simp add: n_def)
  then have "unat (of_nat n :: uint64) = n" by (simp add: unat_of_nat)
  moreover have "1000 + payload_gas p = of_nat n" by (simp add: payload_gas_def n_def mult.commute)
  ultimately show ?thesis unfolding n_def [symmetric] by (metis word_unat_eq_iff)
qed

text \<open>C6: what is admitted to execution. A transaction reaches its module exactly when it decodes, is well formed, has not
  timed out, is signed by its sender, carries the next nonce of its sender, and its gas limit covers the
  1000 of the signature and 10 for each started kilobyte of payload, in whole numbers; a transaction that is not admitted leaves the
  state as it was.\<close>

theorem admission:
  assumes "length (Payload env) < 2 ^ 60"
  shows "(admit E ctx raw = Inr (env, used) \<longleftrightarrow> DecodeTx raw = Some env \<and> signed_tx E env
      \<and> (TimeoutHeight env \<le> 0 \<or> ctxHeight ctx \<le> TimeoutHeight env) \<and> Nonce env = GetNonce (ctxStore ctx) (Sender env)
      \<and> unat used = 1000 + 10 * ((length (Payload env) + 1023) div 1024) \<and> unat used \<le> unat (GasLimit env))
    \<and> (admit E ctx raw = Inl res \<longrightarrow> deliver E r ctx raw = (ctx, Ret res))"
proof (rule conjI)
  show "admit E ctx raw = Inr (env, used) \<longleftrightarrow> DecodeTx raw = Some env \<and> signed_tx E env
      \<and> (TimeoutHeight env \<le> 0 \<or> ctxHeight ctx \<le> TimeoutHeight env) \<and> Nonce env = GetNonce (ctxStore ctx) (Sender env)
      \<and> unat used = 1000 + 10 * ((length (Payload env) + 1023) div 1024) \<and> unat used \<le> unat (GasLimit env)"
    unfolding admit_Inr payload_gas_exact [OF assms] signed_tx_def
    by (auto simp: word_le_nat_alt not_less split: option.splits)
  show "admit E ctx raw = Inl res \<longrightarrow> deliver E r ctx raw = (ctx, Ret res)" by (simp add: deliver_def)
qed

section \<open>A block\<close>

text \<open>A new application, and a block with one transaction that deposits funds, for a verifier that accepts: the input of the
  witnesses.\<close>

definition demo_env :: Env where
  "demo_env = \<lparr>ed25519_Verify = \<lambda>pub msg sig. True, marshal_val = \<lambda>v. [], map_order = \<lambda>ms. ms\<rparr>"

definition demo_raw :: bytes where
  "demo_raw = ''{\"sender\":\"AAAAAAAAAAAAAAAAAAAAAAAAAAAAAAAAAAAAAAAAAAA=\",\"nonce\":0,\"gas_limit\":5000,\"gas_price\":1,\"module\":\"fiat\",\"action\":\"deposit_funds\",\"payload\":{\"currency\":\"CNY\",\"amount\":\"2000\"},\"signature\":\"AAAAAAAAAAAAAAAAAAAAAAAAAAAAAAAAAAAAAAAAAAAAAAAAAAAAAAAAAAAAAAAAAAAAAAAAAAAAAAAAAAAAAA==\"}''"

definition demo_tx :: TxEnvelope where
  "demo_tx = \<lparr>Sender = replicate 32 (CHR 0x00), Nonce = 0, GasLimit = 5000, GasPrice = 1, Module = ''fiat'', Action = ''deposit_funds'',
     Payload = ''{\"currency\":\"CNY\",\"amount\":\"2000\"}'', Signature = replicate 64 (CHR 0x00), Memo = [], TimeoutHeight = 0\<rparr>"

definition demo_app :: App where
  "demo_app = \<lparr>appStore = \<lparr>backendName = ''memory'', engine = newMemoryEngine\<rparr>, appRouter = router_of (app_modules (\<lambda>b. b)),
     appEventBus = newBus, appLastHash = []\<rparr>"

definition demo_req :: FinalizeBlockRequest where
  "demo_req = \<lparr>fb_Height = 1, fb_Time = 100000000000, fb_Txs = [demo_raw]\<rparr>"

lemma demo_new: "NewApp ''memory'' (\<lambda>b. b) = Ret demo_app"
  by (simp add: NewApp_eq NewStore_def NewStoreFromEnv_def NewStoreWithBackend_def demo_app_def)

lemma demo_start: "chain demo_env (\<lambda>b. b) demo_app []"
  by (rule chain.start [OF demo_new])

lemma demo_permutes: "permutes_modules demo_env" "permutes_modules (demo_env\<lparr>map_order := (\<lambda>ms. ms)\<rparr>)"
  "permutes_modules (demo_env\<lparr>map_order := rev\<rparr>)"
  by (simp_all add: permutes_modules_def demo_env_def)

lemma demo_same: "demo_env\<lparr>map_order := (\<lambda>ms. ms)\<rparr> = demo_env"
  by (simp add: demo_env_def)

lemma demo_decode: "DecodeTx demo_raw = Some demo_tx"
  by code_simp

lemma demo_signed: "signed_tx demo_env demo_tx"
proof -
  have "Unmarshal (Payload demo_tx) \<noteq> None" "ValidateBasic demo_tx = None" by code_simp+
  then show ?thesis using SignBytes_defined [of demo_tx] by (auto simp: signed_tx_def VerifySignature_def demo_env_def)
qed

lemma demo_admit: "admit demo_env (block_ctx demo_app demo_req) demo_raw = Inr (demo_tx, 1010)"
proof -
  have "Nonce demo_tx = GetNonce (ctxStore (block_ctx demo_app demo_req)) (Sender demo_tx)" "\<not> 0 < TimeoutHeight demo_tx"
    "payload_gas (Payload demo_tx) = 10" "GasLimit demo_tx = 5000" by code_simp+
  with demo_signed demo_decode show ?thesis by (auto simp: admit_Inr signed_tx_def split: option.splits)
qed

lemma demo_execute: "(case Execute (appRouter demo_app) (block_ctx demo_app demo_req) demo_tx of (c, Ret res) \<Rightarrow> res_Code res = CodeOK | _ \<Rightarrow> False)"
  by code_simp

lemma demo_log: "block_log demo_env demo_app (Some demo_req) = [demo_tx]"
  using demo_execute
  by (auto simp: block_log_def demo_req_def [THEN arg_cong, of fb_Txs] succeeded_def demo_admit split: prod.splits outcome.splits)

abbreviation demo_next :: App where
  "demo_next \<equiv> fst (FinalizeBlock demo_env demo_app (Some demo_req))"

lemma demo_block: "chain demo_env (\<lambda>b. b) demo_next [demo_tx]"
  using chain.block [OF demo_start demo_permutes(2), of "Some demo_req"] by (simp add: demo_same demo_log)

theorem no_replay_witness: "chain demo_env (\<lambda>b. b) demo_next [demo_tx] \<and> GetNonce (appStore demo_next) (replicate 32 (CHR 0x00)) = 1"
  using no_replay [OF demo_block, of "replicate 32 (CHR 0x00)"] demo_block by (simp add: from_sender_def demo_tx_def)

theorem app_invariant_witness: "chain demo_env (\<lambda>b. b) demo_next [demo_tx] \<and> fiat_ok (appStore demo_next)"
  using app_invariant [OF demo_block] demo_block by simp

theorem chain_typed_witness: "chain demo_env (\<lambda>b. b) demo_next [demo_tx] \<and> well_typed (appStore demo_next)"
  using chain_typed [OF demo_block] demo_block by simp

lemma demo_delivered: "snd (deliver_all demo_env (appRouter demo_app) (block_ctx demo_app demo_req) (fb_Txs demo_req)) \<noteq> Panic"
  using demo_execute
  by (auto simp: deliver_def demo_req_def [THEN arg_cong, of fb_Txs] demo_admit Let_def split: prod.splits outcome.splits)

theorem block_returns_witness:
  "\<exists>resp. snd (FinalizeBlock demo_env demo_app (Some demo_req)) = Ret resp \<and> length (fr_TxResults resp) = 1"
  using block_returns [OF demo_start demo_permutes(1), of demo_req] demo_delivered by (auto simp: demo_req_def)

theorem order_irrelevant_witness:
  "\<exists>a1 r1 a2 r2. FinalizeBlock (demo_env\<lparr>map_order := (\<lambda>ms. ms)\<rparr>) demo_app (Some demo_req) = (a1, Ret r1)
    \<and> FinalizeBlock (demo_env\<lparr>map_order := rev\<rparr>) demo_app (Some demo_req) = (a2, Ret r2) \<and> fr_AppHash r2 = fr_AppHash r1"
proof -
  have "app_ok (\<lambda>b. b) (appStore demo_app)" "appRouter demo_app = router_of (app_modules (\<lambda>b. b))" using chain_state [OF demo_start] by simp_all
  note fb = FinalizeBlock_Some [OF demo_permutes(2) this, of demo_req]
  obtain c rs where "deliver_all demo_env (appRouter demo_app) (block_ctx demo_app demo_req) (fb_Txs demo_req) = (c, Ret rs)"
    using demo_delivered deliver_all_no_error [of demo_env "appRouter demo_app" "block_ctx demo_app demo_req" "fb_Txs demo_req"]
    by (metis outcome.exhaust prod.collapse)
  then have d: "deliver_all (demo_env\<lparr>map_order := (\<lambda>ms. ms)\<rparr>) (appRouter demo_app) (block_ctx demo_app demo_req) (fb_Txs demo_req) = (c, Ret rs)"
    by simp
  obtain a1 r1 where 1: "FinalizeBlock (demo_env\<lparr>map_order := (\<lambda>ms. ms)\<rparr>) demo_app (Some demo_req) = (a1, Ret r1)"
    by (rule fb [OF d]) (rule that)
  from order_irrelevant [OF demo_start demo_permutes(2,3) 1] 1 show ?thesis by blast
qed

theorem admission_witness:
  "admit demo_env (block_ctx demo_app demo_req) demo_raw = Inr (demo_tx, 1010) \<and> unat (1010 :: uint64) \<le> unat (GasLimit demo_tx)"
proof -
  have "length (Payload demo_tx) < 2 ^ 60" by (simp add: demo_tx_def)
  from admission [OF this, of demo_env "block_ctx demo_app demo_req" demo_raw 1010] demo_admit show ?thesis by blast
qed

section \<open>Gas of handlers\<close>

text \<open>The gas a handler uses is added to the result and compared with nothing: a transaction whose limit covers its admission only
  is executed, and reports more gas than its limit.\<close>

lemma gas_beyond_limit:
  assumes "admit E ctx raw = Inr (env, used)" "Execute r ctx env = (ctx', Ret res)" "unat used + unat (res_GasUsed res) < 2 ^ 64" "0 < res_GasUsed res"
    "GasLimit env = used"
  shows "\<exists>c res'. deliver E r ctx raw = (c, Ret res') \<and> GasLimit env < res_GasUsed res'"
proof -
  have "unat (res_GasUsed res + used) = unat (res_GasUsed res) + unat used"
    using assms(3) by (subst unat_add_lem [symmetric]) simp
  moreover have "0 < unat (res_GasUsed res)" using assms(4) by (simp add: word_less_nat_alt)
  ultimately have "used < res_GasUsed res + used" by (simp only: word_less_nat_alt)
  then show ?thesis using assms(1,2,5) by (simp add: deliver_def Let_def)
qed

end
