(* ===== verification/Adapter.thy ===== *)
theory Adapter
  imports Chain
begin

text \<open>
  The ways into the application from outside: \<open>internal/abci/comet_adapter.go\<close>, which hands the calls of CometBFT to the
  application (build tag \<open>cometbft\<close>), and the servers \<open>internal/api/grpc\<close> and \<open>internal/api/rest\<close>. Requests and responses are
  records with the fields the adapter sets. The clock, which \<open>FinalizeBlock\<close> reads when a block has no time, and
  the order in which Go ranges over the attributes of an event are arguments.
\<close>

section \<open>comet\_adapter.go\<close>

record ResponseInfo =
  ri_Data :: bytes
  ri_Version :: bytes
  ri_AppVersion :: uint64
  ri_LastBlockHeight :: int64
  ri_LastBlockAppHash :: bytes

definition comet_Info :: "App \<Rightarrow> ResponseInfo" where
  "comet_Info a = \<lparr>ri_Data = ''aacp'', ri_Version = ''0.9.0'', ri_AppVersion = 1,
     ri_LastBlockHeight = sint (Version (appStore a)), ri_LastBlockAppHash = LastAppHashHex a\<rparr>"

text \<open>The genesis of the adapter is a map with the one key \<open>app_state\<close>.\<close>

definition comet_InitChain :: "Env \<Rightarrow> App \<Rightarrow> bytes \<Rightarrow> App \<times> bytes outcome" where
  "comet_InitChain E a appState = InitChain E a (Some (\<lambda>k. if k = ''app_state'' then appState else []))"

record ResponseCheckTx =
  ck_Code :: uint32
  ck_Log :: bytes
  ck_GasWanted :: int64

definition CheckTx :: "Env \<Rightarrow> bytes \<Rightarrow> ResponseCheckTx" where
  "CheckTx E raw = (case DecodeTx raw of
     None \<Rightarrow> \<lparr>ck_Code = CodeDecodeFail, ck_Log = err_text json_error, ck_GasWanted = 0\<rparr>
   | Some env \<Rightarrow>
     (case ValidateBasic env of Some e \<Rightarrow> \<lparr>ck_Code = CodeDecodeFail, ck_Log = err_text e, ck_GasWanted = 0\<rparr>
      | None \<Rightarrow>
        (case SignBytes env of None \<Rightarrow> \<lparr>ck_Code = CodeDecodeFail, ck_Log = err_text json_error, ck_GasWanted = 0\<rparr>
         | Some signBytes \<Rightarrow>
           if \<not> VerifySignature E (Sender env) signBytes (Signature env)
           then \<lparr>ck_Code = CodeBadSignature, ck_Log = ''invalid signature'', ck_GasWanted = 0\<rparr>
           else \<lparr>ck_Code = CodeOK, ck_Log = [], ck_GasWanted = sint (GasLimit env)\<rparr>)))"

definition comet_PrepareProposal :: "bytes list \<Rightarrow> bytes list" where
  "comet_PrepareProposal txs = PrepareProposal (Some txs)"

definition comet_ProcessProposal :: "bytes list \<Rightarrow> bool" where
  "comet_ProcessProposal txs = ProcessProposal (Some txs)"

record CometEvent =
  ce_Type :: bytes
  ce_Attributes :: "(bytes \<times> bytes) list"

definition toCometEvents :: "((bytes \<times> bytes) list \<Rightarrow> (bytes \<times> bytes) list) \<Rightarrow> Event list \<Rightarrow> CometEvent list" where
  "toCometEvents ord evs = map (\<lambda>ev. \<lparr>ce_Type = ev_Type ev, ce_Attributes = ord (ev_Attributes ev)\<rparr>) evs"

record CometTxResult =
  ct_Code :: uint32
  ct_Log :: bytes
  ct_GasUsed :: int64
  ct_Events :: "CometEvent list"
  ct_Data :: bytes

record ResponseFinalizeBlock =
  rf_TxResults :: "CometTxResult list"
  rf_AppHash :: bytes
  rf_Events :: "CometEvent list"

definition comet_FinalizeBlock :: "Env \<Rightarrow> ((bytes \<times> bytes) list \<Rightarrow> (bytes \<times> bytes) list) \<Rightarrow> time \<Rightarrow> App \<Rightarrow> int64 \<Rightarrow> time \<Rightarrow> bytes list
    \<Rightarrow> App \<times> ResponseFinalizeBlock outcome" where
  "comet_FinalizeBlock E ord clock a height t txs =
     (let when = (if t = zeroTime then clock else t) in
      case FinalizeBlock E a (Some \<lparr>fb_Height = height, fb_Time = when, fb_Txs = txs\<rparr>) of
        (a, Err e) \<Rightarrow> (a, Err e) | (a, Panic) \<Rightarrow> (a, Panic)
      | (a, Ret resp) \<Rightarrow>
        (a, Ret \<lparr>rf_TxResults = map (\<lambda>r. \<lparr>ct_Code = res_Code r, ct_Log = res_Log r, ct_GasUsed = sint (res_GasUsed r),
                ct_Events = toCometEvents ord (res_Events r), ct_Data = res_Data r\<rparr>) (fr_TxResults resp),
              rf_AppHash = fr_AppHash resp, rf_Events = toCometEvents ord (fr_Events resp)\<rparr>))"

definition comet_Commit :: "App \<Rightarrow> int64" where
  "comet_Commit a = app_Commit a"

record ResponseQuery =
  rq_Code :: uint32
  rq_Value :: bytes
  rq_Height :: int64

definition comet_Query :: "Env \<Rightarrow> App \<Rightarrow> bytes \<Rightarrow> bytes \<Rightarrow> ResponseQuery outcome" where
  "comet_Query E a path dat =
     (let module = (if path = [] then ''state'' else path) in
      case app_Query E a (Some \<lparr>qr_Module = module, qr_Path = path, qr_Data = dat\<rparr>) of
        Err e \<Rightarrow> Err e | Panic \<Rightarrow> Panic
      | Ret v \<Rightarrow> Ret \<lparr>rq_Code = CodeOK, rq_Value = v, rq_Height = sint (Version (appStore a))\<rparr>)"

section \<open>The servers\<close>

text \<open>\<open>BroadcastTx\<close> leaves the time of the request unset.\<close>

definition BroadcastTx :: "Env \<Rightarrow> App \<Rightarrow> bytes \<Rightarrow> App \<times> FinalizeBlockResponse outcome" where
  "BroadcastTx E a tx = FinalizeBlock E a (Some \<lparr>fb_Height = wrap64 (sint (Version (appStore a)) + 1), fb_Time = zeroTime, fb_Txs = [tx]\<rparr>)"

record node_status =
  chain_id :: bytes
  latest_height :: uint64
  latest_hash :: bytes

definition rest_status :: "App \<Rightarrow> node_status" where
  "rest_status a = \<lparr>chain_id = ''aacp-devnet-1'', latest_height = Version (appStore a), latest_hash = LastAppHashHex a\<rparr>"

section \<open>What the adapter adds\<close>

text \<open>The mempool admits what decodes and is signed; what a block would execute is always among it.\<close>

theorem CheckTx_iff: "ck_Code (CheckTx E raw) = CodeOK \<longleftrightarrow> (\<exists>env. DecodeTx raw = Some env \<and> signed_tx E env)"
  by (auto simp: CheckTx_def signed_tx_def split: option.splits)

theorem CheckTx_complete: "admit E ctx raw = Inr (env, used) \<Longrightarrow> ck_Code (CheckTx E raw) = CodeOK"
  by (auto simp: CheckTx_iff admit_Inr signed_tx_def)

text \<open>A proposal of this node is accepted by every other: what is left of a list of transactions is a sublist of it in
  which none is too long, and preparing it again changes nothing.\<close>

lemma process_loop_iff: "process_loop txs \<longleftrightarrow> (\<forall>tx \<in> set txs. length tx \<le> 262144)"
  by (induction txs) auto

theorem proposals_accepted:
  "comet_ProcessProposal (comet_PrepareProposal txs) \<and> comet_PrepareProposal (comet_PrepareProposal txs) = comet_PrepareProposal txs
   \<and> (comet_ProcessProposal txs \<longrightarrow> comet_PrepareProposal txs = txs)"
  by (auto simp: comet_ProcessProposal_def comet_PrepareProposal_def ProcessProposal_def PrepareProposal_def process_loop_iff filter_id_conv)

text \<open>The genesis that consensus hands over reaches no module: no module is called \<open>app_state\<close>.\<close>

lemma genesis_cong:
  "(\<And>m. m \<in> set ms \<Longrightarrow> g (mName m) = g' (mName m)) \<Longrightarrow> router_InitGenesis ms c g = router_InitGenesis ms c g'"
  by (induction ms arbitrary: c) (auto split: prod.split outcome.split)

theorem genesis_ignored:
  assumes "chain E uni a past" "permutes_modules E"
  shows "comet_InitChain E a appState = comet_InitChain E a appState'"
proof -
  have r: "appRouter a = router_of (app_modules uni)" using chain_state [OF assms(1)] by blast
  have "mName m \<noteq> ''app_state''" if "m \<in> set (map_order E (map snd (modules (appRouter a))))" for m
  proof -
    have "m \<in> set (app_modules uni)"
      using that visited_modules(2) [OF assms(2), of uni] by (force simp: r simp flip: app_parts_modules)
    then show ?thesis by (auto simp: app_modules_def New_defs)
  qed
  then have "router_InitGenesis (map_order E (map snd (modules (appRouter a)))) c (\<lambda>k. if k = ''app_state'' then appState else [])
      = router_InitGenesis (map_order E (map snd (modules (appRouter a)))) c (\<lambda>k. if k = ''app_state'' then appState' else [])" for c
    by (intro genesis_cong) simp
  then show ?thesis by (simp add: comet_InitChain_def InitChain_def)
qed

text \<open>The version of the store counts the commits, and the genesis is one of them.\<close>

lemma deliver_version:
  "Version (ctxStore (fst (deliver E (router_of (app_modules uni)) c raw))) = Version (ctxStore c)"
proof (cases "admit E c raw")
  case (Inr eu)
  obtain env used where eu: "eu = (env, used)" by (cases eu)
  have "Version (ctxStore (fst (Execute (router_of (app_modules uni)) c env))) = Version (ctxStore c)"
  proof (cases rule: Execute_cases [of "app_modules uni" c env])
    case (2 m)
    then obtain owned I where "(m, owned, I) \<in> set (app_parts uni)" using in_app_parts by blast
    from app.exec_confined_all [OF this, of c env] show ?thesis by (simp add: 2(3) confined_def)
  qed simp
  then show ?thesis using Inr eu by (auto simp: deliver_def Let_def SetNonce_def split: prod.splits outcome.splits)
qed (simp add: deliver_def)

lemma deliver_all_version:
  "Version (ctxStore (fst (deliver_all E (router_of (app_modules uni)) c txs))) = Version (ctxStore c)"
proof (induction txs arbitrary: c)
  case (Cons raw txs)
  obtain c' x where x: "deliver E (router_of (app_modules uni)) c raw = (c', x)" by fastforce
  then have "Version (ctxStore c') = Version (ctxStore c)" using deliver_version [of E uni c raw] by simp
  with x Cons.IH [of c'] show ?case by (auto split: prod.split outcome.split)
qed simp

lemma FinalizeBlock_version:
  assumes "chain E uni a past" "permutes_modules E" "FinalizeBlock E a (Some req) = (a', Ret resp)"
  shows "Version (appStore a') = Version (appStore a) + 1"
proof -
  have st: "app_ok uni (appStore a)" "appRouter a = router_of (app_modules uni)" using chain_state [OF assms(1)] by auto
  obtain c x where x: "deliver_all E (appRouter a) (block_ctx a req) (fb_Txs req) = (c, x)" by fastforce
  obtain rs where rs: "x = Ret rs" using assms(3) x by (cases x) (auto simp: FinalizeBlock_def block_ctx_def [symmetric] Let_def)
  have v: "Version (ctxStore c) = Version (appStore a)"
    using deliver_all_version [of E uni "block_ctx a req" "fb_Txs req"] x by (simp add: st(2) block_ctx_def)
  have c: "app_ok uni (ctxStore c)"
    using deliver_all_keeps [of uni "block_ctx a req", OF _ st(2), of E "fb_Txs req"] st(1) x by (simp add: block_ctx_def)
  then have "parts_ok (app_parts uni) (ctxStore c)" by (simp add: app_ok_def)
  note e = app.router_end [OF visited_modules(2) [OF assms(2)] this, of "[]"]
  show ?thesis
  proof (rule FinalizeBlock_Some [OF assms(2) st x [unfolded rs]])
    fix c2 evs
    assume "router_EndBlock (map_order E (map snd (modules (appRouter a)))) c = (c2, Ret evs)"
      and f: "FinalizeBlock E a (Some req) = (a\<lparr>appStore := snd (snd (Commit (marshal_val E) (ctxStore c2))), appEventBus := newBus,
        appLastHash := fst (Commit (marshal_val E) (ctxStore c2))\<rparr>,
      Ret \<lparr>fr_TxResults = rs, fr_AppHash = fst (Commit (marshal_val E) (ctxStore c2)), fr_Events = events (ctxEventBus c2) @ evs\<rparr>)"
    then have "Version (ctxStore c2) = Version (ctxStore c)" using e by (auto simp: router_EndBlock_def st(2) confined_def)
    then show "Version (appStore a') = Version (appStore a) + 1" using f assms(3) v by auto
  qed
qed

text \<open>After the genesis and \<open>n\<close> blocks the adapter reports the height \<open>n + 1\<close>.\<close>

inductive blocks :: "Env \<Rightarrow> (bytes \<Rightarrow> bytes) \<Rightarrow> nat \<Rightarrow> App \<Rightarrow> bool" for E :: Env and uni :: "bytes \<Rightarrow> bytes" where
  genesis: "NewApp backend uni = Ret a \<Longrightarrow> comet_InitChain E a appState = (a', Ret h) \<Longrightarrow> blocks E uni 0 a'"
| block: "blocks E uni n a \<Longrightarrow> FinalizeBlock E a (Some req) = (a', Ret resp) \<Longrightarrow> blocks E uni (Suc n) a'"

lemma blocks_version:
  assumes "blocks E uni n a" "permutes_modules E"
  shows "(\<exists>past. chain E uni a past) \<and> Version (appStore a) = of_nat n + 1"
  using assms(1)
proof (induction rule: blocks.induct)
  case (genesis backend a appState a' h)
  have E: "E\<lparr>map_order := map_order E\<rparr> = E" by simp
  have c: "chain E uni a []" by (rule chain.start [OF genesis(1)])
  have "chain E uni a' []"
    using chain.genesis [OF c, of "map_order E" "Some (\<lambda>k. if k = ''app_state'' then appState else [])"] assms(2) genesis(2)
    by (simp add: E comet_InitChain_def)
  moreover have "Version (appStore a) = 0"
    using genesis(1) by (auto simp: NewApp_eq NewStore_def NewStoreFromEnv_def NewStoreWithBackend_def Version_def mem_Version_def
        newMemoryEngine_def split: sum.splits if_splits)
  then have "Version (appStore a') = 1"
    using genesis(2) app.router_genesis [OF visited_modules(2) [OF assms(2)]] chain_state [OF c]
    by (auto simp: comet_InitChain_def InitChain_def Let_def case_prod_beta split: outcome.splits)
  ultimately show ?case by auto
next
  case (block n a req a' resp)
  then obtain past where c: "chain E uni a past" by blast
  have "chain E uni a' (past @ block_log E a (Some req))"
    using chain.block [OF c, of "map_order E" "Some req"] assms(2) block(2) by simp
  moreover have "Version (appStore a') = Version (appStore a) + 1" by (rule FinalizeBlock_version [OF c assms(2) block(2)])
  ultimately show ?case using block.IH by (auto simp: algebra_simps)
qed

theorem reported_height:
  assumes "blocks E uni n a" "permutes_modules E" "n + 1 < 2 ^ 63"
  shows "ri_LastBlockHeight (comet_Info a) = int n + 1"
proof -
  have "Version (appStore a) = of_nat (n + 1)" using blocks_version [OF assms(1,2)] by (simp add: algebra_simps)
  moreover have "sint (of_nat k :: uint64) = int k" if "k < 2 ^ 63" for k
    using that by (simp add: signed_of_nat signed_take_bit_int_eq_self)
  ultimately show ?thesis using assms(3) by (simp add: comet_Info_def del: of_nat_add of_nat_Suc)
qed

text \<open>The hash the adapter reports for the last block is the hexadecimal text of the hash that the block was answered with.\<close>

lemma reported_hash: "ri_LastBlockAppHash (comet_Info a) = hex_EncodeToString (appLastHash a)"
  by (simp add: comet_Info_def LastAppHashHex_def)

end
