(* ===== verification/Daemon.thy ===== *)
theory Daemon
  imports Adapter
begin

text \<open>
  \<open>cmd/aacpd\<close>, the development node: an HTTP server in front of one application, with a height counted by the server. The
  part of \<open>net/http\<close> that is modelled is the method and body of a request and the status of the reply; a handler
  that panics loses its connection, and the server goes on with the state the handler left.
\<close>

section \<open>The node\<close>

record Daemon =
  dm_app :: App
  dm_height :: int64

definition daemon_New :: "Env \<Rightarrow> bytes \<Rightarrow> (bytes \<Rightarrow> bytes) \<Rightarrow> Daemon outcome" where
  "daemon_New E backend uni = (case NewApp backend uni of
     Ret a \<Rightarrow> (case InitChain E a (Some (\<lambda>k. [])) of (a, Ret h) \<Rightarrow> Ret \<lparr>dm_app = a, dm_height = 0\<rparr> | (a, Err e) \<Rightarrow> Err e | (a, Panic) \<Rightarrow> Panic)
   | Err e \<Rightarrow> Err e | Panic \<Rightarrow> Panic)"

definition daemon_finalize :: "Env \<Rightarrow> time \<Rightarrow> Daemon \<Rightarrow> bytes list \<Rightarrow> Daemon \<times> FinalizeBlockResponse outcome" where
  "daemon_finalize E clock dm txs =
     (let height = wrap64 (dm_height dm + 1) in
      case FinalizeBlock E (dm_app dm) (Some \<lparr>fb_Height = height, fb_Time = clock, fb_Txs = txs\<rparr>) of
        (a, r) \<Rightarrow> (\<lparr>dm_app = a, dm_height = height\<rparr>, r))"

record healthResp =
  hr_Status :: bytes
  hr_AppHash :: bytes
  hr_Height :: int64
  hr_Timestamp :: int64

definition currentHealth :: "time \<Rightarrow> Daemon \<Rightarrow> healthResp" where
  "currentHealth clock dm = \<lparr>hr_Status = ''ok'', hr_AppHash = LastAppHashHex (dm_app dm), hr_Height = dm_height dm,
     hr_Timestamp = Unix clock\<rparr>"

section \<open>Requests\<close>

datatype 'a reply = HttpError nat bytes | WriteJSON 'a | Dropped

definition reply_of :: "'a outcome \<Rightarrow> 'a reply" where
  "reply_of r = (case r of Ret x \<Rightarrow> WriteJSON x | Err e \<Rightarrow> HttpError 500 (err_text e) | Panic \<Rightarrow> Dropped)"

definition api_finalize_empty :: "Env \<Rightarrow> time \<Rightarrow> Daemon \<Rightarrow> bytes \<Rightarrow> Daemon \<times> FinalizeBlockResponse reply" where
  "api_finalize_empty E clock dm meth =
     (if meth \<noteq> ''GET'' \<and> meth \<noteq> ''POST'' then (dm, HttpError 405 ''method not allowed'')
      else map_prod id reply_of (daemon_finalize E clock dm []))"

definition finalizeReq_fields :: "(bytes \<times> bytes list field) list" where
  "finalizeReq_fields = [(''txs'', fld (dec_list dec_bytes []) id id)]"

definition api_finalize :: "Env \<Rightarrow> time \<Rightarrow> Daemon \<Rightarrow> bytes \<Rightarrow> bytes \<Rightarrow> Daemon \<times> FinalizeBlockResponse reply" where
  "api_finalize E clock dm meth body =
     (if meth \<noteq> ''POST'' then (dm, HttpError 405 ''method not allowed'')
      else case Option.bind (DecodeFirst body) (\<lambda>j. dec_struct False finalizeReq_fields j []) of
          None \<Rightarrow> (dm, HttpError 400 (err_text json_error))
        | Some txs \<Rightarrow> map_prod id reply_of (daemon_finalize E clock dm txs))"

definition finalizeHexReq_fields :: "(bytes \<times> bytes list field) list" where
  "finalizeHexReq_fields = [(''txs_hex'', fld (dec_list dec_string []) id id)]"

definition decodeHexString :: "bytes \<Rightarrow> bytes option" where
  "decodeHexString v = hex_DecodeString (TrimSpace v)"

definition api_finalize_hex :: "Env \<Rightarrow> time \<Rightarrow> Daemon \<Rightarrow> bytes \<Rightarrow> bytes \<Rightarrow> Daemon \<times> FinalizeBlockResponse reply" where
  "api_finalize_hex E clock dm meth body =
     (if meth \<noteq> ''POST'' then (dm, HttpError 405 ''method not allowed'')
      else case Option.bind (DecodeFirst body) (\<lambda>j. dec_struct False finalizeHexReq_fields j []) of
          None \<Rightarrow> (dm, HttpError 400 (err_text json_error))
        | Some hexes \<Rightarrow>
          (case opt_list (map decodeHexString hexes) of
             None \<Rightarrow> (dm, HttpError 400 ''invalid tx hex at index %d: %v'')
           | Some txs \<Rightarrow> map_prod id reply_of (daemon_finalize E clock dm txs)))"

section \<open>Queries of the state\<close>

text \<open>\<open>strconv.Atoi\<close>: an optional sign and decimal digits, within 64 bits.\<close>

definition Atoi :: "bytes \<Rightarrow> int64 option" where
  "Atoi s = (let neg = (s \<noteq> [] \<and> hd s = CHR ''-''); r = (if s \<noteq> [] \<and> (hd s = CHR ''-'' \<or> hd s = CHR ''+'') then tl s else s);
       n = int (foldl (\<lambda>n c. 10 * n + (of_char c - 48)) 0 r); i = (if neg then - n else n)
     in if r = [] \<or> \<not> list_all is_digit r \<or> \<not> in_int64 i then None else Some i)"

definition parseLimit :: "bytes \<Rightarrow> int64 \<Rightarrow> int64 \<Rightarrow> int64 \<Rightarrow> goerr + int64" where
  "parseLimit raw defaultValue minValue maxValue =
     (if TrimSpace raw = [] then Inr defaultValue
      else case Atoi raw of None \<Rightarrow> Inl (PlainError ''invalid limit %q'')
        | Some v \<Rightarrow> if v < minValue \<or> maxValue < v then Inl (PlainError ''limit must be between %d and %d'') else Inr v)"

record stateEntry =
  se_Key :: bytes
  se_ValueBase64 :: bytes
  se_ValueText :: bytes
  se_ValueJSON :: "goany option"

definition state_entry :: "Env \<Rightarrow> bytes \<times> val \<Rightarrow> stateEntry" where
  "state_entry E kv = (let raw = val_bytes (marshal_val E) (snd kv) in
     \<lparr>se_Key = fst kv, se_ValueBase64 = base64_Encode raw, se_ValueText = (if utf8_Valid raw then raw else []),
      se_ValueJSON = Option.bind (Unmarshal raw) dec_any\<rparr>)"

record statePrefixResp =
  sr_Prefix :: bytes
  sr_Limit :: int64
  sr_Count :: int64
  sr_Height :: int64
  sr_Entries :: "stateEntry list"

definition api_state_prefix :: "Env \<Rightarrow> Daemon \<Rightarrow> bytes \<Rightarrow> bytes \<Rightarrow> bytes \<Rightarrow> statePrefixResp reply" where
  "api_state_prefix E dm meth p rawLimit =
     (if meth \<noteq> ''GET'' then HttpError 405 ''method not allowed''
      else if p = [] then HttpError 400 ''prefix is required''
      else case parseLimit rawLimit 50 1 500 of Inl e \<Rightarrow> HttpError 400 (err_text e)
        | Inr limit \<Rightarrow>
          let entries = IteratePrefix (appStore (dm_app dm)) p;
              entries = (if limit < int (length entries) then take (nat limit) entries else entries);
              out = map (state_entry E) entries
          in WriteJSON \<lparr>sr_Prefix = p, sr_Limit = limit, sr_Count = int (length out), sr_Height = dm_height dm, sr_Entries = out\<rparr>)"

definition knownStatePrefixes :: "bytes list" where
  "knownStatePrefixes = [PrefixAMXListing, PrefixAMXOrder, PrefixAMXIndex, PrefixAAPTask, PrefixAAPEvidence, PrefixAAPSLA,
     PrefixAAPHeartbeat, PrefixWeaveDAG, PrefixWeaveNode, PrefixCapUTXO, PrefixCapHolder, PrefixCapType, PrefixCapDerive,
     PrefixRepScore, PrefixArbDispute, PrefixArbVote, PrefixFiatEscrow, PrefixFiatDeposit, PrefixFiatPool, PrefixNodeReg,
     PrefixNodeVal, PrefixGovProp, PrefixGovVote, PrefixAccNonce, PrefixParams]"

definition api_state_prefixes :: "bytes \<Rightarrow> bytes list reply" where
  "api_state_prefixes meth = (if meth \<noteq> ''GET'' then HttpError 405 ''method not allowed'' else WriteJSON knownStatePrefixes)"

text \<open>A stored object as a map, and fields of it.\<close>

definition readStateObject :: "Env \<Rightarrow> Store \<Rightarrow> bytes \<Rightarrow> (bytes \<times> goany) list" where
  "readStateObject E st key = (case Get st key of None \<Rightarrow> []
   | Some v \<Rightarrow> let raw = val_bytes (marshal_val E) v in
       if raw = [] then [] else (case Option.bind (Unmarshal raw) dec_any of Some (AnyMap kvs) \<Rightarrow> kvs | _ \<Rightarrow> []))"

definition pickFields :: "(bytes \<times> goany) list \<Rightarrow> bytes list \<Rightarrow> (bytes \<times> goany) list" where
  "pickFields source keys = fold (\<lambda>f out. case map_of source f of Some v \<Rightarrow> AList.update f v out | None \<Rightarrow> out) keys []"

definition any_string :: "goany option \<Rightarrow> bytes" where
  "any_string v = (case v of Some (AnyStr s) \<Rightarrow> s | _ \<Rightarrow> [])"

definition readStatusField :: "Env \<Rightarrow> Store \<Rightarrow> bytes \<Rightarrow> bytes" where
  "readStatusField E st key = any_string (map_of (readStateObject E st key) ''status'')"

definition readNestedStringField :: "Env \<Rightarrow> Store \<Rightarrow> bytes \<Rightarrow> bytes \<Rightarrow> bytes \<Rightarrow> bytes" where
  "readNestedStringField E st key f g = (case map_of (readStateObject E st key) f of
     Some (AnyMap kvs) \<Rightarrow> any_string (map_of kvs g) | _ \<Rightarrow> [])"

section \<open>Identifiers and results for the demonstrations\<close>

definition mintUTXOID :: "bytes \<Rightarrow> bytes \<Rightarrow> uint64 \<Rightarrow> bytes" where
  "mintUTXOID issuer capType nonce =
     hex_EncodeToString (take 8 (Sum256 (hex_EncodeToString issuer @ ''|'' @ capType @ ''|'' @ utoa 10 (unat nonce))))"

definition shortHashID :: "bytes list \<Rightarrow> bytes" where
  "shortHashID parts = hex_EncodeToString (take 8 (Sum256 (foldl (@) [] parts)))"

definition taskIDFromOrder :: "bytes \<Rightarrow> uint64 \<Rightarrow> bytes" where
  "taskIDFromOrder orderID nonce = hex_EncodeToString (take 8 (Sum256 (orderID @ '':'' @ utoa 10 (unat nonce))))"

definition disputeIDForDemo :: "bytes \<Rightarrow> bytes \<Rightarrow> uint64 \<Rightarrow> bytes" where
  "disputeIDForDemo orderID tid nonce =
     hex_EncodeToString (take 8 (Sum256 (orderID @ ''|'' @ tid @ ''|'' @ utoa 10 (unat nonce))))"

definition shortAddress :: "bytes \<Rightarrow> bytes" where
  "shortAddress pub = (let value = hex_EncodeToString pub in
     if length value \<le> 14 then value else take 8 value @ ''...'' @ drop (length value - 6) value)"

definition txHashHex :: "bytes \<Rightarrow> bytes" where
  "txHashHex rawTx = (if rawTx = [] then [] else hex_EncodeToString (Sum256 rawTx))"

definition firstTxCode :: "FinalizeBlockResponse option \<Rightarrow> uint32" where
  "firstTxCode resp = (case resp of None \<Rightarrow> CodeDecodeFail
     | Some r \<Rightarrow> (case fr_TxResults r of [] \<Rightarrow> CodeDecodeFail | x # _ \<Rightarrow> res_Code x))"

record lifeTxOutcome =
  lo_Code :: uint32
  lo_Log :: bytes
  lo_GasUsed :: uint64
  lo_Events :: "Event list"

definition firstTxOutcome :: "FinalizeBlockResponse option \<Rightarrow> lifeTxOutcome" where
  "firstTxOutcome resp =
     (let missing = \<lparr>lo_Code = CodeDecodeFail, lo_Log = ''missing tx result'', lo_GasUsed = 0, lo_Events = []\<rparr>
      in case resp of None \<Rightarrow> missing
         | Some r \<Rightarrow> (case fr_TxResults r of [] \<Rightarrow> missing
             | x # _ \<Rightarrow> \<lparr>lo_Code = res_Code x, lo_Log = res_Log x, lo_GasUsed = res_GasUsed x, lo_Events = res_Events x\<rparr>))"

section \<open>What holds of the node\<close>

text \<open>The identifiers the demonstrations compute are those the modules give.\<close>

lemma foldl_append: "foldl (@) xs xss = xs @ concat xss"
  by (induction xss arbitrary: xs) simp_all

theorem predicted_ids:
  "mintUTXOID = utxoID" "shortHashID = shortHash" "taskIDFromOrder = taskID" "disputeIDForDemo = disputeID"
  by (intro ext; simp add: mintUTXOID_def utxoID_def shortHashID_def shortHash_def taskIDFromOrder_def taskID_def
      disputeIDForDemo_def disputeID_def foldl_append)+

text \<open>The limit of a query is between 1 and 500.\<close>

lemma parseLimit_range: "lo \<le> d \<Longrightarrow> d \<le> hi \<Longrightarrow> parseLimit raw d lo hi = Inr v \<Longrightarrow> lo \<le> v \<and> v \<le> hi"
  by (auto simp: parseLimit_def split: option.splits if_splits)

lemma se_Key_entry [simp]: "se_Key (state_entry E kv) = fst kv"
  by (simp add: state_entry_def Let_def)

theorem state_prefix_reply:
  assumes "api_state_prefix E dm meth p raw = WriteJSON r" "store_inv (appStore (dm_app dm))"
  shows "1 \<le> sr_Limit r \<and> sr_Limit r \<le> 500 \<and> sr_Count r = int (length (sr_Entries r)) \<and> sr_Count r \<le> sr_Limit r
    \<and> sorted (map se_Key (sr_Entries r)) \<and> (\<forall>e \<in> set (sr_Entries r). prefix p (se_Key e))"
proof -
  obtain limit where l: "parseLimit raw 50 1 500 = Inr limit" and p: "p \<noteq> []"
    using assms(1) by (auto simp: api_state_prefix_def split: if_splits sum.splits)
  define kvs where "kvs = IteratePrefix (appStore (dm_app dm)) p"
  define es where "es = (if limit < int (length kvs) then take (nat limit) kvs else kvs)"
  have r: "r = \<lparr>sr_Prefix = p, sr_Limit = limit, sr_Count = int (length es), sr_Height = dm_height dm, sr_Entries = map (state_entry E) es\<rparr>"
    using assms(1) l p by (auto simp: api_state_prefix_def es_def kvs_def Let_def split: if_splits)
  have lim: "1 \<le> limit" "limit \<le> 500" using parseLimit_range [OF _ _ l] by auto
  have key: "map se_Key (map (state_entry E) es) = map fst es" by simp
  have "sorted (map fst kvs)" unfolding kvs_def by (rule store.iter_sorted [OF assms(2)])
  then have "sorted (map fst es)" by (auto simp: es_def take_map [symmetric] intro: sorted_wrt_take)
  moreover have "prefix p k" if "(k, v) \<in> set es" for k v
  proof -
    have "(k, v) \<in> set kvs" using that by (auto simp: es_def dest: in_set_takeD split: if_splits)
    then show ?thesis using store.iter_mem [OF assms(2)] by (auto simp: kvs_def)
  qed
  moreover have "int (length es) \<le> limit" using lim by (auto simp: es_def)
  ultimately show ?thesis unfolding r statePrefixResp.simps key using lim by (simp add: ball_Un split_paired_Ball_Sigma) (metis prod.collapse)
qed

text \<open>Alerts are kept under a prefix the interface does not announce.\<close>

lemma alerts_not_announced: "list_all (\<lambda>p. \<not> prefix p PrefixAlert) knownStatePrefixes"
  by code_simp

section \<open>Runs of the node\<close>

text \<open>The states of the node under any sequence of blocks, with their number.\<close>

inductive serves :: "Env \<Rightarrow> (bytes \<Rightarrow> bytes) \<Rightarrow> Daemon \<Rightarrow> nat \<Rightarrow> bool" for E :: Env and uni :: "bytes \<Rightarrow> bytes" where
  start: "daemon_New E backend uni = Ret dm \<Longrightarrow> serves E uni dm 0"
| step: "serves E uni dm n \<Longrightarrow> serves E uni (fst (daemon_finalize E clock dm txs)) (Suc n)"

lemma api_cases:
  "api_finalize_empty E clock dm meth = map_prod id reply_of (daemon_finalize E clock dm []) \<or> (\<exists>m. api_finalize_empty E clock dm meth = (dm, HttpError 405 m))"
  "(\<exists>txs. api_finalize E clock dm meth body = map_prod id reply_of (daemon_finalize E clock dm txs))
    \<or> (\<exists>s m. api_finalize E clock dm meth body = (dm, HttpError s m) \<and> (s = 400 \<or> s = 405))"
  "(\<exists>txs. api_finalize_hex E clock dm meth body = map_prod id reply_of (daemon_finalize E clock dm txs))
    \<or> (\<exists>s m. api_finalize_hex E clock dm meth body = (dm, HttpError s m) \<and> (s = 400 \<or> s = 405))"
  by (auto simp: api_finalize_empty_def api_finalize_def api_finalize_hex_def split: option.split)

lemma daemon_start:
  assumes "daemon_New E backend uni = Ret dm" "permutes_modules E"
  shows "chain E uni (dm_app dm) []" "dm_height dm = 0"
proof -
  obtain a h where a: "NewApp backend uni = Ret a" "InitChain E a (Some (\<lambda>k. [])) = (dm_app dm, Ret h)" "dm_height dm = 0"
    using assms(1) by (auto simp: daemon_New_def split: outcome.splits prod.splits)
  show "chain E uni (dm_app dm) []"
    using chain.genesis [OF chain.start [OF a(1), of E], of "map_order E" "Some (\<lambda>k. [])"] assms(2) a(2) by simp
  show "dm_height dm = 0" by (rule a(3))
qed

lemma serves_chain:
  assumes "serves E uni dm n" "permutes_modules E"
  shows "(\<exists>past. chain E uni (dm_app dm) past) \<and> (n < 2 ^ 63 \<longrightarrow> dm_height dm = int n)"
  using assms(1)
proof (induction rule: serves.induct)
  case (start backend dm)
  then show ?case using daemon_start [OF start assms(2)] by auto
next
  case (step dm n clock txs)
  then obtain past where c: "chain E uni (dm_app dm) past" by blast
  let ?req = "\<lparr>fb_Height = wrap64 (dm_height dm + 1), fb_Time = clock, fb_Txs = txs\<rparr>"
  have "chain E uni (fst (FinalizeBlock E (dm_app dm) (Some ?req))) (past @ block_log E (dm_app dm) (Some ?req))"
    using chain.block [OF c, of "map_order E" "Some ?req"] assms(2) by simp
  then have "\<exists>past. chain E uni (dm_app (fst (daemon_finalize E clock dm txs))) past"
    by (auto simp: daemon_finalize_def Let_def case_prod_beta)
  moreover have "dm_height (fst (daemon_finalize E clock dm txs)) = int (Suc n)" if "Suc n < 2 ^ 63"
    using that step.IH by (simp add: daemon_finalize_def Let_def case_prod_beta in_int64_def)
  ultimately show ?case by blast
qed

text \<open>Whatever is sent to the node, it is in a state of the chain, its height is the number of blocks it has executed, a request
  either leaves it as it is or executes one block at the next height, and the answer is never an internal error: a
  block is refused with status 400 or 405, answered, or its handler panics.\<close>

theorem node_serves:
  assumes "serves E uni dm n" "permutes_modules E" "n + 1 < 2 ^ 63"
    and "(dm', r) \<in> {api_finalize_empty E clock dm meth, api_finalize E clock dm meth body, api_finalize_hex E clock dm meth body}"
  shows "dm_height dm = int n \<and> (\<exists>past. chain E uni (dm_app dm) past)
    \<and> ((dm' = dm \<and> (\<exists>m. r = HttpError 400 m \<or> r = HttpError 405 m))
      \<or> (serves E uni dm' (n + 1) \<and> dm_height dm' = int n + 1 \<and> (r = Dropped \<or> (\<exists>resp. r = WriteJSON resp))))"
proof -
  have c: "\<exists>past. chain E uni (dm_app dm) past" "dm_height dm = int n" using serves_chain [OF assms(1,2)] assms(3) by auto
  have "\<exists>txs. (dm', r) = map_prod id reply_of (daemon_finalize E clock dm txs)" if "\<not> (dm' = dm \<and> (\<exists>m. r = HttpError 400 m \<or> r = HttpError 405 m))"
    using that assms(4) api_cases(1) [of E clock dm meth] api_cases(2,3) [of E clock dm meth body] by (auto; metis)
  moreover have "serves E uni dm' (n + 1) \<and> dm_height dm' = int n + 1 \<and> (r = Dropped \<or> (\<exists>resp. r = WriteJSON resp))"
    if t: "(dm', r) = map_prod id reply_of (daemon_finalize E clock dm txs)" for txs
  proof -
    let ?req = "\<lparr>fb_Height = wrap64 (dm_height dm + 1), fb_Time = clock, fb_Txs = txs\<rparr>"
    have d: "dm' = fst (daemon_finalize E clock dm txs)" "r = reply_of (snd (FinalizeBlock E (dm_app dm) (Some ?req)))"
      using t by (simp_all add: daemon_finalize_def Let_def case_prod_beta map_prod_def)
    have s: "serves E uni dm' (n + 1)" using serves.step [OF assms(1)] by (simp add: d)
    obtain past where ch: "chain E uni (dm_app dm) past" using c(1) by blast
    have "r = Dropped \<or> (\<exists>resp. r = WriteJSON resp)"
      using block_answers [OF ch assms(2), of ?req] d(2) by (auto simp: reply_of_def)
    with s serves_chain [OF s assms(2)] assms(3) show ?thesis by simp
  qed
  ultimately show ?thesis using c by blast
qed

end
