(* ===== verification/Docs.thy ===== *)
theory Docs
  imports Daemon
begin

text \<open>
  The descriptive documents of \<open>cmd/aacpd\<close>: what the node announces of itself (\<open>buildCapabilitiesDoc\<close>, served under
  \<open>/api/meta/capabilities\<close>) and the description of an action in the story (\<open>storyImplementation\<close>). Text outside ASCII is
  given by its code points. The actions announced for a module are those it handles.
\<close>

definition utf8_text :: "nat list \<Rightarrow> bytes" where
  "utf8_text = concat \<circ> map utf8_encode"

section \<open>The capabilities of the node\<close>

record capabilityAction =
  ca_Name :: bytes
  ca_Description :: bytes

record capabilityModule =
  cm_ID :: bytes
  cm_Name :: bytes
  cm_Description :: bytes
  cm_KeyPrefixes :: "bytes list"
  cm_Actions :: "capabilityAction list"

record capabilitiesResp =
  cr_Project :: bytes
  cr_Purpose :: bytes
  cr_QuickStart :: "bytes list"
  cr_WhatYouCanDo :: "bytes list"
  cr_Modules :: "capabilityModule list"
  cr_StatePrefixes :: "bytes list"

definition capability_modules :: "capabilityModule list" where
  "capability_modules =
     [\<lparr>cm_ID = ''amx'', cm_Name = ''AMX '' @ utf8_text [24066, 22330, 25774, 21512],
        cm_Description = utf8_text [31649, 29702] @ '' listing / order / match '' @ utf8_text [29983, 21629, 21608, 26399, 12290],
        cm_KeyPrefixes = [PrefixAMXListing, PrefixAMXOrder, PrefixAMXIndex],
        cm_Actions =
         [\<lparr>ca_Name = ''create_listing'', ca_Description = utf8_text [21019, 24314, 20379, 32473, 20391, 33021, 21147] @ '' listing''\<rparr>,
          \<lparr>ca_Name = ''update_listing'', ca_Description = utf8_text [26356, 26032] @ '' listing '' @ utf8_text [21442, 25968]\<rparr>,
          \<lparr>ca_Name = ''pause_listing'', ca_Description = utf8_text [26242, 20572] @ '' listing''\<rparr>,
          \<lparr>ca_Name = ''delist_listing'', ca_Description = utf8_text [19979, 26550] @ '' listing''\<rparr>,
          \<lparr>ca_Name = ''submit_request'', ca_Description = utf8_text [25552, 20132, 38656, 27714, 35831, 27714, 24182, 29983, 25104, 35746, 21333]\<rparr>,
          \<lparr>ca_Name = ''confirm_match'', ca_Description = utf8_text [30830, 35748, 25774, 21512]\<rparr>,
          \<lparr>ca_Name = ''reject_match'', ca_Description = utf8_text [25298, 32477, 25774, 21512]\<rparr>,
          \<lparr>ca_Name = ''cancel_order'', ca_Description = utf8_text [21462, 28040, 35746, 21333]\<rparr>]\<rparr>,
      \<lparr>cm_ID = ''aap'', cm_Name = ''AAP '' @ utf8_text [20219, 21153, 21327, 35758],
        cm_Description = utf8_text [20219, 21153, 20174, 21019, 24314, 21040, 32467, 31639, 30340, 25191, 34892, 20027, 27969, 31243, 12290],
        cm_KeyPrefixes = [PrefixAAPTask, PrefixAAPEvidence, PrefixAAPSLA, PrefixAAPHeartbeat],
        cm_Actions =
         [\<lparr>ca_Name = ''create_task'', ca_Description = utf8_text [21019, 24314, 20219, 21153]\<rparr>,
          \<lparr>ca_Name = ''sign_sla'', ca_Description = utf8_text [31614, 32626] @ '' SLA''\<rparr>,
          \<lparr>ca_Name = ''submit_heartbeat'', ca_Description = utf8_text [25552, 20132, 24515, 36339, 36827, 24230]\<rparr>,
          \<lparr>ca_Name = ''submit_result'', ca_Description = utf8_text [25552, 20132, 20219, 21153, 32467, 26524]\<rparr>,
          \<lparr>ca_Name = ''verify_result'', ca_Description = utf8_text [26657, 39564, 32467, 26524]\<rparr>,
          \<lparr>ca_Name = ''settle_task'', ca_Description = utf8_text [32467, 31639, 20219, 21153]\<rparr>,
          \<lparr>ca_Name = ''file_dispute'', ca_Description = utf8_text [21457, 36215, 20105, 35758]\<rparr>]\<rparr>,
      \<lparr>cm_ID = ''weave'', cm_Name = ''WEAVE DAG '' @ utf8_text [32534, 25490],
        cm_Description = utf8_text [31649, 29702] @ '' DAG '' @ utf8_text [19982, 33410, 28857, 25191, 34892, 29366, 24577, 12290],
        cm_KeyPrefixes = [PrefixWeaveDAG, PrefixWeaveNode],
        cm_Actions =
         [\<lparr>ca_Name = ''create_dag'', ca_Description = utf8_text [21019, 24314] @ '' DAG''\<rparr>,
          \<lparr>ca_Name = ''start_dag'', ca_Description = utf8_text [21551, 21160] @ '' DAG''\<rparr>,
          \<lparr>ca_Name = ''update_node_status'', ca_Description = utf8_text [26356, 26032, 33410, 28857, 29366, 24577]\<rparr>,
          \<lparr>ca_Name = ''cancel_dag'', ca_Description = utf8_text [21462, 28040] @ '' DAG''\<rparr>,
          \<lparr>ca_Name = ''submit_node_output'', ca_Description = utf8_text [25552, 20132, 33410, 28857, 36755, 20986]\<rparr>]\<rparr>,
      \<lparr>cm_ID = ''caputxo'', cm_Name = ''CapUTXO '' @ utf8_text [33021, 21147, 20973, 35777],
        cm_Description = utf8_text [33021, 21147, 30340] @ '' mint / spend / delegate / revoke '' @ utf8_text [29983, 21629, 21608, 26399, 12290],
        cm_KeyPrefixes = [PrefixCapUTXO, PrefixCapHolder, PrefixCapType, PrefixCapDerive],
        cm_Actions =
         [\<lparr>ca_Name = ''mint_capability'', ca_Description = utf8_text [21457, 34892, 33021, 21147, 20973, 35777]\<rparr>,
          \<lparr>ca_Name = ''spend_capability'', ca_Description = utf8_text [28040, 32791, 33021, 21147, 39069, 24230]\<rparr>,
          \<lparr>ca_Name = ''delegate_capability'', ca_Description = utf8_text [22996, 25176, 23376, 33021, 21147]\<rparr>,
          \<lparr>ca_Name = ''revoke_capability'', ca_Description = utf8_text [25764, 38144, 33021, 21147, 24182, 32423, 32852, 23376, 33021, 21147]\<rparr>,
          \<lparr>ca_Name = ''batch_expire'', ca_Description = utf8_text [25209, 37327, 36807, 26399, 22788, 29702]\<rparr>]\<rparr>,
      \<lparr>cm_ID = ''fiat'', cm_Name = ''FIAT '' @ utf8_text [25176, 31649, 32467, 31639],
        cm_Description = utf8_text [27861, 24065, 25176, 31649, 19982, 36164, 37329, 27969, 36716, 12290],
        cm_KeyPrefixes = [PrefixFiatEscrow, PrefixFiatDeposit, PrefixFiatPool],
        cm_Actions =
         [\<lparr>ca_Name = ''create_escrow'', ca_Description = utf8_text [21019, 24314, 25176, 31649, 21333]\<rparr>,
          \<lparr>ca_Name = ''fund_escrow'', ca_Description = utf8_text [21521, 25176, 31649, 20837, 37329]\<rparr>,
          \<lparr>ca_Name = ''release_escrow'', ca_Description = utf8_text [37322, 25918, 25176, 31649]\<rparr>,
          \<lparr>ca_Name = ''lock_escrow'', ca_Description = utf8_text [38145, 23450, 25176, 31649]\<rparr>,
          \<lparr>ca_Name = ''refund_escrow'', ca_Description = utf8_text [36864, 27454]\<rparr>,
          \<lparr>ca_Name = ''slash_deposit'', ca_Description = utf8_text [32602, 27809, 20445, 35777, 37329]\<rparr>,
          \<lparr>ca_Name = ''deposit_funds'', ca_Description = utf8_text [20805, 20540, 36164, 37329]\<rparr>,
          \<lparr>ca_Name = ''withdraw_deposit'', ca_Description = utf8_text [25552, 21462, 20805, 20540]\<rparr>]\<rparr>,
      \<lparr>cm_ID = ''arb'', cm_Name = ''ARB '' @ utf8_text [20210, 35009],
        cm_Description = utf8_text [20105, 35758, 22788, 29702, 19982, 25237, 31080, 35009, 20915, 12290],
        cm_KeyPrefixes = [PrefixArbDispute, PrefixArbVote],
        cm_Actions =
         [\<lparr>ca_Name = ''file_dispute'', ca_Description = utf8_text [21457, 36215, 20105, 35758]\<rparr>,
          \<lparr>ca_Name = ''submit_evidence'', ca_Description = utf8_text [25552, 20132, 35777, 25454]\<rparr>,
          \<lparr>ca_Name = ''auto_resolve'', ca_Description = utf8_text [33258, 21160, 35009, 20915]\<rparr>,
          \<lparr>ca_Name = ''committee_vote'', ca_Description = utf8_text [22996, 21592, 20250, 25237, 31080]\<rparr>,
          \<lparr>ca_Name = ''appeal'', ca_Description = utf8_text [30003, 35785]\<rparr>,
          \<lparr>ca_Name = ''full_vote'', ca_Description = utf8_text [20840, 20307, 25237, 31080]\<rparr>,
          \<lparr>ca_Name = ''execute_verdict'', ca_Description = utf8_text [25191, 34892, 35009, 20915]\<rparr>]\<rparr>,
      \<lparr>cm_ID = ''rep'', cm_Name = ''REP '' @ utf8_text [20449, 35465],
        cm_Description = utf8_text [20449, 35465, 20998, 32500, 25252, 19982, 20462, 27491, 12290],
        cm_KeyPrefixes = [PrefixRepScore],
        cm_Actions =
         [\<lparr>ca_Name = ''update_reputation'', ca_Description = utf8_text [26356, 26032, 20449, 35465, 20998]\<rparr>,
          \<lparr>ca_Name = ''apply_decay'', ca_Description = utf8_text [24212, 29992, 34928, 20943]\<rparr>,
          \<lparr>ca_Name = ''override_score'', ca_Description = utf8_text [20154, 24037, 35206, 30422, 20998, 20540]\<rparr>]\<rparr>,
      \<lparr>cm_ID = ''node'', cm_Name = ''NODE '' @ utf8_text [33410, 28857, 31649, 29702],
        cm_Description = utf8_text [33410, 28857, 27880, 20876, 19982, 39564, 35777, 32773, 31649, 29702, 12290],
        cm_KeyPrefixes = [PrefixNodeReg, PrefixNodeVal],
        cm_Actions =
         [\<lparr>ca_Name = ''register_node'', ca_Description = utf8_text [27880, 20876, 33410, 28857]\<rparr>,
          \<lparr>ca_Name = ''rotate_key'', ca_Description = utf8_text [36718, 25442, 23494, 38053]\<rparr>,
          \<lparr>ca_Name = ''elect_validators'', ca_Description = utf8_text [36873, 20030, 39564, 35777, 32773]\<rparr>,
          \<lparr>ca_Name = ''ban_node'', ca_Description = utf8_text [23553, 31105, 33410, 28857]\<rparr>]\<rparr>,
      \<lparr>cm_ID = ''gov'', cm_Name = ''GOV '' @ utf8_text [27835, 29702],
        cm_Description = utf8_text [25552, 26696, 21019, 24314, 12289, 25237, 31080, 19982, 25191, 34892, 12290],
        cm_KeyPrefixes = [PrefixGovProp, PrefixGovVote],
        cm_Actions =
         [\<lparr>ca_Name = ''create_proposal'', ca_Description = utf8_text [21019, 24314, 25552, 26696]\<rparr>,
          \<lparr>ca_Name = ''vote_proposal'', ca_Description = utf8_text [25552, 26696, 25237, 31080]\<rparr>,
          \<lparr>ca_Name = ''execute_proposal'', ca_Description = utf8_text [25191, 34892, 25552, 26696]\<rparr>]\<rparr>,
      \<lparr>cm_ID = ''afd'', cm_Name = ''AFD '' @ utf8_text [21578, 35686],
        cm_Description = utf8_text [19978, 25253, 21578, 35686, 20107, 20214, 24182, 20379, 21518, 32493, 31574, 30053, 22788, 29702, 12290],
        cm_KeyPrefixes = [],
        cm_Actions =
         [\<lparr>ca_Name = ''report_alert'', ca_Description = utf8_text [19978, 25253, 21578, 35686]\<rparr>]\<rparr>]"

definition buildCapabilitiesDoc :: capabilitiesResp where
  "buildCapabilitiesDoc =
     \<lparr>cr_Project = ''AACP v0.9.0'',
      cr_Purpose = ''AACP '' @ utf8_text [26159, 19968, 20010, 38754, 21521] @ '' Agent '' @ utf8_text [21327, 20316, 22330, 26223, 30340, 38142, 19978, 25191, 34892, 39592, 26550, 65306, 36127, 36131, 20132, 26131, 39564, 31614, 12289] @ ''nonce/gas '' @ utf8_text [31649, 29702, 12289, 27169, 22359, 36335, 30001, 25191, 34892, 21644, 21487, 39564, 35777, 29366, 24577, 25552, 20132, 12290],
      cr_QuickStart = 
        [''1) '' @ utf8_text [20808, 30475, 8220, 33410, 28857, 29366, 24577, 8221, 65292, 30830, 35748] @ '' status=ok'' @ utf8_text [12290],
         ''2) '' @ utf8_text [28857, 20987, 8220, 20986, 19968, 20010, 31354, 22359, 8221, 65292, 35266, 23519] @ '' height '' @ utf8_text [22686, 38271, 12290],
         ''3) '' @ utf8_text [28857, 20987, 8220] @ ''CapUTXO '' @ utf8_text [19968, 38190, 28436, 31034, 8221, 65292, 36305, 36890] @ '' mint/delegate/revoke'' @ utf8_text [12290],
         ''4) '' @ utf8_text [22312, 8220, 29366, 24577, 26597, 35810, 65288, 25353, 21069, 32512, 65289, 8221, 36755, 20837] @ '' cap/u/'' @ utf8_text [65292, 26597, 30475, 29366, 24577, 21464, 21270, 12290],
         ''5) '' @ utf8_text [20351, 29992, 8220, 21457, 36865, 33258, 23450, 20041, 20132, 26131, 65288] @ ''Hex'' @ utf8_text [65289, 8221, 25552, 20132, 20320, 33258, 24049, 30340, 20132, 26131, 12290]],
      cr_WhatYouCanDo = 
        [utf8_text [21457, 24067, 19982, 25774, 21512, 20219, 21153] @ ''/'' @ utf8_text [20379, 38656, 65288] @ ''AMX'' @ utf8_text [65289],
         utf8_text [21019, 24314, 20219, 21153, 12289, 31614] @ '' SLA'' @ utf8_text [12289, 25552, 20132, 24515, 36339, 19982, 32467, 26524, 65288] @ ''AAP'' @ utf8_text [65289],
         utf8_text [31649, 29702, 21487, 22996, 25176, 33021, 21147] @ '' UTXO'' @ utf8_text [65288] @ ''CapUTXO'' @ utf8_text [65289],
         utf8_text [36164, 37329, 25176, 31649, 12289, 20837, 37329, 12289, 37322, 25918, 12289, 36864, 27454, 65288] @ ''FIAT'' @ utf8_text [65289],
         utf8_text [21457, 36215, 20105, 35758, 12289, 25237, 31080, 20210, 35009, 12289, 25191, 34892, 35009, 20915, 65288] @ ''ARB'' @ utf8_text [65289],
         utf8_text [20449, 35465, 35780, 20998, 26356, 26032, 21644, 34928, 20943, 65288] @ ''REP'' @ utf8_text [65289],
         utf8_text [33410, 28857, 27880, 20876, 12289, 36718, 25442, 12289, 27835, 29702, 25552, 26696, 25237, 31080, 65288] @ ''NODE/GOV'' @ utf8_text [65289]],
      cr_Modules = capability_modules, cr_StatePrefixes = knownStatePrefixes\<rparr>"

definition api_meta_capabilities :: "bytes \<Rightarrow> capabilitiesResp reply" where
  "api_meta_capabilities meth = (if meth \<noteq> ''GET'' then HttpError 405 ''method not allowed'' else WriteJSON buildCapabilitiesDoc)"

section \<open>The description of an action\<close>

record lifeImplementation =
  im_File :: bytes
  im_Function :: bytes
  im_Behavior :: bytes

definition storyImplementation :: "bytes \<Rightarrow> bytes \<Rightarrow> lifeImplementation" where
  "storyImplementation mdl act =
     (case map_of
       [(''amx/create_listing'', \<lparr>im_File = ''internal/modules/amx/module.go'', im_Function = ''createListing'',
          im_Behavior = utf8_text [29983, 25104] @ '' listing '' @ utf8_text [24182, 20889, 20837] @ '' amx/l/'' @ utf8_text [65292, 21516, 26102, 24314, 31435, 33021, 21147, 32034, 24341] @ '' amx/i/'' @ utf8_text [12290]\<rparr>),
        (''amx/submit_request'', \<lparr>im_File = ''internal/modules/amx/module.go'', im_Function = ''submitRequest'',
          im_Behavior = utf8_text [25353, 33021, 21147, 21644, 39044, 31639, 31579, 36873, 26381, 21153, 65292, 20889, 20837, 21305, 37197, 35746, 21333, 21040] @ '' amx/o/'' @ utf8_text [12290]\<rparr>),
        (''fiat/create_escrow'', \<lparr>im_File = ''internal/modules/fiat/module.go'', im_Function = ''createEscrow'',
          im_Behavior = utf8_text [21019, 24314, 25176, 31649, 21333, 24182, 35745, 31639, 26381, 21153, 36153] @ ''+'' @ utf8_text [20323, 37329, 65292, 20889, 20837] @ '' fiat/e/'' @ utf8_text [12290]\<rparr>),
        (''fiat/fund_escrow'', \<lparr>im_File = ''internal/modules/fiat/module.go'', im_Function = ''fundEscrow'',
          im_Behavior = utf8_text [23558, 25176, 31649, 21333, 29366, 24577, 20174] @ '' pending '' @ utf8_text [26356, 26032, 20026] @ '' funded'' @ utf8_text [12290]\<rparr>),
        (''aap/create_task'', \<lparr>im_File = ''internal/modules/aap/module.go'', im_Function = ''createTask'',
          im_Behavior = utf8_text [26681, 25454, 35746, 21333, 21019, 24314, 20219, 21153, 65292, 21021, 22987, 21270] @ '' SLA '' @ utf8_text [19982, 37325, 35797, 31574, 30053, 65292, 20889, 20837] @ '' aap/t/'' @ utf8_text [12290]\<rparr>),
        (''aap/submit_result'', \<lparr>im_File = ''internal/modules/aap/module.go'', im_Function = ''submitResult'',
          im_Behavior = utf8_text [35760, 24405, 20132, 20184, 29289] @ '' hash/IPFS'' @ utf8_text [65292, 20219, 21153, 36827, 20837, 25552, 20132, 32467, 26524, 29366, 24577, 12290]\<rparr>),
        (''aap/verify_result'', \<lparr>im_File = ''internal/modules/aap/module.go'', im_Function = ''verifyResult'',
          im_Behavior = utf8_text [39564, 25910, 32467, 26524, 65292, 22833, 36133, 26102, 36827, 20837, 25480, 26435, 37325, 35797, 25110, 20105, 35758, 29366, 24577, 12290]\<rparr>),
        (''arb/file_dispute'', \<lparr>im_File = ''internal/modules/arb/module.go'', im_Function = ''fileDispute'',
          im_Behavior = utf8_text [21019, 24314, 20105, 35758, 21333, 65292, 35760, 24405, 21407, 21578] @ ''/'' @ utf8_text [34987, 21578, 12289, 21407, 22240, 21644, 25551, 36848, 65292, 20889, 20837] @ '' arb/d/'' @ utf8_text [12290]\<rparr>),
        (''arb/auto_resolve'', \<lparr>im_File = ''internal/modules/arb/module.go'', im_Function = ''autoResolve'',
          im_Behavior = utf8_text [20381, 25454, 35268, 21017, 33258, 21160, 35009, 20915, 65292, 26356, 26032, 20105, 35758, 29366, 24577, 19982] @ '' verdict'' @ utf8_text [12290]\<rparr>),
        (''fiat/refund_escrow'', \<lparr>im_File = ''internal/modules/fiat/module.go'', im_Function = ''refundEscrow'',
          im_Behavior = utf8_text [25353, 25176, 31649, 29366, 24577, 26657, 39564, 24182, 25191, 34892, 36864, 27454, 65292, 29366, 24577, 21464, 26356, 20026] @ '' refunded'' @ utf8_text [12290]\<rparr>)] (mdl @ ''/'' @ act) of
        Some d \<Rightarrow> d
      | None \<Rightarrow> \<lparr>im_File = ''internal/modules/'' @ mdl @ ''/module.go'', im_Function = act,
          im_Behavior = utf8_text [25191, 34892, 27169, 22359, 21160, 20316, 24182, 26356, 26032, 23545, 24212, 29366, 24577, 21069, 32512, 12290]\<rparr>)"

section \<open>What is announced is there\<close>

text \<open>The announced actions of each module are those it handles.\<close>

definition announced :: "bytes \<Rightarrow> bytes set" where
  "announced n = {ca_Name a | m a. m \<in> set (cr_Modules buildCapabilitiesDoc) \<and> cm_ID m = n \<and> a \<in> set (cm_Actions m)}"

lemma announced_code: "announced n = (\<Union>m \<in> set (filter (\<lambda>m. cm_ID m = n) capability_modules). ca_Name ` set (cm_Actions m))"
  by (auto simp: announced_def buildCapabilitiesDoc_def)

theorem announced_actions:
  "announced ''amx'' = fst ` set (amx_handlers uni)" "announced ''aap'' = fst ` set aap_handlers"
  "announced ''weave'' = fst ` set weave_handlers" "announced ''caputxo'' = fst ` set caputxo_handlers"
  "announced ''fiat'' = fst ` set fiat_handlers" "announced ''arb'' = fst ` set arb_handlers"
  "announced ''rep'' = fst ` set rep_handlers" "announced ''node'' = fst ` set node_handlers"
  "announced ''gov'' = fst ` set gov_handlers" "announced ''afd'' = fst ` set afd_handlers"
  by (simp_all add: announced_code capability_modules_def amx_handlers_def aap_handlers_def weave_handlers_def caputxo_handlers_def
      fiat_handlers_def arb_handlers_def rep_handlers_def node_handlers_def gov_handlers_def afd_handlers_def insert_commute)

end
