(* ===== verification/Demo.thy ===== *)
theory Demo
  imports Docs
begin

text \<open>
  The two scripted demonstrations of \<open>cmd/aacpd\<close> and the client \<open>cmd/aacp-cli\<close>: what they send, and what the node makes of
  it. A demonstration makes fresh keys, signs transactions with them and executes each in a block of its own. The keys, the
  signature algorithm and the clock are arguments; a handler is one run without other requests in between.
\<close>

section \<open>Keys and signatures\<close>

record KeyPair =
  kp_PrivKey :: bytes
  kp_PubKey :: bytes

text \<open>What \<open>ed25519.GenerateKey\<close> returns from the random source is an argument: an error, or a public and a private key.\<close>

type_synonym key_source = "goerr + bytes \<times> bytes"

definition GenerateKeyPair :: "key_source \<Rightarrow> goerr + KeyPair" where
  "GenerateKeyPair generated = (case generated of Inl e \<Rightarrow> Inl e | Inr (pub, priv) \<Rightarrow> Inr \<lparr>kp_PrivKey = priv, kp_PubKey = pub\<rparr>)"

type_synonym signer = "bytes \<Rightarrow> bytes \<Rightarrow> bytes"

definition SignMessage :: "signer \<Rightarrow> bytes \<Rightarrow> bytes \<Rightarrow> bytes" where
  "SignMessage ed25519_Sign priv message = ed25519_Sign priv (Sum256 message)"

definition signedTx :: "signer \<Rightarrow> KeyPair \<Rightarrow> uint64 \<Rightarrow> bytes \<Rightarrow> bytes \<Rightarrow> gov \<Rightarrow> bytes option" where
  "signedTx sign key nonce mdl act payload = (case Marshal payload of None \<Rightarrow> None
   | Some payloadBytes \<Rightarrow>
     let env = \<lparr>Sender = kp_PubKey key, Nonce = nonce, GasLimit = 1000000, GasPrice = 1, Module = mdl, Action = act,
           Payload = payloadBytes, Signature = [], Memo = [], TimeoutHeight = 0\<rparr>
     in (case SignBytes env of None \<Rightarrow> None
         | Some signBytes \<Rightarrow> EncodeTx (env\<lparr>Signature := SignMessage sign (kp_PrivKey key) signBytes\<rparr>)))"

section \<open>The capability demonstration\<close>

record caputxoDemoResp =
  cd_ParentUTXOID :: bytes
  cd_Mint :: "FinalizeBlockResponse option"
  cd_Delegate :: "FinalizeBlockResponse option"
  cd_Revoke :: "FinalizeBlockResponse option"
  cd_Health :: healthResp

definition mint_payload :: "bytes \<Rightarrow> gov" where
  "mint_payload holder = go_map [(''holder'', gbytes holder), (''cap_type'', GStr ''text_generation''), (''cap_version'', GStr ''1.0.0''),
     (''scopes'', gstrings [''read'', ''write'']), (''delegatable'', GBool True), (''max_depth'', gint 3)]"

definition delegate_payload :: "bytes \<Rightarrow> bytes \<Rightarrow> gov" where
  "delegate_payload parent newHolder = go_map [(''parent_utxo_id'', GStr parent), (''new_holder'', gbytes newHolder), (''scopes'', gstrings [''read''])]"

definition revoke_payload :: "bytes \<Rightarrow> gov" where
  "revoke_payload parent = go_map [(''utxo_id'', GStr parent)]"

text \<open>A block of the demonstration: a transaction that cannot be built or a block that fails ends it.\<close>

definition demo_step :: "Env \<Rightarrow> time \<Rightarrow> Daemon \<Rightarrow> bytes \<Rightarrow> bytes option \<Rightarrow> (Daemon \<Rightarrow> FinalizeBlockResponse \<Rightarrow> Daemon \<times> 'a reply) \<Rightarrow> Daemon \<times> 'a reply" where
  "demo_step E clock dm msg tx k = (case tx of None \<Rightarrow> (dm, HttpError 500 msg)
   | Some raw \<Rightarrow> (case daemon_finalize E clock dm [raw] of
       (dm', Ret resp) \<Rightarrow> k dm' resp | (dm', Err e) \<Rightarrow> (dm', HttpError 500 (err_text e)) | (dm', Panic) \<Rightarrow> (dm', Dropped)))"

definition first_failed :: "FinalizeBlockResponse \<Rightarrow> bool" where
  "first_failed resp = (case fr_TxResults resp of [] \<Rightarrow> True | r # _ \<Rightarrow> res_Code r \<noteq> 0)"

definition api_demo_caputxo :: "Env \<Rightarrow> signer \<Rightarrow> (nat \<Rightarrow> key_source) \<Rightarrow> (nat \<Rightarrow> time) \<Rightarrow> Daemon \<Rightarrow> bytes \<Rightarrow> Daemon \<times> caputxoDemoResp reply" where
  "api_demo_caputxo E sign keys clock dm meth =
     (if meth \<noteq> ''POST'' then (dm, HttpError 405 ''method not allowed'')
      else case (GenerateKeyPair (keys 0), GenerateKeyPair (keys 1), GenerateKeyPair (keys 2)) of
        (Inl e, _, _) \<Rightarrow> (dm, HttpError 500 ''generate issuer key: %v'')
      | (Inr _, Inl e, _) \<Rightarrow> (dm, HttpError 500 ''generate holder key: %v'')
      | (Inr _, Inr _, Inl e) \<Rightarrow> (dm, HttpError 500 ''generate delegate key: %v'')
      | (Inr issuer, Inr holder, Inr dlg) \<Rightarrow>
        let parent = mintUTXOID (kp_PubKey issuer) ''text_generation'' 0;
            resp = (\<lambda>dm m d r. \<lparr>cd_ParentUTXOID = parent, cd_Mint = m, cd_Delegate = d, cd_Revoke = r, cd_Health = currentHealth (clock 3) dm\<rparr>)
        in demo_step E (clock 0) dm ''build mint tx: %v'' (signedTx sign issuer 0 ''caputxo'' ''mint_capability'' (mint_payload (kp_PubKey holder)))
             (\<lambda>dm m. if first_failed m then (dm, WriteJSON (resp dm (Some m) None None)) else
        demo_step E (clock 1) dm ''build delegate tx: %v'' (signedTx sign holder 0 ''caputxo'' ''delegate_capability'' (delegate_payload parent (kp_PubKey dlg)))
             (\<lambda>dm d. if first_failed d then (dm, WriteJSON (resp dm (Some m) (Some d) None)) else
        demo_step E (clock 2) dm ''build revoke tx: %v'' (signedTx sign issuer 1 ''caputxo'' ''revoke_capability'' (revoke_payload parent))
             (\<lambda>dm r. (dm, WriteJSON (resp dm (Some m) (Some d) (Some r)))))))"

section \<open>The story\<close>

record lifeIDs =
  li_ListingID :: bytes
  li_OrderID :: bytes
  li_EscrowID :: bytes
  li_TaskID :: bytes
  li_DisputeID :: bytes

type_synonym snapshot = "(bytes \<times> goany) list"

record lifeStateSnapshot =
  ss_Listing :: snapshot
  ss_Order :: snapshot
  ss_Escrow :: snapshot
  ss_Task :: snapshot
  ss_Dispute :: snapshot

definition snapshotStoryState :: "Env \<Rightarrow> Store \<Rightarrow> lifeIDs \<Rightarrow> lifeStateSnapshot" where
  "snapshotStoryState E st ids =
     (let pick = (\<lambda>i key keep. if i = [] then [] else pickFields (readStateObject E st key) keep) in
     \<lparr>ss_Listing = pick (li_ListingID ids) (ListingKey (li_ListingID ids)) [''listing_id'', ''title'', ''status'', ''pricing'', ''sla'', ''updated_at''],
      ss_Order = pick (li_OrderID ids) (OrderKey (li_OrderID ids))
        [''order_id'', ''listing_id'', ''status'', ''agreed_price'', ''commission_bps'', ''commission_amount'', ''escrow_id'', ''task_id'', ''updated_at''],
      ss_Escrow = pick (li_EscrowID ids) (PrefixFiatEscrow @ li_EscrowID ids)
        [''escrow_id'', ''order_id'', ''status'', ''service_fee'', ''commission'', ''total_amount'', ''funded_at'', ''released_at'', ''created_at''],
      ss_Task = pick (li_TaskID ids) (TaskKey (li_TaskID ids))
        [''task_id'', ''order_id'', ''status'', ''retry_count'', ''max_retries'', ''result_ipfs'', ''result_hash'', ''created_at'', ''completed_at''],
      ss_Dispute = pick (li_DisputeID ids) (PrefixArbDispute @ li_DisputeID ids)
        [''dispute_id'', ''order_id'', ''task_id'', ''status'', ''phase'', ''reason_code'', ''verdict'', ''filed_at'', ''resolved_at'']\<rparr>)"

record lifeStep =
  lp_No :: nat
  lp_Title :: bytes
  lp_Why :: bytes
  lp_Module :: bytes
  lp_Action :: bytes
  lp_Implementation :: lifeImplementation
  lp_Sender :: bytes
  lp_Nonce :: uint64
  lp_Input :: gov
  lp_TxHash :: bytes
  lp_Outcome :: lifeTxOutcome
  lp_Success :: bool
  lp_Height :: int64
  lp_AppHash :: bytes
  lp_StateBefore :: lifeStateSnapshot
  lp_StateAfter :: lifeStateSnapshot

record story_step =
  sp_No :: nat
  sp_Title :: bytes
  sp_Why :: bytes
  sp_Module :: bytes
  sp_Action :: bytes
  sp_Key :: KeyPair
  sp_Nonce :: uint64
  sp_Payload :: gov

text \<open>A step and whether the story goes on; \<open>None\<close> is a panic of the block.\<close>

definition runStoryStep :: "Env \<Rightarrow> signer \<Rightarrow> time \<Rightarrow> lifeIDs \<Rightarrow> Daemon \<Rightarrow> story_step \<Rightarrow> Daemon \<times> (lifeStep \<times> bool) option" where
  "runStoryStep E sign clock ids dm s =
     (let before = snapshotStoryState E (appStore (dm_app dm)) ids;
          record = (\<lambda>dm hash outcome success.
            \<lparr>lp_No = sp_No s, lp_Title = sp_Title s, lp_Why = sp_Why s, lp_Module = sp_Module s, lp_Action = sp_Action s, lp_Implementation = storyImplementation (sp_Module s) (sp_Action s),
             lp_Sender = shortAddress (kp_PubKey (sp_Key s)), lp_Nonce = sp_Nonce s, lp_Input = sp_Payload s, lp_TxHash = hash,
             lp_Outcome = outcome, lp_Success = success, lp_Height = dm_height dm, lp_AppHash = LastAppHashHex (dm_app dm),
             lp_StateBefore = before, lp_StateAfter = snapshotStoryState E (appStore (dm_app dm)) ids\<rparr>);
          fault = (\<lambda>code msg. \<lparr>lo_Code = code, lo_Log = msg, lo_GasUsed = 0, lo_Events = []\<rparr>)
      in case signedTx sign (sp_Key s) (sp_Nonce s) (sp_Module s) (sp_Action s) (sp_Payload s) of
           None \<Rightarrow> (dm, Some (record dm [] (fault CodeDecodeFail (err_text json_error)) False, False))
         | Some raw \<Rightarrow> (case daemon_finalize E clock dm [raw] of
             (dm', Err e) \<Rightarrow> (dm', Some (record dm' (txHashHex raw) (fault CodeUnknownMod (err_text e)) False, False))
           | (dm', Panic) \<Rightarrow> (dm', None)
           | (dm', Ret resp) \<Rightarrow> let out = firstTxOutcome (Some resp) in
               (dm', Some (record dm' (txHashHex raw) out (lo_Code out = 0), lo_Code out = 0))))"

text \<open>The steps run one after the other until one fails.\<close>

fun run_story :: "Env \<Rightarrow> signer \<Rightarrow> (nat \<Rightarrow> time) \<Rightarrow> lifeIDs \<Rightarrow> Daemon \<Rightarrow> story_step list \<Rightarrow> Daemon \<times> (lifeStep list \<times> bool) option" where
  "run_story E sign clock ids dm [] = (dm, Some ([], True))"
| "run_story E sign clock ids dm (s # ss) = (case runStoryStep E sign (clock (sp_No s)) ids dm s of
     (dm', None) \<Rightarrow> (dm', None)
   | (dm', Some (st, False)) \<Rightarrow> (dm', Some ([st], False))
   | (dm', Some (st, True)) \<Rightarrow> map_prod id (map_option (map_prod ((#) st) id)) (run_story E sign clock ids dm' ss))"

definition story_title :: bytes where
  "story_title = utf8_text [22902, 33590, 24215, 27963, 21160, 28023, 25253, 35774, 35745, 65288, 50, 52, 23567, 26102, 20132, 20184, 65289]"

definition gmoney :: "bytes \<Rightarrow> gov" where
  "gmoney amount = go_map [(''currency'', GStr ''CNY''), (''amount'', GStr amount)]"

definition story_ids :: "KeyPair \<Rightarrow> KeyPair \<Rightarrow> lifeIDs" where
  "story_ids provider consumer =
     (let listingID = shortHashID [kp_PubKey provider, ''0'', story_title];
          orderID = shortHashID [kp_PubKey consumer, ''0'', listingID];
          tid = taskIDFromOrder orderID 3
      in \<lparr>li_ListingID = listingID, li_OrderID = orderID, li_EscrowID = ''esc-'' @ orderID, li_TaskID = tid,
          li_DisputeID = disputeIDForDemo orderID tid 5\<rparr>)"

definition listing_payload :: gov where
  "listing_payload = go_map [(''title'', GStr story_title),
     (''description'', GStr (utf8_text [20026, 22902, 33590, 24215, 35774, 35745, 26149, 23395, 20419, 38144, 28023, 25253, 65292, 21547, 50, 27425, 20462, 25913])),
     (''capabilities'', GArr [go_map [(''cap_type'', GStr ''poster_design'')]]),
     (''pricing'', go_map [(''currency'', GStr ''CNY''), (''base_price'', GStr ''199'')]),
     (''sla'', go_map [(''max_latency_ms'', gint 3000), (''timeout_sec'', gint 86400)]),
     (''tags'', gstrings [utf8_text [35774, 35745], utf8_text [28023, 25253], utf8_text [38376, 24215]])]"

definition request_payload :: "int64 \<Rightarrow> gov" where
  "request_payload deadline = go_map [(''required_caps'', gstrings [''poster_design'']), (''budget'', gmoney ''299''),
     (''max_latency_ms'', gint 5000), (''deadline'', gint deadline)]"

definition escrow_payload :: "lifeIDs \<Rightarrow> bytes \<Rightarrow> bytes \<Rightarrow> gov" where
  "escrow_payload ids provider consumer = go_map [(''escrow_id'', GStr (li_EscrowID ids)), (''order_id'', GStr (li_OrderID ids)),
     (''consumer'', gbytes consumer), (''provider'', gbytes provider), (''service_fee'', gmoney ''199''), (''commission_bps'', gint 1200)]"

definition escrow_ref :: "lifeIDs \<Rightarrow> gov" where
  "escrow_ref ids = go_map [(''escrow_id'', GStr (li_EscrowID ids))]"

definition task_payload :: "lifeIDs \<Rightarrow> bytes \<Rightarrow> bytes \<Rightarrow> gov" where
  "task_payload ids provider consumer = go_map [(''order_id'', GStr (li_OrderID ids)), (''consumer'', gbytes consumer),
     (''provider'', gbytes provider), (''max_retries'', gint 1), (''service_fee'', gmoney ''199''), (''timeout_sec'', gint 86400),
     (''max_latency_ms'', gint 5000), (''min_accuracy'', GNum ''0.9'')]"

definition result_payload :: "lifeIDs \<Rightarrow> gov" where
  "result_payload ids = go_map [(''task_id'', GStr (li_TaskID ids)), (''result_data'', gbytes ''poster-v1''),
     (''result_ipfs'', GStr ''ipfs://demo/poster-v1''), (''content_hash'', GStr ''poster-hash-v1'')]"

definition verify_payload :: "lifeIDs \<Rightarrow> bytes \<Rightarrow> gov" where
  "verify_payload ids consumer = go_map [(''task_id'', GStr (li_TaskID ids)), (''passed'', GBool False),
     (''reason'', GStr (utf8_text [28023, 25253, 20851, 38190, 20449, 24687, 26377, 35823])), (''verifier'', gbytes consumer)]"

definition dispute_payload :: "lifeIDs \<Rightarrow> bytes \<Rightarrow> gov" where
  "dispute_payload ids provider = go_map [(''order_id'', GStr (li_OrderID ids)), (''task_id'', GStr (li_TaskID ids)),
     (''defendant'', gbytes provider), (''reason_code'', GStr ''quality''),
     (''description'', GStr (utf8_text [20132, 20184, 32467, 26524, 19982, 38376, 24215, 38656, 27714, 19981, 19968, 33268]))]"

text \<open>The ten steps. The nonces are those the counters of the script have at the step: each party counts its own steps.\<close>

definition story_script :: "KeyPair \<Rightarrow> KeyPair \<Rightarrow> int64 \<Rightarrow> story_step list" where
  "story_script provider consumer deadline =
     (let ids = story_ids provider consumer; p = kp_PubKey provider; c = kp_PubKey consumer;
          by = (\<lambda>no title why mdl act key n payload. \<lparr>sp_No = no, sp_Title = title, sp_Why = why, sp_Module = mdl, sp_Action = act, sp_Key = key, sp_Nonce = n, sp_Payload = payload\<rparr>)
      in [by 1 (utf8_text [35774, 35745, 24072, 21457, 24067, 26381, 21153])
            (utf8_text [25226, 26381, 21153, 26631, 20934, 21644, 20215, 26684, 20889, 21040, 38142, 19978, 65292, 36991, 20813, 21475, 22836, 32422, 23450, 25199, 30382, 12290])
            ''amx'' ''create_listing'' provider 0 listing_payload,
          by 2 (utf8_text [32769, 26495, 21457, 36215, 38656, 27714, 24182, 33258, 21160, 21305, 37197])
            (utf8_text [31995, 32479, 25353, 33021, 21147] @ ''+'' @ utf8_text [39044, 31639, 33258, 21160, 25214, 21040, 21512, 36866, 26381, 21153, 65292, 19981, 29992, 28385, 19990, 30028, 38382, 20154, 12290])
            ''amx'' ''submit_request'' consumer 0 (request_payload deadline),
          by 3 (utf8_text [32769, 26495, 20808, 21019, 24314, 25176, 31649, 21333])
            (utf8_text [20808, 25176, 31649, 36164, 37329, 65292, 20877, 24320, 24037, 65292, 38477, 20302, 8216, 25910, 38065, 19981, 24178, 27963] @ ''/'' @ utf8_text [24178, 27963, 19981, 32473, 38065, 8217, 39118, 38505, 12290])
            ''fiat'' ''create_escrow'' consumer 1 (escrow_payload ids p c),
          by 4 (utf8_text [32769, 26495, 32473, 25176, 31649, 21333, 25171, 27454])
            (utf8_text [27454, 39033, 38145, 23450, 21040, 25176, 31649, 29366, 24577, 65292, 27969, 31243, 26356, 21487, 25511, 12290])
            ''fiat'' ''fund_escrow'' consumer 2 (escrow_ref ids),
          by 5 (utf8_text [31995, 32479, 21019, 24314, 20219, 21153, 21333])
            (utf8_text [25226, 21452, 26041, 36523, 20221, 12289, 20132, 20184, 35201, 27714, 12289, 37325, 35797, 27425, 25968, 20889, 25104, 21487, 36861, 36394, 20219, 21153, 12290])
            ''aap'' ''create_task'' consumer 3 (task_payload ids p c),
          by 6 (utf8_text [35774, 35745, 24072, 25552, 20132, 20316, 21697])
            (utf8_text [20132, 20184, 34987, 35760, 24405, 65292, 21518, 32493, 39564, 25910, 26377, 35777, 25454, 21487, 26597, 12290])
            ''aap'' ''submit_result'' provider 1 (result_payload ids),
          by 7 (utf8_text [32769, 26495, 39564, 25910, 19981, 36890, 36807])
            (utf8_text [19981, 28385, 24847, 21487, 26126, 30830, 25298, 32477, 65292, 31995, 32479, 36827, 20837, 21487, 20210, 35009, 29366, 24577, 12290])
            ''aap'' ''verify_result'' consumer 4 (verify_payload ids c),
          by 8 (utf8_text [32769, 26495, 21457, 36215, 20105, 35758])
            (utf8_text [25226, 32416, 32439, 21450, 29702, 30001, 20889, 20837, 38142, 19978, 65292, 36991, 20813, 21508, 35828, 21508, 35805, 12290])
            ''arb'' ''file_dispute'' consumer 5 (dispute_payload ids p),
          by 9 (utf8_text [31995, 32479, 33258, 21160, 20210, 35009])
            (utf8_text [25353, 35268, 21017, 20808, 33258, 21160, 35009, 20915, 65292, 24555, 20110, 32431, 20154, 24037, 21327, 35843, 12290])
            ''arb'' ''auto_resolve'' consumer 6 (go_map [(''dispute_id'', GStr (li_DisputeID ids))]),
          by 10 (utf8_text [25176, 31649, 36864, 27454, 32473, 32769, 26495])
            (utf8_text [36164, 37329, 22238, 27969, 36335, 24452, 22266, 23450, 65292, 20943, 23569, 25191, 34892, 20105, 35758, 12290])
            ''fiat'' ''refund_escrow'' consumer 7 (escrow_ref ids)])"

record lifeState =
  lt_OrderStatus :: bytes
  lt_TaskStatus :: bytes
  lt_EscrowStatus :: bytes
  lt_DisputeStatus :: bytes
  lt_DisputeWinner :: bytes

definition story_final :: "Env \<Rightarrow> Store \<Rightarrow> lifeIDs \<Rightarrow> lifeState" where
  "story_final E st ids =
     \<lparr>lt_OrderStatus = readStatusField E st (OrderKey (li_OrderID ids)), lt_TaskStatus = readStatusField E st (TaskKey (li_TaskID ids)),
      lt_EscrowStatus = readStatusField E st (PrefixFiatEscrow @ li_EscrowID ids),
      lt_DisputeStatus = readStatusField E st (PrefixArbDispute @ li_DisputeID ids),
      lt_DisputeWinner = readNestedStringField E st (PrefixArbDispute @ li_DisputeID ids) ''verdict'' ''winner''\<rparr>"

record lifeActor =
  ac_Name :: bytes
  ac_Role :: bytes
  ac_Address :: bytes

record lifeStoryResp =
  ly_Scenario :: bytes
  ly_WhyUseAACP :: "bytes list"
  ly_WithoutAACP :: "bytes list"
  ly_WithAACP :: "bytes list"
  ly_Actors :: "lifeActor list"
  ly_Steps :: "lifeStep list"
  ly_IDs :: lifeIDs
  ly_FinalState :: lifeState
  ly_Summary :: bytes
  ly_NextTry :: "bytes list"

definition story_summary :: "bool \<Rightarrow> bytes" where
  "story_summary ok =
     (if ok then utf8_text [28436, 31034, 24050, 23436, 25104, 65306, 38656, 27714, 12289, 25176, 31649, 12289, 20132, 20184, 12289, 20105, 35758, 21644, 36864, 27454, 37117, 24418, 25104, 20102, 21487, 36861, 36394, 38142, 36335, 12290]
      else utf8_text [28436, 31034, 20013, 26029, 65306, 26576, 19968, 27493, 22833, 36133, 65292, 35831, 26597, 30475] @ '' steps '' @ utf8_text [37324, 30340] @ '' code'' @ utf8_text [12290])"

text \<open>\<open>clock 0\<close> is the time at which the deadline of the request is computed, \<open>clock n\<close> that of the block of step \<open>n\<close>.\<close>

definition api_demo_story :: "Env \<Rightarrow> signer \<Rightarrow> (nat \<Rightarrow> key_source) \<Rightarrow> (nat \<Rightarrow> time) \<Rightarrow> Daemon \<Rightarrow> bytes \<Rightarrow> Daemon \<times> lifeStoryResp reply" where
  "api_demo_story E sign keys clock dm meth =
     (if meth \<noteq> ''POST'' then (dm, HttpError 405 ''method not allowed'')
      else case (GenerateKeyPair (keys 0), GenerateKeyPair (keys 1)) of
        (Inl e, _) \<Rightarrow> (dm, HttpError 500 ''generate provider key: %v'')
      | (Inr _, Inl e) \<Rightarrow> (dm, HttpError 500 ''generate consumer key: %v'')
      | (Inr provider, Inr consumer) \<Rightarrow>
        let ids = story_ids provider consumer
        in (case run_story E sign clock ids dm (story_script provider consumer (Unix (clock 0 + 7200 * 1000000000))) of
              (dm', None) \<Rightarrow> (dm', Dropped)
            | (dm', Some (steps, ok)) \<Rightarrow>
              (dm', WriteJSON \<lparr>ly_Scenario = utf8_text [22902, 33590, 24215, 32769, 26495, 25214, 35774, 35745, 24072, 20570, 27963, 21160, 28023, 25253],
                 ly_WhyUseAACP = 
                   [utf8_text [25226, 8220, 35841, 31572, 24212, 20102, 20160, 20040, 12289, 20160, 20040, 26102, 20505, 20570, 20102, 20160, 20040, 8221, 21464, 25104, 21487, 36861, 28335, 35760, 24405, 12290],
                    utf8_text [25226, 38065, 25918, 36827, 25176, 31649, 27969, 31243, 65292, 38477, 20302, 20808, 27454, 20808, 36135, 20114, 19981, 20449, 20219, 38382, 39064, 12290],
                    utf8_text [20132, 20184, 19981, 28385, 24847, 26102, 65292, 26377, 32479, 19968, 20105, 35758, 22788, 29702, 19982, 25191, 34892, 36335, 24452, 12290]],
                 ly_WithoutAACP = 
                   [utf8_text [32842, 22825, 35760, 24405, 20998, 25955, 65292, 36131, 20219, 30028, 38480, 19981, 28165, 12290],
                    utf8_text [20184, 27454, 19982, 20132, 20184, 38752, 20449, 20219, 65292, 39118, 38505, 39640, 12290],
                    utf8_text [32416, 32439, 24120, 38752, 25289, 25199, 65292, 32791, 26102, 19988, 27809, 26377, 32479, 19968, 35777, 25454, 38142, 12290]],
                 ly_WithAACP = 
                   [utf8_text [27599, 19968, 27493, 37117, 26377, 38142, 19978, 29366, 24577, 21487, 26597, 12290],
                    utf8_text [25176, 31649, 29366, 24577, 26126, 30830, 65288, 24050, 21019, 24314] @ ''/'' @ utf8_text [24050, 25171, 27454] @ ''/'' @ utf8_text [24050, 36864, 27454, 31561, 65289, 12290],
                    utf8_text [20105, 35758, 21487, 33258, 21160] @ ''/'' @ utf8_text [21322, 33258, 21160, 35009, 20915, 65292, 24182, 33853, 21040, 21487, 25191, 34892, 21160, 20316, 12290]],
                 ly_Actors =
                   [\<lparr>ac_Name = utf8_text [23567, 29579], ac_Role = utf8_text [22902, 33590, 24215, 32769, 26495, 65288, 38656, 27714, 26041, 65289], ac_Address = shortAddress (kp_PubKey consumer)\<rparr>,
                    \<lparr>ac_Name = utf8_text [23567, 26446], ac_Role = utf8_text [35774, 35745, 24072, 65288, 26381, 21153, 26041, 65289], ac_Address = shortAddress (kp_PubKey provider)\<rparr>],
                 ly_Steps = steps, ly_IDs = ids, ly_FinalState = story_final E (appStore (dm_app dm')) ids, ly_Summary = story_summary ok,
                 ly_NextTry = 
                   [utf8_text [22312, 39029, 38754, 37324, 26597, 35810, 21069, 32512] @ '' cap/u/'' @ utf8_text [12289] @ ''amx/o/'' @ utf8_text [12289] @ ''fiat/e/'' @ utf8_text [12289] @ ''arb/d/ '' @ utf8_text [30475, 29366, 24577, 26126, 32454, 12290],
                    utf8_text [25226, 39564, 25910, 25913, 25104] @ '' passed=true'' @ utf8_text [65292, 35266, 23519, 27969, 31243, 36208, 21521, 23436, 25104, 32467, 31639, 12290],
                    utf8_text [25226] @ '' reason_code '' @ utf8_text [25913, 25104] @ '' timeout/payment'' @ utf8_text [65292, 27604, 36739, 20210, 35009, 32467, 26524, 21464, 21270, 12290]]\<rparr>)))"

section \<open>The command line client\<close>

text \<open>What a call of \<open>aacp-cli\<close> does: it sends one request or ends with a message and status 1.\<close>

datatype cli_call = CliGet bytes | CliPost bytes bytes | CliExit bytes

definition broadcastPayload :: "bytes list \<Rightarrow> gov" where
  "broadcastPayload txs = GObj [(''txs'', GArr (map gbytes txs))]"

definition cli_main :: "bytes \<Rightarrow> bytes \<Rightarrow> bytes \<Rightarrow> cli_call" where
  "cli_main nodeURL cmd txHex =
     (if cmd = ''health'' then CliGet (nodeURL @ ''/api/health'')
      else if cmd = ''finalize-empty'' then CliGet (nodeURL @ ''/api/finalize-empty'')
      else if cmd = ''send'' then
        (if txHex = [] then CliExit ''-tx is required''
         else case hex_DecodeString txHex of None \<Rightarrow> CliExit ''decode tx hex failed: %v''
            | Some tx \<Rightarrow> CliPost (nodeURL @ ''/api/finalize'') (case Marshal (broadcastPayload [tx]) of Some b \<Rightarrow> b | None \<Rightarrow> []))
      else CliExit ''unknown command %s'')"

text \<open>How a call ends: a line on the standard output and status 0, or a message on the error output and status 1. What the network
  answers to a request is an argument; \<open>None\<close> is a request that fails.\<close>

datatype cli_end = Printed bytes | Failed bytes

definition cli_get :: "(cli_call \<Rightarrow> bytes option) \<Rightarrow> bytes \<Rightarrow> cli_end" where
  "cli_get net url = (case net (CliGet url) of None \<Rightarrow> Failed ''request failed: %v'' | Some b \<Rightarrow> Printed (b @ [CHR 0x0A]))"

definition cli_post :: "(cli_call \<Rightarrow> bytes option) \<Rightarrow> bytes \<Rightarrow> bytes \<Rightarrow> cli_end" where
  "cli_post net url body = (case net (CliPost url body) of None \<Rightarrow> Failed ''request failed: %v'' | Some b \<Rightarrow> Printed (b @ [CHR 0x0A]))"

definition cli_run :: "(cli_call \<Rightarrow> bytes option) \<Rightarrow> bytes \<Rightarrow> bytes \<Rightarrow> bytes \<Rightarrow> cli_end" where
  "cli_run net nodeURL cmd txHex = (case cli_main nodeURL cmd txHex of
     CliGet url \<Rightarrow> cli_get net url | CliPost url body \<Rightarrow> cli_post net url body | CliExit msg \<Rightarrow> Failed msg)"

section \<open>From the client to a block\<close>

text \<open>What \<open>aacp-cli\<close> sends for a transaction is executed by the node as a block with exactly that transaction.\<close>

theorem cli_send_executes:
  assumes "tx \<noteq> []"
  shows "\<exists>body. cli_main url ''send'' (hex_EncodeToString tx) = CliPost (url @ ''/api/finalize'') body
    \<and> api_finalize E clock dm ''POST'' body = map_prod id reply_of (daemon_finalize E clock dm [tx])"
proof -
  let ?g = "broadcastPayload [tx]"
  have g: "plain ?g" "nesting ?g \<le> max_nesting" by (simp_all add: broadcastPayload_def max_nesting_def)
  have "hex_EncodeToString tx \<noteq> []" using assms by (cases tx) (simp_all add: hex_Cons hex_of_byte_def)
  then have c: "cli_main url ''send'' (hex_EncodeToString tx) = CliPost (url @ ''/api/finalize'') (enc ?g)"
    using g(1) by (simp add: cli_main_def Marshal_def del: enc.simps)
  have "to_valid ''txs'' = ''txs''" by code_simp
  then have "dec_struct False finalizeReq_fields (json_of ?g) [] = Some [tx]"
    by (simp add: broadcastPayload_def dec_struct_def finalizeReq_fields_def find_field_def fld_def dec_list_def dec_gbytes)
  then have "api_finalize E clock dm ''POST'' (enc ?g) = map_prod id reply_of (daemon_finalize E clock dm [tx])"
    using Unmarshal_Marshal(2) [OF g] by (simp add: api_finalize_def del: enc.simps json_of.simps)
  with c show ?thesis by blast
qed

text \<open>A bound on the length of what the encoder writes.\<close>

fun gsize :: "gov \<Rightarrow> nat" where
  "gsize GNull = 4"
| "gsize (GBool b) = 5"
| "gsize (GNum s) = length s"
| "gsize (GStr s) = 6 * length s + 2"
| "gsize (GArr gs) = 2 + sum_list (map (\<lambda>g. Suc (gsize g)) gs)"
| "gsize (GObj kvs) = 2 + sum_list (map (\<lambda>kv. 6 * length (fst kv) + 4 + gsize (snd kv)) kvs)"
| "gsize (GRaw s) = 4"

lemma length_quote_byte: "length (quote_byte c) \<le> 6"
  by (simp add: quote_byte_def hex_of_byte_def)

lemma length_quote_body: "length (quote_body s) \<le> 6 * length s"
proof (induction s rule: quote_body.induct)
  case (2 c r)
  have l: "utf8_len (c # r) \<le> Suc (length r)" using utf8_len_le [of "c # r"] by simp
  have t: "length r \<ge> 2" if "take 3 (c # r) \<in> set separators" using that by (auto simp: separators_def dest!: arg_cong [of _ _ length])
  show ?case using 2 length_quote_byte [of c] l t by (auto simp: quote_body.simps(2))
qed (simp add: quote_body.simps)

lemma length_commas: "length (commas xs) \<le> sum_list (map (\<lambda>x. Suc (length x)) xs)"
  by (induction xs rule: commas.induct) simp_all

lemma length_enc: "plain g \<Longrightarrow> length (enc g) \<le> gsize g"
proof (induction g)
  case (GStr s)
  then show ?case using length_quote_body [of s] by (simp add: quote_def)
next
  case (GArr gs)
  have "sum_list (map (\<lambda>x. Suc (length x)) (map enc gs)) \<le> sum_list (map (\<lambda>g. Suc (gsize g)) gs)"
    unfolding map_map comp_def using GArr by (intro sum_list_mono) (simp add: list_all_iff)
  then show ?case using length_commas [of "map enc gs"] by simp
next
  case (GObj kvs)
  have "Suc (length (quote (fst kv) @ '':'' @ enc (snd kv))) \<le> 6 * length (fst kv) + 4 + gsize (snd kv)" if "kv \<in> set kvs" for kv
    using GObj.IH [of kv "snd kv"] GObj.prems that length_quote_body [of "fst kv"] by (cases kv) (auto simp: list_all_iff quote_def)
  then have "sum_list (map (\<lambda>x. Suc (length x)) (map (\<lambda>kv. quote (fst kv) @ '':'' @ enc (snd kv)) kvs))
      \<le> sum_list (map (\<lambda>kv. 6 * length (fst kv) + 4 + gsize (snd kv)) kvs)"
    unfolding map_map comp_def by (intro sum_list_mono) blast
  then show ?case using length_commas [of "map (\<lambda>kv. quote (fst kv) @ '':'' @ enc (snd kv)) kvs"] by simp
qed simp_all

lemma length_base64: "length (base64_Encode bs) \<le> 4 * length bs"
proof (induction bs rule: base64_Encode.induct)
  case (4 a b c r)
  then have "length (base64_Encode r) \<le> 4 * length r" by blast
  then show ?case by (simp add: Let_def)
qed (simp_all add: Let_def)

lemma gsize_gbytes: "gsize (gbytes bs) \<le> 24 * length bs + 4"
  using length_base64 [of bs] by (simp add: gbytes_def)

text \<open>The keys the law of the signature algorithm speaks about: what is signed with the private key is accepted for the public key.\<close>

definition signs :: "Env \<Rightarrow> signer \<Rightarrow> KeyPair \<Rightarrow> bool" where
  "signs E sign k \<longleftrightarrow> length (kp_PubKey k) = 32
     \<and> (\<forall>m. length (sign (kp_PrivKey k) m) = 64 \<and> ed25519_Verify E (kp_PubKey k) m (sign (kp_PrivKey k) m))"

definition tx_of :: "signer \<Rightarrow> KeyPair \<Rightarrow> uint64 \<Rightarrow> bytes \<Rightarrow> bytes \<Rightarrow> gov \<Rightarrow> TxEnvelope" where
  "tx_of sign key n mdl act payload =
     (let env = \<lparr>Sender = kp_PubKey key, Nonce = n, GasLimit = 1000000, GasPrice = 1, Module = mdl, Action = act,
           Payload = enc payload, Signature = [], Memo = [], TimeoutHeight = 0\<rparr>
      in env\<lparr>Signature := SignMessage sign (kp_PrivKey key) (the (SignBytes env))\<rparr>)"

lemma tx_of_sel [simp]:
  "Sender (tx_of sign key n mdl act payload) = kp_PubKey key" "Nonce (tx_of sign key n mdl act payload) = n"
  "Module (tx_of sign key n mdl act payload) = mdl" "Action (tx_of sign key n mdl act payload) = act"
  "Payload (tx_of sign key n mdl act payload) = enc payload" "GasLimit (tx_of sign key n mdl act payload) = 1000000"
  "Memo (tx_of sign key n mdl act payload) = []" "TimeoutHeight (tx_of sign key n mdl act payload) = 0"
  by (simp_all add: tx_of_def Let_def)

text \<open>A transaction built for a sender whose next nonce it carries is admitted.\<close>

lemma signedTx_admitted:
  assumes k: "signs E sign key" and g: "plain payload" "nesting payload < max_nesting" "gsize payload \<le> 100000"
    and m: "mdl \<in> set allowedModules" "utf8_Valid mdl" "act \<noteq> []" "utf8_Valid act"
    and n: "GetNonce (ctxStore ctx) (kp_PubKey key) = n"
  obtains raw used where "signedTx sign key n mdl act payload = Some raw" "admit E ctx raw = Inr (tx_of sign key n mdl act payload, used)"
proof -
  let ?t = "tx_of sign key n mdl act payload"
  let ?e = "\<lparr>Sender = kp_PubKey key, Nonce = n, GasLimit = 1000000, GasPrice = 1, Module = mdl, Action = act,
           Payload = enc payload, Signature = [], Memo = [], TimeoutHeight = 0\<rparr>"
  have "SignBytes ?e \<noteq> None" using Unmarshal_Marshal(1) [OF g(1)] g(2) by (simp only: SignBytes_defined) simp
  then obtain sb where sb: "SignBytes ?e = Some sb" by blast
  have sig: "Signature ?t = SignMessage sign (kp_PrivKey key) sb" "?t = ?e\<lparr>Signature := Signature ?t\<rparr>" by (simp_all add: tx_of_def Let_def sb)
  have sb': "SignBytes ?t = Some sb" using sb by (subst sig(2)) (simp add: SignBytes_def)
  have "in_int64 0" by (simp add: in_int64_def)
  then obtain raw where raw: "EncodeTx ?t = Some raw" "DecodeTx raw = Some ?t"
    using tx_roundtrip [of ?t payload] g m by (auto simp: utf8_Valid.simps [of "[]"])
  have "signedTx sign key n mdl act payload = EncodeTx ?t"
    using g(1) sb sig by (simp add: signedTx_def Marshal_def Let_def)
  moreover have "ValidateBasic ?t = None"
    using k m sig(1) by (auto simp: ValidateBasic_def signs_def SignMessage_def allowedModules_def)
  moreover have "VerifySignature E (Sender ?t) sb (Signature ?t)" using k by (simp add: VerifySignature_def sig(1) signs_def SignMessage_def)
  moreover have "1000 + payload_gas (enc payload) \<le> 1000000"
  proof -
    have "length (enc payload) \<le> 100000" using length_enc [OF g(1)] g(3) by simp
    then have "unat (1000 + payload_gas (enc payload)) = 1000 + 10 * ((length (enc payload) + 1023) div 1024)" "(length (enc payload) + 1023) div 1024 \<le> 99"
      using payload_gas_exact [of "enc payload"] by auto
    then show ?thesis by (simp add: word_le_nat_alt)
  qed
  ultimately show ?thesis using raw sb' n that [of raw "1000 + payload_gas (enc payload)"] by (simp add: admit_Inr)
qed

lemma Execute_module:
  assumes "distinct (map mName ms)" "m \<in> set ms" "mName m = Module env"
  shows "Execute (router_of ms) c env = mExecuteTx m c env"
proof -
  have "map_of (modules (router_of ms)) (Module env) = Some m"
    using assms by (intro map_of_is_SomeI) (force simp: router_of_def comp_def)+
  then show ?thesis by (simp add: Execute_def)
qed

text \<open>A block with one transaction that succeeds: afterwards every module finds its keys as its own end of block leaves
  them, and the nonce of the sender has advanced.\<close>

lemma one_block:
  assumes E: "permutes_modules E" and ok: "app_ok uni (appStore a)" and r: "appRouter a = router_of (app_modules uni)"
    and adm: "admit E (block_ctx a req) raw = Inr (env, used)" and txs: "fb_Txs req = [raw]"
    and p: "(m, owned, I) \<in> set (app_parts uni)" "mName m = Module env"
    and ex: "mExecuteTx m (block_ctx a req) env = (c', Ret res)" "res_Code res = CodeOK"
  defines "c1 \<equiv> upd_store c' (SetNonce (ctxStore c') (Sender env) (GetNonce (appStore a) (Sender env) + 1))"
  obtains a' resp where "FinalizeBlock E a (Some req) = (a', Ret resp)" "fr_TxResults resp = [res\<lparr>res_GasUsed := res_GasUsed res + used\<rparr>]"
    "app_ok uni (appStore a')" "appRouter a' = appRouter a" "app_ok uni (ctxStore c1)"
    "\<And>m' owned' I'. (m', owned', I') \<in> set (app_parts uni) \<Longrightarrow> agree owned' (ctxStore (fst (mEndBlock m' c1))) (appStore a')"
    "\<And>s. GetNonce (appStore a') s = (if s = Sender env then GetNonce (appStore a) s + 1 else GetNonce (appStore a) s)"
proof -
  have m: "m \<in> set (app_modules uni)" using p(1) by (metis app_parts_modules fst_conv image_eqI list.set_map)
  have "distinct (map mName (app_modules uni))" using app.names [of uni] by (simp add: app_parts_modules [symmetric] comp_def)
  then have x: "Execute (appRouter a) (block_ctx a req) env = (c', Ret res)" using Execute_module m p(2) ex(1) by (simp add: r)
  have ctx: "ctxStore (block_ctx a req) = appStore a" by (simp add: block_ctx_def)
  have d: "deliver E (appRouter a) (block_ctx a req) raw = (c1, Ret (res\<lparr>res_GasUsed := res_GasUsed res + used\<rparr>))"
    by (simp add: deliver_def adm x Let_def ex(2) c1_def ctx)
  then have da: "deliver_all E (appRouter a) (block_ctx a req) (fb_Txs req) = (c1, Ret [res\<lparr>res_GasUsed := res_GasUsed res + used\<rparr>])"
    by (simp add: txs)
  have ok1: "app_ok uni (ctxStore c1)" using deliver_keeps(1) [of uni "block_ctx a req", OF _ r, of E raw] ok d by (simp add: ctx)
  obtain c2 evs where c2: "router_EndBlock (map_order E (map snd (modules (appRouter a)))) c1 = (c2, Ret evs)"
    and f: "FinalizeBlock E a (Some req) = (a\<lparr>appStore := snd (snd (Commit (marshal_val E) (ctxStore c2))), appEventBus := newBus,
        appLastHash := fst (Commit (marshal_val E) (ctxStore c2))\<rparr>,
      Ret \<lparr>fr_TxResults = [res\<lparr>res_GasUsed := res_GasUsed res + used\<rparr>], fr_AppHash = fst (Commit (marshal_val E) (ctxStore c2)),
        fr_Events = events (ctxEventBus c2) @ evs\<rparr>)"
    by (rule FinalizeBlock_Some [OF E ok r da])
  have n: "GetNonce (ctxStore c1) s = (if s = Sender env then GetNonce (appStore a) s + 1 else GetNonce (appStore a) s)" for s
    using app.exec_nonces [OF p(1), of "block_ctx a req" env s] by (simp add: c1_def ex(1) ctx GetNonce_SetNonce)
  obtain qs where qs: "map fst qs = map_order E (map snd (modules (appRouter a)))" "mset qs = mset (app_parts uni)"
    using arrange_parts [OF visited_modules(1) [OF E]] by (metis r)
  have ps: "parts_ok (app_parts uni) (ctxStore c1)" "store_inv (ctxStore c1)" using ok1 by (simp_all add: app_ok_def)
  obtain c3 where "router_EndBlock_from (map fst qs) [] c1 = (c3, Ret ([] @ concat (map (\<lambda>q. end_events (fst q) c1) qs)))" "app.pass uni qs c1 c3"
    using app.router_pass [of qs uni c1 "[]"] ps mset_eq_setD [OF qs(2)] mset_eq_imp_distinct_iff [OF qs(2)] app.distinct_parts [of uni] by auto
  then have pass: "app.pass uni qs c1 c2" using c2 by (simp add: router_EndBlock_def qs(1))
  have ag: "agree owned' (ctxStore (fst (mEndBlock m' c1))) (snd (snd (Commit (marshal_val E) (ctxStore c2))))"
    if "(m', owned', I') \<in> set (app_parts uni)" for m' owned' I'
    using pass that mset_eq_setD [OF qs(2)] unfolding app.pass_def by (fastforce simp: agree_def)
  have ok2: "app_ok uni (ctxStore c2)" "GetNonce (ctxStore c2) = GetNonce (ctxStore c1)" using EndBlock_keeps [OF E ok1 r] c2 by auto
  have cm: "GetNonce (snd (snd (Commit g st))) s = GetNonce st s" for g st s by (simp add: GetNonce_def)
  show ?thesis
  proof (rule that [OF f])
    show "app_ok uni (appStore (a\<lparr>appStore := snd (snd (Commit (marshal_val E) (ctxStore c2))), appEventBus := newBus,
        appLastHash := fst (Commit (marshal_val E) (ctxStore c2))\<rparr>))" using app_ok_Commit [OF ok2(1)] by simp
  qed (use ok1 ag ok2(2) n in \<open>simp_all add: cm\<close>)
qed

text \<open>A step of a demonstration: the transaction of a key whose nonce it is, executed by its module without an error.\<close>

definition step_ctx :: "time \<Rightarrow> Daemon \<Rightarrow> Context" where
  "step_ctx clock dm = \<lparr>ctxStore = appStore (dm_app dm), ctxEventBus = appEventBus (dm_app dm), ctxHeight = wrap64 (dm_height dm + 1), ctxBlockTime = clock\<rparr>"

definition node_ok_at :: "(bytes \<Rightarrow> bytes) \<Rightarrow> Daemon \<Rightarrow> bool" where
  "node_ok_at uni dm \<longleftrightarrow> app_ok uni (appStore (dm_app dm)) \<and> appRouter (dm_app dm) = router_of (app_modules uni)"

lemma signed_block:
  assumes E: "permutes_modules E" and ok: "node_ok_at uni dm" and k: "signs E sign key"
    and g: "plain payload" "nesting payload < max_nesting" "gsize payload \<le> 100000"
    and act: "mdl \<in> set allowedModules" "utf8_Valid mdl" "act \<noteq> []" "utf8_Valid act"
    and n: "GetNonce (appStore (dm_app dm)) (kp_PubKey key) = n"
    and p: "(m, owned, I) \<in> set (app_parts uni)" "mName m = mdl"
    and ex: "mExecuteTx m (step_ctx clock dm) (tx_of sign key n mdl act payload) = (upd_store (step_ctx clock dm) st, Ret res)" "res_Code res = CodeOK"
  defines "c1 \<equiv> upd_store (step_ctx clock dm) (SetNonce st (kp_PubKey key) (n + 1))"
  obtains raw dm' resp x where "signedTx sign key n mdl act payload = Some raw" "daemon_finalize E clock dm [raw] = (dm', Ret resp)"
    "fr_TxResults resp = [res\<lparr>res_GasUsed := x\<rparr>]" "node_ok_at uni dm'" "dm_height dm' = wrap64 (dm_height dm + 1)" "app_ok uni (ctxStore c1)"
    "\<And>m' owned' I'. (m', owned', I') \<in> set (app_parts uni) \<Longrightarrow> agree owned' (ctxStore (fst (mEndBlock m' c1))) (appStore (dm_app dm'))"
    "\<And>s. GetNonce (appStore (dm_app dm')) s = (if s = kp_PubKey key then n + 1 else GetNonce (appStore (dm_app dm)) s)"
proof -
  have st: "ctxStore (step_ctx clock dm) = appStore (dm_app dm)" by (simp add: step_ctx_def)
  obtain raw used where raw: "signedTx sign key n mdl act payload = Some raw"
    "admit E (step_ctx clock dm) raw = Inr (tx_of sign key n mdl act payload, used)"
    using signedTx_admitted [OF k g act, of "step_ctx clock dm" n] n by (auto simp: st)
  let ?req = "\<lparr>fb_Height = wrap64 (dm_height dm + 1), fb_Time = clock, fb_Txs = [raw]\<rparr>"
  have b: "block_ctx (dm_app dm) ?req = step_ctx clock dm" by (simp add: block_ctx_def step_ctx_def)
  obtain a' resp where a: "FinalizeBlock E (dm_app dm) (Some ?req) = (a', Ret resp)" "fr_TxResults resp = [res\<lparr>res_GasUsed := res_GasUsed res + used\<rparr>]"
    "app_ok uni (appStore a')" "appRouter a' = appRouter (dm_app dm)" "app_ok uni (ctxStore c1)"
    "\<And>m' owned' I'. (m', owned', I') \<in> set (app_parts uni) \<Longrightarrow> agree owned' (ctxStore (fst (mEndBlock m' c1))) (appStore a')"
    "\<And>s. GetNonce (appStore a') s = (if s = kp_PubKey key then GetNonce (appStore (dm_app dm)) s + 1 else GetNonce (appStore (dm_app dm)) s)"
    using one_block [OF E, of uni "dm_app dm" ?req raw "tx_of sign key n mdl act payload" used m owned I "upd_store (step_ctx clock dm) st" res]
      ok p ex raw(2) by (auto simp: b c1_def n node_ok_at_def)
  show ?thesis
  proof (rule that [OF raw(1)])
    show "daemon_finalize E clock dm [raw] = (\<lparr>dm_app = a', dm_height = wrap64 (dm_height dm + 1)\<rparr>, Ret resp)"
      by (simp add: daemon_finalize_def Let_def a(1))
  qed (use a ok n in \<open>simp_all add: node_ok_at_def\<close>)
qed

section \<open>Reading the payloads of the demonstrations\<close>

lemma decode_payload:
  "plain g \<Longrightarrow> nesting g \<le> max_nesting \<Longrightarrow> Payload env = enc g \<Longrightarrow> DecodeJSONPayload fs z env = dec_struct False fs (json_of g) z"
  using Unmarshal_Marshal(1) [of g] by (simp add: DecodeJSONPayload_def)

lemma to_valid_ascii: "is_ascii s \<Longrightarrow> to_valid s = s"
  by (intro to_valid_id utf8_Valid_ascii) (simp add: is_ascii_def)

lemma dec_gint_uint:
  assumes "0 \<le> i"
  shows "i < 2 ^ 32 \<Longrightarrow> dec_uint32 (json_of (gint i)) old = Some (word_of_int i)"
    "i < 2 ^ 64 \<Longrightarrow> dec_uint64 (json_of (gint i)) old' = Some (word_of_int i)"
  using assms by (simp_all add: gint_def itoa_def dec_uint32_def dec_uint64_def dec_uint_def lit_range_def)

lemma dec_gstrings: "dec_list dec_string z (json_of (gstrings ss)) old = Some (map to_valid ss)"
proof -
  have "opt_list (map (\<lambda>v. dec_string v z) (map json_of (map GStr ss))) = Some (map to_valid ss)"
    by (induction ss) (simp_all add: dec_string_def)
  then show ?thesis by (simp add: gstrings_def dec_list_def)
qed

lemma dec_text [simp]: "dec_string (json_of (GStr s)) old = Some (to_valid s)" "dec_bool (json_of (GBool b)) oldb = Some b"
  by (simp_all add: dec_string_def dec_bool_def)

lemmas read_payload = dec_struct_def find_field_def fld_def to_valid_ascii is_ascii_def dec_gbytes dec_gstrings dec_gint_uint dec_gint in_int64_def

lemma mint_decoded:
  "dec_struct False MintPayload_fields (json_of (mint_payload h)) zeroMint =
     Some (zeroMint\<lparr>mp_Holder := h, mp_CapType := ''text_generation'', mp_CapVersion := ''1.0.0'', mp_Scopes := [''read'', ''write''],
       mp_Delegatable := True, mp_MaxDepth := 3\<rparr>)"
proof -
  have "mint_payload h = GObj [(''cap_type'', GStr ''text_generation''), (''cap_version'', GStr ''1.0.0''), (''delegatable'', GBool True),
    (''holder'', gbytes h), (''max_depth'', gint 3), (''scopes'', gstrings [''read'', ''write''])]" by code_simp
  then show ?thesis by (simp add: read_payload MintPayload_fields_def zeroMint_def del: json_of.simps(2-5))
qed

end
