(* ===== verification/Capdemo.thy ===== *)
theory Capdemo
  imports Demo
begin

text \<open>
  The capability demonstration of \<open>cmd/aacpd\<close> end to end: what its payloads decode to, what each of its transactions does to the
  store, each in a block of its own, and that the three together mint, delegate and revoke as shown.
\<close>


lemma ascii_ids [simp]: "to_valid (utxoID a b n) = utxoID a b n"
  by (rule to_valid_ascii) (auto simp: utxoID_def is_ascii_def list_all_iff hex_EncodeToString_def hex_of_byte_def digit_char_ascii less_mult_imp_div_less)

lemma delegate_decoded:
  "dec_struct False DelegatePayload_fields (json_of (delegate_payload (utxoID a b n) h)) zeroDelegate =
     Some (zeroDelegate\<lparr>dl_ParentUTXOID := utxoID a b n, dl_NewHolder := h, dl_Scopes := [''read'']\<rparr>)"
proof -
  have "delegate_payload p h = GObj [(''new_holder'', gbytes h), (''parent_utxo_id'', GStr p), (''scopes'', gstrings [''read''])]" for p h by code_simp
  then show ?thesis by (simp add: read_payload DelegatePayload_fields_def zeroDelegate_def del: json_of.simps(2-5))
qed

lemma revoke_decoded: "dec_struct False RevokePayload_fields (json_of (revoke_payload (utxoID a b n))) [] = Some (utxoID a b n)"
proof -
  have "revoke_payload p = GObj [(''utxo_id'', GStr p)]" for p by code_simp
  then show ?thesis by (simp add: read_payload RevokePayload_fields_def del: json_of.simps(2-5))
qed

text \<open>The payloads are short and plain.\<close>

lemma set_go_map: "plain (go_map kvs) \<longleftrightarrow> list_all (\<lambda>kv. plain (snd kv)) kvs" "gsize (go_map kvs) = gsize (GObj kvs)" "nesting (go_map kvs) = nesting (GObj kvs)"
proof -
  show "plain (go_map kvs) \<longleftrightarrow> list_all (\<lambda>kv. plain (snd kv)) kvs" by (simp add: go_map_def list_all_iff)
  have "mset (map f (sort_key fst kvs)) = mset (map f kvs)" for f :: "bytes \<times> gov \<Rightarrow> nat" by simp
  then have "sum_list (map f (sort_key fst kvs)) = sum_list (map f kvs)" for f :: "bytes \<times> gov \<Rightarrow> nat" by (metis sum_mset_sum_list)
  then show "gsize (go_map kvs) = gsize (GObj kvs)" by (simp add: go_map_def)
  have "foldr max (map f (sort_key fst kvs)) 0 = foldr max (map f kvs) 0" for f :: "bytes \<times> gov \<Rightarrow> nat"
  proof (rule order.antisym)
    have "\<forall>x \<in> set kvs. f x \<le> foldr max (map f ys) 0" if "set ys = set kvs" for ys
      using that foldr_max_le [of "map f ys" "foldr max (map f ys) 0"] by auto
    from this [of kvs] this [of "sort_key fst kvs"]
    show "foldr max (map f (sort_key fst kvs)) 0 \<le> foldr max (map f kvs) 0" "foldr max (map f kvs) 0 \<le> foldr max (map f (sort_key fst kvs)) 0"
      by (simp_all add: foldr_max_le)
  qed
  then show "nesting (go_map kvs) = nesting (GObj kvs)" by (simp add: go_map_def)
qed

lemma gsize_gint:
  assumes "- (10 ^ 20) < i" "i < 10 ^ 20"
  shows "gsize (gint i) \<le> 21"
proof -
  have "length (utoa 10 n) \<le> 20" if "n < 10 ^ 20" for n
  proof -
    obtain ds where "digits_of n ds" using digits_of_ex by blast
    then show ?thesis using that by (simp add: digits_of_def)
  qed
  moreover have "nat i < 10 ^ 20" "nat (- i) < 10 ^ 20" using assms by (simp_all add: nat_less_iff)
  ultimately have "length (utoa 10 (nat i)) \<le> 20" "length (utoa 10 (nat (- i))) \<le> 20" by blast+
  then show ?thesis by (simp add: gint_def itoa_def)
qed

lemma cap_payloads:
  assumes "length h \<le> 32" "length i \<le> 32"
  shows "plain (mint_payload h)" "nesting (mint_payload h) < max_nesting" "gsize (mint_payload h) \<le> 100000"
    "plain (delegate_payload i h)" "nesting (delegate_payload i h) < max_nesting" "gsize (delegate_payload i h) \<le> 100000"
    "plain (revoke_payload i)" "nesting (revoke_payload i) < max_nesting" "gsize (revoke_payload i) \<le> 100000"
  using assms gsize_gbytes [of h] gsize_gint [of 3]
  by (simp_all add: mint_payload_def delegate_payload_def revoke_payload_def set_go_map gstrings_def max_nesting_def)

section \<open>The capability demonstration\<close>

text \<open>A block end at which no capability can expire leaves all of them alone.\<close>

definition no_expiry :: "Store \<Rightarrow> bool" where
  "no_expiry st \<longleftrightarrow> (\<forall>i u. loadUTXO st i = Inr u \<longrightarrow> u_ExpiresAt u = 0)"

lemma caps_quiet:
  assumes ok: "cap_ok (ctxStore c)" and q: "no_expiry (ctxStore c)"
    and ag: "agree caputxo_prefixes (ctxStore (fst (mEndBlock caputxo_New c))) st"
  shows "loadUTXO st i = loadUTXO (ctxStore c) i" "prefix PrefixCapDerive k \<Longrightarrow> Get st k = Get (ctxStore c) k"
proof -
  obtain st' evs where x: "expireAtTime c (now c) = (upd_store c st', Ret evs)" "ends UTXO_EXPIRED (ctxStore c) st'"
    "\<And>i. live (ctxStore c) i \<Longrightarrow> \<not> live st' i \<Longrightarrow> \<exists>j u. loadUTXO (ctxStore c) j = Inr u \<and> due (now c) u"
    using expireAtTime_spec [OF ok, of "now c"] by blast
  have "live (ctxStore c) i \<Longrightarrow> live st' i" for i using x(3) q by (fastforce simp: no_expiry_def due_def)
  then have "loadUTXO st' i = loadUTXO (ctxStore c) i" for i
    by (rule_tac ends_cases [OF x(2), of i]) (fastforce simp: live_def)+
  moreover have e: "ctxStore (fst (mEndBlock caputxo_New c)) = st'" using x(1) by (simp add: caputxo_New_def caputxo_EndBlock_def)
  moreover have "loadUTXO st i = loadUTXO st' i"
    unfolding loadUTXO_def by (rule agree_load [OF ag [unfolded e], of PrefixCapUTXO]) (simp_all add: caputxo_prefixes_def UTXOKey_def)
  ultimately show "loadUTXO st i = loadUTXO (ctxStore c) i" by simp
  show "Get st k = Get (ctxStore c) k" if k: "prefix PrefixCapDerive k"
  proof -
    have "Get st k = Get st' k" using ag k unfolding e by (simp add: agree_def caputxo_prefixes_def)
    also have "Get st' k = Get (ctxStore c) k" using x(2) derive_not_utxo [OF k] by (simp add: ends_def)
    finally show ?thesis .
  qed
qed

lemma loadUTXO_SetNonce: "loadUTXO (SetNonce st s n) i = loadUTXO st i"
  unfolding SetNonce_def by (rule loadUTXO_Set_other) (simp add: NonceKey_def)

lemma kid_of_entry:
  assumes "Get st (PrefixCapDerive @ i @ ''/'' @ j) \<noteq> None" "plain_id j" "store_inv st"
  shows "kid st i j"
proof -
  let ?k = "PrefixCapDerive @ i @ ''/'' @ j"
  obtain v where "Get st ?k = Some v" using assms(1) by blast
  then have "(?k, v) \<in> set (IteratePrefix st (PrefixCapDerive @ i @ ''/''))" using store.iter_mem [OF assms(3)] by simp
  then have "?k \<in> set (children st i)" by (force simp: children_def)
  moreover have "splitPath ?k \<noteq> [] \<and> last (splitPath ?k) = j" using splitPath_last [OF assms(2), of "PrefixCapDerive @ i"] by simp
  ultimately show ?thesis unfolding kid_def by blast
qed

lemma length_ids: "length (utxoID a b n) \<le> 32" "length (delegatedUTXOID a b n) \<le> 32"
proof -
  have "length (hex_EncodeToString bs) = 2 * length bs" for bs by (induction bs) (simp_all add: hex_Cons hex_of_byte_def hex_EncodeToString_def)
  then show "length (utxoID a b n) \<le> 32" "length (delegatedUTXOID a b n) \<le> 32" by (simp_all add: utxoID_def delegatedUTXOID_def)
qed

lemma cap_part: "(caputxo_New, caputxo_prefixes, cap_ok) \<in> set (app_parts uni)" "mName caputxo_New = ''caputxo''"
  by (simp_all add: app_parts_def caputxo_New_def)

lemma cap_ok_app: "app_ok uni st \<Longrightarrow> cap_ok st"
  by (simp add: app_ok_def parts_ok_def app_parts_def)

text \<open>A block with one capability transaction of a demonstration.\<close>

lemma cap_block:
  assumes E: "permutes_modules E" and ok: "node_ok_at uni dm" and k: "signs E sign key"
    and g: "plain payload" "nesting payload < max_nesting" "gsize payload \<le> 100000" and act: "act \<noteq> []" "utf8_Valid act"
    and n: "GetNonce (appStore (dm_app dm)) (kp_PubKey key) = n"
    and ex: "mExecuteTx caputxo_New (step_ctx clock dm) (tx_of sign key n ''caputxo'' act payload) = (upd_store (step_ctx clock dm) st, Ret (SuccessResult gas []))"
    and q: "no_expiry st"
  obtains raw dm' resp where "signedTx sign key n ''caputxo'' act payload = Some raw" "daemon_finalize E clock dm [raw] = (dm', Ret resp)"
    "\<not> first_failed resp" "node_ok_at uni dm'" "dm_height dm' = wrap64 (dm_height dm + 1)" "no_expiry (appStore (dm_app dm'))"
    "\<And>i. loadUTXO (appStore (dm_app dm')) i = loadUTXO st i" "\<And>k. prefix PrefixCapDerive k \<Longrightarrow> Get (appStore (dm_app dm')) k = Get st k"
    "\<And>s. GetNonce (appStore (dm_app dm')) s = (if s = kp_PubKey key then n + 1 else GetNonce (appStore (dm_app dm)) s)"
proof -
  let ?c = "upd_store (step_ctx clock dm) (SetNonce st (kp_PubKey key) (n + 1))"
  have al: "''caputxo'' \<in> set allowedModules" "utf8_Valid ''caputxo''" by code_simp+
  obtain raw dm' resp x where b: "signedTx sign key n ''caputxo'' act payload = Some raw" "daemon_finalize E clock dm [raw] = (dm', Ret resp)"
    "fr_TxResults resp = [(SuccessResult gas [])\<lparr>res_GasUsed := x\<rparr>]" "node_ok_at uni dm'" "dm_height dm' = wrap64 (dm_height dm + 1)" "app_ok uni (ctxStore ?c)"
    "\<And>m' owned' I'. (m', owned', I') \<in> set (app_parts uni) \<Longrightarrow> agree owned' (ctxStore (fst (mEndBlock m' ?c))) (appStore (dm_app dm'))"
    "\<And>s. GetNonce (appStore (dm_app dm')) s = (if s = kp_PubKey key then n + 1 else GetNonce (appStore (dm_app dm)) s)"
    by (rule signed_block [OF E ok k g al act n cap_part ex SuccessResult_sel(1)]) (rule that; assumption)
  have q': "no_expiry (ctxStore ?c)" using q by (simp add: no_expiry_def loadUTXO_SetNonce)
  note quiet = caps_quiet [OF cap_ok_app [OF b(6)] q' b(7) [OF cap_part(1)]]
  have ld: "loadUTXO (appStore (dm_app dm')) i = loadUTXO st i" for i using quiet(1) [of i] by (simp add: loadUTXO_SetNonce)
  have "Get (SetNonce st s m) k = Get st k" if "prefix PrefixCapDerive k" for s m k
    using that by (auto simp: SetNonce_def Get_Set NonceKey_def prefix_def)
  then have dv: "Get (appStore (dm_app dm')) k = Get st k" if "prefix PrefixCapDerive k" for k using quiet(2) [OF that] that by simp
  show ?thesis
    by (rule that [OF b(1,2) _ b(4,5) _ ld dv b(8)]) (use b(3) q ld in \<open>simp_all add: first_failed_def no_expiry_def\<close>)
qed

lemma mint_ex:
  fixes key :: KeyPair and n :: uint64
  assumes "h \<noteq> []" "length h \<le> 32" "no_expiry (ctxStore ctx)"
  defines "i \<equiv> utxoID (kp_PubKey key) ''text_generation'' n"
  obtains st u where "mExecuteTx caputxo_New ctx (tx_of sign key n ''caputxo'' ''mint_capability'' (mint_payload h)) = (upd_store ctx st, Ret (SuccessResult 3000 []))"
    "no_expiry st" "loadUTXO st i = Inr u" "u_UTXOID u = i" "u_Issuer u = kp_PubKey key" "u_Holder u = h" "u_Scopes u = [''read'', ''write'']" "u_Delegatable u" "u_MaxDepth u = 3"
    "u_CurDepth u = 0" "u_ExpiresAt u = 0" "u_MaxUses u = 0" "u_Status u = UTXO_UNSPENT"
proof -
  let ?t = "tx_of sign key n ''caputxo'' ''mint_capability'' (mint_payload h)"
  define u where "u = \<lparr>u_UTXOID = i, u_Issuer = kp_PubKey key, u_Holder = h, u_CapType = ''text_generation'', u_CapVersion = ''1.0.0'',
     u_Scopes = [''read'', ''write''], u_IssuedAt = now ctx, u_ExpiresAt = 0, u_MaxUses = 0, u_UsedCount = 0, u_Delegatable = True, u_MaxDepth = 3,
     u_CurDepth = 0, u_ParentUTXO = [], u_Status = UTXO_UNSPENT, u_HolderSig = []\<rparr>"
  define st where "st = Set (Set (saveUTXO (ctxStore ctx) u) (PrefixCapHolder @ hex_EncodeToString h @ ''/'' @ i) (VBytes [CHR 0x01]))
    (PrefixCapType @ ''text_generation'' @ ''/'' @ i) (VBytes [CHR 0x01])"
  have d: "DecodeJSONPayload MintPayload_fields zeroMint ?t = Some (zeroMint\<lparr>mp_Holder := h, mp_CapType := ''text_generation'', mp_CapVersion := ''1.0.0'',
      mp_Scopes := [''read'', ''write''], mp_Delegatable := True, mp_MaxDepth := 3\<rparr>)"
    unfolding mint_decoded [symmetric] using cap_payloads(1,2) [OF assms(2,2)] by (intro decode_payload) simp_all
  have x: "mExecuteTx caputxo_New ctx ?t = (upd_store ctx st, Ret (SuccessResult 3000 []))"
    using assms(1) by (simp add: caputxo_exec mint_def d Let_def) (simp add: zeroMint_def i_def u_def st_def)
  have l: "loadUTXO st j = (if j = i then Inr u else loadUTXO (ctxStore ctx) j)" for j
    by (simp add: st_def loadUTXO_Set_other utxos.load_save u_def)
  show ?thesis by (rule that [OF x, of u]) (use assms(3) l in \<open>auto simp: no_expiry_def u_def\<close>)
qed


lemma delegate_ex:
  fixes key :: KeyPair and n :: uint64
  assumes "length h \<le> 32" "no_expiry (ctxStore ctx)" and i: "i = utxoID a b m" and u: "loadUTXO (ctxStore ctx) i = Inr u" "u_UTXOID u = i" "u_Holder u = kp_PubKey key"
    "u_Scopes u = [''read'', ''write'']" "u_Delegatable u" "u_MaxDepth u = 3" "u_CurDepth u = 0" "u_ExpiresAt u = 0" "u_MaxUses u = 0"
  defines "c \<equiv> delegatedUTXOID i (kp_PubKey key) n"
  obtains st v w where "mExecuteTx caputxo_New ctx (tx_of sign key n ''caputxo'' ''delegate_capability'' (delegate_payload i h)) = (upd_store ctx st, Ret (SuccessResult 3000 []))"
    "no_expiry st" "loadUTXO st i = Inr v" "u_Issuer v = u_Issuer u" "loadUTXO st c = Inr w" "u_Issuer w = u_Issuer u" "u_Holder w = h" "u_Scopes w = [''read'']"
    "u_Status w = UTXO_UNSPENT" "Get st (PrefixCapDerive @ i @ ''/'' @ c) \<noteq> None"
proof -
  let ?t = "tx_of sign key n ''caputxo'' ''delegate_capability'' (delegate_payload i h)"
  define w where "w = \<lparr>u_UTXOID = c, u_Issuer = u_Issuer u, u_Holder = h, u_CapType = u_CapType u, u_CapVersion = u_CapVersion u,
     u_Scopes = [''read''], u_IssuedAt = now ctx, u_ExpiresAt = 0, u_MaxUses = 0, u_UsedCount = 0, u_Delegatable = True, u_MaxDepth = 3,
     u_CurDepth = 1, u_ParentUTXO = i, u_Status = UTXO_UNSPENT, u_HolderSig = []\<rparr>"
  define st where "st = Set (saveUTXO (ctxStore ctx) w) (PrefixCapDerive @ i @ ''/'' @ c) (VBytes [CHR 0x01])"
  have d: "DecodeJSONPayload DelegatePayload_fields zeroDelegate ?t = Some (zeroDelegate\<lparr>dl_ParentUTXOID := i, dl_NewHolder := h, dl_Scopes := [''read'']\<rparr>)"
    unfolding i delegate_decoded [symmetric] using cap_payloads(4,5) [OF assms(1) length_ids(1)] by (intro decode_payload) (simp_all add: less_imp_le)
  have sub: "isSubset [''read''] [''read'', ''write'']" by code_simp
  have x: "mExecuteTx caputxo_New ctx ?t = (upd_store ctx st, Ret (SuccessResult 3000 []))"
    by (simp add: caputxo_exec delegate_def d) (simp add: zeroDelegate_def Let_def u sub c_def w_def st_def)
  have l: "loadUTXO st j = (if j = c then Inr w else loadUTXO (ctxStore ctx) j)" for j
    by (simp add: st_def loadUTXO_Set_other utxos.load_save w_def)
  show ?thesis
    by (rule that [OF x, of "if i = c then w else u" w]) (use assms(2) u l in \<open>auto simp: no_expiry_def w_def st_def Get_Set\<close>)
qed

lemma revoke_ex:
  fixes key :: KeyPair
  assumes ok: "cap_ok (ctxStore ctx)" and "no_expiry (ctxStore ctx)" and i: "i = utxoID a b m" and u: "loadUTXO (ctxStore ctx) i = Inr u" "u_Issuer u = kp_PubKey key"
    and v: "loadUTXO (ctxStore ctx) j = Inr v" "u_Status v = UTXO_UNSPENT" "Get (ctxStore ctx) (PrefixCapDerive @ i @ ''/'' @ j) \<noteq> None" "plain_id j"
  obtains st where "mExecuteTx caputxo_New ctx (tx_of sign key n ''caputxo'' ''revoke_capability'' (revoke_payload i)) = (upd_store ctx st, Ret (SuccessResult 2000 []))"
    "no_expiry st" "loadUTXO st i = Inr (u\<lparr>u_Status := UTXO_REVOKED\<rparr>)" "loadUTXO st j = Inr (v\<lparr>u_Status := UTXO_REVOKED\<rparr>)"
proof -
  let ?t = "tx_of sign key n ''caputxo'' ''revoke_capability'' (revoke_payload i)"
  have d: "DecodeJSONPayload RevokePayload_fields [] ?t = Some i"
    unfolding i revoke_decoded [symmetric] using cap_payloads(7,8) [OF length_ids(1) length_ids(1)] by (intro decode_payload) (simp_all add: less_imp_le)
  have s: "store_inv (ctxStore ctx)" using ok by (simp add: cap_ok_def cap_wf_def)
  have "heir (ctxStore ctx) i j" using kid_of_entry [OF v(3,4) s] v(1,2) by (intro heir.child) (auto simp: live_def)
  then obtain st where r: "revoke ctx ?t = (upd_store ctx st, Ret (SuccessResult 2000 []))" "loadUTXO st i = Inr (u\<lparr>u_Status := UTXO_REVOKED\<rparr>)"
    "loadUTXO st j = Inr (v\<lparr>u_Status := UTXO_REVOKED\<rparr>)"
    and keep: "\<And>k w. loadUTXO (ctxStore ctx) k = Inr w \<Longrightarrow> loadUTXO st k = Inr (if k = i \<or> heir (ctxStore ctx) i k then w\<lparr>u_Status := UTXO_REVOKED\<rparr> else w)"
      "\<And>k e. loadUTXO (ctxStore ctx) k = Inl e \<Longrightarrow> loadUTXO st k = Inl e"
    using revoke_reaches [OF ok d u(1)] u(2) v(1) u(1) by (auto simp: tx_of_sel)
  have "no_expiry st" unfolding no_expiry_def
  proof (intro allI impI)
    fix k w assume w: "loadUTXO st k = Inr w"
    then show "u_ExpiresAt w = 0" using keep assms(2) unfolding no_expiry_def
      by (cases "loadUTXO (ctxStore ctx) k") (fastforce split: if_splits)+
  qed
  then show ?thesis using that r by (simp add: caputxo_exec)
qed

text \<open>Each transaction in its block.\<close>

lemma step_ctx_store [simp]: "ctxStore (step_ctx clock dm) = appStore (dm_app dm)"
  by (simp add: step_ctx_def)

abbreviation node_store :: "Daemon \<Rightarrow> Store" where
  "node_store dm \<equiv> appStore (dm_app dm)"

text \<open>The node after a block with one successful transaction of a key; what a capability demonstration needs of it.\<close>

definition block_done :: "Env \<Rightarrow> (bytes \<Rightarrow> bytes) \<Rightarrow> time \<Rightarrow> KeyPair \<Rightarrow> bytes option \<Rightarrow> Daemon \<Rightarrow> Daemon \<Rightarrow> FinalizeBlockResponse \<Rightarrow> bool" where
  "block_done E uni clock key raw dm dm' resp \<longleftrightarrow>
     (\<exists>tx. raw = Some tx \<and> daemon_finalize E clock dm [tx] = (dm', Ret resp)) \<and> \<not> first_failed resp \<and> node_ok_at uni dm'
     \<and> dm_height dm' = wrap64 (dm_height dm + 1) \<and> no_expiry (node_store dm')
     \<and> (\<forall>s. GetNonce (node_store dm') s = (if s = kp_PubKey key then GetNonce (node_store dm) s + 1 else GetNonce (node_store dm) s))"

lemma demo_step_done: "block_done E uni clock key raw dm dm' resp \<Longrightarrow> demo_step E clock dm msg raw k = k dm' resp"
  by (auto simp: block_done_def demo_step_def)

lemma block_serves: "block_done E uni clock key raw dm dm' resp \<Longrightarrow> serves E uni dm n \<Longrightarrow> serves E uni dm' (Suc n)"
  unfolding block_done_def by (metis fst_conv serves.step)

lemma serves_ok: "serves E uni dm n \<Longrightarrow> permutes_modules E \<Longrightarrow> node_ok_at uni dm"
  using serves_chain chain_state by (fastforce simp: node_ok_at_def)

lemma mint_block:
  assumes E: "permutes_modules E" and ok: "node_ok_at uni dm" "no_expiry (node_store dm)" and k: "signs E sign key" and n: "GetNonce (node_store dm) (kp_PubKey key) = n"
    and h: "h \<noteq> []" "length h \<le> 32"
  defines "i \<equiv> utxoID (kp_PubKey key) ''text_generation'' n"
  obtains dm' resp u where "block_done E uni clock key (signedTx sign key n ''caputxo'' ''mint_capability'' (mint_payload h)) dm dm' resp"
    "loadUTXO (node_store dm') i = Inr u" "u_UTXOID u = i" "u_Issuer u = kp_PubKey key" "u_Holder u = h" "u_Scopes u = [''read'', ''write'']" "u_Delegatable u" "u_MaxDepth u = 3"
    "u_CurDepth u = 0" "u_ExpiresAt u = 0" "u_MaxUses u = 0"
proof -
  have act: "utf8_Valid ''mint_capability''" by code_simp
  obtain st u where x: "mExecuteTx caputxo_New (step_ctx clock dm) (tx_of sign key n ''caputxo'' ''mint_capability'' (mint_payload h)) = (upd_store (step_ctx clock dm) st, Ret (SuccessResult 3000 []))"
      "no_expiry st" and u: "loadUTXO st i = Inr u" "u_UTXOID u = i" "u_Issuer u = kp_PubKey key" "u_Holder u = h" "u_Scopes u = [''read'', ''write'']" "u_Delegatable u" "u_MaxDepth u = 3"
      "u_CurDepth u = 0" "u_ExpiresAt u = 0" "u_MaxUses u = 0"
    unfolding i_def by (rule mint_ex [OF h, where ctx = "step_ctx clock dm" and key = key and n = n and sign = sign]) (use ok(2) in simp_all)
  show ?thesis
    by (rule cap_block [OF E ok(1) k cap_payloads(1-3) [OF h(2) h(2)] _ act n x]) (use that [OF _ _ u(2-)] u(1) n in \<open>simp_all add: block_done_def\<close>)
qed

lemma delegate_block:
  fixes n :: uint64
  assumes E: "permutes_modules E" and ok: "node_ok_at uni dm" "no_expiry (node_store dm)" and k: "signs E sign key" and n: "GetNonce (node_store dm) (kp_PubKey key) = n"
    and h: "length h \<le> 32" and i: "i = utxoID a b m" and u: "loadUTXO (node_store dm) i = Inr u" "u_UTXOID u = i" "u_Holder u = kp_PubKey key"
    "u_Scopes u = [''read'', ''write'']" "u_Delegatable u" "u_MaxDepth u = 3" "u_CurDepth u = 0" "u_ExpiresAt u = 0" "u_MaxUses u = 0"
  defines "c \<equiv> delegatedUTXOID i (kp_PubKey key) n"
  obtains dm' resp v w where "block_done E uni clock key (signedTx sign key n ''caputxo'' ''delegate_capability'' (delegate_payload i h)) dm dm' resp"
    "loadUTXO (node_store dm') i = Inr v" "u_Issuer v = u_Issuer u" "loadUTXO (node_store dm') c = Inr w" "u_Holder w = h" "u_Scopes w = [''read'']"
    "u_Status w = UTXO_UNSPENT" "Get (node_store dm') (PrefixCapDerive @ i @ ''/'' @ c) \<noteq> None"
proof -
  have act: "utf8_Valid ''delegate_capability''" by code_simp
  have p: "plain (delegate_payload i h)" "nesting (delegate_payload i h) < max_nesting" "gsize (delegate_payload i h) \<le> 100000"
    using cap_payloads(4-6) [OF h length_ids(1)] by (simp_all add: i)
  obtain st v w where x: "mExecuteTx caputxo_New (step_ctx clock dm) (tx_of sign key n ''caputxo'' ''delegate_capability'' (delegate_payload i h)) = (upd_store (step_ctx clock dm) st, Ret (SuccessResult 3000 []))"
      "no_expiry st" and v: "loadUTXO st i = Inr v" "u_Issuer v = u_Issuer u" and w: "loadUTXO st c = Inr w" "u_Holder w = h" "u_Scopes w = [''read'']"
      "u_Status w = UTXO_UNSPENT" "Get st (PrefixCapDerive @ i @ ''/'' @ c) \<noteq> None"
    unfolding c_def by (rule delegate_ex [OF h, where ctx = "step_ctx clock dm" and key = key and n = n and sign = sign, OF _ i, of u]) (use ok(2) u in simp_all)
  show ?thesis
    by (rule cap_block [OF E ok(1) k p _ act n x]) (use that [OF _ _ v(2) _ w(2-4)] v(1) w(1,5) n in \<open>simp_all add: block_done_def\<close>)
qed

lemma revoke_block:
  assumes E: "permutes_modules E" and ok: "node_ok_at uni dm" "no_expiry (node_store dm)" and k: "signs E sign key" and n: "GetNonce (node_store dm) (kp_PubKey key) = n"
    and i: "i = utxoID a b m" and u: "loadUTXO (node_store dm) i = Inr u" "u_Issuer u = kp_PubKey key"
    and v: "loadUTXO (node_store dm) j = Inr v" "u_Status v = UTXO_UNSPENT" "Get (node_store dm) (PrefixCapDerive @ i @ ''/'' @ j) \<noteq> None" "plain_id j"
  obtains dm' resp where "block_done E uni clock key (signedTx sign key n ''caputxo'' ''revoke_capability'' (revoke_payload i)) dm dm' resp"
    "loadUTXO (node_store dm') i = Inr (u\<lparr>u_Status := UTXO_REVOKED\<rparr>)" "loadUTXO (node_store dm') j = Inr (v\<lparr>u_Status := UTXO_REVOKED\<rparr>)"
proof -
  have act: "utf8_Valid ''revoke_capability''" by code_simp
  have p: "plain (revoke_payload i)" "nesting (revoke_payload i) < max_nesting" "gsize (revoke_payload i) \<le> 100000"
    using cap_payloads(7-9) [OF length_ids(1) length_ids(1)] by (simp_all add: i)
  have cap: "cap_ok (ctxStore (step_ctx clock dm))" using ok(1) cap_ok_app by (auto simp: node_ok_at_def)
  obtain st where x: "mExecuteTx caputxo_New (step_ctx clock dm) (tx_of sign key n ''caputxo'' ''revoke_capability'' (revoke_payload i)) = (upd_store (step_ctx clock dm) st, Ret (SuccessResult 2000 []))"
      "no_expiry st" and r: "loadUTXO st i = Inr (u\<lparr>u_Status := UTXO_REVOKED\<rparr>)" "loadUTXO st j = Inr (v\<lparr>u_Status := UTXO_REVOKED\<rparr>)"
    by (rule revoke_ex [OF cap, where key = key and n = n and sign = sign and j = j and v = v and u = u, OF _ i]) (use ok(2) u v in simp_all)
  show ?thesis
    by (rule cap_block [OF E ok(1) k p _ act n x]) (use that r n in \<open>simp_all add: block_done_def\<close>)
qed

text \<open>C15: The capability demonstration does what it shows. On a node that has executed any blocks and in which no capability is to
  expire, with three generated keys whose first two owners have sent nothing yet, its three transactions are built, executed in
  three blocks and all succeed; at the end the minted capability and the one delegated from it are both revoked. (That no
  capability expires keeps the ends of the three blocks from touching the two; that the keys are new and that what they sign
  is accepted is what the signature algorithm provides.)\<close>

theorem capability_demo:
  assumes E: "permutes_modules E" and s: "serves E uni dm n" and q: "no_expiry (node_store dm)"
    and keys: "GenerateKeyPair (keys 0) = Inr issuer" "GenerateKeyPair (keys 1) = Inr holder" "GenerateKeyPair (keys 2) = Inr dlg"
    and k: "signs E sign issuer" "signs E sign holder" "length (kp_PubKey dlg) = 32" "kp_PubKey issuer \<noteq> kp_PubKey holder"
    and n: "GetNonce (node_store dm) (kp_PubKey issuer) = 0" "GetNonce (node_store dm) (kp_PubKey holder) = 0"
  shows "\<exists>dm' m d r v w. api_demo_caputxo E sign keys clock dm ''POST'' = (dm', WriteJSON \<lparr>
        cd_ParentUTXOID = utxoID (kp_PubKey issuer) ''text_generation'' 0, cd_Mint = Some m, cd_Delegate = Some d, cd_Revoke = Some r,
        cd_Health = currentHealth (clock 3) dm'\<rparr>)
    \<and> \<not> first_failed m \<and> \<not> first_failed d \<and> \<not> first_failed r \<and> serves E uni dm' (n + 3)
    \<and> loadUTXO (node_store dm') (utxoID (kp_PubKey issuer) ''text_generation'' 0) = Inr v
    \<and> u_Issuer v = kp_PubKey issuer \<and> u_Status v = UTXO_REVOKED
    \<and> loadUTXO (node_store dm') (delegatedUTXOID (utxoID (kp_PubKey issuer) ''text_generation'' 0) (kp_PubKey holder) 0) = Inr w
    \<and> u_Holder w = kp_PubKey dlg \<and> u_Scopes w = [''read''] \<and> u_Status w = UTXO_REVOKED"
proof -
  let ?i = "utxoID (kp_PubKey issuer) ''text_generation'' 0"
  let ?c = "delegatedUTXOID ?i (kp_PubKey holder) 0"
  have ok: "node_ok_at uni dm" by (rule serves_ok [OF s E])
  have len: "kp_PubKey holder \<noteq> []" "length (kp_PubKey holder) \<le> 32" "length (kp_PubKey dlg) \<le> 32" using k(2,3) by (auto simp: signs_def)
  obtain dm1 m u where b1: "block_done E uni (clock 0) issuer (signedTx sign issuer 0 ''caputxo'' ''mint_capability'' (mint_payload (kp_PubKey holder))) dm dm1 m"
    and u: "loadUTXO (node_store dm1) ?i = Inr u" "u_UTXOID u = ?i" "u_Issuer u = kp_PubKey issuer" "u_Holder u = kp_PubKey holder"
      "u_Scopes u = [''read'', ''write'']" "u_Delegatable u" "u_MaxDepth u = 3" "u_CurDepth u = 0" "u_ExpiresAt u = 0" "u_MaxUses u = 0"
    using mint_block [OF E ok q k(1) n(1) len(1,2), of "clock 0"] .
  have d1: "node_ok_at uni dm1" "no_expiry (node_store dm1)" "GetNonce (node_store dm1) (kp_PubKey holder) = 0"
    using b1 n(2) k(4) by (auto simp: block_done_def)
  obtain dm2 d v w where b2: "block_done E uni (clock 1) holder (signedTx sign holder 0 ''caputxo'' ''delegate_capability'' (delegate_payload ?i (kp_PubKey dlg))) dm1 dm2 d"
    and v: "loadUTXO (node_store dm2) ?i = Inr v" "u_Issuer v = u_Issuer u"
    and w: "loadUTXO (node_store dm2) ?c = Inr w" "u_Holder w = kp_PubKey dlg" "u_Scopes w = [''read'']" "u_Status w = UTXO_UNSPENT"
      "Get (node_store dm2) (PrefixCapDerive @ ?i @ ''/'' @ ?c) \<noteq> None"
    using delegate_block [OF E d1(1,2) k(2) d1(3) len(3) refl u(1,2,4-10), of "clock 1"] .
  have d2: "node_ok_at uni dm2" "no_expiry (node_store dm2)" "GetNonce (node_store dm2) (kp_PubKey issuer) = 1"
    using b1 b2 n(1) k(4) by (auto simp: block_done_def)
  obtain dm3 r where b3: "block_done E uni (clock 2) issuer (signedTx sign issuer 1 ''caputxo'' ''revoke_capability'' (revoke_payload ?i)) dm2 dm3 r"
    and e: "loadUTXO (node_store dm3) ?i = Inr (v\<lparr>u_Status := UTXO_REVOKED\<rparr>)" "loadUTXO (node_store dm3) ?c = Inr (w\<lparr>u_Status := UTXO_REVOKED\<rparr>)"
    using revoke_block [OF E d2(1,2) k(1) d2(3) refl v(1) v(2) [unfolded u(3)] w(1,4,5) plain_ids(2), of "clock 2"] .
  have f: "\<not> first_failed m" "\<not> first_failed d" "\<not> first_failed r" using b1 b2 b3 by (simp_all add: block_done_def)
  have "api_demo_caputxo E sign keys clock dm ''POST'' = (dm3, WriteJSON \<lparr>cd_ParentUTXOID = ?i, cd_Mint = Some m, cd_Delegate = Some d, cd_Revoke = Some r,
      cd_Health = currentHealth (clock 3) dm3\<rparr>)"
    by (simp add: api_demo_caputxo_def keys predicted_ids f demo_step_done [OF b1] demo_step_done [OF b2] demo_step_done [OF b3] del: One_nat_def)
  moreover have "serves E uni dm3 (n + 3)"
    using block_serves [OF b3 block_serves [OF b2 block_serves [OF b1 s]]] by (simp add: numeral_3_eq_3)
  ultimately show ?thesis using f e u(3) v(2) w(2,3) by simp
qed

definition demo_node :: Daemon where
  "demo_node = \<lparr>dm_app = demo_app\<lparr>appStore := snd (snd (Commit (\<lambda>v. []) (appStore demo_app))), appLastHash := fst (Commit (\<lambda>v. []) (appStore demo_app))\<rparr>, dm_height = 0\<rparr>"

lemma demo_node_new: "daemon_New demo_env ''memory'' (\<lambda>b. b) = Ret demo_node"
proof -
  let ?c = "\<lparr>ctxStore = appStore demo_app, ctxEventBus = newBus, ctxHeight = 0, ctxBlockTime = zeroTime\<rparr>"
  have m: "map_order demo_env (map snd (modules (appRouter demo_app))) = app_modules (\<lambda>b. b)"
    by (simp add: demo_env_def demo_app_def modules_of_router)
  have g: "router_InitGenesis (app_modules (\<lambda>b. b)) ?c (\<lambda>k. []) = (?c, Ret ())"
    by (simp add: app_modules_def New_defs mkModule_def common_InitGenesis_def)
  have a: "appEventBus demo_app = newBus" "marshal_val demo_env = (\<lambda>v. [])" by (simp_all add: demo_app_def demo_env_def)
  show ?thesis by (simp add: daemon_New_def demo_new InitChain_def m g a Let_def demo_node_def case_prod_beta)
qed

lemma demo_node_empty: "Get (node_store demo_node) k = None"
proof -
  have "Get (appStore demo_app) k = None" by (simp add: demo_app_def Get_def mem_Get_def newMemoryEngine_def)
  then show ?thesis by (simp add: demo_node_def)
qed

text \<open>Keys of the letter A, B, C, and a signature that every message has.\<close>

definition demo_keys :: "nat \<Rightarrow> key_source" where
  "demo_keys j = Inr (replicate 32 (char_of (65 + j)), [])"

definition demo_key :: "nat \<Rightarrow> KeyPair" where
  "demo_key j = \<lparr>kp_PrivKey = [], kp_PubKey = replicate 32 (char_of (65 + j))\<rparr>"

abbreviation demo_sign :: signer where
  "demo_sign \<equiv> \<lambda>k m. replicate 64 (CHR ''s'')"

lemma demo_key_facts:
  "GenerateKeyPair (demo_keys j) = Inr (demo_key j)" "signs demo_env demo_sign (demo_key j)" "length (kp_PubKey (demo_key j)) = 32"
  "GetNonce (node_store demo_node) a = 0"
  using demo_node_empty by (simp_all add: demo_keys_def GenerateKeyPair_def demo_key_def signs_def demo_env_def GetNonce_def)

lemma demo_key_letters:
  "kp_PubKey (demo_key 0) = replicate 32 (CHR ''A'')" "kp_PubKey (demo_key 1) = replicate 32 (CHR ''B'')" "kp_PubKey (demo_key 0) \<noteq> kp_PubKey (demo_key 1)"
  by code_simp+

theorem capability_demo_witness:
  "\<exists>dm' resp v. api_demo_caputxo demo_env demo_sign demo_keys (\<lambda>j. int j) demo_node ''POST'' = (dm', WriteJSON resp) \<and> serves demo_env (\<lambda>b. b) dm' 3
    \<and> loadUTXO (node_store dm') (cd_ParentUTXOID resp) = Inr v \<and> u_Issuer v = replicate 32 (CHR ''A'') \<and> u_Status v = UTXO_REVOKED"
proof -
  note f = demo_key_facts
  have q: "no_expiry (node_store demo_node)" using demo_node_empty by (simp add: no_expiry_def loadUTXO_def load_rec_def)
  show ?thesis
    using capability_demo [OF demo_permutes(1) serves.start [OF demo_node_new] q f(1) f(1) f(1) f(2) f(2) f(3) demo_key_letters(3) f(4) f(4), of "\<lambda>j. int j"]
    by (auto simp: demo_key_letters(1))
qed

end
