(* ===== verification/Storysteps.thy ===== *)
theory Storysteps
  imports Capdemo
begin

text \<open>
  The story of \<open>cmd/aacpd\<close> step by step: a listing, a request, an escrow, a task, a rejected result, a dispute and a refund, over
  the modules \<open>amx\<close>, \<open>fiat\<close>, \<open>aap\<close> and \<open>arb\<close>. What the end of a block keeps, what the payloads decode to, and what each
  step leaves in the store when it is executed in a block of its own.
\<close>

section \<open>A step in its block\<close>

text \<open>What the end of a block keeps of the tables of the story: everything but the tasks that are executing.\<close>

definition kept :: "Store \<Rightarrow> Store \<Rightarrow> bool" where
  "kept st st' \<longleftrightarrow> (\<forall>i. loadListing st' i = loadListing st i) \<and> (\<forall>i. loadOrder st' i = loadOrder st i) \<and> (\<forall>i. loadEscrow st' i = loadEscrow st i)
     \<and> (\<forall>i. loadDispute st' i = loadDispute st i)
     \<and> (\<forall>i t. loadTask st i = Inr t \<longrightarrow> t_Status t \<noteq> ''TASK_EXECUTING'' \<longrightarrow> loadTask st' i = Inr t)"

text \<open>The table of another module is not touched by a write.\<close>

lemmas table_keys = ListingKey_def OrderKey_def EscrowKey_def TaskKey_def DisputeKey_def NonceKey_def

lemma foreign_loads [simp]:
  "loadOrder (saveListing st l) i = loadOrder st i" "loadEscrow (saveListing st l) i = loadEscrow st i" "loadTask (saveListing st l) i = loadTask st i" "loadDispute (saveListing st l) i = loadDispute st i"
  "loadListing (saveOrder st d) i = loadListing st i" "loadEscrow (saveOrder st d) i = loadEscrow st i" "loadTask (saveOrder st d) i = loadTask st i" "loadDispute (saveOrder st d) i = loadDispute st i"
  "loadListing (saveEscrow st e) i = loadListing st i" "loadOrder (saveEscrow st e) i = loadOrder st i" "loadTask (saveEscrow st e) i = loadTask st i" "loadDispute (saveEscrow st e) i = loadDispute st i"
  "loadListing (saveTask st t) i = loadListing st i" "loadOrder (saveTask st t) i = loadOrder st i" "loadEscrow (saveTask st t) i = loadEscrow st i" "loadDispute (saveTask st t) i = loadDispute st i"
  "loadListing (saveDispute st x) i = loadListing st i" "loadOrder (saveDispute st x) i = loadOrder st i" "loadEscrow (saveDispute st x) i = loadEscrow st i" "loadTask (saveDispute st x) i = loadTask st i"
  by (intro listings.load_frame orders.load_frame escrows.load_frame tasks.load_frame disputes.load_frame
      listings.save_frame orders.save_frame escrows.save_frame tasks.save_frame disputes.save_frame; simp add: table_keys)+

lemma nonce_loads [simp]:
  "loadListing (SetNonce st s n) i = loadListing st i" "loadOrder (SetNonce st s n) i = loadOrder st i" "loadEscrow (SetNonce st s n) i = loadEscrow st i"
  "loadTask (SetNonce st s n) i = loadTask st i" "loadDispute (SetNonce st s n) i = loadDispute st i"
  unfolding SetNonce_def
  by (intro listings.load_frame orders.load_frame escrows.load_frame tasks.load_frame disputes.load_frame; simp add: Get_Set table_keys)+

lemma kept_block:
  assumes ok: "app_ok uni (ctxStore c)"
    and ag: "\<And>m owned I. (m, owned, I) \<in> set (app_parts uni) \<Longrightarrow> agree owned (ctxStore (fst (mEndBlock m c))) st'"
  shows "kept (ctxStore c) st'"
proof -
  have parts: "(amx_New uni, amx_prefixes, amx_ok) \<in> set (app_parts uni)" "(fiat_New, fiat_prefixes, fiat_ok) \<in> set (app_parts uni)"
    "(arb_New, arb_prefixes, arb_ok) \<in> set (app_parts uni)" "(aap_New, aap_prefixes, aap_ok) \<in> set (app_parts uni)" by (simp_all add: app_parts_def)
  have idle: "ctxStore (fst (mEndBlock (amx_New uni) c)) = ctxStore c" "ctxStore (fst (mEndBlock fiat_New c)) = ctxStore c" "ctxStore (fst (mEndBlock arb_New c)) = ctxStore c"
    by (simp_all add: amx_New_def common_EndBlock_def fiat_New_def fiat_EndBlock_def arb_New_def arb_EndBlock_def split: option.split)
  note am = ag [OF parts(1), unfolded idle] and fi = ag [OF parts(2), unfolded idle] and ar = ag [OF parts(3), unfolded idle] and aa = ag [OF parts(4)]
  have "aap_ok (ctxStore c)" using ok by (simp add: app_ok_def parts_ok_def app_parts_def)
  moreover have "loadTask st' i = loadTask (ctxStore (fst (mEndBlock aap_New c))) i" for i
    unfolding loadTask_def by (rule agree_load [OF aa, of PrefixAAPTask]) (simp_all add: aap_prefixes_def TaskKey_def)
  ultimately have task: "loadTask st' i = Inr t" if t: "loadTask (ctxStore c) i = Inr t" "t_Status t \<noteq> ''TASK_EXECUTING''" for i t
    using heartbeat_timeout_load [OF _ t(1)] t(2) by auto
  have "loadListing st' i = loadListing (ctxStore c) i" "loadOrder st' i = loadOrder (ctxStore c) i" for i
    unfolding loadListing_def loadOrder_def
    by (rule agree_load [OF am, of PrefixAMXListing] agree_load [OF am, of PrefixAMXOrder]; simp add: amx_prefixes_def table_keys)+
  moreover have "loadEscrow st' i = loadEscrow (ctxStore c) i" for i
    unfolding loadEscrow_def by (rule agree_load [OF fi, of PrefixFiatEscrow]) (simp_all add: fiat_prefixes_def table_keys)
  moreover have "loadDispute st' i = loadDispute (ctxStore c) i" for i
    unfolding loadDispute_def by (rule agree_load [OF ar, of PrefixArbDispute]) (simp_all add: arb_prefixes_def table_keys)
  ultimately show ?thesis using task by (simp add: kept_def)
qed

text \<open>A step is done when its transaction is built, the block is answered and the transaction succeeded.\<close>

definition step_done :: "Env \<Rightarrow> signer \<Rightarrow> (bytes \<Rightarrow> bytes) \<Rightarrow> time \<Rightarrow> story_step \<Rightarrow> Daemon \<Rightarrow> Daemon \<Rightarrow> bool" where
  "step_done E sign uni clock s dm dm' \<longleftrightarrow>
     (\<exists>raw resp. signedTx sign (sp_Key s) (sp_Nonce s) (sp_Module s) (sp_Action s) (sp_Payload s) = Some raw
       \<and> daemon_finalize E clock dm [raw] = (dm', Ret resp) \<and> lo_Code (firstTxOutcome (Some resp)) = 0)
     \<and> node_ok_at uni dm'
     \<and> (\<forall>a. GetNonce (node_store dm') a = (if a = kp_PubKey (sp_Key s) then sp_Nonce s + 1 else GetNonce (node_store dm) a))"

lemma story_block:
  assumes E: "permutes_modules E" and ok: "node_ok_at uni dm" and k: "signs E sign (sp_Key s)"
    and g: "plain (sp_Payload s)" "nesting (sp_Payload s) < max_nesting" "gsize (sp_Payload s) \<le> 100000"
    and act: "sp_Module s \<in> set allowedModules" "utf8_Valid (sp_Module s)" "sp_Action s \<noteq> []" "utf8_Valid (sp_Action s)"
    and n: "GetNonce (node_store dm) (kp_PubKey (sp_Key s)) = sp_Nonce s"
    and p: "(m, owned, I) \<in> set (app_parts uni)" "mName m = sp_Module s"
    and ex: "mExecuteTx m (step_ctx clock dm) (tx_of sign (sp_Key s) (sp_Nonce s) (sp_Module s) (sp_Action s) (sp_Payload s))
      = (upd_store (step_ctx clock dm) st, Ret (SuccessResult gas evs))"
  obtains dm' where "step_done E sign uni clock s dm dm'" "kept st (node_store dm')"
proof (rule signed_block [OF E ok k g act n p ex SuccessResult_sel(1)])
  fix raw dm' resp x
  assume b: "signedTx sign (sp_Key s) (sp_Nonce s) (sp_Module s) (sp_Action s) (sp_Payload s) = Some raw" "daemon_finalize E clock dm [raw] = (dm', Ret resp)"
    "fr_TxResults resp = [(SuccessResult gas evs)\<lparr>res_GasUsed := x\<rparr>]" "node_ok_at uni dm'"
    and ok': "app_ok uni (ctxStore (upd_store (step_ctx clock dm) (SetNonce st (kp_PubKey (sp_Key s)) (sp_Nonce s + 1))))"
    and ag: "\<And>m' owned' I'. (m', owned', I') \<in> set (app_parts uni) \<Longrightarrow>
      agree owned' (ctxStore (fst (mEndBlock m' (upd_store (step_ctx clock dm) (SetNonce st (kp_PubKey (sp_Key s)) (sp_Nonce s + 1)))))) (node_store dm')"
    and nn: "\<And>a. GetNonce (node_store dm') a = (if a = kp_PubKey (sp_Key s) then sp_Nonce s + 1 else GetNonce (node_store dm) a)"
  have "kept (SetNonce st (kp_PubKey (sp_Key s)) (sp_Nonce s + 1)) (node_store dm')" using kept_block [OF ok' ag] by simp
  then have "kept st (node_store dm')" by (simp add: kept_def)
  moreover have "step_done E sign uni clock s dm dm'" using b nn by (auto simp: step_done_def firstTxOutcome_def Let_def)
  ultimately show thesis by (rule that [rotated])
qed

lemma step_serves: "step_done E sign uni clock s dm dm' \<Longrightarrow> serves E uni dm n \<Longrightarrow> serves E uni dm' (Suc n)"
  unfolding step_done_def by (metis fst_conv serves.step)

text \<open>Steps that are done one after the other complete the story.\<close>

definition completes :: "Env \<Rightarrow> signer \<Rightarrow> (bytes \<Rightarrow> bytes) \<Rightarrow> (nat \<Rightarrow> time) \<Rightarrow> lifeIDs \<Rightarrow> Daemon \<Rightarrow> story_step list \<Rightarrow> Daemon \<Rightarrow> bool" where
  "completes E sign uni clock ids dm ss dm' \<longleftrightarrow> (\<exists>recs. run_story E sign clock ids dm ss = (dm', Some (recs, True))
     \<and> map lp_No recs = map sp_No ss \<and> list_all lp_Success recs)
     \<and> (\<forall>n. serves E uni dm n \<longrightarrow> serves E uni dm' (n + length ss))"

lemma completes_Nil: "completes E sign uni clock ids dm [] dm"
  by (simp add: completes_def)

lemma completes_Cons:
  assumes "step_done E sign uni (clock (sp_No s)) s dm dm1" "completes E sign uni clock ids dm1 ss dm2"
  shows "completes E sign uni clock ids dm (s # ss) dm2"
proof -
  obtain rec where "runStoryStep E sign (clock (sp_No s)) ids dm s = (dm1, Some (rec, True))" "lp_Success rec" "lp_No rec = sp_No s"
    using assms(1) by (auto simp: step_done_def runStoryStep_def Let_def)
  then show ?thesis using assms(2) step_serves [OF assms(1)] by (fastforce simp: completes_def)
qed

lemma completes_append:
  assumes "completes E sign uni clock ids dm ss dm1" "completes E sign uni clock ids dm1 ss' dm2"
  shows "completes E sign uni clock ids dm (ss @ ss') dm2"
proof -
  have "run_story E sign clock ids dm (ss @ ss') = (dm2, Some (recs @ recs', True))"
    if "run_story E sign clock ids dm ss = (dm1, Some (recs, True))" "run_story E sign clock ids dm1 ss' = (dm2, Some (recs', True))" for recs recs'
    using that by (induction ss arbitrary: dm recs) (auto simp: map_prod_def split: prod.splits option.splits bool.splits)
  then show ?thesis using assms by (fastforce simp: completes_def add.assoc [symmetric])
qed

section \<open>The payloads of the story\<close>

definition ids_ok :: "lifeIDs \<Rightarrow> bool" where
  "ids_ok ids \<longleftrightarrow> (\<forall>i \<in> {li_OrderID ids, li_EscrowID ids, li_TaskID ids, li_DisputeID ids}. to_valid i = i \<and> length i \<le> 32) \<and> li_EscrowID ids \<noteq> []"

lemma story_ids_ok: "ids_ok (story_ids p c)"
proof -
  have "is_ascii (hex_EncodeToString bs)" for bs
    by (auto simp: is_ascii_def list_all_iff hex_EncodeToString_def hex_of_byte_def digit_char_ascii less_mult_imp_div_less)
  moreover have "length (hex_EncodeToString bs) = 2 * length bs" for bs by (induction bs) (simp_all add: hex_Cons hex_of_byte_def hex_EncodeToString_def)
  ultimately have "to_valid (hex_EncodeToString (take 8 bs)) = hex_EncodeToString (take 8 bs)" "to_valid (''esc-'' @ hex_EncodeToString (take 8 bs)) = ''esc-'' @ hex_EncodeToString (take 8 bs)"
    "length (hex_EncodeToString (take 8 bs)) \<le> 16" for bs
    by (simp_all add: to_valid_ascii is_ascii_def)
  then show ?thesis by (simp add: ids_ok_def story_ids_def Let_def shortHashID_def taskIDFromOrder_def disputeIDForDemo_def)
qed

lemma dec_struct_obj: "dec_struct strict fs (JObj ms) z = store_members strict fs ms z"
  by (simp add: dec_struct_def)

lemmas read_story = dec_struct_obj find_field_def fld_def dec_gbytes dec_gstrings dec_gint_uint dec_gint

lemma dec_gmoney: "is_ascii s \<Longrightarrow> dec_Money (json_of (gmoney s)) old = Some \<lparr>Currency = ''CNY'', Amount = s\<rparr>"
proof -
  have "gmoney s = GObj [(''amount'', GStr s), (''currency'', GStr ''CNY'')]" by code_simp
  then show "is_ascii s \<Longrightarrow> ?thesis" by (simp add: read_payload money_fields_def del: json_of.simps(2-5))
qed

lemma request_decoded:
  assumes "in_int64 t"
  shows "dec_struct False SubmitRequestPayload_fields (json_of (request_payload t)) zeroSubmitRequest =
    Some \<lparr>rq_RequiredCaps = [''poster_design''], rq_Budget = \<lparr>Currency = ''CNY'', Amount = ''299''\<rparr>, rq_MaxLatencyMS = 5000, rq_Deadline = t\<rparr>"
proof -
  have "request_payload t = GObj [(''budget'', gmoney ''299''), (''deadline'', gint t), (''max_latency_ms'', gint 5000), (''required_caps'', gstrings [''poster_design''])]" by code_simp
  then show ?thesis using assms by (simp add: read_story dec_gmoney to_valid_ascii is_ascii_def SubmitRequestPayload_fields_def zeroSubmitRequest_def del: json_of.simps(2-5))
qed

lemma escrow_decoded:
  assumes "ids_ok ids"
  shows "dec_struct False CreateEscrowPayload_fields (json_of (escrow_payload ids p c)) zeroCreateEscrow =
    Some \<lparr>ce_EscrowID = li_EscrowID ids, ce_OrderID = li_OrderID ids, ce_Consumer = c, ce_Provider = p,
      ce_ServiceFee = \<lparr>Currency = ''CNY'', Amount = ''199''\<rparr>, ce_CommissionBPS = 1200\<rparr>"
proof -
  have "escrow_payload ids p c = GObj [(''commission_bps'', gint 1200), (''consumer'', gbytes c), (''escrow_id'', GStr (li_EscrowID ids)),
    (''order_id'', GStr (li_OrderID ids)), (''provider'', gbytes p), (''service_fee'', gmoney ''199'')]" by code_simp
  then show ?thesis using assms
    by (simp add: read_story dec_gmoney ids_ok_def to_valid_ascii is_ascii_def CreateEscrowPayload_fields_def zeroCreateEscrow_def del: json_of.simps(2-5))
qed

lemma escrow_ref_decoded: "ids_ok ids \<Longrightarrow> dec_struct False EscrowRefPayload_fields (json_of (escrow_ref ids)) [] = Some (li_EscrowID ids)"
proof -
  have "escrow_ref ids = GObj [(''escrow_id'', GStr (li_EscrowID ids))]" by code_simp
  then show "ids_ok ids \<Longrightarrow> ?thesis"
    by (simp add: read_story ids_ok_def to_valid_ascii is_ascii_def EscrowRefPayload_fields_def del: json_of.simps(2-5))
qed

lemma task_decoded:
  assumes "ids_ok ids"
  shows "\<exists>x. dec_struct False CreateTaskPayload_fields (json_of (task_payload ids p c)) zeroCreateTask =
    Some \<lparr>ct_OrderID = li_OrderID ids, ct_Consumer = c, ct_Provider = p, ct_MaxRetries = 1, ct_ServiceFee = \<lparr>Currency = ''CNY'', Amount = ''199''\<rparr>,
      ct_TimeoutSec = 86400, ct_MaxLatency = 5000, ct_MinAccuracy = x\<rparr>"
proof -
  have g: "task_payload ids p c = GObj [(''consumer'', gbytes c), (''max_latency_ms'', gint 5000), (''max_retries'', gint 1), (''min_accuracy'', GNum ''0.9''),
    (''order_id'', GStr (li_OrderID ids)), (''provider'', gbytes p), (''service_fee'', gmoney ''199''), (''timeout_sec'', gint 86400)]" by code_simp
  obtain x where "ParseFloat32 ''0.9'' = Some x"
  proof -
    have "ParseFloat32 ''0.9'' \<noteq> None" by code_simp
    then show thesis using that by blast
  qed
  then have "dec_float32 (json_of (GNum ''0.9'')) old = Some x" for old by (simp add: dec_float32_def)
  then show ?thesis using assms unfolding g
    by (simp add: read_story dec_gmoney ids_ok_def to_valid_ascii is_ascii_def CreateTaskPayload_fields_def zeroCreateTask_def del: json_of.simps(2-5))
qed

lemma result_decoded:
  assumes "ids_ok ids"
  shows "dec_struct False SubmitResultPayload_fields (json_of (result_payload ids)) zeroSubmitResult =
    Some \<lparr>sr_TaskID = li_TaskID ids, sr_ResultData = ''poster-v1'', sr_ResultIPFS = ''ipfs://demo/poster-v1'', sr_ContentHash = ''poster-hash-v1''\<rparr>"
proof -
  have "result_payload ids = GObj [(''content_hash'', GStr ''poster-hash-v1''), (''result_data'', gbytes ''poster-v1''),
    (''result_ipfs'', GStr ''ipfs://demo/poster-v1''), (''task_id'', GStr (li_TaskID ids))]" by code_simp
  then show ?thesis using assms
    by (simp add: read_story ids_ok_def to_valid_ascii is_ascii_def SubmitResultPayload_fields_def zeroSubmitResult_def del: json_of.simps(2-5))
qed

lemma verify_decoded:
  assumes "ids_ok ids"
  shows "\<exists>r. dec_struct False VerifyPayload_fields (json_of (verify_payload ids c)) zeroVerify =
    Some \<lparr>vp_TaskID = li_TaskID ids, vp_Passed = False, vp_Reason = r, vp_Verifier = c\<rparr>"
proof -
  have "sort_key fst [(''task_id'', a), (''passed'', b), (''reason'', d), (''verifier'', e)] = [(''passed'', b), (''reason'', d), (''task_id'', a), (''verifier'', e)]" for a b d e :: gov
    by code_simp
  then show ?thesis using assms unfolding verify_payload_def go_map_def
    by (simp add: read_story ids_ok_def to_valid_ascii is_ascii_def VerifyPayload_fields_def zeroVerify_def del: json_of.simps(2-5))
qed

lemma dispute_decoded:
  assumes "ids_ok ids"
  shows "\<exists>r. dec_struct False filePayload_fields (json_of (dispute_payload ids p)) zeroFile =
    Some \<lparr>fp_OrderID = li_OrderID ids, fp_TaskID = li_TaskID ids, fp_Defendant = p, fp_ReasonCode = ''quality'', fp_Description = r\<rparr>"
proof -
  have "sort_key fst [(''order_id'', a), (''task_id'', b), (''defendant'', d), (''reason_code'', e), (''description'', f)]
    = [(''defendant'', d), (''description'', f), (''order_id'', a), (''reason_code'', e), (''task_id'', b)]" for a b d e f :: gov
    by code_simp
  then show ?thesis using assms unfolding dispute_payload_def go_map_def
    by (simp add: read_story ids_ok_def to_valid_ascii is_ascii_def filePayload_fields_def zeroFile_def del: json_of.simps(2-5))
qed

lemma resolve_decoded: "ids_ok ids \<Longrightarrow> dec_struct False resolvePayload_fields (json_of (go_map [(''dispute_id'', GStr (li_DisputeID ids))])) [] = Some (li_DisputeID ids)"
proof -
  have "go_map [(''dispute_id'', GStr (li_DisputeID ids))] = GObj [(''dispute_id'', GStr (li_DisputeID ids))]" by code_simp
  then show "ids_ok ids \<Longrightarrow> ?thesis"
    by (simp add: read_story ids_ok_def to_valid_ascii is_ascii_def resolvePayload_fields_def del: json_of.simps(2-5))
qed

lemma listing_decoded:
  "\<exists>p. dec_struct False CreateListingPayload_fields (json_of listing_payload) zeroCreateListing = Some p
     \<and> cl_Capabilities p = [\<lparr>cr_CapType = ''poster_design''\<rparr>] \<and> cl_Pricing p = \<lparr>pm_Currency = ''CNY'', pm_BasePrice = ''199''\<rparr>"
proof -
  have "sort_key fst [(''title'', a), (''description'', b), (''capabilities'', d), (''pricing'', e), (''sla'', f), (''tags'', g)]
    = [(''capabilities'', d), (''description'', b), (''pricing'', e), (''sla'', f), (''tags'', g), (''title'', a)]" for a b d e f g :: gov
    by code_simp
  then have l: "\<exists>a b ts. listing_payload = GObj [(''capabilities'', GArr [go_map [(''cap_type'', GStr ''poster_design'')]]), (''description'', GStr b),
     (''pricing'', go_map [(''currency'', GStr ''CNY''), (''base_price'', GStr ''199'')]),
     (''sla'', go_map [(''max_latency_ms'', gint 3000), (''timeout_sec'', gint 86400)]), (''tags'', gstrings ts), (''title'', GStr a)]"
    unfolding listing_payload_def by (subst go_map_def) auto
  have g: "go_map [(''cap_type'', GStr ''poster_design'')] = GObj [(''cap_type'', GStr ''poster_design'')]"
    "go_map [(''currency'', GStr ''CNY''), (''base_price'', GStr ''199'')] = GObj [(''base_price'', GStr ''199''), (''currency'', GStr ''CNY'')]"
    "go_map [(''max_latency_ms'', gint 3000), (''timeout_sec'', gint 86400)] = GObj [(''max_latency_ms'', gint 3000), (''timeout_sec'', gint 86400)]" by code_simp+
  have caps: "dec_list (dec_struct False CapabilityRef_fields) zeroCapRef (json_of (GArr [GObj [(''cap_type'', GStr ''poster_design'')]])) old = Some [\<lparr>cr_CapType = ''poster_design''\<rparr>]" for old
    by (simp add: dec_list_def read_story to_valid_ascii is_ascii_def CapabilityRef_fields_def zeroCapRef_def del: json_of.simps(2-4))
  obtain a b ts where p: "listing_payload = GObj [(''capabilities'', GArr [GObj [(''cap_type'', GStr ''poster_design'')]]), (''description'', GStr b),
     (''pricing'', GObj [(''base_price'', GStr ''199''), (''currency'', GStr ''CNY'')]),
     (''sla'', GObj [(''max_latency_ms'', gint 3000), (''timeout_sec'', gint 86400)]), (''tags'', gstrings ts), (''title'', GStr a)]"
    using l unfolding g by blast
  show ?thesis unfolding p
    by (simp add: read_story to_valid_ascii is_ascii_def CreateListingPayload_fields_def zeroCreateListing_def caps PricingModel_fields_def zeroPricing_def
        SLATemplate_fields_def zeroSLATemplate_def del: json_of.simps(2-5))
qed

lemma length_utf8_text: "length (utf8_text ns) \<le> 4 * length ns"
proof (induction ns)
  case (Cons n ns)
  have "length (utf8_encode n) \<le> 4" by (simp add: utf8_encode_def)
  with Cons show ?case by (simp add: utf8_text_def)
qed (simp add: utf8_text_def)

lemma nest_vals [simp]: "nesting (gint i) = 0" "nesting (gbytes b) = 0" "nesting (gstrings ss) = 1"
proof -
  show "nesting (gint i) = 0" "nesting (gbytes b) = 0" by (simp_all add: gint_def gbytes_def)
  show "nesting (gstrings ss) = 1" by (induction ss) (simp_all add: gstrings_def)
qed

lemma listing_sized: "plain listing_payload" "nesting listing_payload < max_nesting" "gsize listing_payload \<le> 100000"
proof -
  show "plain listing_payload" by (simp add: listing_payload_def set_go_map)
  show "nesting listing_payload < max_nesting" by (simp add: listing_payload_def set_go_map max_nesting_def)
  have "gsize listing_payload < 10000" by code_simp
  then show "gsize listing_payload \<le> 100000" by simp
qed

definition sized :: "gov \<Rightarrow> bool" where
  "sized g \<longleftrightarrow> plain g \<and> nesting g < max_nesting \<and> gsize g \<le> 100000"

lemma story_sized:
  assumes ids: "ids_ok ids" and p: "length p = 32" and c: "length c = 32"
  shows "sized listing_payload" "in_int64 t \<Longrightarrow> sized (request_payload t)" "sized (escrow_payload ids p c)" "sized (escrow_ref ids)"
    "sized (task_payload ids p c)" "sized (result_payload ids)" "sized (verify_payload ids c)" "sized (dispute_payload ids p)"
    "sized (go_map [(''dispute_id'', GStr (li_DisputeID ids))])"
proof -
  note sz = sized_def set_go_map max_nesting_def gmoney_def gstrings_def
  have i: "gsize (gint 5000) \<le> 21" "gsize (gint 1200) \<le> 21" "gsize (gint 1) \<le> 21" "gsize (gint 86400) \<le> 21" by (rule gsize_gint; simp)+
  have k: "gsize (gbytes p) \<le> 1000" "gsize (gbytes c) \<le> 1000" "gsize (gbytes ''poster-v1'') \<le> 1000"
    using gsize_gbytes [of p] gsize_gbytes [of c] gsize_gbytes [of "''poster-v1''"] p c by simp_all
  have dg: "is_digit CHR ''0''" "is_digit CHR ''9''" by code_simp+
  have n: "num_text ''0.9''"
    unfolding num_text_def by (rule exI [of _ "[]"], rule exI [of _ "''0''"], rule exI [of _ "''.9''"], rule exI [of _ "[]"]) (simp add: digit_text_def frac_text_def exp_text_def dg)
  have l: "length (li_OrderID ids) \<le> 32" "length (li_EscrowID ids) \<le> 32" "length (li_TaskID ids) \<le> 32" "length (li_DisputeID ids) \<le> 32"
    using ids by (simp_all add: ids_ok_def)
  show "sized listing_payload" using listing_sized by (simp add: sized_def)
  show "in_int64 t \<Longrightarrow> sized (request_payload t)"
    using gsize_gint [of t] i by (simp add: request_payload_def sz in_int64_def)
  show "sized (escrow_payload ids p c)" using i k l by (simp add: escrow_payload_def sz)
  show "sized (escrow_ref ids)" using l by (simp add: escrow_ref_def sz)
  show "sized (task_payload ids p c)" using i k l n by (simp add: task_payload_def sz)
  show "sized (result_payload ids)" using k l by (simp add: result_payload_def sz)
  show "sized (verify_payload ids c)"
    using k l length_utf8_text [of "[28023, 25253, 20851, 38190, 20449, 24687, 26377, 35823]"] by (simp add: verify_payload_def sz)
  show "sized (dispute_payload ids p)"
    using k l length_utf8_text [of "[20132, 20184, 32467, 26524, 19982, 38376, 24215, 38656, 27714, 19981, 19968, 33268]"] by (simp add: dispute_payload_def sz)
  show "sized (go_map [(''dispute_id'', GStr (li_DisputeID ids))])" using l by (simp add: sz)
qed

section \<open>The ten steps\<close>

lemma sized_decode: "sized g \<Longrightarrow> DecodeJSONPayload fs z (tx_of sign key n mdl act g) = dec_struct False fs (json_of g) z"
  by (rule decode_payload) (simp_all add: sized_def)

text \<open>The step with a number, a module, an action, a key, a nonce and a payload, whatever its description.\<close>

definition is_step :: "nat \<Rightarrow> bytes \<Rightarrow> bytes \<Rightarrow> KeyPair \<Rightarrow> uint64 \<Rightarrow> gov \<Rightarrow> story_step \<Rightarrow> bool" where
  "is_step no mdl act key n g s \<longleftrightarrow> sp_No s = no \<and> sp_Module s = mdl \<and> sp_Action s = act \<and> sp_Key s = key \<and> sp_Nonce s = n \<and> sp_Payload s = g"

lemma step_block:
  assumes E: "permutes_modules E" and ok: "node_ok_at uni dm" and k: "signs E sign key" and n: "GetNonce (node_store dm) (kp_PubKey key) = n"
    and s: "is_step no mdl act key n g s" and g: "sized g"
    and m: "(m, owned, I) \<in> set (app_parts uni)" "mName m = mdl" "mdl \<in> set allowedModules" "utf8_Valid mdl" "act \<noteq> []" "utf8_Valid act"
    and ex: "mExecuteTx m (step_ctx clock dm) (tx_of sign key n mdl act g) = (upd_store (step_ctx clock dm) st, Ret (SuccessResult gas evs))"
  shows "\<exists>dm'. step_done E sign uni clock s dm dm' \<and> kept st (node_store dm')"
  using story_block [of E uni dm sign s m owned I clock st gas evs] assms by (metis is_step_def sized_def)

lemma story_modules:
  "(amx_New uni, amx_prefixes, amx_ok) \<in> set (app_parts uni)" "mName (amx_New uni) = ''amx''"
  "(fiat_New, fiat_prefixes, fiat_ok) \<in> set (app_parts uni)" "mName fiat_New = ''fiat''"
  "(aap_New, aap_prefixes, aap_ok) \<in> set (app_parts uni)" "mName aap_New = ''aap''"
  "(arb_New, arb_prefixes, arb_ok) \<in> set (app_parts uni)" "mName arb_New = ''arb''"
  by (simp_all add: app_parts_def amx_New_def fiat_New_def aap_New_def arb_New_def)

lemma story_names:
  "''amx'' \<in> set allowedModules" "''fiat'' \<in> set allowedModules" "''aap'' \<in> set allowedModules" "''arb'' \<in> set allowedModules"
  "utf8_Valid ''amx''" "utf8_Valid ''fiat''" "utf8_Valid ''aap''" "utf8_Valid ''arb''"
  by code_simp+

lemma story_actions:
  "utf8_Valid ''create_listing''" "utf8_Valid ''submit_request''" "utf8_Valid ''create_escrow''" "utf8_Valid ''fund_escrow''" "utf8_Valid ''create_task''"
  "utf8_Valid ''submit_result''" "utf8_Valid ''verify_result''" "utf8_Valid ''file_dispute''" "utf8_Valid ''auto_resolve''" "utf8_Valid ''refund_escrow''"
  by code_simp+

lemma refs_sized:
  assumes "ids_ok ids"
  shows "sized (escrow_ref ids)" "sized (result_payload ids)" "sized (go_map [(''dispute_id'', GStr (li_DisputeID ids))])"
  using story_sized(4,6,9) [OF assms, of "replicate 32 (CHR ''k'')" "replicate 32 (CHR ''k'')"] by simp_all

lemma listing_step:
  assumes E: "permutes_modules E" and ok: "node_ok_at uni dm" and k: "signs E sign key" and n: "GetNonce (node_store dm) (kp_PubKey key) = n"
    and s: "is_step no ''amx'' ''create_listing'' key n listing_payload s"
  shows "\<exists>dm' l. step_done E sign uni clock s dm dm' \<and> loadListing (node_store dm') (l_ListingID l) = Inr l \<and> l_Status l = ''LISTING_ACTIVE''
    \<and> l_Capabilities l = [\<lparr>cr_CapType = ''poster_design''\<rparr>] \<and> l_Pricing l = \<lparr>pm_Currency = ''CNY'', pm_BasePrice = ''199''\<rparr>"
proof -
  let ?c = "step_ctx clock dm" and ?t = "tx_of sign key n ''amx'' ''create_listing'' listing_payload"
  obtain p where p: "dec_struct False CreateListingPayload_fields (json_of listing_payload) zeroCreateListing = Some p"
    "cl_Capabilities p = [\<lparr>cr_CapType = ''poster_design''\<rparr>]" "cl_Pricing p = \<lparr>pm_Currency = ''CNY'', pm_BasePrice = ''199''\<rparr>"
    using listing_decoded by blast
  have sz: "sized listing_payload" using listing_sized by (simp add: sized_def)
  have d: "DecodeJSONPayload CreateListingPayload_fields zeroCreateListing ?t = Some p" by (simp add: sized_decode [OF sz] p(1))
  have price: "ptoPrice ''199'' = None" by code_simp
  define l where "l = \<lparr>l_ListingID = shortHash [kp_PubKey key, utoa 10 (unat n), cl_Title p], l_Provider = kp_PubKey key, l_Title = cl_Title p, l_Description = cl_Description p,
     l_Capabilities = cl_Capabilities p, l_Pricing = cl_Pricing p, l_SLA = cl_SLA p, l_Tags = cl_Tags p, l_Status = ''LISTING_ACTIVE'', l_CreatedAt = now ?c, l_UpdatedAt = now ?c\<rparr>"
  let ?st = "set_index (l_ListingID l) (l_Capabilities l) (saveListing (ctxStore ?c) l)"
  have ex: "\<exists>evs. mExecuteTx (amx_New uni) ?c ?t = (upd_store ?c ?st, Ret (SuccessResult 5000 evs))"
    using p price by (simp add: amx_exec createListing_def d l_def Let_def) blast
  obtain dm' where dm': "step_done E sign uni clock s dm dm'" "kept ?st (node_store dm')"
    using step_block [OF E ok k n s sz story_modules(1,2) story_names(1,5) _ story_actions(1)] ex by blast
  have "loadListing ?st (l_ListingID l) = Inr l"
    by (simp add: set_index_def l_def p(2) listings.load_save listings.load_frame [of "Set _ _ _", OF] Get_Set ListingKey_def)
  then show ?thesis using dm' p by (intro exI [of _ dm'] exI [of _ l]) (auto simp: kept_def l_def)
qed

lemma request_step:
  assumes E: "permutes_modules E" and ok: "node_ok_at uni dm" and k: "signs E sign key" and n: "GetNonce (node_store dm) (kp_PubKey key) = n"
    and s: "is_step no ''amx'' ''submit_request'' key n (request_payload t) s" and t: "in_int64 t" "Unix clock \<le> t"
    and l: "loadListing (node_store dm) i = Inr l" "l_Status l = ''LISTING_ACTIVE''" "l_Capabilities l = [\<lparr>cr_CapType = ''poster_design''\<rparr>]"
      "l_Pricing l = \<lparr>pm_Currency = ''CNY'', pm_BasePrice = ''199''\<rparr>"
  shows "\<exists>dm' ord. step_done E sign uni clock s dm dm' \<and> loadOrder (node_store dm') (o_OrderID ord) = Inr ord
    \<and> o_Consumer ord = kp_PubKey key \<and> o_Status ord = ''ORDER_MATCHED''"
proof -
  let ?c = "step_ctx clock dm" and ?t = "tx_of sign key n ''amx'' ''submit_request'' (request_payload t)"
  let ?p = "\<lparr>rq_RequiredCaps = [''poster_design''], rq_Budget = \<lparr>Currency = ''CNY'', Amount = ''299''\<rparr>, rq_MaxLatencyMS = 5000, rq_Deadline = t\<rparr>"
  have sz: "sized (request_payload t)" using gsize_gint [of t] gsize_gint [of 5000] t(1)
    by (simp add: request_payload_def sized_def set_go_map max_nesting_def gmoney_def gstrings_def in_int64_def)
  have d: "DecodeJSONPayload SubmitRequestPayload_fields zeroSubmitRequest ?t = Some ?p" by (simp add: sized_decode [OF sz] request_decoded [OF t(1)])
  have inv: "store_inv (ctxStore ?c)" using ok by (simp add: node_ok_at_def app_ok_def)
  have "amount_is ''199'' 199" "amount_is ''299'' 299" by (simp_all add: amount_is_def; code_simp)+
  then have "l \<in> eligible uni (ctxStore ?c) ?p" using l unfolding eligible_def by fastforce
  then have cand: "candidates uni (ctxStore ?c) ?p \<noteq> []" using eligible_candidates [OF inv] by auto
  have "\<not> (0 < rq_Deadline ?p \<and> rq_Deadline ?p < now ?c)" using t(2) by (simp add: step_ctx_def)
  from submitRequest_matched [OF inv d this cand]
  obtain ord evs where "submitRequest uni ?c ?t = (upd_store ?c (saveOrder (ctxStore ?c) ord), Ret (SuccessResult 8000 evs))"
    and ord: "o_Consumer ord = kp_PubKey key" "o_Status ord = ''ORDER_MATCHED''" by (auto simp del: step_ctx_store)
  then have ex: "mExecuteTx (amx_New uni) ?c ?t = (upd_store ?c (saveOrder (ctxStore ?c) ord), Ret (SuccessResult 8000 evs))" by (simp add: amx_exec)
  obtain dm' where dm': "step_done E sign uni clock s dm dm'" "kept (saveOrder (ctxStore ?c) ord) (node_store dm')"
    using step_block [OF E ok k n s sz story_modules(1,2) story_names(1,5) _ story_actions(2) ex] by blast
  have "loadOrder (saveOrder (ctxStore ?c) ord) (o_OrderID ord) = Inr ord" by (simp add: orders.load_save)
  then show ?thesis using dm' ord by (intro exI [of _ dm'] exI [of _ ord]) (auto simp: kept_def)
qed

lemma escrow_step:
  assumes E: "permutes_modules E" and ok: "node_ok_at uni dm" and k: "signs E sign key" and n: "GetNonce (node_store dm) (kp_PubKey key) = n"
    and ids: "ids_ok ids" and len: "length p = 32" "length c = 32" and s: "is_step no ''fiat'' ''create_escrow'' key n (escrow_payload ids p c) s"
  shows "\<exists>dm' e. step_done E sign uni clock s dm dm' \<and> kept (saveEscrow (node_store dm) e) (node_store dm') \<and> es_EscrowID e = li_EscrowID ids
    \<and> es_Consumer e = c \<and> es_Provider e = p \<and> es_TotalAmount e = \<lparr>Currency = ''CNY'', Amount = ''222.88000000''\<rparr> \<and> es_Status e = ''ESCROW_PENDING''"
proof -
  let ?c = "step_ctx clock dm" and ?t = "tx_of sign key n ''fiat'' ''create_escrow'' (escrow_payload ids p c)"
  have sz: "sized (escrow_payload ids p c)" by (rule story_sized [OF ids len])
  note d = sized_decode [OF sz, of CreateEscrowPayload_fields zeroCreateEscrow, unfolded escrow_decoded [OF ids]]
  have money: "ApplyBPS \<lparr>Currency = ''CNY'', Amount = ''199''\<rparr> 1200 8 = Inr \<lparr>Currency = ''CNY'', Amount = ''23.88000000''\<rparr>"
    "AddMoney \<lparr>Currency = ''CNY'', Amount = ''199''\<rparr> \<lparr>Currency = ''CNY'', Amount = ''23.88000000''\<rparr> 8 = Inr \<lparr>Currency = ''CNY'', Amount = ''222.88000000''\<rparr>" by code_simp+
  define e where "e = \<lparr>es_EscrowID = li_EscrowID ids, es_OrderID = li_OrderID ids, es_Consumer = c, es_Provider = p,
     es_TotalAmount = \<lparr>Currency = ''CNY'', Amount = ''222.88000000''\<rparr>, es_ServiceFee = \<lparr>Currency = ''CNY'', Amount = ''199''\<rparr>,
     es_Commission = \<lparr>Currency = ''CNY'', Amount = ''23.88000000''\<rparr>, es_CommissionBPS = 1200, es_Status = ''ESCROW_PENDING'', es_CreatedAt = now ?c,
     es_FundedAt = 0, es_ReleasedAt = 0, es_GatewayTxID = []\<rparr>"
  have ex: "mExecuteTx fiat_New ?c ?t = (upd_store ?c (saveEscrow (node_store dm) e), Ret (SuccessResult 2000 []))"
    using ids by (simp add: fiat_exec createEscrow_def d money e_def ids_ok_def)
  show ?thesis
    using step_block [OF E ok k n s sz story_modules(3,4) story_names(2,6) _ story_actions(3) ex] by (auto intro!: exI [of _ e] simp: e_def)
qed

lemma fund_step:
  assumes E: "permutes_modules E" and ok: "node_ok_at uni dm" and k: "signs E sign key" and n: "GetNonce (node_store dm) (kp_PubKey key) = n"
    and ids: "ids_ok ids" and e: "loadEscrow (node_store dm) (li_EscrowID ids) = Inr e" "es_Status e = ''ESCROW_PENDING''"
    and s: "is_step no ''fiat'' ''fund_escrow'' key n (escrow_ref ids) s"
  shows "\<exists>dm'. step_done E sign uni clock s dm dm'
    \<and> kept (saveEscrow (node_store dm) (e\<lparr>es_Status := ''ESCROW_FUNDED'', es_FundedAt := Unix clock\<rparr>)) (node_store dm')"
proof -
  let ?c = "step_ctx clock dm" and ?t = "tx_of sign key n ''fiat'' ''fund_escrow'' (escrow_ref ids)"
  note sz = refs_sized(1) [OF ids]
  note d = sized_decode [OF sz, of EscrowRefPayload_fields "[]", unfolded escrow_ref_decoded [OF ids]]
  have ex: "mExecuteTx fiat_New ?c ?t = (upd_store ?c (saveEscrow (node_store dm) (e\<lparr>es_Status := ''ESCROW_FUNDED'', es_FundedAt := Unix clock\<rparr>)), Ret (SuccessResult 1500 []))"
    using e by (simp add: fiat_exec fundEscrow_def with_escrow_def d step_ctx_def)
  show ?thesis using step_block [OF E ok k n s sz story_modules(3,4) story_names(2,6) _ story_actions(4) ex] by simp
qed

lemma refund_step:
  assumes E: "permutes_modules E" and ok: "node_ok_at uni dm" and k: "signs E sign key" and n: "GetNonce (node_store dm) (kp_PubKey key) = n"
    and ids: "ids_ok ids" and e: "loadEscrow (node_store dm) (li_EscrowID ids) = Inr e" "es_Status e = ''ESCROW_FUNDED''"
    and s: "is_step no ''fiat'' ''refund_escrow'' key n (escrow_ref ids) s"
  shows "\<exists>dm'. step_done E sign uni clock s dm dm' \<and> kept (saveEscrow (node_store dm) (e\<lparr>es_Status := ''ESCROW_REFUNDED''\<rparr>)) (node_store dm')"
proof -
  let ?c = "step_ctx clock dm" and ?t = "tx_of sign key n ''fiat'' ''refund_escrow'' (escrow_ref ids)"
  note sz = refs_sized(1) [OF ids]
  note d = sized_decode [OF sz, of EscrowRefPayload_fields "[]", unfolded escrow_ref_decoded [OF ids]]
  have ex: "mExecuteTx fiat_New ?c ?t = (upd_store ?c (saveEscrow (node_store dm) (e\<lparr>es_Status := ''ESCROW_REFUNDED''\<rparr>)), Ret (SuccessResult 3000 []))"
    using e by (simp add: fiat_exec refundEscrow_def with_escrow_def d)
  show ?thesis using step_block [OF E ok k n s sz story_modules(3,4) story_names(2,6) _ story_actions(10) ex] by simp
qed

lemma task_step:
  assumes E: "permutes_modules E" and ok: "node_ok_at uni dm" and k: "signs E sign key" and n: "GetNonce (node_store dm) (kp_PubKey key) = n"
    and ids: "ids_ok ids" and len: "length p = 32" "length c = 32" and s: "is_step no ''aap'' ''create_task'' key n (task_payload ids p c) s"
  shows "\<exists>dm' t. step_done E sign uni clock s dm dm' \<and> kept (saveTask (node_store dm) t) (node_store dm') \<and> t_TaskID t = taskID (li_OrderID ids) n
    \<and> t_Consumer t = c \<and> t_Provider t = p \<and> t_Status t = ''TASK_CREATED'' \<and> t_RetryCount t = 0 \<and> t_MaxRetries t = 1"
proof -
  let ?c = "step_ctx clock dm" and ?t = "tx_of sign key n ''aap'' ''create_task'' (task_payload ids p c)"
  have sz: "sized (task_payload ids p c)" by (rule story_sized [OF ids len])
  obtain x where x: "dec_struct False CreateTaskPayload_fields (json_of (task_payload ids p c)) zeroCreateTask =
    Some \<lparr>ct_OrderID = li_OrderID ids, ct_Consumer = c, ct_Provider = p, ct_MaxRetries = 1, ct_ServiceFee = \<lparr>Currency = ''CNY'', Amount = ''199''\<rparr>,
      ct_TimeoutSec = 86400, ct_MaxLatency = 5000, ct_MinAccuracy = x\<rparr>" using task_decoded [OF ids] by blast
  note d = sized_decode [OF sz, of CreateTaskPayload_fields zeroCreateTask, unfolded x]
  have "\<exists>t evs. mExecuteTx aap_New ?c ?t = (upd_store ?c (saveTask (node_store dm) t), Ret (SuccessResult 3000 evs)) \<and> t_TaskID t = taskID (li_OrderID ids) n
    \<and> t_Consumer t = c \<and> t_Provider t = p \<and> t_Status t = ''TASK_CREATED'' \<and> t_RetryCount t = 0 \<and> t_MaxRetries t = 1"
    by (intro exI conjI) (simp add: aap_exec createTask_def d Let_def, simp_all)
  then show ?thesis using step_block [OF E ok k n s sz story_modules(5,6) story_names(3,7) _ story_actions(5)] by (metis list.distinct(1))
qed

lemma result_step:
  assumes E: "permutes_modules E" and ok: "node_ok_at uni dm" and k: "signs E sign key" and n: "GetNonce (node_store dm) (kp_PubKey key) = n"
    and ids: "ids_ok ids" and t: "loadTask (node_store dm) (li_TaskID ids) = Inr t" "t_Provider t = kp_PubKey key"
    and s: "is_step no ''aap'' ''submit_result'' key n (result_payload ids) s"
  shows "\<exists>dm'. step_done E sign uni clock s dm dm' \<and> kept (saveTask (node_store dm) (t\<lparr>t_ResultHash := ''poster-hash-v1'',
    t_ResultIPFS := ''ipfs://demo/poster-v1'', t_Status := ''TASK_SUBMIT_RESULT''\<rparr>)) (node_store dm')"
proof -
  let ?c = "step_ctx clock dm" and ?t = "tx_of sign key n ''aap'' ''submit_result'' (result_payload ids)"
  note sz = refs_sized(2) [OF ids]
  note d = sized_decode [OF sz, of SubmitResultPayload_fields zeroSubmitResult, unfolded result_decoded [OF ids]]
  have ex: "mExecuteTx aap_New ?c ?t = (upd_store ?c (saveTask (node_store dm) (t\<lparr>t_ResultHash := ''poster-hash-v1'',
    t_ResultIPFS := ''ipfs://demo/poster-v1'', t_Status := ''TASK_SUBMIT_RESULT''\<rparr>)), Ret (SuccessResult 5000 []))"
    using t by (simp add: aap_exec submitResult_def d)
  show ?thesis using step_block [OF E ok k n s sz story_modules(5,6) story_names(3,7) _ story_actions(6) ex] by simp
qed

lemma verify_step:
  assumes E: "permutes_modules E" and ok: "node_ok_at uni dm" and k: "signs E sign key" and n: "GetNonce (node_store dm) (kp_PubKey key) = n"
    and ids: "ids_ok ids" and len: "length c = 32" and t: "loadTask (node_store dm) (li_TaskID ids) = Inr t" "t_Status t = ''TASK_SUBMIT_RESULT''" "t_RetryCount t = 0" "t_MaxRetries t = 1"
    and s: "is_step no ''aap'' ''verify_result'' key n (verify_payload ids c) s"
  shows "\<exists>dm'. step_done E sign uni clock s dm dm' \<and> kept (saveTask (node_store dm) (t\<lparr>t_RetryCount := 1, t_Status := ''TASK_DISPUTED''\<rparr>)) (node_store dm')"
proof -
  let ?c = "step_ctx clock dm" and ?t = "tx_of sign key n ''aap'' ''verify_result'' (verify_payload ids c)"
  have sz: "sized (verify_payload ids c)" using story_sized(7) [OF ids len len] .
  obtain r where r: "dec_struct False VerifyPayload_fields (json_of (verify_payload ids c)) zeroVerify =
    Some \<lparr>vp_TaskID = li_TaskID ids, vp_Passed = False, vp_Reason = r, vp_Verifier = c\<rparr>" using verify_decoded [OF ids] by blast
  note d = sized_decode [OF sz, of VerifyPayload_fields zeroVerify, unfolded r]
  have ex: "mExecuteTx aap_New ?c ?t = (upd_store ?c (saveTask (node_store dm) (t\<lparr>t_RetryCount := 1, t_Status := ''TASK_DISPUTED''\<rparr>)), Ret (SuccessResult 3000 []))"
    using t by (simp add: aap_exec verifyResult_def d Let_def)
  show ?thesis using step_block [OF E ok k n s sz story_modules(5,6) story_names(3,7) _ story_actions(7) ex] by simp
qed

lemma dispute_step:
  assumes E: "permutes_modules E" and ok: "node_ok_at uni dm" and k: "signs E sign key" and n: "GetNonce (node_store dm) (kp_PubKey key) = n"
    and ids: "ids_ok ids" and len: "length p = 32" and s: "is_step no ''arb'' ''file_dispute'' key n (dispute_payload ids p) s"
  shows "\<exists>dm' x. step_done E sign uni clock s dm dm' \<and> kept (saveDispute (node_store dm) x) (node_store dm') \<and> dp_DisputeID x = disputeID (li_OrderID ids) (li_TaskID ids) n
    \<and> dp_Plaintiff x = kp_PubKey key \<and> dp_Defendant x = p \<and> dp_ReasonCode x = ''quality'' \<and> dp_Status x = ''DISPUTE_FILED''"
proof -
  let ?c = "step_ctx clock dm" and ?t = "tx_of sign key n ''arb'' ''file_dispute'' (dispute_payload ids p)"
  have sz: "sized (dispute_payload ids p)" using story_sized(8) [OF ids len len] .
  obtain r where r: "dec_struct False filePayload_fields (json_of (dispute_payload ids p)) zeroFile =
    Some \<lparr>fp_OrderID = li_OrderID ids, fp_TaskID = li_TaskID ids, fp_Defendant = p, fp_ReasonCode = ''quality'', fp_Description = r\<rparr>"
    using dispute_decoded [OF ids] by blast
  note d = sized_decode [OF sz, of filePayload_fields zeroFile, unfolded r]
  have "\<exists>x. mExecuteTx arb_New ?c ?t = (upd_store ?c (saveDispute (node_store dm) x), Ret (SuccessResult 3000 [])) \<and> dp_DisputeID x = disputeID (li_OrderID ids) (li_TaskID ids) n
    \<and> dp_Plaintiff x = kp_PubKey key \<and> dp_Defendant x = p \<and> dp_ReasonCode x = ''quality'' \<and> dp_Status x = ''DISPUTE_FILED''"
    by (intro exI conjI) (simp add: arb_exec fileDispute_def d Let_def, simp_all)
  then show ?thesis using step_block [OF E ok k n s sz story_modules(7,8) story_names(4,8) _ story_actions(8)] by (metis list.distinct(1))
qed

lemma resolve_step:
  assumes E: "permutes_modules E" and ok: "node_ok_at uni dm" and k: "signs E sign key" and n: "GetNonce (node_store dm) (kp_PubKey key) = n"
    and ids: "ids_ok ids" and x: "loadDispute (node_store dm) (li_DisputeID ids) = Inr x" "dp_ReasonCode x = ''quality''" "dp_Status x = ''DISPUTE_FILED''"
    and s: "is_step no ''arb'' ''auto_resolve'' key n (go_map [(''dispute_id'', GStr (li_DisputeID ids))]) s"
  shows "\<exists>dm' v. step_done E sign uni clock s dm dm' \<and> v_Winner v = ''consumer''
    \<and> kept (saveDispute (node_store dm) (x\<lparr>dp_Verdict := v, dp_Status := ''DISPUTE_AUTO_RESOLVED''\<rparr>)) (node_store dm')"
proof -
  let ?c = "step_ctx clock dm" and ?t = "tx_of sign key n ''arb'' ''auto_resolve'' (go_map [(''dispute_id'', GStr (li_DisputeID ids))])"
  note sz = refs_sized(3) [OF ids]
  note d = sized_decode [OF sz, of resolvePayload_fields "[]", unfolded resolve_decoded [OF ids]]
  have q: "EqualFold_ascii ''quality'' ''timeout'' = False" "EqualFold_ascii ''quality'' ''heartbeat'' = False" "EqualFold_ascii ''quality'' ''quality'' = True" by code_simp+
  obtain v where v: "applyRules x = (True, v)" "v_Winner v = ''consumer''"
    using x(2) q by (simp add: applyRules_def Evaluate_def NewAutoRuleEngine_def sort_slice_def ruleSLATimeout_def ruleHeartbeatLoss_def ruleVerificationFail_def)
  have ex: "mExecuteTx arb_New ?c ?t = (upd_store ?c (saveDispute (node_store dm) (x\<lparr>dp_Verdict := v, dp_Status := ''DISPUTE_AUTO_RESOLVED''\<rparr>)), Ret (SuccessResult 5000 []))"
    using x v by (simp add: arb_exec autoResolve_def d Let_def)
  show ?thesis using step_block [OF E ok k n s sz story_modules(7,8) story_names(4,8) _ story_actions(9) ex] v(2) by auto
qed

end
