(* ===== verification/Story.thy ===== *)
theory Story
  imports Storysteps
begin

text \<open>
  The story of \<open>cmd/aacpd\<close> as a whole: on any node its ten steps succeed and settle the deal as shown.
\<close>

lemma after_step:
  assumes "step_done E sign uni clock s dm dm'" "is_step no mdl act key n g s"
  shows "node_ok_at uni dm'" "GetNonce (node_store dm') a = (if a = kp_PubKey key then n + 1 else GetNonce (node_store dm) a)"
  using assms by (auto simp: step_done_def is_step_def)

lemma five_steps:
  assumes "step_done E sign uni (clock (sp_No s1)) s1 dm dm1" "step_done E sign uni (clock (sp_No s2)) s2 dm1 dm2" "step_done E sign uni (clock (sp_No s3)) s3 dm2 dm3"
    "step_done E sign uni (clock (sp_No s4)) s4 dm3 dm4" "step_done E sign uni (clock (sp_No s5)) s5 dm4 dm5"
  shows "completes E sign uni clock ids dm [s1, s2, s3, s4, s5] dm5"
  by (rule completes_Cons [where clock = clock, OF assms(1)], rule completes_Cons [where clock = clock, OF assms(2)], rule completes_Cons [where clock = clock, OF assms(3)],
      rule completes_Cons [where clock = clock, OF assms(4)], rule completes_Cons [where clock = clock, OF assms(5)], rule completes_Nil)

text \<open>The state between the two halves: the order is matched, the escrow is funded, the task is created.\<close>

definition underway :: "lifeIDs \<Rightarrow> bytes \<Rightarrow> bytes \<Rightarrow> Store \<Rightarrow> bool" where
  "underway ids p c st \<longleftrightarrow> (\<exists>ord. loadOrder st (o_OrderID ord) = Inr ord \<and> o_Consumer ord = c \<and> o_Status ord = ''ORDER_MATCHED'')
     \<and> (\<exists>e. loadEscrow st (li_EscrowID ids) = Inr e \<and> es_EscrowID e = li_EscrowID ids \<and> es_Consumer e = c \<and> es_Provider e = p
          \<and> es_TotalAmount e = \<lparr>Currency = ''CNY'', Amount = ''222.88000000''\<rparr> \<and> es_Status e = ''ESCROW_FUNDED'')
     \<and> (\<exists>t. loadTask st (li_TaskID ids) = Inr t \<and> t_TaskID t = li_TaskID ids \<and> t_Consumer t = c \<and> t_Provider t = p
          \<and> t_Status t = ''TASK_CREATED'' \<and> t_RetryCount t = 0 \<and> t_MaxRetries t = 1)"

text \<open>The state at the end: the escrow is refunded, the task is disputed, the dispute is resolved for the consumer.\<close>

definition settled_story :: "lifeIDs \<Rightarrow> bytes \<Rightarrow> bytes \<Rightarrow> Store \<Rightarrow> bool" where
  "settled_story ids p c st \<longleftrightarrow> (\<exists>ord. loadOrder st (o_OrderID ord) = Inr ord \<and> o_Consumer ord = c \<and> o_Status ord = ''ORDER_MATCHED'')
     \<and> (\<exists>e. loadEscrow st (li_EscrowID ids) = Inr e \<and> es_Consumer e = c \<and> es_Provider e = p
          \<and> es_TotalAmount e = \<lparr>Currency = ''CNY'', Amount = ''222.88000000''\<rparr> \<and> es_Status e = ''ESCROW_REFUNDED'')
     \<and> (\<exists>t. loadTask st (li_TaskID ids) = Inr t \<and> t_Consumer t = c \<and> t_Provider t = p \<and> t_Status t = ''TASK_DISPUTED''
          \<and> t_ResultHash t = ''poster-hash-v1'')
     \<and> (\<exists>x. loadDispute st (li_DisputeID ids) = Inr x \<and> dp_Plaintiff x = c \<and> dp_Defendant x = p \<and> dp_Status x = ''DISPUTE_AUTO_RESOLVED''
          \<and> v_Winner (dp_Verdict x) = ''consumer'')"

lemma story_opens:
  assumes E: "permutes_modules E" and ok: "node_ok_at uni dm" and k: "signs E sign provider" "signs E sign consumer"
    and n: "GetNonce (node_store dm) p = 0" "GetNonce (node_store dm) c = 0" and pc: "p = kp_PubKey provider" "c = kp_PubKey consumer" "p \<noteq> c"
    and ids: "ids_ok ids" "li_TaskID ids = taskID (li_OrderID ids) 3" and t: "in_int64 t" "Unix (clock 2) \<le> t"
    and s1: "is_step 1 ''amx'' ''create_listing'' provider 0 listing_payload s1" and s2: "is_step 2 ''amx'' ''submit_request'' consumer 0 (request_payload t) s2"
    and s3: "is_step 3 ''fiat'' ''create_escrow'' consumer 1 (escrow_payload ids p c) s3" and s4: "is_step 4 ''fiat'' ''fund_escrow'' consumer 2 (escrow_ref ids) s4"
    and s5: "is_step 5 ''aap'' ''create_task'' consumer 3 (task_payload ids p c) s5"
  shows "\<exists>dm'. completes E sign uni clock ids dm [s1, s2, s3, s4, s5] dm' \<and> node_ok_at uni dm' \<and> GetNonce (node_store dm') p = 1 \<and> GetNonce (node_store dm') c = 4
    \<and> underway ids p c (node_store dm')"
proof -
  have len: "length p = 32" "length c = 32" using k pc by (simp_all add: signs_def)
  obtain dm1 l where d1: "step_done E sign uni (clock 1) s1 dm dm1" and l: "loadListing (node_store dm1) (l_ListingID l) = Inr l" "l_Status l = ''LISTING_ACTIVE''"
    "l_Capabilities l = [\<lparr>cr_CapType = ''poster_design''\<rparr>]" "l_Pricing l = \<lparr>pm_Currency = ''CNY'', pm_BasePrice = ''199''\<rparr>"
    using listing_step [OF E ok k(1) _ s1, of "clock 1"] n(1) pc by blast
  note a1 = after_step [OF d1 s1]
  have n1: "GetNonce (node_store dm1) p = 1" "GetNonce (node_store dm1) (kp_PubKey consumer) = 0" using a1(2) n pc by simp_all
  obtain dm2 ord where d2: "step_done E sign uni (clock 2) s2 dm1 dm2" and o2: "loadOrder (node_store dm2) (o_OrderID ord) = Inr ord" "o_Consumer ord = c" "o_Status ord = ''ORDER_MATCHED''"
    using request_step [OF E a1(1) k(2) n1(2) s2 t l] pc by blast
  note a2 = after_step [OF d2 s2]
  have n2: "GetNonce (node_store dm2) p = 1" "GetNonce (node_store dm2) (kp_PubKey consumer) = 1" using a2(2) n1 pc by simp_all
  obtain dm3 e where d3: "step_done E sign uni (clock 3) s3 dm2 dm3" and k3: "kept (saveEscrow (node_store dm2) e) (node_store dm3)"
    and e: "es_EscrowID e = li_EscrowID ids" "es_Consumer e = c" "es_Provider e = p" "es_TotalAmount e = \<lparr>Currency = ''CNY'', Amount = ''222.88000000''\<rparr>" "es_Status e = ''ESCROW_PENDING''"
    using escrow_step [OF E a2(1) k(2) n2(2) ids(1) len s3] by blast
  note a3 = after_step [OF d3 s3]
  have n3: "GetNonce (node_store dm3) p = 1" "GetNonce (node_store dm3) (kp_PubKey consumer) = 2" using a3(2) n2 pc by simp_all
  have e3: "loadEscrow (node_store dm3) (li_EscrowID ids) = Inr e" "loadOrder (node_store dm3) (o_OrderID ord) = Inr ord"
    using k3 e(1) o2(1) by (simp_all add: kept_def escrows.load_save)
  obtain dm4 where d4: "step_done E sign uni (clock 4) s4 dm3 dm4"
    and k4: "kept (saveEscrow (node_store dm3) (e\<lparr>es_Status := ''ESCROW_FUNDED'', es_FundedAt := Unix (clock 4)\<rparr>)) (node_store dm4)"
    using fund_step [OF E a3(1) k(2) n3(2) ids(1) e3(1) e(5) s4] by blast
  note a4 = after_step [OF d4 s4]
  have n4: "GetNonce (node_store dm4) p = 1" "GetNonce (node_store dm4) (kp_PubKey consumer) = 3" using a4(2) n3 pc by simp_all
  obtain dm5 tk where d5: "step_done E sign uni (clock 5) s5 dm4 dm5" and k5: "kept (saveTask (node_store dm4) tk) (node_store dm5)" and tk: "t_TaskID tk = taskID (li_OrderID ids) 3"
    "t_Consumer tk = c" "t_Provider tk = p" "t_Status tk = ''TASK_CREATED''" "t_RetryCount tk = 0" "t_MaxRetries tk = 1"
    using task_step [OF E a4(1) k(2) n4(2) ids(1) len s5] by blast
  note a5 = after_step [OF d5 s5]
  have "completes E sign uni clock ids dm [s1, s2, s3, s4, s5] dm5"
    by (rule five_steps) (use d1 d2 d3 d4 d5 s1 s2 s3 s4 s5 in \<open>simp_all add: is_step_def\<close>)
  moreover have "underway ids p c (node_store dm5)"
    using k5 k4 tk ids(2) e e3 o2 by (auto simp: underway_def kept_def escrows.load_save tasks.load_save)
  ultimately show ?thesis using a5 n4 pc by (intro exI [of _ dm5]) simp
qed

lemma story_closes:
  assumes E: "permutes_modules E" and ok: "node_ok_at uni dm" and k: "signs E sign provider" "signs E sign consumer"
    and n: "GetNonce (node_store dm) p = 1" "GetNonce (node_store dm) c = 4" and pc: "p = kp_PubKey provider" "c = kp_PubKey consumer" "p \<noteq> c"
    and ids: "ids_ok ids" "li_DisputeID ids = disputeID (li_OrderID ids) (li_TaskID ids) 5" and u: "underway ids p c (node_store dm)"
    and s1: "is_step 6 ''aap'' ''submit_result'' provider 1 (result_payload ids) s1" and s2: "is_step 7 ''aap'' ''verify_result'' consumer 4 (verify_payload ids c) s2"
    and s3: "is_step 8 ''arb'' ''file_dispute'' consumer 5 (dispute_payload ids p) s3"
    and s4: "is_step 9 ''arb'' ''auto_resolve'' consumer 6 (go_map [(''dispute_id'', GStr (li_DisputeID ids))]) s4"
    and s5: "is_step 10 ''fiat'' ''refund_escrow'' consumer 7 (escrow_ref ids) s5"
  shows "\<exists>dm'. completes E sign uni clock ids dm [s1, s2, s3, s4, s5] dm' \<and> settled_story ids p c (node_store dm')"
proof -
  have len: "length p = 32" "length c = 32" using k pc by (simp_all add: signs_def)
  obtain ord e tk where o0: "loadOrder (node_store dm) (o_OrderID ord) = Inr ord" "o_Consumer ord = c" "o_Status ord = ''ORDER_MATCHED''"
    and e: "loadEscrow (node_store dm) (li_EscrowID ids) = Inr e" "es_EscrowID e = li_EscrowID ids" "es_Consumer e = c" "es_Provider e = p"
      "es_TotalAmount e = \<lparr>Currency = ''CNY'', Amount = ''222.88000000''\<rparr>" "es_Status e = ''ESCROW_FUNDED''"
    and tk: "loadTask (node_store dm) (li_TaskID ids) = Inr tk" "t_TaskID tk = li_TaskID ids" "t_Consumer tk = c" "t_Provider tk = p"
      "t_RetryCount tk = 0" "t_MaxRetries tk = 1" using u unfolding underway_def by blast
  have prov: "t_Provider tk = kp_PubKey provider" using tk(4) pc by simp
  let ?t1 = "tk\<lparr>t_ResultHash := ''poster-hash-v1'', t_ResultIPFS := ''ipfs://demo/poster-v1'', t_Status := ''TASK_SUBMIT_RESULT''\<rparr>"
  let ?t2 = "?t1\<lparr>t_RetryCount := 1, t_Status := ''TASK_DISPUTED''\<rparr>"
  obtain dm1 where d1: "step_done E sign uni (clock 6) s1 dm dm1" and k1: "kept (saveTask (node_store dm) ?t1) (node_store dm1)"
    using result_step [OF E ok k(1) _ ids(1) tk(1) prov s1, of "clock 6"] n(1) pc by blast
  note a1 = after_step [OF d1 s1]
  have n1: "GetNonce (node_store dm1) (kp_PubKey consumer) = 4" using a1(2) n pc by simp
  have t1: "loadTask (node_store dm1) (li_TaskID ids) = Inr ?t1" using k1 tk(2) by (simp add: kept_def tasks.load_save)
  obtain dm2 where d2: "step_done E sign uni (clock 7) s2 dm1 dm2" and k2: "kept (saveTask (node_store dm1) ?t2) (node_store dm2)"
    using verify_step [OF E a1(1) k(2) n1 ids(1) len(2) t1 _ _ _ s2, of "clock 7"] tk(5,6) by auto
  note a2 = after_step [OF d2 s2]
  have n2: "GetNonce (node_store dm2) (kp_PubKey consumer) = 5" using a2(2) n1 by simp
  obtain dm3 x where d3: "step_done E sign uni (clock 8) s3 dm2 dm3" and k3: "kept (saveDispute (node_store dm2) x) (node_store dm3)"
    and x: "dp_DisputeID x = li_DisputeID ids" "dp_Plaintiff x = c" "dp_Defendant x = p" "dp_ReasonCode x = ''quality''" "dp_Status x = ''DISPUTE_FILED''"
    using dispute_step [OF E a2(1) k(2) n2 ids(1) len(1) s3, of "clock 8"] ids(2) pc by auto
  note a3 = after_step [OF d3 s3]
  have n3: "GetNonce (node_store dm3) (kp_PubKey consumer) = 6" using a3(2) n2 by simp
  have x3: "loadDispute (node_store dm3) (li_DisputeID ids) = Inr x" using k3 x(1) by (simp add: kept_def disputes.load_save)
  obtain dm4 v where d4: "step_done E sign uni (clock 9) s4 dm3 dm4" and v: "v_Winner v = ''consumer''"
    and k4: "kept (saveDispute (node_store dm3) (x\<lparr>dp_Verdict := v, dp_Status := ''DISPUTE_AUTO_RESOLVED''\<rparr>)) (node_store dm4)"
    using resolve_step [OF E a3(1) k(2) n3 ids(1) x3 x(4,5) s4, of "clock 9"] by blast
  note a4 = after_step [OF d4 s4]
  have n4: "GetNonce (node_store dm4) (kp_PubKey consumer) = 7" using a4(2) n3 by simp
  have e4: "loadEscrow (node_store dm4) (li_EscrowID ids) = Inr e" "loadTask (node_store dm4) (li_TaskID ids) = Inr ?t2" "loadOrder (node_store dm4) (o_OrderID ord) = Inr ord"
    using k4 k3 k2 k1 e(1) o0(1) tk(2) by (simp_all add: kept_def tasks.load_save)
  obtain dm5 where d5: "step_done E sign uni (clock 10) s5 dm4 dm5" and k5: "kept (saveEscrow (node_store dm4) (e\<lparr>es_Status := ''ESCROW_REFUNDED''\<rparr>)) (node_store dm5)"
    using refund_step [OF E a4(1) k(2) n4 ids(1) e4(1) e(6) s5, of "clock 10"] by blast
  have "completes E sign uni clock ids dm [s1, s2, s3, s4, s5] dm5"
    by (rule five_steps) (use d1 d2 d3 d4 d5 s1 s2 s3 s4 s5 in \<open>simp_all add: is_step_def\<close>)
  moreover have "settled_story ids p c (node_store dm5)"
    using k5 k4 x v e e4 o0 tk pc by (auto simp: settled_story_def kept_def escrows.load_save disputes.load_save)
  ultimately show ?thesis by blast
qed

text \<open>C16: The story runs through. On a node that has executed any blocks, with two generated keys whose owners have sent nothing yet,
  and if the request is executed within two hours, the ten steps of the story all succeed, each in a block of its own, and at
  the end the order is matched, the escrow of 199 and 12 percent is refunded to the consumer, the rejected task is disputed, and the dispute
  is resolved for the consumer.\<close>

theorem story_demo:
  assumes E: "permutes_modules E" and sv: "serves E uni dm n"
    and keys: "GenerateKeyPair (keys 0) = Inr provider" "GenerateKeyPair (keys 1) = Inr consumer"
    and k: "signs E sign provider" "signs E sign consumer" "kp_PubKey provider \<noteq> kp_PubKey consumer"
    and nonce: "GetNonce (node_store dm) (kp_PubKey provider) = 0" "GetNonce (node_store dm) (kp_PubKey consumer) = 0"
    and time: "Unix (clock 2) \<le> Unix (clock 0 + 7200 * 1000000000)"
  shows "\<exists>dm' resp. api_demo_story E sign keys clock dm ''POST'' = (dm', WriteJSON resp)
    \<and> map lp_No (ly_Steps resp) = [1..<11] \<and> (\<forall>s \<in> set (ly_Steps resp). lp_Success s) \<and> ly_Summary resp = story_summary True
    \<and> ly_IDs resp = story_ids provider consumer \<and> serves E uni dm' (n + 10)
    \<and> settled_story (ly_IDs resp) (kp_PubKey provider) (kp_PubKey consumer) (node_store dm')"
proof -
  let ?ids = "story_ids provider consumer" and ?t = "Unix (clock 0 + 7200 * 1000000000)" and ?p = "kp_PubKey provider" and ?c = "kp_PubKey consumer"
  obtain s1 s2 s3 s4 s5 s6 s7 s8 s9 s10 where script: "story_script provider consumer ?t = [s1, s2, s3, s4, s5] @ [s6, s7, s8, s9, s10]"
    and s: "is_step 1 ''amx'' ''create_listing'' provider 0 listing_payload s1" "is_step 2 ''amx'' ''submit_request'' consumer 0 (request_payload ?t) s2"
      "is_step 3 ''fiat'' ''create_escrow'' consumer 1 (escrow_payload ?ids ?p ?c) s3" "is_step 4 ''fiat'' ''fund_escrow'' consumer 2 (escrow_ref ?ids) s4"
      "is_step 5 ''aap'' ''create_task'' consumer 3 (task_payload ?ids ?p ?c) s5"
    and s': "is_step 6 ''aap'' ''submit_result'' provider 1 (result_payload ?ids) s6" "is_step 7 ''aap'' ''verify_result'' consumer 4 (verify_payload ?ids ?c) s7"
      "is_step 8 ''arb'' ''file_dispute'' consumer 5 (dispute_payload ?ids ?p) s8"
      "is_step 9 ''arb'' ''auto_resolve'' consumer 6 (go_map [(''dispute_id'', GStr (li_DisputeID ?ids))]) s9"
      "is_step 10 ''fiat'' ''refund_escrow'' consumer 7 (escrow_ref ?ids) s10"
    by (simp add: story_script_def Let_def is_step_def)
  have ids: "li_TaskID ?ids = taskID (li_OrderID ?ids) 3" "li_DisputeID ?ids = disputeID (li_OrderID ?ids) (li_TaskID ?ids) 5"
    by (simp_all add: story_ids_def Let_def predicted_ids)
  obtain dm1 where d1: "completes E sign uni clock ?ids dm [s1, s2, s3, s4, s5] dm1" "node_ok_at uni dm1" "GetNonce (node_store dm1) ?p = 1" "GetNonce (node_store dm1) ?c = 4"
    "underway ?ids ?p ?c (node_store dm1)"
    using story_opens [where clock = clock, OF E serves_ok [OF sv E] k(1,2) nonce refl refl k(3) story_ids_ok ids(1) _ time s] by (auto simp: Unix_def)
  obtain dm2 where d2: "completes E sign uni clock ?ids dm1 [s6, s7, s8, s9, s10] dm2" "settled_story ?ids ?p ?c (node_store dm2)"
    using story_closes [where clock = clock, OF E d1(2) k(1,2) d1(3,4) refl refl k(3) story_ids_ok ids(2) d1(5) s'] by blast
  obtain recs where r: "run_story E sign clock ?ids dm (story_script provider consumer ?t) = (dm2, Some (recs, True))"
    "map lp_No recs = map sp_No (story_script provider consumer ?t)" "list_all lp_Success recs" "serves E uni dm2 (n + length (story_script provider consumer ?t))"
    using completes_append [OF d1(1) d2(1)] sv unfolding script completes_def by blast
  have no: "map sp_No (story_script provider consumer ?t) = [1..<11]" using s s' unfolding script is_step_def by (simp add: upt_rec)
  then have "length (story_script provider consumer ?t) = 10" by (metis length_map length_upt diff_Suc_1 eval_nat_numeral(3) numeral_code(2))
  then show ?thesis using r no d2(2) unfolding api_demo_story_def
    by (simp add: keys Let_def list_all_iff del: One_nat_def)
qed

theorem story_demo_witness:
  "\<exists>dm' resp. api_demo_story demo_env demo_sign demo_keys (\<lambda>j. int j) demo_node ''POST'' = (dm', WriteJSON resp)
    \<and> length (ly_Steps resp) = 10 \<and> (\<forall>s \<in> set (ly_Steps resp). lp_Success s) \<and> serves demo_env (\<lambda>b. b) dm' 10
    \<and> settled_story (ly_IDs resp) (replicate 32 (CHR ''A'')) (replicate 32 (CHR ''B'')) (node_store dm')"
proof -
  note f = demo_key_facts
  have t: "Unix (int 2) \<le> Unix (int 0 + 7200 * 1000000000)" by code_simp
  obtain dm' resp where r: "api_demo_story demo_env demo_sign demo_keys (\<lambda>j. int j) demo_node ''POST'' = (dm', WriteJSON resp)"
    "map lp_No (ly_Steps resp) = [1..<11]" "\<forall>s \<in> set (ly_Steps resp). lp_Success s" "serves demo_env (\<lambda>b. b) dm' (0 + 10)"
    "settled_story (ly_IDs resp) (kp_PubKey (demo_key 0)) (kp_PubKey (demo_key 1)) (node_store dm')"
    using story_demo [where clock = "\<lambda>j. int j", OF demo_permutes(1) serves.start [OF demo_node_new] f(1) f(1) f(2) f(2) demo_key_letters(3) f(4) f(4) t] by blast
  have "length (map lp_No (ly_Steps resp)) = length [1..<11 :: nat]" unfolding r(2) ..
  then have "length (ly_Steps resp) = 10" by simp
  then show ?thesis using r unfolding demo_key_letters(1,2) by auto
qed

end
