(* ===== verification/P2p.thy ===== *)
theory P2p
  imports Abci
begin

text \<open>
  \<open>internal/p2p\<close>: the messages between nodes, what is signed of them and how they are checked, and the limits per protocol.
  The check of a message reads the clock, which is an argument, and calls \<open>crypto.VerifySignature\<close>.
\<close>

section \<open>message.go\<close>

record Message =
  mg_Protocol :: bytes
  mg_MsgType :: bytes
  mg_Sender :: bytes
  mg_Seq :: uint64
  mg_Timestamp :: int64
  mg_Payload :: bytes
  mg_Signature :: bytes

text \<open>The text \<open>SignBytes\<close> hashes.\<close>

definition preimage :: "Message \<Rightarrow> bytes" where
  "preimage m = mg_Protocol m @ ''|'' @ mg_MsgType m @ ''|'' @ hex_EncodeToString (mg_Sender m) @ ''|'' @ utoa 10 (unat (mg_Seq m))
     @ ''|'' @ itoa 10 (mg_Timestamp m) @ ''|'' @ hex_EncodeToString (mg_Payload m)"

definition msg_SignBytes :: "Message \<Rightarrow> bytes" where
  "msg_SignBytes m = Sum256 (preimage m)"

definition msg_ID :: "Message \<Rightarrow> bytes" where
  "msg_ID m = hex_EncodeToString (take 8 (Sum256 (mg_Sender m @ [char_of (unat (mg_Seq m) mod 256)])))"

definition msg_Verify :: "Env \<Rightarrow> int64 \<Rightarrow> Message \<Rightarrow> goerr option" where
  "msg_Verify E clock m =
     (if mg_Timestamp m < wrap64 (clock - 30) \<or> wrap64 (clock + 30) < mg_Timestamp m then Some (PlainError ''timestamp tolerance exceeded'')
      else if length (mg_Sender m) \<noteq> 32 then Some (PlainError ''sender pubkey must be %d bytes'')
      else if length (mg_Signature m) \<noteq> 64 then Some (PlainError ''signature must be %d bytes'')
      else if \<not> VerifySignature E (mg_Sender m) (msg_SignBytes m) (mg_Signature m) then Some (PlainError ''bad signature'')
      else None)"

section \<open>ratelimit.go\<close>

record PeerLimit =
  BytesPerSec :: int64
  MsgPerSec :: int64

record RateLimiter =
  MaxBytesPerSec :: int64
  MaxMsgPerSec :: int64
  PerProtocol :: "(bytes \<times> PeerLimit) list"

definition DefaultLimits :: "(bytes \<times> PeerLimit) list" where
  "DefaultLimits =
     [(''/aacp/consensus/1.0.0'', \<lparr>BytesPerSec = 5 * 1024 * 1024, MsgPerSec = 100\<rparr>),
      (''/aacp/mempool/1.0.0'', \<lparr>BytesPerSec = 2 * 1024 * 1024, MsgPerSec = 500\<rparr>),
      (''/aacp/relay/1.0.0'', \<lparr>BytesPerSec = 10 * 1024 * 1024, MsgPerSec = 1000\<rparr>),
      (''/aacp/heartbeat/1.0.0'', \<lparr>BytesPerSec = 100 * 1024, MsgPerSec = 50\<rparr>),
      (''/aacp/sync/1.0.0'', \<lparr>BytesPerSec = 50 * 1024 * 1024, MsgPerSec = 50\<rparr>),
      (''/aacp/discovery/1.0.0'', \<lparr>BytesPerSec = 100 * 1024, MsgPerSec = 10\<rparr>)]"

definition NewRateLimiter :: RateLimiter where
  "NewRateLimiter = \<lparr>MaxBytesPerSec = 50 * 1024 * 1024, MaxMsgPerSec = 2000,
     PerProtocol = fold (\<lambda>(k, v). AList.update k v) DefaultLimits []\<rparr>"

definition LimitFor :: "RateLimiter \<Rightarrow> bytes \<Rightarrow> PeerLimit" where
  "LimitFor r protocol = (case map_of (PerProtocol r) protocol of Some v \<Rightarrow> v
     | None \<Rightarrow> \<lparr>BytesPerSec = 128 * 1024, MsgPerSec = 20\<rparr>)"

section \<open>What is signed\<close>

text \<open>The digits of two numbers differ.\<close>

lemma utoa_inj: "utoa 10 n = utoa 10 k \<Longrightarrow> n = k"
proof (induction n arbitrary: k rule: less_induct)
  case (less n)
  have short: "length (utoa 10 i) = 1 \<longleftrightarrow> i < 10" for i
    by (subst utoa.simps, cases "i < 10") (simp_all, subst utoa.simps, simp)
  show ?case
  proof (cases "n < 10")
    case True
    then have "k < 10" using short [of n] short [of k] less.prems by simp
    then show ?thesis using True less.prems by (simp add: utoa.simps [of _ n] utoa.simps [of _ k] digit_char_inject)
  next
    case False
    then have "\<not> k < 10" using short [of n] short [of k] less.prems by auto
    with False less.prems have "utoa 10 (n div 10) = utoa 10 (k div 10)" "digit_char (n mod 10) = digit_char (k mod 10)"
      by (simp_all add: utoa.simps [of _ n] utoa.simps [of _ k])
    moreover have "n mod 10 < 36" "k mod 10 < 36" by (simp_all add: less_le_trans [OF mod_less_divisor])
    ultimately have "n div 10 = k div 10" "n mod 10 = k mod 10" using less.IH [of "n div 10" "k div 10"] False
      by (simp_all add: digit_char_inject)
    then show ?thesis by (metis div_mult_mod_eq)
  qed
qed

lemma digit_char_not: "d < 36 \<Longrightarrow> digit_char d \<noteq> CHR ''|'' \<and> digit_char d \<noteq> CHR ''-''"
proof -
  assume d: "d < 36"
  have "of_char (digit_char d) \<noteq> (of_char (CHR ''|'') :: nat)" "of_char (digit_char d) \<noteq> (of_char (CHR ''-'') :: nat)"
    using d by (simp_all add: of_char_digit_char)
  then show ?thesis by metis
qed

lemma utoa_chars_gen: "(\<And>d. d < 10 \<Longrightarrow> digit_char d \<noteq> c) \<Longrightarrow> c \<notin> set (utoa 10 n)"
proof (induction n rule: less_induct)
  case (less n)
  show ?case
  proof (cases "n < 10")
    case True
    then show ?thesis using less.prems [OF True] by (simp add: utoa.simps [of _ n])
  next
    case False
    then have "c \<notin> set (utoa 10 (n div 10))" by (intro less.IH less.prems) simp_all
    with False less.prems [of "n mod 10"] show ?thesis by (simp add: utoa.simps [of _ n])
  qed
qed

lemma utoa_chars: "CHR ''|'' \<notin> set (utoa 10 n)" "CHR ''-'' \<notin> set (utoa 10 n)"
  by (rule utoa_chars_gen, use digit_char_not in simp)+

lemma itoa_inj: "itoa 10 i = itoa 10 j \<Longrightarrow> i = j"
proof (cases "i < 0"; cases "j < 0")
  assume e: "itoa 10 i = itoa 10 j"
  show "i < 0 \<Longrightarrow> j < 0 \<Longrightarrow> i = j" "\<not> i < 0 \<Longrightarrow> \<not> j < 0 \<Longrightarrow> i = j" using e utoa_inj by (force simp: itoa_def)+
  show "i < 0 \<Longrightarrow> \<not> j < 0 \<Longrightarrow> i = j" using e utoa_chars(2) [of "nat j"] by (simp add: itoa_def) (metis list.set_intros(1))
  show "\<not> i < 0 \<Longrightarrow> j < 0 \<Longrightarrow> i = j" using e utoa_chars(2) [of "nat i"] by (simp add: itoa_def)
qed

lemma itoa_bar: "CHR ''|'' \<notin> set (itoa 10 i)"
  by (simp add: itoa_def utoa_chars)

lemma hex_bar: "CHR ''|'' \<notin> set (hex_EncodeToString bs)"
proof (induction bs)
  case (Cons c cs)
  have "(of_char c :: nat) div 16 < 36" "(of_char c :: nat) mod 16 < 36" by (rule less_trans [of _ 16], simp_all)+
  then show ?case using Cons digit_char_not by (fastforce simp: hex_Cons hex_of_byte_def)
qed (simp add: hex_EncodeToString_def)

lemma split_bar: "CHR ''|'' \<notin> set a \<Longrightarrow> CHR ''|'' \<notin> set b \<Longrightarrow> a @ CHR ''|'' # r = b @ CHR ''|'' # s \<longleftrightarrow> a = b \<and> r = s"
  by (induction a arbitrary: b) (case_tac b; auto)+

text \<open>Two messages whose protocol and type have no bar in them are signed alike only when they agree in all fields but the
  signature.\<close>

theorem preimage_exact:
  assumes "CHR ''|'' \<notin> set (mg_Protocol m)" "CHR ''|'' \<notin> set (mg_MsgType m)" "CHR ''|'' \<notin> set (mg_Protocol m')" "CHR ''|'' \<notin> set (mg_MsgType m')"
  shows "preimage m = preimage m' \<longleftrightarrow> m' = m\<lparr>mg_Signature := mg_Signature m'\<rparr>"
proof
  assume "preimage m = preimage m'"
  then have "mg_Protocol m = mg_Protocol m'" "mg_MsgType m = mg_MsgType m'" "mg_Sender m = mg_Sender m'" "utoa 10 (unat (mg_Seq m)) = utoa 10 (unat (mg_Seq m'))"
    "itoa 10 (mg_Timestamp m) = itoa 10 (mg_Timestamp m')" "mg_Payload m = mg_Payload m'"
    using assms by (simp_all add: preimage_def split_bar hex_bar utoa_chars itoa_bar)
  then show "m' = m\<lparr>mg_Signature := mg_Signature m'\<rparr>" by (intro Message.equality) (auto dest: utoa_inj itoa_inj simp: word_unat_eq_iff)
next
  assume "m' = m\<lparr>mg_Signature := mg_Signature m'\<rparr>"
  moreover have "preimage (m\<lparr>mg_Signature := s\<rparr>) = preimage m" for s by (simp add: preimage_def)
  ultimately show "preimage m = preimage m'" by metis
qed

text \<open>With a bar they can differ and be signed alike; and the identifier of a message has only the last byte of its sequence
  number.\<close>

theorem preimage_ambiguous: "\<exists>m m'. mg_Protocol m \<noteq> mg_Protocol m' \<and> msg_SignBytes m = msg_SignBytes m'"
proof -
  let ?m = "\<lambda>p t. \<lparr>mg_Protocol = p, mg_MsgType = t, mg_Sender = [], mg_Seq = 0, mg_Timestamp = 0, mg_Payload = [], mg_Signature = []\<rparr>"
  have "preimage (?m ''a'' ''b|c'') = preimage (?m ''a|b'' ''c'')" by (simp add: preimage_def)
  then show ?thesis by (intro exI [of _ "?m ''a'' ''b|c''"] exI [of _ "?m ''a|b'' ''c''"]) (simp add: msg_SignBytes_def)
qed

theorem message_id_repeats: "msg_ID (m\<lparr>mg_Seq := 256\<rparr>) = msg_ID (m\<lparr>mg_Seq := 0\<rparr>)"
  by (simp add: msg_ID_def)

text \<open>A message is accepted exactly when it is at most thirty seconds off, has the sizes of keys and signatures, and is signed
  by its sender.\<close>

theorem msg_Verify_iff:
  assumes "in_int64 (clock - 30)" "in_int64 (clock + 30)"
  shows "msg_Verify E clock m = None \<longleftrightarrow> \<bar>mg_Timestamp m - clock\<bar> \<le> 30 \<and> length (mg_Sender m) = 32 \<and> length (mg_Signature m) = 64
    \<and> VerifySignature E (mg_Sender m) (msg_SignBytes m) (mg_Signature m)"
  using assms by (auto simp: msg_Verify_def)

text \<open>Every protocol has a limit, the six known ones their own.\<close>

theorem LimitFor_new:
  "LimitFor NewRateLimiter p = (case map_of DefaultLimits p of Some v \<Rightarrow> v | None \<Rightarrow> \<lparr>BytesPerSec = 128 * 1024, MsgPerSec = 20\<rparr>)
   \<and> 0 < BytesPerSec (LimitFor NewRateLimiter p) \<and> BytesPerSec (LimitFor NewRateLimiter p) \<le> MaxBytesPerSec NewRateLimiter
   \<and> 0 < MsgPerSec (LimitFor NewRateLimiter p) \<and> MsgPerSec (LimitFor NewRateLimiter p) \<le> MaxMsgPerSec NewRateLimiter"
  by (simp add: LimitFor_def NewRateLimiter_def DefaultLimits_def)

end
