(* ===== verification/Iavl.thy ===== *)
theory Iavl
  imports Table
begin

text \<open>
  \<open>internal/state/iavl_engine.go\<close>, the engine of the store under the build tag \<open>iavl\<close>. The tree itself is a package of its
  own: its operations are an argument, the record \<open>iavl_ops\<close>, and what the engine relies on is the predicate
  \<open>iavl_laws\<close>. The engine's own work is the iteration over a prefix, as an interval of keys.
\<close>

section \<open>The engine\<close>

text \<open>The tree's operations; \<open>None\<close> is an error. The upper end of an iteration may be \<open>nil\<close>.\<close>

record 't iavl_ops =
  tree_Get :: "'t \<Rightarrow> bytes \<Rightarrow> bytes option option"
  tree_Set :: "'t \<Rightarrow> bytes \<Rightarrow> bytes \<Rightarrow> 't option"
  tree_Remove :: "'t \<Rightarrow> bytes \<Rightarrow> 't option"
  tree_Iterator :: "'t \<Rightarrow> bytes \<Rightarrow> bytes option \<Rightarrow> (bytes \<times> bytes) list option"
  tree_SaveVersion :: "'t \<Rightarrow> (bytes \<times> int64 \<times> 't) option"

record 't iavlEngine =
  tree :: 't
  iavl_version :: uint64

definition iavl_Get :: "'t iavl_ops \<Rightarrow> 't iavlEngine \<Rightarrow> bytes \<Rightarrow> bytes option" where
  "iavl_Get ops e key = (case tree_Get ops (tree e) key of None \<Rightarrow> None | Some v \<Rightarrow> v)"

definition iavl_Set :: "'t iavl_ops \<Rightarrow> 't iavlEngine \<Rightarrow> bytes \<Rightarrow> bytes \<Rightarrow> 't iavlEngine outcome" where
  "iavl_Set ops e key v = (case tree_Set ops (tree e) key v of None \<Rightarrow> Panic | Some t \<Rightarrow> Ret (e\<lparr>tree := t\<rparr>))"

definition iavl_Delete :: "'t iavl_ops \<Rightarrow> 't iavlEngine \<Rightarrow> bytes \<Rightarrow> 't iavlEngine outcome" where
  "iavl_Delete ops e key = (case tree_Remove ops (tree e) key of None \<Rightarrow> Panic | Some t \<Rightarrow> Ret (e\<lparr>tree := t\<rparr>))"

text \<open>\<open>prefixRangeEnd\<close> counts up the last byte below 255 and cuts what follows; the loop runs from the end.\<close>

fun range_end_loop :: "bytes \<Rightarrow> bytes option" where
  "range_end_loop [] = None"
| "range_end_loop (c # cs) = (if of_char c < (255 :: nat) then Some (rev (char_of (of_char c + 1 :: nat) # cs)) else range_end_loop cs)"

definition prefixRangeEnd :: "bytes \<Rightarrow> bytes option" where
  "prefixRangeEnd p = (if p = [] then None else range_end_loop (rev p))"

definition iavl_IteratePrefix :: "'t iavl_ops \<Rightarrow> 't iavlEngine \<Rightarrow> bytes \<Rightarrow> (bytes \<times> bytes) list outcome" where
  "iavl_IteratePrefix ops e p = (case tree_Iterator ops (tree e) p (prefixRangeEnd p) of None \<Rightarrow> Panic
     | Some kvs \<Rightarrow> Ret (takeWhile (\<lambda>kv. prefix p (fst kv)) kvs))"

definition iavl_Commit :: "'t iavl_ops \<Rightarrow> 't iavlEngine \<Rightarrow> (bytes \<times> uint64 \<times> 't iavlEngine) outcome" where
  "iavl_Commit ops e = (case tree_SaveVersion ops (tree e) of None \<Rightarrow> Panic
     | Some (h, v, t) \<Rightarrow> Ret (h, of_int v, \<lparr>tree = t, iavl_version = of_int v\<rparr>))"

definition iavl_Version :: "'t iavlEngine \<Rightarrow> uint64" where
  "iavl_Version e = iavl_version e"

section \<open>Prefixes as intervals\<close>

lemma append_le_iff: "xs @ ys \<le> xs @ zs \<longleftrightarrow> ys \<le> (zs :: bytes)"
  by (induction xs) simp_all

lemma append_less_iff: "xs @ ys < xs @ zs \<longleftrightarrow> ys < (zs :: bytes)"
  by (induction xs) simp_all

lemma prefix_le: "prefix p k \<Longrightarrow> p \<le> (k :: bytes)"
  using append_le_iff [of p "[]"] by (auto simp: prefix_def)

lemma prefix_snoc_between:
  assumes "of_char c < (255 :: nat)"
  shows "prefix (p @ [c]) k \<longleftrightarrow> p @ [c] \<le> k \<and> k < p @ [char_of (of_char c + 1 :: nat)]"
proof (induction p arbitrary: k)
  case Nil
  have next_char: "of_char (char_of (of_char c + 1 :: nat)) = (of_char c + 1 :: nat)" using assms by simp
  have "c \<le> d \<and> d < char_of (of_char c + 1 :: nat) \<longleftrightarrow> d = c" for d
  proof -
    have "of_char c \<le> (of_char d :: nat) \<and> of_char d < of_char c + (1 :: nat) \<longleftrightarrow> of_char d = (of_char c :: nat)" by linarith
    then show ?thesis unfolding less_eq_char_def less_char_def next_char by simp
  qed
  moreover have "[c] \<le> d # t \<longleftrightarrow> c \<le> d" for d t by (cases t) (auto simp: le_less)
  moreover have "d # t < [e] \<longleftrightarrow> d < e" for d e :: char and t by simp
  ultimately show ?case by (cases k) (simp, metis append_Nil Cons_prefix_Cons Nil_prefix)
next
  case (Cons a p)
  show ?case
  proof (cases k)
    case (Cons b t)
    have "prefix ((a # p) @ [c]) (b # t) \<longleftrightarrow> a = b \<and> p @ [c] \<le> t \<and> t < p @ [char_of (of_char c + 1 :: nat)]"
      using Cons.IH [of t] by simp
    moreover have "(a # p) @ [c] \<le> b # t \<longleftrightarrow> a < b \<or> a = b \<and> p @ [c] \<le> t" by simp
    moreover have "b # t < (a # p) @ [e] \<longleftrightarrow> b < a \<or> b = a \<and> t < p @ [e]" for e by simp
    ultimately show ?thesis unfolding Cons by (metis order.asym)
  qed simp
qed

lemma range_end_loop_exact:
  "prefix (rev r) k \<longleftrightarrow> rev r \<le> k \<and> (case range_end_loop r of None \<Rightarrow> True | Some e \<Rightarrow> k < e)"
proof (induction r)
  case (Cons c cs)
  show ?case
  proof (cases "of_char c < (255 :: nat)")
    case True
    then show ?thesis using prefix_snoc_between [of c "rev cs" k] by simp
  next
    case False
    have top: "d = c" if "c \<le> d" for d
    proof -
      have "of_char d < (256 :: nat)" by simp
      then have "of_char d = (of_char c :: nat)" using that False unfolding less_eq_char_def by linarith
      then show ?thesis by simp
    qed
    have "prefix (rev cs @ [c]) k \<longleftrightarrow> prefix (rev cs) k \<and> rev cs @ [c] \<le> k"
    proof
      assume l: "prefix (rev cs) k \<and> rev cs @ [c] \<le> k"
      then obtain t where t: "k = rev cs @ t" by (auto simp: prefix_def)
      with l have "[c] \<le> t" by (simp add: append_le_iff)
      then have "prefix [c] t" by (cases t) (auto dest: top order.strict_implies_order)
      with t show "prefix (rev cs @ [c]) k" by simp
    qed (auto dest: append_prefixD intro: prefix_le)
    moreover have "rev cs \<le> k" if "rev cs @ [c] \<le> k" using prefix_le [of "rev cs" "rev cs @ [c]"] that by simp
    ultimately show ?thesis using Cons.IH False by auto
  qed
qed simp

lemma prefixRangeEnd_exact:
  "p \<noteq> [] \<Longrightarrow> prefix p k \<longleftrightarrow> p \<le> k \<and> (case prefixRangeEnd p of None \<Rightarrow> True | Some e \<Rightarrow> k < e)"
  using range_end_loop_exact [of "rev p" k] by (simp add: prefixRangeEnd_def)

section \<open>The engine against the memory engine\<close>

text \<open>What is documented of the tree: it holds a map, given by its entries in ascending order of keys; \<open>Get\<close>, \<open>Set\<close> and
  \<open>Remove\<close> look up, add and delete an entry; \<open>Iterator\<close> visits the entries from its start to before its end.\<close>

definition iavl_laws :: "'t iavl_ops \<Rightarrow> ('t \<Rightarrow> (bytes \<times> bytes) list) \<Rightarrow> bool" where
  "iavl_laws ops entries \<longleftrightarrow> (\<forall>t. sorted (map fst (entries t)) \<and> distinct (map fst (entries t))
     \<and> (\<forall>k. tree_Get ops t k = Some (map_of (entries t) k))
     \<and> (\<forall>k v. \<exists>t'. tree_Set ops t k v = Some t' \<and> map_of (entries t') = (map_of (entries t))(k \<mapsto> v))
     \<and> (\<forall>k. \<exists>t'. tree_Remove ops t k = Some t' \<and> map_of (entries t') = (map_of (entries t))(k := None))
     \<and> (\<forall>a b. a \<noteq> [] \<longrightarrow> tree_Iterator ops t a b = Some (filter (\<lambda>kv. a \<le> fst kv \<and> (case b of None \<Rightarrow> True | Some e \<Rightarrow> fst kv < e)) (entries t))))"

text \<open>The two engines hold the same bytes.\<close>

definition same_bytes :: "(val \<Rightarrow> bytes) \<Rightarrow> ('t \<Rightarrow> (bytes \<times> bytes) list) \<Rightarrow> 't iavlEngine \<Rightarrow> memoryEngine \<Rightarrow> bool" where
  "same_bytes marshal entries e m \<longleftrightarrow> mem_inv m \<and> (\<forall>k. map_of (entries (tree e)) k = map_option (val_bytes marshal) (mem_Get m k))"

lemma iavl_iterate:
  assumes "iavl_laws ops entries" "p \<noteq> []"
  shows "iavl_IteratePrefix ops e p = Ret (filter (\<lambda>kv. prefix p (fst kv)) (entries (tree e)))"
proof -
  have "tree_Iterator ops (tree e) p (prefixRangeEnd p) = Some (filter (\<lambda>kv. prefix p (fst kv)) (entries (tree e)))"
    using assms by (simp add: iavl_laws_def prefixRangeEnd_exact)
  moreover have "takeWhile P (filter P xs) = filter P xs" for P and xs :: "(bytes \<times> bytes) list"
    by (simp add: takeWhile_eq_all_conv)
  ultimately show ?thesis by (simp add: iavl_IteratePrefix_def)
qed

text \<open>C29: for a tree that does what is documented, the engine on it behaves as the memory engine does: the same lookups, the same
  iterations over a prefix, in the same order, and after every write again the same bytes. No operation panics.\<close>

theorem iavl_refines_memory:
  assumes laws: "iavl_laws ops entries" and same: "same_bytes marshal entries e m"
  shows "iavl_Get ops e k = map_option (val_bytes marshal) (mem_Get m k)
    \<and> (\<exists>e'. iavl_Set ops e k (val_bytes marshal v) = Ret e' \<and> same_bytes marshal entries e' (mem_Set m k v))
    \<and> (\<exists>e'. iavl_Delete ops e k = Ret e' \<and> same_bytes marshal entries e' (mem_Delete m k))
    \<and> (p \<noteq> [] \<longrightarrow> iavl_IteratePrefix ops e p = Ret (map (\<lambda>(k, v). (k, val_bytes marshal v)) (mem_IteratePrefix m p)))"
proof (intro conjI impI)
  have inv: "mem_inv m" using same by (simp add: same_bytes_def)
  have get: "map_of (entries (tree e)) k = map_option (val_bytes marshal) (mem_Get m k)" for k using same by (simp add: same_bytes_def)
  show "iavl_Get ops e k = map_option (val_bytes marshal) (mem_Get m k)"
    using laws by (simp add: iavl_laws_def iavl_Get_def get)
  obtain t where "tree_Set ops (tree e) k (val_bytes marshal v) = Some t"
    "map_of (entries t) = (map_of (entries (tree e)))(k \<mapsto> val_bytes marshal v)" using laws by (force simp: iavl_laws_def)
  then show "\<exists>e'. iavl_Set ops e k (val_bytes marshal v) = Ret e' \<and> same_bytes marshal entries e' (mem_Set m k v)"
    by (simp add: iavl_Set_def same_bytes_def get mem.get_put mem.inv_put inv)
  obtain t where "tree_Remove ops (tree e) k = Some t" "map_of (entries t) = (map_of (entries (tree e)))(k := None)"
    using laws by (force simp: iavl_laws_def)
  then show "\<exists>e'. iavl_Delete ops e k = Ret e' \<and> same_bytes marshal entries e' (mem_Delete m k)"
    by (simp add: iavl_Delete_def same_bytes_def get mem.get_del mem.inv_del inv)
  assume p: "p \<noteq> []"
  let ?xs = "filter (\<lambda>kv. prefix p (fst kv)) (entries (tree e))" and ?ys = "map (\<lambda>(k, v). (k, val_bytes marshal v)) (mem_IteratePrefix m p)"
  have d: "sorted (map fst (entries (tree e)))" "distinct (map fst (entries (tree e)))" using laws by (simp_all add: iavl_laws_def)
  then have xs: "sorted (map fst ?xs)" "distinct (map fst ?xs)" by (simp_all add: sorted_filter distinct_map_filter)
  have fst_ys: "map fst ?ys = map fst (mem_IteratePrefix m p)" by (simp add: comp_def case_prod_beta)
  have ys: "sorted (map fst ?ys)" "distinct (map fst ?ys)" unfolding fst_ys using mem.iter_sorted mem.iter_distinct inv by auto
  have "(k, b) \<in> set ?xs \<longleftrightarrow> (k, b) \<in> set ?ys" for k b
  proof -
    have "(k, b) \<in> set (entries (tree e)) \<longleftrightarrow> (\<exists>v. mem_Get m k = Some v \<and> b = val_bytes marshal v)"
      using map_of_eq_Some_iff [OF d(2), of k b] get [of k] by auto
    then have "(k, b) \<in> set ?xs \<longleftrightarrow> (\<exists>v. (k, v) \<in> set (mem_IteratePrefix m p) \<and> b = val_bytes marshal v)"
      using mem.iter_mem [OF inv] by auto
    moreover have "(k, b) \<in> set ?ys \<longleftrightarrow> (\<exists>v. (k, v) \<in> set (mem_IteratePrefix m p) \<and> b = val_bytes marshal v)" by force
    ultimately show ?thesis by simp
  qed
  then have st: "set ?xs = set ?ys" by (intro set_eqI) (metis surj_pair)
  have "inj_on fst (set ?xs)" using xs(2) unfolding distinct_map by blast
  then have "inj_on fst (set ?xs \<union> set ?ys)" unfolding st by simp
  then have "?xs = ?ys" using xs ys st by (rule map_sorted_distinct_set_unique)
  then show "iavl_IteratePrefix ops e p = Ret ?ys" using iavl_iterate [OF laws p] by simp
qed

text \<open>An association list does what is documented of the tree.\<close>

definition alist_entries :: "(bytes \<times> bytes) list \<Rightarrow> (bytes \<times> bytes) list" where
  "alist_entries t = sort_key fst (AList.clearjunk t)"

definition alist_ops :: "(bytes \<times> bytes) list iavl_ops" where
  "alist_ops = \<lparr>tree_Get = (\<lambda>t k. Some (map_of t k)), tree_Set = (\<lambda>t k v. Some (AList.update k v t)), tree_Remove = (\<lambda>t k. Some (AList.delete k t)),
     tree_Iterator = (\<lambda>t a b. Some (filter (\<lambda>kv. a \<le> fst kv \<and> (case b of None \<Rightarrow> True | Some e \<Rightarrow> fst kv < e)) (alist_entries t))),
     tree_SaveVersion = (\<lambda>t. Some ([], 1, t))\<rparr>"

lemma alist_keys: "sorted (map fst (alist_entries t))" "distinct (map fst (alist_entries t))"
proof -
  show "sorted (map fst (alist_entries t))" by (simp add: alist_entries_def)
  have "mset (map fst (alist_entries t)) = mset (map fst (AList.clearjunk t))" by (simp add: alist_entries_def)
  then show "distinct (map fst (alist_entries t))" by (metis mset_eq_imp_distinct_iff distinct_clearjunk)
qed

lemma alist_map: "map_of (alist_entries t) = map_of t"
proof (rule ext)
  fix k
  have "map_of (alist_entries t) k = Some v \<longleftrightarrow> map_of t k = Some v" for v
    using map_of_eq_Some_iff [OF alist_keys(2), of t k v] map_of_eq_Some_iff [OF distinct_clearjunk, of t k v]
    by (simp add: alist_entries_def map_of_clearjunk)
  then show "map_of (alist_entries t) k = map_of t k" by (metis option.exhaust)
qed

lemma alist_laws: "iavl_laws alist_ops alist_entries"
  unfolding iavl_laws_def
  by (intro allI conjI impI; simp add: alist_ops_def alist_map alist_keys update_conv' delete_conv')

theorem iavl_refines_memory_witness:
  "\<exists>e'. iavl_Set alist_ops \<lparr>tree = [], iavl_version = 0\<rparr> ''k'' (val_bytes (\<lambda>v. []) (VBytes ''v'')) = Ret e'
    \<and> same_bytes (\<lambda>v. []) alist_entries e' (mem_Set newMemoryEngine ''k'' (VBytes ''v''))
    \<and> iavl_IteratePrefix alist_ops \<lparr>tree = [], iavl_version = 0\<rparr> ''a'' = Ret []"
proof -
  have "same_bytes (\<lambda>v. []) alist_entries \<lparr>tree = [], iavl_version = 0\<rparr> newMemoryEngine"
    by (simp add: same_bytes_def alist_map newMemoryEngine_def mem_inv_def mem_Get_def)
  from iavl_refines_memory [OF alist_laws this, of "''k''" "VBytes ''v''" "''a''"] show ?thesis
    by (auto simp: newMemoryEngine_def mem_IteratePrefix_def)
qed

end
